(* ===== verification/Prelude.thy ===== *)
theory Prelude
  imports Main
begin

text \<open>
  Shared library of the development.

  \<^item> A database table: rows in primary-key order with a sequence for the next key.  A sequence never
    gives a key twice, so a key identifies one row for the whole life of the database.
  \<^item> The interface \<open>row_store\<close> of such a table, interpreted on the operations below.
  \<^item> The interfaces \<open>service_machine\<close> (commands that keep an invariant) and \<open>append_only\<close> (commands that
    only extend a log), which the components interpret on their own operations.
  \<^item> The exceptions of the program and the result type of its services.
\<close>

named_theorems table_simps "lookups and filters through table operations"
named_theorems wf_intros "preservation of well-formedness"

section \<open>Exceptions and results\<close>

text \<open>
  One constructor per exception class the services raise; the text of a message is not modelled.
  \<open>IntegrityError c\<close> is the database's refusal of the named constraint or trigger.
\<close>

datatype exn =
    PermissionDenied
  | DoesNotExist
  | ValidationError
  | ValueError
  | TypeError
  | AttributeError
  | ImproperlyConfigured
  | EvidenceConflict
  | RegistrationConflict
  | ReportClientRefConflict
  | RuntimeError
  | Http404
  | DataError
  | KeyError
  | DocumentUploadRejected
  | DocumentUploadQuarantined
  | DocumentStorageError
  | DocumentIntegrityError
  | BillError
  | BillVoidedError
  | BillReferenceError
  | BillActorError
  | AnnouncementConflict
  | ReviewNotPermitted
  | ReviewNotPossible
  | PhotoRejected
  | PhotoVersionMissing
  | PlateAlreadyRegistered
  | PlateFormatError
  | FaceQualityError string
  | FaceEmbedderUnavailable
  | GateAuthenticationFailed
  | GateCredentialRevoked
  | GateCredentialExpired
  | EmbeddingDecryptionError
  | DocumentScanUnavailable
  | DatabaseError
  | CommandError
  | Throttled
  | AuthenticationFailed
  | OccupancySelectionRequired
  | MultipleObjectsReturned
  | NotAuthenticated
  | OverflowError
  | ZeroDivisionError
  | StorageFailure string
  | IntegrityError string

type_synonym 'a result = "exn + 'a"

type_synonym time = int  \<comment> \<open>a timezone-aware datetime, in microseconds since 0001-01-01T00:00Z\<close>
type_synonym pk = nat

definition seconds :: "int \<Rightarrow> int" where
  "seconds n = n * 1000000"

definition days :: "int \<Rightarrow> int" where
  "days n = seconds (n * 86400)"

definition hours :: "int \<Rightarrow> int" where
  "hours n = seconds (n * 3600)"

definition minutes :: "int \<Rightarrow> int" where
  "minutes n = seconds (n * 60)"

lemma seconds_simps [simp]:
  "seconds a \<le> seconds b \<longleftrightarrow> a \<le> b" "seconds a < seconds b \<longleftrightarrow> a < b" "seconds 0 = 0"
  by (simp_all add: seconds_def)

section \<open>Tables\<close>

datatype 'r table = Table (next_pk: pk) (table_rows: "(pk \<times> 'r) list")

definition t_empty :: "'r table" where
  "t_empty = Table 1 []"

definition t_get :: "'r table \<Rightarrow> pk \<Rightarrow> 'r option" where
  "t_get t k = map_of (table_rows t) k"

definition t_insert :: "'r \<Rightarrow> 'r table \<Rightarrow> 'r table" where
  "t_insert r t = Table (Suc (next_pk t)) (table_rows t @ [(next_pk t, r)])"

definition t_update :: "pk \<Rightarrow> ('r \<Rightarrow> 'r) \<Rightarrow> 'r table \<Rightarrow> 'r table" where
  "t_update k f t = Table (next_pk t) (map (\<lambda>(i, r). (i, if i = k then f r else r)) (table_rows t))"

definition t_update_all :: "(pk \<Rightarrow> 'r \<Rightarrow> bool) \<Rightarrow> ('r \<Rightarrow> 'r) \<Rightarrow> 'r table \<Rightarrow> 'r table" where
  "t_update_all P f t =
     Table (next_pk t) (map (\<lambda>(i, r). (i, if P i r then f r else r)) (table_rows t))"

definition t_delete :: "(pk \<Rightarrow> 'r \<Rightarrow> bool) \<Rightarrow> 'r table \<Rightarrow> 'r table" where
  "t_delete P t = Table (next_pk t) (filter (\<lambda>(i, r). \<not> P i r) (table_rows t))"

definition t_filter :: "(pk \<Rightarrow> 'r \<Rightarrow> bool) \<Rightarrow> 'r table \<Rightarrow> (pk \<times> 'r) list" where
  "t_filter P t = filter (\<lambda>(i, r). P i r) (table_rows t)"

definition t_first :: "(pk \<Rightarrow> 'r \<Rightarrow> bool) \<Rightarrow> 'r table \<Rightarrow> (pk \<times> 'r) option" where
  "t_first P t = List.find (\<lambda>(i, r). P i r) (table_rows t)"

definition t_exists :: "(pk \<Rightarrow> 'r \<Rightarrow> bool) \<Rightarrow> 'r table \<Rightarrow> bool" where
  "t_exists P t = list_ex (\<lambda>(i, r). P i r) (table_rows t)"

definition t_ok :: "'r table \<Rightarrow> bool" where
  "t_ok t \<longleftrightarrow> sorted_wrt (<) (map fst (table_rows t)) \<and> list_all (\<lambda>(i, r). i < next_pk t) (table_rows t)"

lemma t_ok_empty [simp, wf_intros]: "t_ok t_empty"
  by (simp add: t_ok_def t_empty_def)

lemma t_ok_insert [simp, wf_intros]: "t_ok t \<Longrightarrow> t_ok (t_insert r t)"
  by (auto simp: t_ok_def t_insert_def sorted_wrt_append list_all_iff less_Suc_eq)

lemma map_fst_cond [simp]: "map (fst \<circ> (\<lambda>(i, r). (i, g i r))) xs = map fst xs"
  by (induction xs) auto

lemma t_ok_update_all [simp, wf_intros]: "t_ok t \<Longrightarrow> t_ok (t_update_all P f t)"
  by (auto simp: t_ok_def t_update_all_def list_all_iff)

lemma t_update_as_all: "t_update k f t = t_update_all (\<lambda>i r. i = k) f t"
  by (simp add: t_update_def t_update_all_def)

lemma t_ok_update [simp, wf_intros]: "t_ok t \<Longrightarrow> t_ok (t_update k f t)"
  by (simp add: t_update_as_all)

lemma t_ok_delete [simp, wf_intros]: "t_ok t \<Longrightarrow> t_ok (t_delete P t)"
proof -
  have "sorted_wrt (<) (map fst xs) \<Longrightarrow> sorted_wrt (<) (map fst (filter Q xs))" for xs :: "(pk \<times> 'a) list" and Q
    by (induction xs) auto
  then show "t_ok t \<Longrightarrow> t_ok (t_delete P t)"
    by (auto simp: t_ok_def t_delete_def list_all_iff)
qed

lemma next_pk_delete [simp]: "next_pk (t_delete P t) = next_pk t"
  by (simp add: t_delete_def)

lemma next_pk_insert [simp]: "next_pk (t_insert r t) = Suc (next_pk t)"
  by (simp add: t_insert_def)

lemma next_pk_update [simp]: "next_pk (t_update k f t) = next_pk t"
  by (simp add: t_update_def)

lemma next_pk_update_all [simp]: "next_pk (t_update_all P f t) = next_pk t"
  by (simp add: t_update_all_def)

lemma t_get_empty [simp]: "t_get t_empty k = None"
  by (simp add: t_get_def t_empty_def)

lemma t_get_fresh: "t_ok t \<Longrightarrow> next_pk t \<le> k \<Longrightarrow> t_get t k = None"
  by (fastforce simp: t_ok_def t_get_def map_of_eq_None_iff list_all_iff)

lemma t_get_less: "t_ok t \<Longrightarrow> t_get t k = Some r \<Longrightarrow> k < next_pk t"
  using t_get_fresh [of t k] by (cases "k < next_pk t") auto

lemma t_get_insert [table_simps]:
  "t_ok t \<Longrightarrow> t_get (t_insert r t) k = (if k = next_pk t then Some r else t_get t k)"
  using t_get_fresh [of t "next_pk t"]
  by (auto simp: t_get_def t_insert_def map_add_def split: option.splits)

lemma t_get_insert_old: "t_get t k = Some r' \<Longrightarrow> t_get (t_insert r t) k = Some r'"
  by (auto simp: t_get_def t_insert_def map_add_def)

lemma t_get_update [table_simps]:
  "t_get (t_update k f t) i = (if i = k then map_option f (t_get t i) else t_get t i)"
proof -
  have "map_of (map (\<lambda>(i, r). (i, if i = k then f r else r)) xs) i
    = (if i = k then map_option f (map_of xs i) else map_of xs i)" for xs
    by (induction xs) auto
  then show ?thesis by (simp add: t_get_def t_update_def)
qed

lemma t_get_update_all [table_simps]:
  "t_get (t_update_all P f t) i = map_option (\<lambda>r. if P i r then f r else r) (t_get t i)"
proof -
  have "map_of (map (\<lambda>(i, r). (i, if P i r then f r else r)) xs) i
    = map_option (\<lambda>r. if P i r then f r else r) (map_of xs i)" for xs
    by (induction xs) auto
  then show ?thesis by (simp add: t_get_def t_update_all_def)
qed

lemma in_rows_get: "t_ok t \<Longrightarrow> (k, r) \<in> set (table_rows t) \<longleftrightarrow> t_get t k = Some r"
  by (auto simp: t_ok_def t_get_def strict_sorted_iff dest: map_of_SomeD intro!: map_of_is_SomeI)

lemma t_get_delete [table_simps]:
  assumes "t_ok t"
  shows "t_get (t_delete P t) k = (case t_get t k of None \<Rightarrow> None | Some r \<Rightarrow> if P k r then None else Some r)"
proof -
  have "map_of (filter (\<lambda>(i, r). \<not> P i r) xs) k
      = (case map_of xs k of None \<Rightarrow> None | Some r \<Rightarrow> if P k r then None else Some r)"
    if "distinct (map fst xs)" for xs
    using that
  proof (induction xs)
    case (Cons x xs)
    have "k \<notin> fst ` set (filter (\<lambda>(i, r). \<not> P i r) xs)" if "fst x = k"
      using Cons.prems that by auto
    then show ?case using Cons by (cases x) (auto simp: map_of_eq_None_iff split: option.splits)
  qed simp
  then show ?thesis using assms by (simp add: t_get_def t_delete_def t_ok_def strict_sorted_iff)
qed

lemma t_filter_insert [table_simps]:
  "t_filter P (t_insert r t) = t_filter P t @ (if P (next_pk t) r then [(next_pk t, r)] else [])"
  by (simp add: t_filter_def t_insert_def)

lemma in_filter_get: "t_ok t \<Longrightarrow> (k, r) \<in> set (t_filter P t) \<longleftrightarrow> t_get t k = Some r \<and> P k r"
  by (auto simp: t_filter_def in_rows_get)

lemma t_first_SomeD: "t_first P t = Some (k, r) \<Longrightarrow> (k, r) \<in> set (table_rows t) \<and> P k r"
  by (auto simp: t_first_def find_Some_iff) (metis nth_mem)

lemma t_exists_first: "t_exists P t \<longleftrightarrow> t_first P t \<noteq> None"
  by (auto simp: t_exists_def t_first_def list_ex_iff find_None_iff)

lemma t_existsI: "(k, r) \<in> set (table_rows t) \<Longrightarrow> P k r \<Longrightarrow> t_exists P t"
  by (auto simp: t_exists_def list_ex_iff)

lemma t_first_Some_get: "t_ok t \<Longrightarrow> t_first P t = Some (k, r) \<Longrightarrow> t_get t k = Some r \<and> P k r"
  by (force simp: t_first_def find_Some_iff in_rows_get [symmetric] in_set_conv_nth)

lemma t_first_None_iff: "t_ok t \<Longrightarrow> t_first P t = None \<longleftrightarrow> (\<forall>k r. t_get t k = Some r \<longrightarrow> \<not> P k r)"
  by (auto simp: t_first_def find_None_iff in_rows_get [symmetric])

lemma t_exists_iff: "t_ok t \<Longrightarrow> t_exists P t \<longleftrightarrow> (\<exists>k r. t_get t k = Some r \<and> P k r)"
  by (auto simp: t_exists_def list_ex_iff in_rows_get [symmetric])

lemma t_filter_update_same [table_simps]:
  assumes "\<And>i r. P i (if i = k then f r else r) = P i r"
  shows "map fst (t_filter P (t_update k f t)) = map fst (t_filter P t)"
proof -
  have "map fst (filter (\<lambda>(i, r). P i r) (map (\<lambda>(i, r). (i, if i = k then f r else r)) xs))
    = map fst (filter (\<lambda>(i, r). P i r) xs)" for xs
    using assms by (induction xs) auto
  then show ?thesis by (simp add: t_filter_def t_update_def)
qed

lemma t_update_update: "t_update k g (t_update k f t) = t_update k (g \<circ> f) t"
  by (cases t) (auto simp: t_update_def)

text \<open>An update that takes a row out of a filter, and nothing else, shortens the filter.\<close>

lemma t_filter_leave:
  assumes "t_ok t" "t_get t k = Some r" "P k r" "\<And>r. \<not> P k (f r)"
  shows "length (t_filter P (t_update k f t)) < length (t_filter P t)"
proof -
  have eq: "t_filter P (t_update k f t) = filter (\<lambda>(i, _). i \<noteq> k) (t_filter P t)"
  proof -
    have "filter (\<lambda>(i, r). P i r) (map (\<lambda>(i, r). (i, if i = k then f r else r)) xs)
      = filter (\<lambda>(i, _). i \<noteq> k) (filter (\<lambda>(i, r). P i r) xs)" for xs
      using assms(4) by (induction xs) auto
    then show ?thesis by (simp add: t_filter_def t_update_def)
  qed
  have "(k, r) \<in> set (t_filter P t)" using assms in_filter_get by metis
  then show ?thesis unfolding eq by (auto intro: length_filter_less)
qed

section \<open>The interface of a table\<close>

text \<open>
  What the services rely on when they read and write rows: a fresh key for every insert, a lookup that
  sees the last write and nothing else.
\<close>

locale row_store =
  fixes get :: "'t \<Rightarrow> pk \<Rightarrow> 'r option"
    and insert :: "'r \<Rightarrow> 't \<Rightarrow> 't"
    and update :: "pk \<Rightarrow> ('r \<Rightarrow> 'r) \<Rightarrow> 't \<Rightarrow> 't"
    and fresh :: "'t \<Rightarrow> pk"
    and ok :: "'t \<Rightarrow> bool"
  assumes get_insert: "ok t \<Longrightarrow> get (insert r t) k = (if k = fresh t then Some r else get t k)"
    and get_update: "get (update k f t) i = (if i = k then map_option f (get t i) else get t i)"
    and get_fresh: "ok t \<Longrightarrow> fresh t \<le> k \<Longrightarrow> get t k = None"
    and fresh_insert: "fresh (insert r t) = Suc (fresh t)"
    and fresh_update: "fresh (update k f t) = fresh t"
    and ok_insert: "ok t \<Longrightarrow> ok (insert r t)"
    and ok_update: "ok t \<Longrightarrow> ok (update k f t)"
begin

lemma insert_keeps_rows: "ok t \<Longrightarrow> get t k = Some r' \<Longrightarrow> get (insert r t) k = Some r'"
  using get_fresh [of t k] by (auto simp: get_insert)

lemma insert_new_row: "ok t \<Longrightarrow> get t (fresh t) = None \<and> get (insert r t) (fresh t) = Some r"
  by (simp add: get_insert get_fresh)

lemma update_keeps_dom: "(get (update k f t) i = None) = (get t i = None)"
  by (auto simp: get_update)

lemma all_rows_insert:
  assumes "ok t" "\<forall>k r. get t k = Some r \<longrightarrow> P k r" "P (fresh t) r"
  shows "\<forall>k r'. get (insert r t) k = Some r' \<longrightarrow> P k r'"
  using assms by (auto simp: get_insert)

lemma all_rows_update:
  assumes "\<forall>k r. get t k = Some r \<longrightarrow> P k r" "\<And>r. get t i = Some r \<Longrightarrow> P i (f r)"
  shows "\<forall>k r'. get (update i f t) k = Some r' \<longrightarrow> P k r'"
  using assms by (auto simp: get_update)

lemma unique_insert:
  assumes "ok t"
    and "\<forall>i j a b. get t i = Some a \<longrightarrow> get t j = Some b \<longrightarrow> key a = Some x \<longrightarrow> key b = Some x \<longrightarrow> i = j"
    and "\<forall>k r. get t k = Some r \<longrightarrow> key r \<noteq> Some x \<or> key new \<noteq> Some x"
  shows "\<forall>i j a b. get (insert new t) i = Some a \<longrightarrow> get (insert new t) j = Some b \<longrightarrow>
           key a = Some x \<longrightarrow> key b = Some x \<longrightarrow> i = j"
  using assms by (auto simp: get_insert)

end

interpretation tbl: row_store t_get t_insert t_update next_pk t_ok
  by unfold_locales (simp_all add: t_get_insert t_get_update t_get_fresh)

text \<open>A table whose rows can also be deleted; a deleted key is never given out again.\<close>

locale deletable_store = row_store +
  fixes delete :: "(pk \<Rightarrow> 'b \<Rightarrow> bool) \<Rightarrow> 'a \<Rightarrow> 'a"
  assumes get_delete: "ok t \<Longrightarrow> get (delete P t) k =
      (case get t k of None \<Rightarrow> None | Some r \<Rightarrow> if P k r then None else Some r)"
    and fresh_delete: "fresh (delete P t) = fresh t"
    and ok_delete: "ok t \<Longrightarrow> ok (delete P t)"
begin

lemma delete_keeps: "ok t \<Longrightarrow> get (delete P t) k = Some r \<longleftrightarrow> get t k = Some r \<and> \<not> P k r"
  by (auto simp: get_delete split: option.splits)

lemma deleted_stays_deleted:
  assumes "ok t" "get t k = Some r" "P k r" "k < fresh t"
  shows "get (insert r' (delete P t)) k = None"
  using assms by (simp add: get_insert ok_delete fresh_delete get_delete)

end

interpretation dtbl: deletable_store t_get t_insert t_update next_pk t_ok t_delete
  by unfold_locales (simp_all add: t_get_delete)

section \<open>Unique columns\<close>

text \<open>A uniqueness constraint: rows that agree on a key that is present are the same row.\<close>

definition unique_on :: "('r \<Rightarrow> 'k option) \<Rightarrow> 'r table \<Rightarrow> bool" where
  "unique_on key t \<longleftrightarrow>
     (\<forall>i j a b x. t_get t i = Some a \<longrightarrow> t_get t j = Some b \<longrightarrow> key a = Some x \<longrightarrow> key b = Some x \<longrightarrow> i = j)"

lemma unique_onD:
  "unique_on key t \<Longrightarrow> t_get t i = Some a \<Longrightarrow> t_get t j = Some b \<Longrightarrow> key a = Some x \<Longrightarrow> key b = Some x \<Longrightarrow> i = j"
  unfolding unique_on_def by blast

lemma unique_onI:
  "(\<And>i j a b x. t_get t i = Some a \<Longrightarrow> t_get t j = Some b \<Longrightarrow> key a = Some x \<Longrightarrow> key b = Some x \<Longrightarrow> i = j) \<Longrightarrow>
   unique_on key t"
  unfolding unique_on_def by blast

lemma unique_on_insert:
  assumes "t_ok t" "unique_on key t" "\<And>x. key r = Some x \<Longrightarrow> \<not> t_exists (\<lambda>_ y. key y = Some x) t"
  shows "unique_on key (t_insert r t)"
proof (rule unique_onI)
  fix i j a b x
  assume h: "t_get (t_insert r t) i = Some a" "t_get (t_insert r t) j = Some b" "key a = Some x" "key b = Some x"
  have new: "t_get t k = Some y \<Longrightarrow> key r = Some x \<Longrightarrow> key y \<noteq> Some x" for k y
    using assms(3) [of x] assms(1) by (auto simp: t_exists_iff)
  show "i = j"
  proof (cases "i = next_pk t \<or> j = next_pk t")
    case True
    then show ?thesis using h new by (auto simp: t_get_insert [OF assms(1)] split: if_splits)
  next
    case False
    then have "t_get t i = Some a" "t_get t j = Some b" using h by (auto simp: t_get_insert [OF assms(1)])
    then show ?thesis using h(3,4) unique_onD [OF assms(2)] by blast
  qed
qed

lemma unique_on_update_all:
  assumes "unique_on key t" "\<And>k r. t_get t k = Some r \<Longrightarrow> P k r \<Longrightarrow> key (f r) = key r \<or> key (f r) = None"
  shows "unique_on key (t_update_all P f t)"
proof (rule unique_onI)
  fix i j a b x
  assume h: "t_get (t_update_all P f t) i = Some a" "t_get (t_update_all P f t) j = Some b" "key a = Some x" "key b = Some x"
  have old: "\<exists>r0. t_get t k = Some r0 \<and> key r0 = Some x"
    if k: "t_get (t_update_all P f t) k = Some r" and x: "key r = Some x" for k r
  proof -
    obtain r0 where r0: "t_get t k = Some r0" "r = (if P k r0 then f r0 else r0)"
      using k by (auto simp: t_get_update_all)
    then show ?thesis using x assms(2) [OF r0(1)] by (cases "P k r0") auto
  qed
  show "i = j" using old [OF h(1,3)] old [OF h(2,4)] unique_onD [OF assms(1)] by blast
qed

lemma unique_on_update:
  assumes "unique_on key t" "\<And>r. t_get t k = Some r \<Longrightarrow> key (f r) = key r \<or> key (f r) = None"
  shows "unique_on key (t_update k f t)"
  unfolding t_update_as_all by (rule unique_on_update_all) (use assms in auto)

lemma unique_on_delete:
  assumes "t_ok t" "unique_on key t"
  shows "unique_on key (t_delete P t)"
  by (rule unique_onI) (use assms unique_onD [OF assms(2)] in \<open>auto simp: dtbl.delete_keeps\<close>)

section \<open>Machines of commands\<close>

text \<open>The state a transaction leaves: its own when it commits, the old one when it raises.\<close>

definition keep :: "'s \<Rightarrow> ('a \<times> 's) result \<Rightarrow> 's" where
  "keep s r = (case r of Inl _ \<Rightarrow> s | Inr (_, s') \<Rightarrow> s')"

definition keep_unit :: "'s \<Rightarrow> 's result \<Rightarrow> 's" where
  "keep_unit s r = (case r of Inl _ \<Rightarrow> s | Inr s' \<Rightarrow> s')"


text \<open>
  A component seen from outside: commands executed one after the other on a state.  A command that
  raises is a step that leaves the state its transaction leaves.
\<close>

locale service_machine =
  fixes exec :: "'c \<Rightarrow> 's \<Rightarrow> 's"
    and inv :: "'s \<Rightarrow> bool"
  assumes exec_inv: "inv s \<Longrightarrow> inv (exec c s)"
begin

lemma run_inv: "inv s \<Longrightarrow> inv (fold exec cs s)"
  by (induction cs arbitrary: s) (auto simp: exec_inv)

lemma run_stepwise:
  assumes "inv s" "\<And>s c. inv s \<Longrightarrow> R s (exec c s)" "\<And>s. R s s" "\<And>a b c. R a b \<Longrightarrow> R b c \<Longrightarrow> R a c"
  shows "R s (fold exec cs s)"
  using assms(1)
proof (induction cs arbitrary: s)
  case Nil
  then show ?case by (simp add: assms(3))
next
  case (Cons c cs)
  have "R s (exec c s)" using Cons.prems by (rule assms(2))
  moreover have "R (exec c s) (fold exec cs (exec c s))"
    using Cons.IH exec_inv [OF Cons.prems] by blast
  ultimately show ?case using assms(4) by simp
qed

end

locale append_only = service_machine +
  fixes log :: "'s \<Rightarrow> 'e list"
  assumes exec_appends: "inv s \<Longrightarrow> \<exists>new. log (exec c s) = log s @ new"
begin

lemma run_appends: "inv s \<Longrightarrow> \<exists>new. log (fold exec cs s) = log s @ new"
proof (induction cs arbitrary: s)
  case (Cons c cs)
  obtain xs where "log (exec c s) = log s @ xs" using exec_appends [OF Cons.prems] by blast
  moreover obtain ys where "log (fold exec cs (exec c s)) = log (exec c s) @ ys"
    using Cons.IH exec_inv [OF Cons.prems] by blast
  ultimately show ?case by simp
qed simp

lemma run_keeps_entry:
  assumes "inv s" "i < length (log s)"
  shows "i < length (log (fold exec cs s)) \<and> log (fold exec cs s) ! i = log s ! i"
  using run_appends [OF assms(1), of cs] assms(2) by (auto simp: nth_append)

end

section \<open>Idempotent writes\<close>

text \<open>
  A get-or-create operation: repeating a successful write, at once or after any later writes that keep
  the rows, returns the same key and changes nothing.
\<close>

fun puts :: "('a \<Rightarrow> 's \<Rightarrow> (pk \<times> 's) result) \<Rightarrow> 'a list \<Rightarrow> 's \<Rightarrow> (pk list \<times> 's) result" where
  "puts put [] s = Inr ([], s)"
| "puts put (a # as) s =
     (case put a s of Inl e \<Rightarrow> Inl e | Inr (k, s') \<Rightarrow>
        (case puts put as s' of Inl e \<Rightarrow> Inl e | Inr (ks, s'') \<Rightarrow> Inr (k # ks, s'')))"

locale keyed_queue =
  fixes put :: "'a \<Rightarrow> 's \<Rightarrow> (pk \<times> 's) result"
    and ok :: "'s \<Rightarrow> bool"
    and keeps :: "'s \<Rightarrow> 's \<Rightarrow> bool"
  assumes put_ok: "ok s \<Longrightarrow> put a s = Inr (k, s') \<Longrightarrow> ok s' \<and> keeps s s'"
    and put_again: "ok s \<Longrightarrow> put a s = Inr (k, s') \<Longrightarrow> ok s'' \<Longrightarrow> keeps s' s'' \<Longrightarrow> put a s'' = Inr (k, s'')"
    and keeps_refl: "keeps s s"
    and keeps_trans: "keeps s s' \<Longrightarrow> keeps s' s'' \<Longrightarrow> keeps s s''"
begin

lemma put_twice: "ok s \<Longrightarrow> put a s = Inr (k, s') \<Longrightarrow> put a s' = Inr (k, s')"
  using put_ok put_again keeps_refl by blast

lemma puts_ok: "ok s \<Longrightarrow> puts put as s = Inr (ks, s') \<Longrightarrow> ok s' \<and> keeps s s'"
proof (induction "as" arbitrary: s ks)
  case (Cons a "as")
  then obtain k s1 ks' where p: "put a s = Inr (k, s1)" "puts put as s1 = Inr (ks', s')"
    by (auto split: sum.splits)
  then show ?case using Cons.IH put_ok [OF Cons.prems(1) p(1)] keeps_trans by blast
qed (simp add: keeps_refl)

lemma puts_again:
  "ok s \<Longrightarrow> puts put as s = Inr (ks, s') \<Longrightarrow> ok s'' \<Longrightarrow> keeps s' s'' \<Longrightarrow> puts put as s'' = Inr (ks, s'')"
proof (induction "as" arbitrary: s ks)
  case (Cons a "as")
  then obtain k s1 ks' where p: "put a s = Inr (k, s1)" "puts put as s1 = Inr (ks', s')" "ks = k # ks'"
    by (auto split: sum.splits)
  have s1: "ok s1" "keeps s s1" using put_ok [OF Cons.prems(1) p(1)] by auto
  have "keeps s1 s''" using puts_ok [OF s1(1) p(2)] Cons.prems(4) keeps_trans by blast
  then have "put a s'' = Inr (k, s'')" using put_again [OF Cons.prems(1) p(1) Cons.prems(3)] by blast
  then show ?case using Cons.IH [OF s1(1) p(2) Cons.prems(3,4)] p(3) by simp
qed simp

lemma replay: "ok s \<Longrightarrow> puts put as s = Inr (ks, s') \<Longrightarrow> puts put as s' = Inr (ks, s')"
  using puts_again puts_ok keeps_refl by blast

end

end
