(* ===== verification/Python_Values.thy ===== *)
theory Python_Values
  imports Prelude
begin

text \<open>
  The Python values and the text functions the services use.

  A Python string is represented by its UTF-8 bytes, one character of a \<open>string\<close> per byte: encoding is
  then the identity and the code-point order that \<open>sorted\<close> uses is the byte order.  Character classes
  and case mapping (\<open>strip\<close>, \<open>lower\<close>, \<open>casefold\<close>, \<open>\s\<close>, \<open>\d\<close>) are those of ASCII; text with other
  white space, digits or cased letters is outside the model.
\<close>

datatype pyval =
    PyNone
  | PyBool bool
  | PyInt int
  | PyStr string
  | PyList "pyval list"
  | PyDict "(pyval \<times> pyval) list"
  | PyOther string  \<comment> \<open>an object of any other class, by the name of the class\<close>

fun py_truthy :: "pyval \<Rightarrow> bool" where
  "py_truthy PyNone = False"
| "py_truthy (PyBool b) = b"
| "py_truthy (PyInt i) = (i \<noteq> 0)"
| "py_truthy (PyStr s) = (s \<noteq> [])"
| "py_truthy (PyList xs) = (xs \<noteq> [])"
| "py_truthy (PyDict kvs) = (kvs \<noteq> [])"
| "py_truthy (PyOther _) = True"

section \<open>Characters and strings\<close>

definition code :: "char \<Rightarrow> nat" where
  "code c = of_char c"

definition is_digit :: "char \<Rightarrow> bool" where
  "is_digit c \<longleftrightarrow> 48 \<le> code c \<and> code c \<le> 57"

definition is_upper :: "char \<Rightarrow> bool" where
  "is_upper c \<longleftrightarrow> 65 \<le> code c \<and> code c \<le> 90"

definition is_lower_hex :: "char \<Rightarrow> bool" where
  "is_lower_hex c \<longleftrightarrow> is_digit c \<or> 97 \<le> code c \<and> code c \<le> 102"

definition is_space :: "char \<Rightarrow> bool" where
  "is_space c \<longleftrightarrow> 9 \<le> code c \<and> code c \<le> 13 \<or> 28 \<le> code c \<and> code c \<le> 32"

definition lower_char :: "char \<Rightarrow> char" where
  "lower_char c = (if is_upper c then char_of (code c + 32) else c)"

definition py_lower :: "string \<Rightarrow> string" where
  "py_lower s = map lower_char s"

definition py_strip :: "string \<Rightarrow> string" where
  "py_strip s = rev (dropWhile is_space (rev (dropWhile is_space s)))"

definition is_continuation :: "char \<Rightarrow> bool" where  \<comment> \<open>a byte that does not start a code point\<close>
  "is_continuation c \<longleftrightarrow> 128 \<le> code c \<and> code c < 192"

definition py_len :: "string \<Rightarrow> nat" where
  "py_len s = length (filter (\<lambda>c. \<not> is_continuation c) s)"

fun py_take :: "nat \<Rightarrow> string \<Rightarrow> string" where  \<comment> \<open>\<open>s[:n]\<close>\<close>
  "py_take n [] = []"
| "py_take n (c # s) =
     (if is_continuation c then c # py_take n s
      else if n = 0 then [] else c # py_take (n - 1) s)"

definition starts_with :: "string \<Rightarrow> string \<Rightarrow> bool" where
  "starts_with p s \<longleftrightarrow> take (length p) s = p"

lemma code_char_of [simp]: "n < 256 \<Longrightarrow> code (char_of n) = n"
  by (simp add: code_def)

lemma code_less [simp]: "code c < 256"
  unfolding code_def by (rule nat_of_char_less_256)

lemma char_of_code [simp]: "char_of (code c) = c"
  by (simp add: code_def)

lemma code_inject [simp]: "code a = code b \<longleftrightarrow> a = b"
  by (simp add: code_def)

lemma lower_char_not_upper: "\<not> is_upper (lower_char c)"
  by (auto simp: lower_char_def is_upper_def)

lemma py_lower_idem [simp]: "py_lower (py_lower s) = py_lower s"
  using lower_char_not_upper by (auto simp: py_lower_def lower_char_def)

lemma py_lower_append [simp]: "py_lower (a @ b) = py_lower a @ py_lower b"
  by (simp add: py_lower_def)

lemma py_len_append [simp]: "py_len (a @ b) = py_len a + py_len b"
  by (simp add: py_len_def)

lemma py_len_le: "py_len s \<le> length s"
  by (simp add: py_len_def)

lemma py_len_take: "py_len (py_take n s) \<le> n"
  by (induction n s rule: py_take.induct) (auto simp: py_len_def)

lemma py_take_short: "py_len s \<le> n \<Longrightarrow> py_take n s = s"
  by (induction n s rule: py_take.induct) (auto simp: py_len_def split: if_splits)

lemma dropWhile_idem_rev:
  "dropWhile P (rev (dropWhile P (rev (dropWhile P s)))) = rev (dropWhile P (rev (dropWhile P s)))"
proof (cases "rev (dropWhile P (rev (dropWhile P s)))")
  case (Cons c cs)
  let ?d = "dropWhile P s"
  have "?d \<noteq> []" using Cons by (metis dropWhile.simps(1) list.distinct(1) rev.simps(1))
  then have "\<not> P (hd ?d)" by (metis hd_dropWhile)
  have "\<exists>ys. ?d = rev (dropWhile P (rev ?d)) @ ys"
    by (metis rev_append rev_rev_ident takeWhile_dropWhile_id)
  then have "c = hd ?d" using Cons by (metis hd_append2 list.distinct(1) list.sel(1))
  then show ?thesis using Cons \<open>\<not> P (hd ?d)\<close> by simp
next
  case Nil
  then show ?thesis by (simp only: Nil dropWhile.simps)
qed

lemma py_strip_idem [simp]: "py_strip (py_strip s) = py_strip s"
  by (simp add: py_strip_def dropWhile_idem_rev)

section \<open>Decimal and hexadecimal text\<close>

definition digit :: "nat \<Rightarrow> char" where
  "digit n = char_of (48 + n)"

fun nat_str :: "nat \<Rightarrow> string" where
  "nat_str n = (if n < 10 then [digit n] else nat_str (n div 10) @ [digit (n mod 10)])"

declare nat_str.simps [simp del]

definition int_str :: "int \<Rightarrow> string" where
  "int_str i = (if i < 0 then CHR ''-'' # nat_str (nat (- i)) else nat_str (nat i))"

definition digit_value :: "char \<Rightarrow> nat" where
  "digit_value c = code c - 48"

definition read_nat :: "string \<Rightarrow> nat" where
  "read_nat s = foldl (\<lambda>n c. n * 10 + digit_value c) 0 s"

lemma digit_simps [simp]:
  "n < 10 \<Longrightarrow> is_digit (digit n)" "n < 10 \<Longrightarrow> digit_value (digit n) = n"
  by (simp_all add: digit_def is_digit_def digit_value_def)

lemma digit_chars:
  "digit 0 = CHR ''0''" "digit 1 = CHR ''1''" "digit 2 = CHR ''2''" "digit 3 = CHR ''3''" "digit 4 = CHR ''4''"
  "digit 5 = CHR ''5''" "digit 6 = CHR ''6''" "digit 7 = CHR ''7''" "digit 8 = CHR ''8''" "digit 9 = CHR ''9''"
  by code_simp+

lemma nat_str_digits: "list_all is_digit (nat_str n)"
  by (induction n rule: nat_str.induct) (subst nat_str.simps, simp)

lemma nat_str_nonempty [simp]: "nat_str n \<noteq> []"
  by (subst nat_str.simps) simp

lemma read_nat_str [simp]: "read_nat (nat_str n) = n"
proof (induction n rule: nat_str.induct)
  case (1 n)
  then show ?case by (subst nat_str.simps) (simp add: read_nat_def)
qed

lemma nat_str_inject [simp]: "nat_str m = nat_str n \<longleftrightarrow> m = n"
  by (metis read_nat_str)

definition is_hex64 :: "string \<Rightarrow> bool" where
  "is_hex64 s \<longleftrightarrow> length s = 64 \<and> list_all is_lower_hex s"

definition is_bytes32 :: "string \<Rightarrow> bool" where  \<comment> \<open>\<open>BYTES32_RE.fullmatch\<close>\<close>
  "is_bytes32 s \<longleftrightarrow> take 2 s = ''0x'' \<and> is_hex64 (drop 2 s)"

lemma is_bytes32_prefix [simp]: "is_bytes32 (CHR ''0'' # CHR ''x'' # s) \<longleftrightarrow> is_hex64 s"
  by (simp add: is_bytes32_def)

lemma lower_hex_lower: "is_lower_hex c \<Longrightarrow> lower_char c = c"
  by (auto simp: is_lower_hex_def is_digit_def lower_char_def is_upper_def)

lemma is_hex64_lower: "is_hex64 s \<Longrightarrow> py_lower s = s"
  by (auto simp: is_hex64_def py_lower_def list_all_iff lower_hex_lower intro: map_idI)

lemma is_bytes32_lower: "is_bytes32 s \<Longrightarrow> py_lower s = s"
proof -
  assume "is_bytes32 s"
  then obtain t where "s = CHR ''0'' # CHR ''x'' # t" "is_hex64 t"
    by (metis append_Cons append_Nil append_take_drop_id is_bytes32_def)
  then show ?thesis using is_hex64_lower [of t]
    by (simp add: py_lower_def lower_char_def is_upper_def code_def)
qed

end
