(* ===== verification/Accounts.thy ===== *)
theory Accounts
  imports Python_Values
begin

text \<open>
  Accounts, tenancy and audit: the rows of \<open>accounts/models.py\<close> and \<open>audit/models.py\<close>, the state they
  form, the Management check every Management service starts with (\<open>accounts/services.py\<close>), the audit
  log (\<open>audit/services.py\<close>) and phone numbers (\<open>accounts/backends.py\<close>).

  The state is an extensible record: a later component adds its tables, and the operations here apply
  to the extended state unchanged.
\<close>

section \<open>The environment of an operation\<close>

text \<open>
  What an operation reads besides the database: the clock (one reading per operation), the settings,
  and the functions of other packages: SHA-256, NFC, the EIP-712 signer, the checksum form of an
  address, password hashing, and the conversion of an instant to a building's local calendar.
\<close>

record typed_data =
  td_chain_id :: int
  td_contract :: string
  td_event_id :: string
  td_payload_hash :: string
  td_previous_hash :: string
  td_event_type :: int

record env =
  now :: time
  sha256_hex :: "string \<Rightarrow> string"
  nfc :: "string \<Rightarrow> string"
  chain_id :: int
  contract_address :: string
  raw_sign :: "typed_data \<Rightarrow> nat list"  \<comment> \<open>\<open>Account.sign_typed_data\<close> with the platform key\<close>
  signer_key_configured :: bool
  signer_account_address :: string
  to_checksum_address :: "string \<Rightarrow> string"
  anchoring_backend :: string
  make_password :: "string \<Rightarrow> string"
  normalize_email :: "string \<Rightarrow> string"
  token_urlsafe :: string
  casefold :: "string \<Rightarrow> string"

section \<open>Rows\<close>

record user_row =
  u_email :: "string option"
  u_display_name :: string
  u_phone :: "string option"
  u_password :: string
  u_is_active :: bool

record building_row =
  b_name :: string
  b_timezone :: string

record unit_row =
  un_building :: pk
  un_label :: string

record occupancy_row =
  oc_user :: pk
  oc_unit :: pk
  oc_active :: bool

record membership_row =
  mb_user :: pk
  mb_building :: pk
  mb_active :: bool

datatype registration_status = RegPending | RegApproved | RegRejected | RegExpired

record registration_row =
  rg_full_name :: string
  rg_phone :: string
  rg_email :: "string option"
  rg_building :: pk
  rg_unit :: pk
  rg_password_hash :: string
  rg_status_token_digest :: string
  rg_status :: registration_status
  rg_rejection_reason :: string
  rg_decided_by :: "pk option"
  rg_decided_at :: "time option"
  rg_created_at :: time
  rg_updated_at :: time
  rg_expires_at :: time

record throttle_row =
  th_key_digest :: string
  th_failure_count :: nat
  th_window_started_at :: "time option"
  th_locked_until :: "time option"

record audit_row =
  au_actor :: pk
  au_membership :: "pk option"
  au_action :: string
  au_target_type :: string
  au_target_id :: string
  au_metadata :: "(string \<times> pyval) list"
  au_result :: string
  au_created_at :: time

record accounts_db =
  users :: "user_row table"
  buildings :: "building_row table"
  units :: "unit_row table"
  occupancies :: "occupancy_row table"
  memberships :: "membership_row table"
  registrations :: "registration_row table"
  throttles :: "throttle_row table"
  audit_log :: "audit_row table"

type_synonym 'z adb = "'z accounts_db_scheme"

section \<open>The Management check\<close>

definition require_management :: "'z adb \<Rightarrow> pk \<Rightarrow> pk \<Rightarrow> pk result" where
  "require_management db user building_id =
     (case t_first (\<lambda>_ m. mb_user m = user \<and> mb_building m = building_id \<and> mb_active m) (memberships db) of
        None \<Rightarrow> Inl PermissionDenied
      | Some (m, _) \<Rightarrow> Inr m)"

definition manages :: "'z adb \<Rightarrow> pk \<Rightarrow> pk \<Rightarrow> bool" where
  "manages db user building_id \<longleftrightarrow>
     t_exists (\<lambda>_ m. mb_user m = user \<and> mb_building m = building_id \<and> mb_active m) (memberships db)"

lemma require_management_cases:
  "require_management db user b = Inl PermissionDenied \<and> \<not> manages db user b
   \<or> (\<exists>m. require_management db user b = Inr m \<and> manages db user b)"
  by (auto simp: require_management_def manages_def t_exists_first split: option.splits)

lemma require_management_manages: "require_management db user b = Inr m \<Longrightarrow> manages db user b"
  using require_management_cases [of db user b] by auto

lemma require_management_Inl: "require_management db user b = Inl e \<Longrightarrow> e = PermissionDenied \<and> \<not> manages db user b"
  using require_management_cases [of db user b] by auto

lemma require_management_row:
  assumes "require_management db user b = Inr m"
  shows "t_exists (\<lambda>k r. k = m \<and> mb_user r = user \<and> mb_active r) (memberships db)"
  using assms by (auto simp: require_management_def split: option.splits dest!: t_first_SomeD intro: t_existsI)

section \<open>The audit log\<close>

definition valid_occupancy :: "'z adb \<Rightarrow> pk \<Rightarrow> pyval \<Rightarrow> bool" where
  "valid_occupancy db actor v =
     (case v of
        PyInt i \<Rightarrow> t_exists (\<lambda>k o'. int k = i \<and> oc_user o' = actor \<and> oc_active o') (occupancies db)
      | _ \<Rightarrow> False)"

definition record_audit ::
  "env \<Rightarrow> 'z adb \<Rightarrow> pk \<Rightarrow> pk option \<Rightarrow> string \<Rightarrow> string \<Rightarrow> string \<Rightarrow> string \<Rightarrow> (string \<times> pyval) list \<Rightarrow> 'z adb result" where
  "record_audit env db actor membership action target_type target_id result metadata =
     (let event = \<lparr> au_actor = actor, au_membership = membership, au_action = action,
            au_target_type = target_type, au_target_id = target_id, au_metadata = metadata,
            au_result = result, au_created_at = now env \<rparr>;
          create = db \<lparr> audit_log := t_insert event (audit_log db) \<rparr> in
      case membership of
        None \<Rightarrow>
          (let occupancy_id = (case map_of metadata ''occupancy_id'' of None \<Rightarrow> PyNone | Some v \<Rightarrow> v);
               resident_report = (action = ''report.submit'' \<and> target_type = ''IssueReport''
                 \<or> action = ''request.info_replied'' \<and> target_type = ''InfoRequest'');
               resident_rating = (action = ''work.rate'' \<and> target_type = ''CompletionRating'');
               resident_document = (action = ''document.upload'' \<and> target_type = ''DocumentVersion'');
               bill_payment = (action = ''bill.payment_recorded'' \<and> target_type = ''Bill'');
               valid = (occupancy_id \<noteq> PyNone \<and> valid_occupancy db actor occupancy_id) in
           if bill_payment \<or> (resident_report \<or> resident_rating \<or> resident_document) \<and> valid then Inr create
           else if \<not> (action = ''document.download'' \<and> target_type = ''DocumentVersion'')
             \<or> t_exists (\<lambda>_ m. mb_user m = actor \<and> mb_active m) (memberships db)
             \<or> occupancy_id \<noteq> PyNone \<and> \<not> valid
           then Inl PermissionDenied
           else Inr create)
      | Some m \<Rightarrow>
          if t_exists (\<lambda>k r. k = m \<and> mb_user r = actor \<and> mb_active r) (memberships db)
          then Inr create else Inl PermissionDenied)"

text \<open>An audit with the membership that \<open>require_management\<close> has just returned never fails.\<close>

lemma record_audit_management:
  assumes "require_management db actor b = Inr m" "memberships db' = memberships db"
  shows "record_audit env db' actor (Some m) action ty tid res meta =
    Inr (db' \<lparr> audit_log := t_insert \<lparr> au_actor = actor, au_membership = Some m, au_action = action,
      au_target_type = ty, au_target_id = tid, au_metadata = meta, au_result = res,
      au_created_at = now env \<rparr> (audit_log db') \<rparr>)"
  using require_management_row [OF assms(1)] assms(2) by (simp add: record_audit_def)

lemma record_audit_appends:
  "record_audit env db actor mem action ty tid res meta = Inr db' \<Longrightarrow>
   db' = db \<lparr> audit_log := t_insert \<lparr> au_actor = actor, au_membership = mem, au_action = action,
      au_target_type = ty, au_target_id = tid, au_metadata = meta, au_result = res,
      au_created_at = now env \<rparr> (audit_log db) \<rparr>"
  by (auto simp: record_audit_def Let_def split: option.splits if_splits)

text \<open>
  An audit row with no membership is only ever written for a bill payment, for a resident acting
  under an active occupancy of their own, or for a download by somebody who is not Management; a row
  with a membership names an active membership of the actor.
\<close>

theorem record_audit_attribution:
  assumes "record_audit env db actor mem action ty tid res meta = Inr db'"
  shows "case mem of
      Some m \<Rightarrow> t_exists (\<lambda>k r. k = m \<and> mb_user r = actor \<and> mb_active r) (memberships db)
    | None \<Rightarrow> action = ''bill.payment_recorded'' \<and> ty = ''Bill''
        \<or> (\<exists>v. map_of meta ''occupancy_id'' = Some v \<and> valid_occupancy db actor v)
        \<or> action = ''document.download'' \<and> ty = ''DocumentVersion''
          \<and> \<not> t_exists (\<lambda>_ m. mb_user m = actor \<and> mb_active m) (memberships db)"
  using assms by (auto simp: record_audit_def Let_def split: option.splits if_splits)

section \<open>Sample states\<close>

text \<open>An environment and a small database, at which the properties of this development are instantiated.\<close>

definition sample_env :: env where
  "sample_env = \<lparr> now = 42, sha256_hex = (\<lambda>s. take 64 (map (\<lambda>c. CHR ''a'') s @ replicate 64 (CHR ''0''))),
     nfc = id, chain_id = 1, contract_address = ''0xC0'', raw_sign = (\<lambda>_. replicate 65 1), signer_key_configured = True,
     signer_account_address = ''0xAb'', to_checksum_address = py_lower, anchoring_backend = ''disabled'',
     make_password = (\<lambda>p. ''hash:'' @ p), normalize_email = id, token_urlsafe = ''tok'', casefold = py_lower \<rparr>"

definition sample_accounts :: accounts_db where
  "sample_accounts = \<lparr>
     users = Table 3
       [(1, \<lparr> u_email = Some ''m@x'', u_display_name = ''M'', u_phone = None, u_password = [], u_is_active = True \<rparr>),
        (2, \<lparr> u_email = None, u_display_name = ''R'', u_phone = Some ''0900000001'', u_password = [], u_is_active = True \<rparr>)],
     buildings = Table 2 [(1, \<lparr> b_name = ''B'', b_timezone = ''Asia/Ho_Chi_Minh'' \<rparr>)],
     units = Table 2 [(1, \<lparr> un_building = 1, un_label = ''A1'' \<rparr>)],
     occupancies = Table 2 [(1, \<lparr> oc_user = 2, oc_unit = 1, oc_active = True \<rparr>)],
     memberships = Table 2 [(1, \<lparr> mb_user = 1, mb_building = 1, mb_active = True \<rparr>)],
     registrations = t_empty, throttles = t_empty, audit_log = t_empty \<rparr>"

theorem record_audit_attribution_witness:
  "t_exists (\<lambda>k r. k = 1 \<and> mb_user r = 1 \<and> mb_active r) (memberships sample_accounts)"
proof -
  obtain db' where "record_audit sample_env sample_accounts 1 (Some 1) ''a'' ''T'' ''1'' ''accepted'' [] = Inr db'"
    by (simp add: record_audit_def sample_accounts_def t_exists_def)
  from record_audit_attribution [OF this] show ?thesis by simp
qed

section \<open>Phone numbers\<close>

definition is_separator :: "char \<Rightarrow> bool" where
  "is_separator c \<longleftrightarrow> is_space c \<or> c = CHR ''.'' \<or> c = CHR ''-'' \<or> c = CHR ''('' \<or> c = CHR '')''"

definition is_vn_phone :: "string \<Rightarrow> bool" where
  "is_vn_phone s \<longleftrightarrow> take 1 s = ''0'' \<and> list_all is_digit s \<and> (length s = 10 \<or> length s = 11)"

definition normalize_phone :: "string option \<Rightarrow> string option" where
  "normalize_phone raw =
     (case raw of
        None \<Rightarrow> None
      | Some r \<Rightarrow>
          if r = [] then None
          else
            (let value = filter (\<lambda>c. \<not> is_separator c) r;
                 value' = (if starts_with ''+84'' value then CHR ''0'' # drop 3 value
                           else if starts_with ''84'' value \<and> 11 \<le> length value then CHR ''0'' # drop 2 value
                           else value) in
             if is_vn_phone value' then Some value' else None))"

text \<open>\<open>User.save\<close>: the phone is stored in canonical form when it has one.\<close>

definition user_save :: "user_row \<Rightarrow> user_row" where
  "user_save u =
     (case u_phone u of
        Some p \<Rightarrow>
          if p \<noteq> [] then (case normalize_phone (Some p) of Some c \<Rightarrow> u \<lparr> u_phone := Some c \<rparr> | None \<Rightarrow> u)
          else u
      | None \<Rightarrow> u)"

lemma digit_not_separator: "is_digit c \<Longrightarrow> \<not> is_separator c"
  by (auto simp: is_digit_def is_separator_def is_space_def code_def)

lemma digits_filter: "list_all is_digit p \<Longrightarrow> filter (\<lambda>c. \<not> is_separator c) p = p"
  by (simp add: list_all_iff digit_not_separator filter_id_conv)

lemma vn_phone_filter: "is_vn_phone p \<Longrightarrow> filter (\<lambda>c. \<not> is_separator c) p = p"
  by (simp add: is_vn_phone_def digits_filter)

lemma vn_phone_cons: "is_vn_phone p \<Longrightarrow> \<exists>ds. p = CHR ''0'' # ds \<and> list_all is_digit ds"
  by (cases p) (auto simp: is_vn_phone_def)

lemma phone_canonical:
  assumes "normalize_phone raw = Some p"
  shows "is_vn_phone p \<and> normalize_phone (Some p) = Some p \<and> normalize_phone (Some (''+84'' @ drop 1 p)) = Some p"
proof -
  have p: "is_vn_phone p"
    using assms by (auto simp: normalize_phone_def Let_def split: option.splits if_splits)
  then obtain ds where ds: "p = CHR ''0'' # ds" "list_all is_digit ds" using vn_phone_cons by blast
  have "filter (\<lambda>c. \<not> is_separator c) (''+84'' @ ds) = ''+84'' @ ds"
    using digits_filter [OF ds(2)] by (simp add: is_separator_def is_space_def code_def)
  then show ?thesis using p ds vn_phone_filter [OF p]
    by (simp add: normalize_phone_def starts_with_def)
qed

text \<open>
  A phone number has one canonical form: the result is \<open>0\<close> followed by nine or ten digits, it is a
  fixed point, and the international form \<open>+84...\<close> in which a registration stores it normalises back to
  it, so the account created on approval is found by the number its owner types.
\<close>

theorem normalize_phone_canonical:
  assumes "normalize_phone raw = Some p"
  shows "is_vn_phone p \<and> normalize_phone (Some p) = Some p \<and> normalize_phone (Some (''+84'' @ drop 1 p)) = Some p"
  by (rule phone_canonical [OF assms])

theorem normalize_phone_canonical_witness:
  "normalize_phone (Some ''0912345678'') = Some ''0912345678''"
  using normalize_phone_canonical [of "Some ''+84 912-345.678''" "''0912345678''"] by code_simp

end
