(* ===== verification/Canonical.thy ===== *)
theory Canonical
  imports Python_Values "HOL-Library.List_Lexorder" "HOL-Library.Char_ord" "HOL-Library.Multiset"
begin

text \<open>
  Canonical payload bytes (\<open>evidence/canonical.py\<close>): NFC normalisation of a Python value, the compact
  key-sorted JSON text, and its digest.  NFC normalisation and SHA-256 are parameters.  A reader for
  the JSON text is defined as well (\<open>queue_platform_event\<close> reads the text back), and the round trip
  shows that the canonical bytes determine the payload up to the order of object keys.
\<close>

datatype json =
    JNull
  | JBool bool
  | JInt int
  | JStr string
  | JList "json list"
  | JObj "(string \<times> json) list"

section \<open>Normalisation\<close>

fun seq_results :: "'a result list \<Rightarrow> 'a list result" where
  "seq_results [] = Inr []"
| "seq_results (Inl e # _) = Inl e"
| "seq_results (Inr x # rs) = (case seq_results rs of Inl e \<Rightarrow> Inl e | Inr xs \<Rightarrow> Inr (x # xs))"

text \<open>
  The loop over the items of a dictionary: it stops at the first key that is not a string or that
  repeats an earlier one after normalisation, and normalises the value of the key otherwise.
\<close>

fun norm_items ::
  "(string \<Rightarrow> string) \<Rightarrow> string list \<Rightarrow> (pyval \<times> json result) list \<Rightarrow> (string \<times> json) list result" where
  "norm_items nfc seen [] = Inr []"
| "norm_items nfc seen ((key, item) # kvs) =
     (case key of
        PyStr k \<Rightarrow>
          if nfc k \<in> set seen then Inl ValueError
          else (case item of
              Inl e \<Rightarrow> Inl e
            | Inr v \<Rightarrow> (case norm_items nfc (nfc k # seen) kvs of
                  Inl e \<Rightarrow> Inl e
                | Inr rest \<Rightarrow> Inr ((nfc k, v) # rest)))
      | _ \<Rightarrow> Inl TypeError)"

primrec normalize :: "(string \<Rightarrow> string) \<Rightarrow> pyval \<Rightarrow> json result" where
  "normalize nfc PyNone = Inr JNull"
| "normalize nfc (PyBool b) = Inr (JBool b)"
| "normalize nfc (PyInt i) = Inr (JInt i)"
| "normalize nfc (PyStr s) = Inr (JStr (nfc s))"
| "normalize nfc (PyList xs) = map_sum id JList (seq_results (map (normalize nfc) xs))"
| "normalize nfc (PyDict kvs) = map_sum id JObj (norm_items nfc [] (map (map_prod id (normalize nfc)) kvs))"
| "normalize nfc (PyOther _) = Inl TypeError"

section \<open>Printing\<close>

definition quote :: char where "quote = CHR 0x22"
definition backslash :: char where "backslash = CHR 0x5C"

definition hexd :: "nat \<Rightarrow> char" where
  "hexd n = (if n < 10 then char_of (48 + n) else char_of (87 + n))"

definition esc_char :: "char \<Rightarrow> string" where
  "esc_char c =
     (if c = quote then [backslash, quote]
      else if c = backslash then [backslash, backslash]
      else if code c = 8 then [backslash, CHR ''b'']
      else if code c = 12 then [backslash, CHR ''f'']
      else if code c = 10 then [backslash, CHR ''n'']
      else if code c = 13 then [backslash, CHR ''r'']
      else if code c = 9 then [backslash, CHR ''t'']
      else if code c < 32 then backslash # ''u00'' @ [hexd (code c div 16), hexd (code c mod 16)]
      else [c])"

definition dump_str :: "string \<Rightarrow> string" where
  "dump_str s = quote # concat (map esc_char s) @ [quote]"

fun comma_sep :: "string list \<Rightarrow> string" where
  "comma_sep [] = []"
| "comma_sep [x] = x"
| "comma_sep (x # y # xs) = x @ CHR '','' # comma_sep (y # xs)"

text \<open>The text of a value whose object keys are in the order given.\<close>

primrec dump :: "json \<Rightarrow> string" where
  "dump JNull = ''null''"
| "dump (JBool b) = (if b then ''true'' else ''false'')"
| "dump (JInt i) = int_str i"
| "dump (JStr s) = dump_str s"
| "dump (JList xs) = CHR ''['' # comma_sep (map dump xs) @ '']''"
| "dump (JObj kvs) =
     CHR ''{'' # comma_sep (map (\<lambda>(k, d). dump_str k @ CHR '':'' # d) (map (map_prod id dump) kvs)) @ ''}''"

text \<open>\<open>sort_keys=True\<close>: every object's items in the order of their keys.\<close>

primrec sort_keys :: "json \<Rightarrow> json" where
  "sort_keys JNull = JNull"
| "sort_keys (JBool b) = JBool b"
| "sort_keys (JInt i) = JInt i"
| "sort_keys (JStr s) = JStr s"
| "sort_keys (JList xs) = JList (map sort_keys xs)"
| "sort_keys (JObj kvs) = JObj (sort_key fst (map (map_prod id sort_keys) kvs))"

definition json_dumps :: "json \<Rightarrow> string" where
  "json_dumps v = dump (sort_keys v)"

definition canonical_bytes :: "(string \<Rightarrow> string) \<Rightarrow> pyval \<Rightarrow> string result" where
  "canonical_bytes nfc payload =
     (case payload of
        PyDict _ \<Rightarrow> map_sum id json_dumps (normalize nfc payload)
      | PyList _ \<Rightarrow> map_sum id json_dumps (normalize nfc payload)
      | _ \<Rightarrow> Inl TypeError)"

definition payload_hash :: "(string \<Rightarrow> string) \<Rightarrow> (string \<Rightarrow> string) \<Rightarrow> pyval \<Rightarrow> string result" where
  "payload_hash nfc sha256_hex payload = map_sum id sha256_hex (canonical_bytes nfc payload)"

section \<open>Reading the text back\<close>

definition unhexd :: "char \<Rightarrow> nat" where
  "unhexd c = (if is_digit c then code c - 48 else code c - 87)"

definition unescape :: "char \<Rightarrow> char" where
  "unescape c =
     (if c = CHR ''b'' then char_of (8 :: nat) else if c = CHR ''f'' then char_of (12 :: nat)
      else if c = CHR ''n'' then char_of (10 :: nat) else if c = CHR ''r'' then char_of (13 :: nat)
      else if c = CHR ''t'' then char_of (9 :: nat) else c)"

fun read_str :: "string \<Rightarrow> (string \<times> string) option" where
  "read_str [] = None"
| "read_str (c # cs) =
     (if c = quote then Some ([], cs)
      else if c = backslash then
        (case cs of
           [] \<Rightarrow> None
         | e # cs' \<Rightarrow>
             if e = CHR ''u'' then
               (case cs' of
                  a # b # h # l # cs'' \<Rightarrow>
                    map_option (map_prod ((#) (char_of (16 * unhexd h + unhexd l))) id) (read_str cs'')
                | _ \<Rightarrow> None)
             else map_option (map_prod ((#) (unescape e)) id) (read_str cs'))
      else map_option (map_prod ((#) c) id) (read_str cs))"

text \<open>
  The reader for the texts \<open>json_dumps\<close> writes; \<open>fuel\<close> bounds the nesting and the length, and the length
  of the text is always enough.
\<close>

fun read_val :: "nat \<Rightarrow> string \<Rightarrow> (json \<times> string) option"
  and read_elems :: "nat \<Rightarrow> string \<Rightarrow> (json list \<times> string) option"
  and read_members :: "nat \<Rightarrow> string \<Rightarrow> ((string \<times> json) list \<times> string) option" where
  "read_val 0 s = None"
| "read_val (Suc n) s =
     (if take 4 s = ''null'' then Some (JNull, drop 4 s)
      else if take 4 s = ''true'' then Some (JBool True, drop 4 s)
      else if take 5 s = ''false'' then Some (JBool False, drop 5 s)
      else (case s of
          [] \<Rightarrow> None
        | c # cs \<Rightarrow>
            if c = quote then map_option (map_prod JStr id) (read_str cs)
            else if c = CHR ''['' then
              if take 1 cs = '']'' then Some (JList [], drop 1 cs)
              else map_option (map_prod JList id) (read_elems n cs)
            else if c = CHR ''{'' then
              if take 1 cs = ''}'' then Some (JObj [], drop 1 cs)
              else map_option (map_prod JObj id) (read_members n cs)
            else if c = CHR ''-'' then
              (let ds = takeWhile is_digit cs in
               if ds = [] then None else Some (JInt (- int (read_nat ds)), drop (length ds) cs))
            else
              (let ds = takeWhile is_digit s in
               if ds = [] then None else Some (JInt (int (read_nat ds)), drop (length ds) s))))"
| "read_elems 0 s = None"
| "read_elems (Suc n) s =
     (case read_val n s of
        None \<Rightarrow> None
      | Some (v, r) \<Rightarrow>
          if take 1 r = '']'' then Some ([v], drop 1 r)
          else if take 1 r = '','' then map_option (map_prod ((#) v) id) (read_elems n (drop 1 r))
          else None)"
| "read_members 0 s = None"
| "read_members (Suc n) s =
     (if take 1 s \<noteq> [quote] then None
      else (case read_str (drop 1 s) of
          None \<Rightarrow> None
        | Some (k, r) \<Rightarrow>
            if take 1 r \<noteq> '':'' then None
            else (case read_val n (drop 1 r) of
                None \<Rightarrow> None
              | Some (v, r') \<Rightarrow>
                  if take 1 r' = ''}'' then Some ([(k, v)], drop 1 r')
                  else if take 1 r' = '','' then
                    map_option (map_prod ((#) (k, v)) id) (read_members n (drop 1 r'))
                  else None)))"

definition json_loads :: "string \<Rightarrow> json option" where
  "json_loads s = (case read_val (Suc (length s)) s of Some (v, []) \<Rightarrow> Some v | _ \<Rightarrow> None)"

section \<open>The round trip\<close>

lemma hexd_unhexd: "n < 16 \<Longrightarrow> unhexd (hexd n) = n"
  by (auto simp: unhexd_def hexd_def is_digit_def)

lemma char_of_eqI: "code c = n \<Longrightarrow> char_of n = c"
  by auto

lemma read_str_esc: "read_str (esc_char c @ r) = map_option (map_prod ((#) c) id) (read_str r)"
proof (cases "code c < 32")
  case True
  then have "16 * (code c div 16) + code c mod 16 = code c" "code c div 16 < 16" by simp_all
  moreover have "c \<noteq> quote" "c \<noteq> backslash"
    using True by (auto simp: quote_def backslash_def code_def)
  ultimately show ?thesis
    by (auto simp: esc_char_def hexd_unhexd quote_def backslash_def unescape_def char_of_eqI
        simp del: mult_div_mod_eq)
next
  case False
  then show ?thesis by (auto simp: esc_char_def quote_def backslash_def unescape_def)
qed

lemma read_str_dump [simp]: "read_str (concat (map esc_char s) @ quote # rest) = Some (s, rest)"
proof (induction s)
  case (Cons c s)
  then show ?case using read_str_esc [of c "concat (map esc_char s) @ quote # rest"] by simp
qed simp

lemma nat_str_cons: "\<exists>d ds. nat_str n = d # ds \<and> is_digit d \<and> list_all is_digit ds"
  using nat_str_digits [of n] nat_str_nonempty [of n] by (cases "nat_str n") auto

lemma takeWhile_digits: "list_all is_digit ds \<Longrightarrow> takeWhile is_digit rest = [] \<Longrightarrow>
    takeWhile is_digit (ds @ rest) = ds"
  by (simp add: list_all_iff takeWhile_append2)

lemma read_val_int:
  assumes "takeWhile is_digit rest = []"
  shows "read_val (Suc n) (int_str i @ rest) = Some (JInt i, rest)"
proof -
  obtain d ds where d: "nat_str (nat \<bar>i\<bar>) = d # ds" "is_digit d" "list_all is_digit ds"
    using nat_str_cons by blast
  have val: "read_nat (d # ds) = nat \<bar>i\<bar>" by (metis d(1) read_nat_str)
  have tw: "takeWhile is_digit (d # ds @ rest) = d # ds"
    using takeWhile_digits [of "d # ds" rest] d assms by simp
  have ne: "d \<noteq> CHR ''n''" "d \<noteq> CHR ''t''" "d \<noteq> CHR ''f''" "d \<noteq> quote" "d \<noteq> CHR ''[''"
    "d \<noteq> CHR ''{''" "d \<noteq> CHR ''-''"
    using d(2) by (auto simp: is_digit_def code_def quote_def)
  show ?thesis
  proof (cases "i < 0")
    case True
    then have "int_str i = CHR ''-'' # d # ds" using d(1) by (simp add: int_str_def)
    then show ?thesis using True tw val by (simp add: Let_def quote_def)
  next
    case False
    then have "int_str i = d # ds" using d(1) by (simp add: int_str_def)
    then show ?thesis using False tw val ne d(2) by (simp add: Let_def)
  qed
qed

lemma dump_nonempty [simp]: "dump v \<noteq> []"
  by (cases v) (auto simp: dump_str_def int_str_def)

lemma dump_len: "0 < length (dump v)"
  by simp

lemma dump_head: "\<exists>c cs. dump v = c # cs \<and> c \<noteq> CHR '']'' \<and> c \<noteq> CHR ''}''"
proof (cases v)
  case (JInt i)
  obtain d ds where "nat_str (nat \<bar>i\<bar>) = d # ds" "is_digit d" using nat_str_cons by blast
  then show ?thesis using JInt by (auto simp: int_str_def is_digit_def code_def)
qed (auto simp: dump_str_def quote_def)

definition reads :: "json \<Rightarrow> bool" where
  "reads v \<longleftrightarrow> (\<forall>n rest. length (dump v) \<le> n \<longrightarrow> takeWhile is_digit rest = [] \<longrightarrow>
     read_val n (dump v @ rest) = Some (v, rest))"

lemma read_elems_dump:
  assumes "\<forall>v \<in> set vs. reads v" "vs \<noteq> []" "length (comma_sep (map dump vs)) < n"
  shows "read_elems n (comma_sep (map dump vs) @ CHR '']'' # rest) = Some (vs, rest)"
  using assms
proof (induction vs arbitrary: n rule: induct_list012)
  case (2 v)
  then obtain m where "n = Suc m" by (cases n) auto
  then show ?case using 2 by (simp add: reads_def is_digit_def code_def)
next
  case (3 v w vs)
  then obtain m where "n = Suc m" by (cases n) auto
  then show ?case using 3 dump_len [of v] by (simp add: reads_def is_digit_def code_def)
qed simp

lemma read_members_dump:
  assumes "\<forall>(k, v) \<in> set kvs. reads v" "kvs \<noteq> []"
    "length (comma_sep (map (\<lambda>(k, v). dump_str k @ CHR '':'' # dump v) kvs)) < n"
  shows "read_members n (comma_sep (map (\<lambda>(k, v). dump_str k @ CHR '':'' # dump v) kvs) @ CHR ''}'' # rest)
    = Some (kvs, rest)"
  using assms
proof (induction kvs arbitrary: n rule: induct_list012)
  case (2 kv)
  then obtain m where "n = Suc m" by (cases n) auto
  then show ?case using 2 by (cases kv) (simp add: reads_def is_digit_def code_def dump_str_def)
next
  case (3 kv kw kvs)
  then obtain m where "n = Suc m" by (cases n) auto
  then show ?case using 3 by (cases kv) (simp add: reads_def is_digit_def code_def dump_str_def)
qed simp

lemma dump_obj: "dump (JObj kvs) =
    CHR ''{'' # comma_sep (map (\<lambda>(k, v). dump_str k @ CHR '':'' # dump v) kvs) @ ''}''"
  by (simp add: comp_def map_prod_def split_def)

lemma comma_sep_head: "\<exists>c cs. comma_sep (x # xs) = c # cs \<and> c = hd x" if "x \<noteq> []"
  using that by (cases xs; cases x) auto

lemma readsI:
  assumes "\<And>n rest. length (dump v) \<le> Suc n \<Longrightarrow> takeWhile is_digit rest = [] \<Longrightarrow>
    read_val (Suc n) (dump v @ rest) = Some (v, rest)"
  shows "reads v"
  unfolding reads_def using assms dump_len [of v] by (metis Suc_pred' less_le_trans)

lemma reads_all: "reads v"
proof (induction v)
  case (JInt i)
  show ?case by (rule readsI) (simp only: dump.simps read_val_int)
next
  case (JList vs)
  have all: "\<forall>v \<in> set vs. reads v" using JList by blast
  show ?case
  proof (rule readsI)
    fix n rest assume n: "length (dump (JList vs)) \<le> Suc n"
    show "read_val (Suc n) (dump (JList vs) @ rest) = Some (JList vs, rest)"
    proof (cases vs)
      case Nil
      then show ?thesis by (simp add: quote_def)
    next
      case (Cons w ws)
      obtain c cs where "comma_sep (map dump vs) = c # cs" "c \<noteq> CHR '']''"
        using comma_sep_head [of "dump w" "map dump ws"] dump_head [of w] Cons by auto
      then show ?thesis using read_elems_dump [of vs n rest] all n Cons
        by (simp add: quote_def)
    qed
  qed
next
  case (JObj kvs)
  have all: "\<forall>(k, v) \<in> set kvs. reads v" using JObj by force
  show ?case
  proof (rule readsI)
    fix n rest assume n: "length (dump (JObj kvs)) \<le> Suc n"
    show "read_val (Suc n) (dump (JObj kvs) @ rest) = Some (JObj kvs, rest)"
    proof (cases kvs)
      case Nil
      then show ?thesis by (simp add: quote_def)
    next
      case (Cons w ws)
      let ?txt = "comma_sep (map (\<lambda>(k, v). dump_str k @ CHR '':'' # dump v) kvs)"
      obtain cs where "?txt = quote # cs"
        using comma_sep_head [of "dump_str (fst w) @ CHR '':'' # dump (snd w)"] Cons
        by (auto simp: dump_str_def split_def)
      moreover have "length ?txt < n" using n unfolding dump_obj by simp
      moreover have "kvs \<noteq> []" using Cons by simp
      ultimately show ?thesis using read_members_dump [of kvs n rest] all unfolding dump_obj
        by (simp add: quote_def)
    qed
  qed
qed (auto intro!: readsI simp: dump_str_def quote_def read_str_dump [unfolded quote_def])

lemma json_loads_dump: "json_loads (dump v) = Some v"
  using reads_all [of v] unfolding reads_def json_loads_def
  by (metis (no_types, lifting) append_Nil2 le_SucI list.simps(4) option.simps(5) order_refl prod.case takeWhile.simps(1))

lemma json_dumps_inject: "json_dumps v = json_dumps w \<longleftrightarrow> sort_keys v = sort_keys w"
  unfolding json_dumps_def by (metis json_loads_dump option.inject)

section \<open>Normal values\<close>

primrec of_json :: "json \<Rightarrow> pyval" where
  "of_json JNull = PyNone"
| "of_json (JBool b) = PyBool b"
| "of_json (JInt i) = PyInt i"
| "of_json (JStr s) = PyStr s"
| "of_json (JList xs) = PyList (map of_json xs)"
| "of_json (JObj kvs) = PyDict (map (map_prod PyStr of_json) kvs)"

primrec normal :: "(string \<Rightarrow> string) \<Rightarrow> json \<Rightarrow> bool" where
  "normal nfc JNull = True"
| "normal nfc (JBool b) = True"
| "normal nfc (JInt i) = True"
| "normal nfc (JStr s) = (nfc s = s)"
| "normal nfc (JList xs) = list_all (normal nfc) xs"
| "normal nfc (JObj kvs) =
     (distinct (map fst kvs) \<and> list_all (\<lambda>(k, ok). nfc k = k \<and> ok) (map (map_prod id (normal nfc)) kvs))"

lemma seq_results_map [simp]: "seq_results (map Inr xs) = Inr xs"
  by (induction xs) auto

lemma seq_results_InrD: "seq_results rs = Inr xs \<Longrightarrow> rs = map Inr xs"
  by (induction rs arbitrary: xs rule: seq_results.induct) (auto split: sum.splits)

lemma seq_results_Inr: "seq_results rs = Inr xs \<longleftrightarrow> rs = map Inr xs"
  using seq_results_InrD by auto

fun item_ok :: "pyval \<times> json result \<Rightarrow> bool" where
  "item_ok (PyStr k, Inr v) = True"
| "item_ok _ = False"

fun item_of :: "(string \<Rightarrow> string) \<Rightarrow> pyval \<times> json result \<Rightarrow> string \<times> json" where
  "item_of nfc (PyStr k, Inr v) = (nfc k, v)"
| "item_of nfc _ = ([], JNull)"

lemma item_ok_iff: "item_ok ki \<longleftrightarrow> (\<exists>k v. ki = (PyStr k, Inr v))"
  by (cases ki rule: item_ok.cases) auto

lemma norm_items_good:
  "list_all item_ok kvs \<Longrightarrow> distinct (map (fst \<circ> item_of nfc) kvs) \<Longrightarrow>
   set (map (fst \<circ> item_of nfc) kvs) \<inter> set seen = {} \<Longrightarrow>
   norm_items nfc seen kvs = Inr (map (item_of nfc) kvs)"
proof (induction kvs arbitrary: seen)
  case (Cons ki kvs)
  then obtain k v where ki: "ki = (PyStr k, Inr v)" by (auto simp: item_ok_iff)
  have "norm_items nfc (nfc k # seen) kvs = Inr (map (item_of nfc) kvs)"
    by (rule Cons.IH) (use Cons.prems ki in auto)
  then show ?case using Cons.prems ki by simp
qed simp

lemma norm_items_goodD:
  "norm_items nfc seen kvs = Inr r \<Longrightarrow> list_all item_ok kvs \<and> r = map (item_of nfc) kvs \<and>
    distinct (map (fst \<circ> item_of nfc) kvs) \<and> set (map (fst \<circ> item_of nfc) kvs) \<inter> set seen = {}"
proof (induction kvs arbitrary: seen r)
  case (Cons ki kvs)
  show ?case
  proof (cases "item_ok ki")
    case True
    then obtain k v where ki: "ki = (PyStr k, Inr v)" by (auto simp: item_ok_iff)
    then have new: "nfc k \<notin> set seen" using Cons.prems by (auto split: if_splits)
    obtain r' where r': "norm_items nfc (nfc k # seen) kvs = Inr r'" "r = (nfc k, v) # r'"
      using Cons.prems ki new by (auto split: sum.splits)
    show ?thesis using Cons.IH [OF r'(1)] r'(2) ki new by auto
  next
    case False
    then show ?thesis using Cons.prems
      by (cases ki; cases "fst ki"; cases "snd ki") (auto split: if_splits)
  qed
qed simp

lemma norm_items_Inr: "norm_items nfc seen kvs = Inr r \<longleftrightarrow>
    list_all item_ok kvs \<and> r = map (item_of nfc) kvs \<and> distinct (map (fst \<circ> item_of nfc) kvs) \<and>
    set (map (fst \<circ> item_of nfc) kvs) \<inter> set seen = {}"
  using norm_items_good norm_items_goodD by metis

lemmas normalize_simps = seq_results_Inr norm_items_Inr

lemma map_sum_Inr: "map_sum id f r = Inr y \<longleftrightarrow> (\<exists>x. r = Inr x \<and> y = f x)"
  by (cases r) auto

lemma normalize_dict: "normalize nfc (PyDict kvs) = Inr v \<longleftrightarrow>
    (let items = map (map_prod id (normalize nfc)) kvs in
     list_all item_ok items \<and> distinct (map (fst \<circ> item_of nfc) items) \<and> v = JObj (map (item_of nfc) items))"
  by (auto simp: map_sum_Inr norm_items_Inr Let_def)

lemma normalize_normal:
  assumes nfc: "\<And>s. nfc (nfc s) = nfc s"
  shows "normalize nfc p = Inr v \<Longrightarrow> normal nfc v"
proof (induction p arbitrary: v)
  case (PyList xs)
  obtain vs where vs: "map (normalize nfc) xs = map Inr vs" "v = JList vs"
    using PyList.prems unfolding normalize.simps map_sum_Inr seq_results_Inr by blast
  have "normal nfc w" if "w \<in> set vs" for w
  proof -
    have "Inr w \<in> set (map (normalize nfc) xs)" unfolding vs(1) using that by simp
    then show ?thesis using PyList.IH by auto
  qed
  then show ?case by (simp add: vs list_all_iff)
next
  case (PyDict kvs)
  let ?items = "map (map_prod id (normalize nfc)) kvs"
  have v: "list_all item_ok ?items" "distinct (map (fst \<circ> item_of nfc) ?items)"
    "v = JObj (map (item_of nfc) ?items)"
    using PyDict.prems [unfolded normalize_dict Let_def] by blast+
  have "nfc (fst (item_of nfc ki)) = fst (item_of nfc ki) \<and> normal nfc (snd (item_of nfc ki))"
    if "ki \<in> set ?items" for ki
  proof -
    have "item_ok ki" using v(1) that by (simp only: list_all_iff)
    then obtain k w where ki: "ki = (PyStr k, Inr w)" unfolding item_ok_iff by blast
    from that [unfolded ki] obtain q where "(PyStr k, q) \<in> set kvs" "normalize nfc q = Inr w"
      by (auto simp del: normalize.simps)
    then have "normal nfc w" using PyDict.IH [of "(PyStr k, q)" q] by simp
    then show ?thesis using ki nfc by simp
  qed
  then have "list_all (\<lambda>(k, ok). nfc k = k \<and> ok)
      (map (map_prod id (normal nfc)) (map (item_of nfc) ?items))"
    unfolding list_all_iff by (simp add: split_def)
  then show ?case using v by (simp add: comp_assoc)
qed (auto simp: nfc)

lemma normalize_of_json: "normal nfc v \<Longrightarrow> normalize nfc (of_json v) = Inr v"
proof (induction v)
  case (JList xs)
  then have "map (normalize nfc \<circ> of_json) xs = map Inr xs"
    by (auto simp: list_all_iff)
  then show ?case by (simp add: map_sum_Inr seq_results_Inr)
next
  case (JObj kvs)
  have all: "nfc k = k \<and> normalize nfc (of_json w) = Inr w" if "(k, w) \<in> set kvs" for k w
    using JObj.IH [of "(k, w)" w] JObj.prems that by (auto simp: list_all_iff)
  let ?items = "map (map_prod id (normalize nfc)) (map (map_prod PyStr of_json) kvs)"
  have items: "?items = map (\<lambda>(k, w). (PyStr k, Inr w)) kvs" using all by auto
  have "map (item_of nfc) ?items = kvs" unfolding items using all by (auto intro: map_idI)
  moreover have "list_all item_ok ?items" unfolding items by (auto simp: list_all_iff)
  moreover have "map (fst \<circ> item_of nfc) ?items = map fst kvs"
    unfolding items using all by auto
  ultimately show ?case using JObj.prems unfolding of_json.simps normalize_dict Let_def
    by (metis normal.simps(6))
qed auto

lemma sort_keys_normal: "normal nfc v \<Longrightarrow> normal nfc (sort_keys v)"
proof (induction v)
  case (JList xs)
  then show ?case by (auto simp: list_all_iff)
next
  case (JObj kvs)
  let ?kvs = "map (map_prod id sort_keys) kvs"
  have "mset (map fst (sort_key fst ?kvs)) = mset (map fst kvs)"
    by (simp add: multiset.map_comp comp_def)
  then have "distinct (map fst (sort_key fst ?kvs))"
    using JObj.prems by (metis mset_eq_imp_distinct_iff normal.simps(6))
  moreover have "nfc k = k \<and> normal nfc (sort_keys w)" if "(k, w) \<in> set kvs" for k w
    using JObj.IH [of "(k, w)" w] JObj.prems that by (auto simp: list_all_iff)
  ultimately show ?case by (auto simp: list_all_iff)
qed auto

lemma sort_keys_idem [simp]: "sort_keys (sort_keys v) = sort_keys v"
proof (induction v)
  case (JObj kvs)
  let ?kvs = "map (map_prod id sort_keys) kvs"
  have "map_prod id sort_keys kv = kv" if "kv \<in> set (sort_key fst ?kvs)" for kv
    using JObj that by force
  then have "map (map_prod id sort_keys) (sort_key fst ?kvs) = sort_key fst ?kvs" by (rule map_idI)
  then show ?case by (simp add: sort_key_id_if_sorted)
qed auto

lemma json_dumps_sort [simp]: "json_dumps (sort_keys v) = json_dumps v"
  by (simp add: json_dumps_def)

lemma canonical_bytes_Inr: "canonical_bytes nfc p = Inr b \<longleftrightarrow>
    ((\<exists>xs. p = PyList xs) \<or> (\<exists>kvs. p = PyDict kvs)) \<and> (\<exists>v. normalize nfc p = Inr v \<and> b = json_dumps v)"
  by (cases p) (auto simp: canonical_bytes_def map_sum_Inr)

lemma distinct_singleton_list: "distinct zs \<Longrightarrow> set zs = {k} \<Longrightarrow> zs = [k]"
  by (cases zs; cases "tl zs") auto

lemma sort_key_perm:
  assumes "mset xs = mset ys" "distinct (map fst xs)"
  shows "sort_key fst xs = sort_key fst ys"
proof (rule properties_for_sort_key)
  show "mset (sort_key fst ys) = mset xs" using assms by simp
  have inj: "inj_on fst (set ys)"
    using assms by (metis distinct_map mset_eq_setD)
  fix k assume "k \<in> set (sort_key fst ys)"
  then have k: "k \<in> set ys" by simp
  have one: "filter (\<lambda>x. fst k = fst x) zs = [k]" if "mset zs = mset ys" for zs
  proof -
    have "distinct zs" using that assms by (metis distinct_map mset_eq_imp_distinct_iff)
    moreover have "set (filter (\<lambda>x. fst k = fst x) zs) = {k}"
      using inj k mset_eq_setD [OF that] by (auto simp: inj_on_def)
    ultimately show ?thesis by (intro distinct_singleton_list) simp_all
  qed
  show "filter (\<lambda>x. fst k = fst x) (sort_key fst ys) = filter (\<lambda>x. fst k = fst x) xs"
    using one [of xs] one [of "sort_key fst ys"] assms(1) by simp
qed simp

lemma norm_items_perm:
  assumes "mset kvs = mset kvs'" "normalize nfc (PyDict kvs) = Inr v"
  shows "\<exists>v'. normalize nfc (PyDict kvs') = Inr v' \<and> sort_keys v' = sort_keys v"
proof -
  let ?n = "map (map_prod id (normalize nfc))"
  let ?i = "map (item_of nfc)"
  have m: "mset (?n kvs) = mset (?n kvs')" using assms(1) by simp
  have v: "list_all item_ok (?n kvs)" "distinct (map (fst \<circ> item_of nfc) (?n kvs))" "v = JObj (?i (?n kvs))"
    using assms(2) [unfolded normalize_dict Let_def] by blast+
  have "list_all item_ok (?n kvs')" using v(1) mset_eq_setD [OF m] by (simp only: list_all_iff)
  moreover have "distinct (map (fst \<circ> item_of nfc) (?n kvs'))"
    using v(2) m by (metis mset_eq_imp_distinct_iff mset_map)
  ultimately have 1: "normalize nfc (PyDict kvs') = Inr (JObj (?i (?n kvs')))"
    unfolding normalize_dict Let_def by blast
  let ?s = "map (map_prod id sort_keys)"
  have "map fst (?s (?i (?n kvs))) = map (fst \<circ> item_of nfc) (?n kvs)" by simp
  then have "distinct (map fst (?s (?i (?n kvs))))" using v(2) by metis
  moreover have "mset (?s (?i (?n kvs))) = mset (?s (?i (?n kvs')))" using m by (metis mset_map)
  ultimately have "sort_key fst (?s (?i (?n kvs))) = sort_key fst (?s (?i (?n kvs')))"
    by (intro sort_key_perm)
  then show ?thesis using 1 v(3) by (simp del: normalize.simps)
qed

section \<open>Properties\<close>

text \<open>
  C13.  The canonical bytes of a payload can be read back: the reader returns the normalised payload
  with its keys sorted.  So the bytes (and what is hashed and anchored) lose nothing but key order.
\<close>

theorem canonical_bytes_read_back:
  assumes "canonical_bytes nfc payload = Inr bytes"
  shows "\<exists>v. normalize nfc payload = Inr v \<and> json_loads bytes = Some (sort_keys v)"
  using assms by (auto simp: canonical_bytes_Inr json_dumps_def json_loads_dump)

theorem canonical_bytes_read_back_witness:
  "\<exists>v. normalize id (PyDict [(PyStr ''b'', PyInt 7), (PyStr ''a'', PyList [PyBool True, PyNone])]) = Inr v
     \<and> json_loads ''{\"a\":[true,null],\"b\":7}'' = Some (sort_keys v)"
  by (rule canonical_bytes_read_back) code_simp

text \<open>
  Key order is irrelevant: two dictionaries with the same items have the same canonical bytes and
  the same payload hash, and either both are refused or neither is.
\<close>

theorem canonical_bytes_key_order:
  assumes "mset kvs = mset kvs'" "canonical_bytes nfc (PyDict kvs) = Inr bytes"
  shows "canonical_bytes nfc (PyDict kvs') = Inr bytes
    \<and> payload_hash nfc sha (PyDict kvs') = payload_hash nfc sha (PyDict kvs)"
proof -
  obtain v where v: "normalize nfc (PyDict kvs) = Inr v" "bytes = json_dumps v"
    using assms(2) unfolding canonical_bytes_Inr by blast
  obtain v' where v': "normalize nfc (PyDict kvs') = Inr v'" "sort_keys v' = sort_keys v"
    using norm_items_perm [OF assms(1) v(1)] by blast
  have "canonical_bytes nfc (PyDict kvs') = Inr bytes"
    using v' v(2) unfolding canonical_bytes_Inr json_dumps_def by metis
  then show ?thesis using assms(2) by (simp add: payload_hash_def)
qed

theorem canonical_bytes_key_order_witness:
  "canonical_bytes id (PyDict [(PyStr ''a'', PyNone), (PyStr ''b'', PyInt 7)]) = Inr ''{\"a\":null,\"b\":7}''"
  using canonical_bytes_key_order
    [of "[(PyStr ''b'', PyInt 7), (PyStr ''a'', PyNone)]" "[(PyStr ''a'', PyNone), (PyStr ''b'', PyInt 7)]"
      id "''{\"a\":null,\"b\":7}''" id]
  by (auto simp: add_mset_commute) code_simp

lemma canonical_stable:
  assumes "\<And>s. nfc (nfc s) = nfc s" "canonical_bytes nfc payload = Inr bytes"
  shows "\<exists>v. json_loads bytes = Some v \<and> canonical_bytes nfc (of_json v) = Inr bytes"
proof -
  obtain v where v: "normalize nfc payload = Inr v" "bytes = json_dumps v"
    and shape: "(\<exists>xs. payload = PyList xs) \<or> (\<exists>kvs. payload = PyDict kvs)"
    using assms(2) unfolding canonical_bytes_Inr by blast
  have "normalize nfc (of_json (sort_keys v)) = Inr (sort_keys v)"
    by (intro normalize_of_json sort_keys_normal) (rule normalize_normal [OF assms(1) v(1)])
  moreover have "(\<exists>xs. of_json (sort_keys v) = PyList xs) \<or> (\<exists>kvs. of_json (sort_keys v) = PyDict kvs)"
    using shape v(1) by (auto simp: map_sum_Inr)
  ultimately have "canonical_bytes nfc (of_json (sort_keys v)) = Inr bytes"
    unfolding canonical_bytes_Inr using v(2) by simp
  then show ?thesis using v(2) by (simp add: json_dumps_def json_loads_dump)
qed

text \<open>
  Canonicalisation is stable: with an idempotent NFC, reading the canonical bytes and canonicalising
  the result gives the same bytes, so the digest \<open>queue_platform_event\<close> stores is the digest of the
  payload it was given.
\<close>

theorem canonical_bytes_stable:
  assumes "\<And>s. nfc (nfc s) = nfc s" "canonical_bytes nfc payload = Inr bytes"
  shows "\<exists>v. json_loads bytes = Some v \<and> canonical_bytes nfc (of_json v) = Inr bytes"
  by (rule canonical_stable [OF assms])

theorem canonical_bytes_stable_witness:
  "\<exists>v. json_loads ''{\"a\":\"x\"}'' = Some v \<and> canonical_bytes (map lower_char) (of_json v) = Inr ''{\"a\":\"x\"}''"
  by (rule canonical_bytes_stable [where payload = "PyDict [(PyStr ''A'', PyStr ''X'')]"])
    (use py_lower_idem [unfolded py_lower_def] in \<open>blast, code_simp\<close>)

end
