(* ===== verification/Timestamps.thy ===== *)
theory Timestamps
  imports Python_Values
begin

text \<open>
  UTC timestamps in evidence payloads (\<open>evidence/services.py\<close>): \<open>utc_rfc3339\<close> prints an instant, and
  \<open>UTC_RFC3339_RE\<close> with \<open>_is_valid_utc_timestamp\<close> recognises one.  The calendar is the proleptic
  Gregorian one of Python's \<open>datetime\<close>, computed by walking years and months from year 1.
\<close>

definition is_leap :: "nat \<Rightarrow> bool" where
  "is_leap y \<longleftrightarrow> y mod 4 = 0 \<and> (y mod 100 \<noteq> 0 \<or> y mod 400 = 0)"

definition year_len :: "nat \<Rightarrow> nat" where
  "year_len y = (if is_leap y then 366 else 365)"

definition month_lens :: "nat \<Rightarrow> nat list" where
  "month_lens y = [31, if is_leap y then 29 else 28, 31, 30, 31, 30, 31, 31, 30, 31, 30, 31]"

definition days_in_month :: "nat \<Rightarrow> nat \<Rightarrow> nat" where
  "days_in_month y m = (if 1 \<le> m \<and> m \<le> 12 then month_lens y ! (m - 1) else 0)"

function year_of :: "nat \<Rightarrow> nat \<Rightarrow> nat \<times> nat" where
  "year_of y d = (if d < year_len y then (y, d) else year_of (Suc y) (d - year_len y))"
  by auto
termination
  by (relation "measure snd") (auto simp: year_len_def)

declare year_of.simps [simp del]

fun month_of :: "nat \<Rightarrow> nat list \<Rightarrow> nat \<Rightarrow> nat \<times> nat" where
  "month_of m [] d = (m, d)"
| "month_of m (l # ls) d = (if d < l then (m, d) else month_of (Suc m) ls (d - l))"

definition pad2 :: "nat \<Rightarrow> string" where
  "pad2 n = [digit (n div 10 mod 10), digit (n mod 10)]"

definition pad4 :: "nat \<Rightarrow> string" where
  "pad4 n = pad2 (n div 100) @ pad2 (n mod 100)"

definition pad6 :: "nat \<Rightarrow> string" where
  "pad6 n = pad2 (n div 10000) @ pad4 (n mod 10000)"

definition utc_rfc3339 :: "time \<Rightarrow> string" where
  "utc_rfc3339 t =
     (let us = nat t; secs = us div 1000000;
          (y, doy) = year_of 1 (secs div 86400);
          (m, d) = month_of 1 (month_lens y) doy;
          s = secs mod 86400 in
      pad4 y @ ''-'' @ pad2 m @ ''-'' @ pad2 (Suc d) @ ''T'' @
      pad2 (s div 3600) @ '':'' @ pad2 (s div 60 mod 60) @ '':'' @ pad2 (s mod 60) @ ''.'' @ pad6 (us mod 1000000) @ ''Z'')"

text \<open>The pattern \<open>UTC_RFC3339_RE\<close>: digits everywhere but at the separators.\<close>

fun matches :: "string \<Rightarrow> string \<Rightarrow> bool" where
  "matches [] [] = True"
| "matches (p # ps) (c # cs) = ((if p = CHR ''d'' then is_digit c else c = p) \<and> matches ps cs)"
| "matches _ _ = False"

definition utc_rfc3339_re :: "string \<Rightarrow> bool" where
  "utc_rfc3339_re s = matches ''dddd-dd-ddTdd:dd:dd.ddddddZ'' s"

definition is_valid_utc_timestamp :: "string \<Rightarrow> bool" where
  "is_valid_utc_timestamp s =
     (let num = (\<lambda>i n. read_nat (take n (drop i s)));
          y = num 0 4; m = num 5 2; d = num 8 2 in
      1 \<le> y \<and> 1 \<le> m \<and> m \<le> 12 \<and> 1 \<le> d \<and> d \<le> days_in_month y m
      \<and> num 11 2 < 24 \<and> num 14 2 < 60 \<and> num 17 2 < 60)"

lemma read_pad2 [simp]: "n < 100 \<Longrightarrow> read_nat (pad2 n) = n"
  by (simp add: read_nat_def pad2_def)

lemma read_pad4 [simp]: "n < 10000 \<Longrightarrow> read_nat (pad4 n) = n"
  by (simp add: read_nat_def pad4_def pad2_def)

lemma pad_lengths [simp]: "length (pad2 n) = 2" "length (pad4 n) = 4" "length (pad6 n) = 6"
  by (simp_all add: pad2_def pad4_def pad6_def)

lemma year_of_props: "year_of y d = (y', d') \<Longrightarrow> y \<le> y' \<and> d' < year_len y'"
proof (induction y d rule: year_of.induct)
  case (1 y d)
  then show ?case using year_of.simps [of y d] by (auto split: if_splits)
qed

lemma month_of_props:
  "month_of m ls d = (m', d') \<Longrightarrow> d < sum_list ls \<Longrightarrow> m \<le> m' \<and> m' < m + length ls \<and> d' < ls ! (m' - m)"
proof (induction m ls d rule: month_of.induct)
  case (2 m l ls d)
  show ?case
  proof (cases "d < l")
    case False
    with 2 have "Suc m \<le> m'" "m' < Suc m + length ls" "d' < ls ! (m' - Suc m)" by auto
    moreover have "m' - m = Suc (m' - Suc m)" using calculation(1) by simp
    ultimately show ?thesis by simp
  qed (use 2 in auto)
qed simp

lemma sum_month_lens: "sum_list (month_lens y) = year_len y"
  by (simp add: month_lens_def year_len_def)

lemma month_lens_le: "m < 12 \<Longrightarrow> month_lens y ! m \<le> 31"
  by (auto simp: month_lens_def nth_Cons' less_Suc_eq_le)

lemma calendar_fields:
  assumes "year_of 1 n = (y, doy)" "month_of 1 (month_lens y) doy = (m, d)"
  shows "1 \<le> y \<and> 1 \<le> m \<and> m \<le> 12 \<and> d < days_in_month y m \<and> d < 31"
proof -
  have "1 \<le> y" "doy < sum_list (month_lens y)" using year_of_props [OF assms(1)] by (auto simp: sum_month_lens)
  moreover from month_of_props [OF assms(2) this(2)]
  have "1 \<le> m" "m < 13" "d < month_lens y ! (m - 1)" by (auto simp: month_lens_def)
  moreover have "month_lens y ! (m - 1) \<le> 31" by (rule month_lens_le) (use calculation in simp)
  ultimately show ?thesis by (simp add: days_in_month_def)
qed

lemma matches_append: "length p = length s \<Longrightarrow> matches (p @ q) (s @ t) \<longleftrightarrow> matches p s \<and> matches q t"
  by (induction p s rule: list_induct2) auto

lemma is_digit_mod [simp]: "is_digit (digit (n mod 10))"
  by simp

definition year_at :: "time \<Rightarrow> nat" where
  "year_at t = fst (year_of 1 (nat t div 1000000 div 86400))"

lemma fields_at:
  assumes "length y = 4" "length m = 2" "length d = 2" "length h = 2" "length n = 2" "length s = 2"
  shows "take 4 (drop 0 (y @ ''-'' @ m @ ''-'' @ d @ ''T'' @ h @ '':'' @ n @ '':'' @ s @ r)) = y"
    "take 2 (drop 5 (y @ ''-'' @ m @ ''-'' @ d @ ''T'' @ h @ '':'' @ n @ '':'' @ s @ r)) = m"
    "take 2 (drop 8 (y @ ''-'' @ m @ ''-'' @ d @ ''T'' @ h @ '':'' @ n @ '':'' @ s @ r)) = d"
    "take 2 (drop 11 (y @ ''-'' @ m @ ''-'' @ d @ ''T'' @ h @ '':'' @ n @ '':'' @ s @ r)) = h"
    "take 2 (drop 14 (y @ ''-'' @ m @ ''-'' @ d @ ''T'' @ h @ '':'' @ n @ '':'' @ s @ r)) = n"
    "take 2 (drop 17 (y @ ''-'' @ m @ ''-'' @ d @ ''T'' @ h @ '':'' @ n @ '':'' @ s @ r)) = s"
  using assms by simp_all

text \<open>
  Every timestamp the program prints is one its own validation accepts: for an instant whose year is
  at most 9999 (the range of \<open>datetime\<close>), \<open>utc_rfc3339\<close> matches the pattern and is a real date and time.
\<close>

theorem utc_rfc3339_valid:
  assumes "year_at t \<le> 9999"
  shows "utc_rfc3339_re (utc_rfc3339 t) \<and> is_valid_utc_timestamp (utc_rfc3339 t)"
proof -
  obtain y doy where y: "year_of 1 (nat t div 1000000 div 86400) = (y, doy)" by fastforce
  obtain m d where m: "month_of 1 (month_lens y) doy = (m, d)" by fastforce
  let ?s = "nat t div 1000000 mod 86400"
  have f: "1 \<le> y" "y < 10000" "1 \<le> m" "m \<le> 12" "d < days_in_month y m" "d < 31"
    using calendar_fields [OF y m] assms y by (auto simp: year_at_def)
  have "?s < 86400" by simp
  then have h: "?s div 3600 < 24" "?s div 60 mod 60 < 60" "?s mod 60 < 60" by (simp_all add: div_less_iff_less_mult)
  have out: "utc_rfc3339 t = pad4 y @ ''-'' @ pad2 m @ ''-'' @ pad2 (Suc d) @ ''T'' @
      pad2 (?s div 3600) @ '':'' @ pad2 (?s div 60 mod 60) @ '':'' @ pad2 (?s mod 60) @ ''.'' @ pad6 (nat t mod 1000000) @ ''Z''"
    by (simp add: utc_rfc3339_def Let_def y m del: One_nat_def)
  have "utc_rfc3339_re (utc_rfc3339 t)"
    unfolding out utc_rfc3339_re_def by (simp add: pad2_def pad4_def pad6_def)
  moreover have "is_valid_utc_timestamp (utc_rfc3339 t)"
  proof -
    have "take 4 (drop 0 (utc_rfc3339 t)) = pad4 y" "take 2 (drop 5 (utc_rfc3339 t)) = pad2 m"
      "take 2 (drop 8 (utc_rfc3339 t)) = pad2 (Suc d)" "take 2 (drop 11 (utc_rfc3339 t)) = pad2 (?s div 3600)"
      "take 2 (drop 14 (utc_rfc3339 t)) = pad2 (?s div 60 mod 60)" "take 2 (drop 17 (utc_rfc3339 t)) = pad2 (?s mod 60)"
      unfolding out by (simp_all only: fields_at pad_lengths)
    then show ?thesis unfolding is_valid_utc_timestamp_def Let_def using f h by (simp only: read_pad2 read_pad4) simp
  qed
  ultimately show ?thesis ..
qed

theorem utc_rfc3339_valid_witness:
  "utc_rfc3339 2678401000007 = ''0001-02-01T00:00:01.000007Z''
   \<and> is_valid_utc_timestamp ''0001-02-01T00:00:01.000007Z''"
proof -
  have y: "year_of 1 31 = (1, 31)" by (simp add: year_of.simps year_len_def is_leap_def)
  have eq: "utc_rfc3339 2678401000007 = ''0001-02-01T00:00:01.000007Z''"
    by (simp add: utc_rfc3339_def Let_def y month_lens_def is_leap_def pad2_def pad4_def pad6_def digit_chars
        del: One_nat_def)
  have "year_at 2678401000007 \<le> 9999" by (simp add: year_at_def y del: One_nat_def)
  from utc_rfc3339_valid [OF this] eq show ?thesis by simp
qed

end
