(* ===== verification/Outbox.thy ===== *)
theory Outbox
  imports Accounts Canonical Timestamps
begin

text \<open>
  The evidence outbox (\<open>evidence/models.py\<close>, \<open>evidence/services.py\<close>, \<open>evidence/signatures.py\<close>): the row of a
  queued event, the closed payload schemas, the platform signature, and \<open>queue_platform_event\<close>, which is
  idempotent by event id.  The insert procedure of \<open>evidence/migrations/0022\<close> is the row it creates.
\<close>

section \<open>Rows\<close>

definition PROPOSAL_CREATED :: int where "PROPOSAL_CREATED = 1"
definition SETTLEMENT :: int where "SETTLEMENT = 10"

datatype EvidenceLevel = LvPending | LvLocalSigned | LvChainConfirmed | LvMismatch

datatype outbox_status = Pending | Submitted | Confirmed | Local | Failed | Mismatch

record outbox_row =
  ob_event_id :: string
  ob_event_type :: int
  ob_payload :: json
  ob_payload_hash :: string
  ob_previous_hash :: string
  ob_signature :: string
  ob_signer_address :: string
  ob_building :: pk
  ob_status :: outbox_status
  ob_attempts :: nat
  ob_next_attempt_at :: "time option"
  ob_lease_expires_at :: "time option"
  ob_last_attempt_at :: "time option"
  ob_transaction_hash :: string
  ob_receipt_status :: "int option"
  ob_receipt :: "(string \<times> pyval) list"
  ob_last_error :: string
  ob_chain_confirmed_block :: "int option"
  ob_chain_block_timestamp :: "int option"
  ob_submitted_at :: "time option"
  ob_confirmed_at :: "time option"
  ob_created_at :: time

record evidence_db = accounts_db +
  outbox :: "outbox_row table"

type_synonym 'z edb = "'z evidence_db_scheme"

definition evidence_level :: "outbox_status \<Rightarrow> EvidenceLevel" where
  "evidence_level s =
     (if s = Local then LvLocalSigned else if s = Confirmed then LvChainConfirmed
      else if s = Mismatch then LvMismatch else LvPending)"

definition is_settled :: "outbox_status \<Rightarrow> bool" where
  "is_settled s \<longleftrightarrow> s \<in> {Local, Confirmed}"

text \<open>The columns the identity trigger makes immutable.\<close>

definition ob_identity :: "outbox_row \<Rightarrow> string \<times> int \<times> json \<times> string \<times> string \<times> string \<times> string \<times> pk" where
  "ob_identity r = (ob_event_id r, ob_event_type r, ob_payload r, ob_payload_hash r, ob_previous_hash r,
     ob_signature r, ob_signer_address r, ob_building r)"

section \<open>Payload schemas\<close>

text \<open>The closed vocabulary of value shapes; \<open>OneOf\<close> is a frozen set of admitted strings.\<close>

datatype shape = SId | SPositiveInt | SMoney | SBool | SHash | SHashes | SBytes32 | STimestamp | SText | OneOf "string list"

type_synonym schema = "(string \<times> shape) list \<times> (string \<times> shape) list"

definition EVIDENCE_PAYLOAD_SCHEMAS :: "int \<Rightarrow> schema option" where
  "EVIDENCE_PAYLOAD_SCHEMAS t =
     (if t = PROPOSAL_CREATED then Some
        ([(''proposal_id'', SId), (''proposal_version'', SPositiveInt), (''record_id'', SId), (''amount_vnd'', SMoney),
          (''proposal_snapshot_hash'', SHash), (''quotation_hash'', SHash)],
         [(''building_id'', SId), (''case_id'', SId), (''report_id'', SId), (''case_snapshot_hash'', SHash),
          (''report_snapshot_hash'', SHash), (''estimated_amount_vnd'', SMoney), (''photo_hash'', SHash), (''photo_hashes'', SHashes)])
      else if t = SETTLEMENT then Some
        ([(''schema'', OneOf [''settlement.v2'']), (''settlement_id'', SId), (''proposal_id'', SId), (''proposal_version'', SPositiveInt),
          (''amount_vnd'', SMoney), (''transfer_sha256'', SHash), (''settled_at'', STimestamp)], [])
      else None)"

definition hash_re :: "string \<Rightarrow> bool" where  \<comment> \<open>\<open>HASH_RE.fullmatch\<close>\<close>
  "hash_re s \<longleftrightarrow> is_hex64 s \<or> is_bytes32 s"

fun valid_value :: "shape \<Rightarrow> pyval \<Rightarrow> bool" where
  "valid_value SId (PyInt i) = (i > 0)"
| "valid_value SPositiveInt (PyInt i) = (i > 0)"
| "valid_value SMoney (PyInt i) = (i \<ge> 0)"
| "valid_value SBool (PyBool b) = True"
| "valid_value SText (PyStr s) = (s \<noteq> [])"
| "valid_value SHash (PyStr s) = hash_re s"
| "valid_value SBytes32 (PyStr s) = is_bytes32 s"
| "valid_value SHashes (PyList xs) = (xs \<noteq> [] \<and> list_all (\<lambda>x. case x of PyStr s \<Rightarrow> hash_re s | _ \<Rightarrow> False) xs)"
| "valid_value STimestamp (PyStr s) = (utc_rfc3339_re s \<and> is_valid_utc_timestamp s)"
| "valid_value (OneOf ss) (PyStr s) = (s \<in> set ss)"
| "valid_value _ _ = False"

definition is_pystr :: "pyval \<Rightarrow> bool" where
  "is_pystr v = (case v of PyStr _ \<Rightarrow> True | _ \<Rightarrow> False)"

fun the_str :: "pyval \<Rightarrow> string" where
  "the_str (PyStr s) = s"
| "the_str _ = []"

definition shape_of :: "schema \<Rightarrow> string \<Rightarrow> shape option" where
  "shape_of sch f = (case map_of (fst sch) f of Some s \<Rightarrow> Some s | None \<Rightarrow> map_of (snd sch) f)"

definition validate_payload :: "pyval \<Rightarrow> pyval \<Rightarrow> unit result" where
  "validate_payload event_type payload =
     (case event_type of
        PyInt t \<Rightarrow>
          if t \<noteq> PROPOSAL_CREATED \<and> t \<noteq> SETTLEMENT then Inl ValidationError
          else (case EVIDENCE_PAYLOAD_SCHEMAS t of
              None \<Rightarrow> Inl ValueError
            | Some sch \<Rightarrow>
                (case payload of
                   PyDict kvs \<Rightarrow>
                     if \<not> list_all (\<lambda>(k, _). is_pystr k) kvs then Inl ValidationError
                     else if list_ex (\<lambda>(k, _). shape_of sch (the_str k) = None) kvs then Inl ValidationError
                     else if list_ex (\<lambda>(f, _). f \<notin> set (map (the_str \<circ> fst) kvs)) (fst sch) then Inl ValidationError
                     else if list_ex (\<lambda>(k, v). case shape_of sch (the_str k) of
                         Some sh \<Rightarrow> \<not> valid_value sh v | None \<Rightarrow> True) kvs then Inl ValidationError
                     else Inr ()
                 | _ \<Rightarrow> Inl ValidationError))
      | _ \<Rightarrow> Inl ValueError)"

definition normalize_vnd :: "pyval \<Rightarrow> int result" where
  "normalize_vnd v = (case v of PyInt i \<Rightarrow> if i < 0 then Inl ValueError else Inr i | _ \<Rightarrow> Inl ValueError)"

section \<open>Signatures\<close>

definition SECP256K1_N :: int where
  "SECP256K1_N = 0xFFFFFFFFFFFFFFFFFFFFFFFFFFFFFFFEBAAEDCE6AF48A03BBFD25E8CD0364141"

definition build_evidence_typed_data :: "env \<Rightarrow> string \<Rightarrow> int \<Rightarrow> string \<Rightarrow> string \<Rightarrow> typed_data result" where
  "build_evidence_typed_data env event_id event_type payload_hash_hex previous_hash_hex =
     (if \<not> is_bytes32 event_id \<or> \<not> is_bytes32 payload_hash_hex \<or> \<not> is_bytes32 previous_hash_hex then Inl ValueError
      else if \<not> (1 \<le> event_type \<and> event_type < 12) then Inl ValueError
      else Inr \<lparr> td_chain_id = chain_id env, td_contract = contract_address env, td_event_id = event_id,
        td_payload_hash = payload_hash_hex, td_previous_hash = previous_hash_hex, td_event_type = event_type \<rparr>)"

definition from_bytes_big :: "nat list \<Rightarrow> int" where
  "from_bytes_big bs = foldl (\<lambda>n b. n * 256 + int b) 0 bs"

definition bytes_hex :: "nat list \<Rightarrow> string" where
  "bytes_hex bs = concat (map (\<lambda>b. [hexd (b div 16), hexd (b mod 16)]) bs)"

fun hex_value :: "char \<Rightarrow> nat option" where
  "hex_value c =
     (if is_digit c then Some (code c - 48)
      else if 97 \<le> code c \<and> code c \<le> 102 then Some (code c - 87)
      else if 65 \<le> code c \<and> code c \<le> 70 then Some (code c - 55)
      else None)"

text \<open>\<open>bytes.fromhex\<close>: pairs of digits of either case, with white space allowed between the pairs.\<close>

fun from_hex :: "string \<Rightarrow> nat list option" where
  "from_hex [] = Some []"
| "from_hex [c] = (if is_space c then Some [] else None)"
| "from_hex (c # d # ds) =
     (if is_space c then from_hex (d # ds)
      else (case (hex_value c, hex_value d) of
          (Some a, Some b) \<Rightarrow> map_option ((#) (16 * a + b)) (from_hex ds)
        | _ \<Rightarrow> None))"

datatype sig_input = SigStr string | SigBytes "nat list" | SigOther

definition signature_bytes :: "sig_input \<Rightarrow> nat list result" where
  "signature_bytes signature =
     (case signature of
        SigStr s \<Rightarrow> (case from_hex (if starts_with ''0x'' s then drop 2 s else s) of
            None \<Rightarrow> Inl ValueError | Some raw \<Rightarrow> Inr raw)
      | SigBytes raw \<Rightarrow> Inr raw
      | SigOther \<Rightarrow> Inl ValueError)"

definition normalize_signature :: "sig_input \<Rightarrow> string result" where
  "normalize_signature signature =
     (case signature_bytes signature of
        Inl e \<Rightarrow> Inl e
      | Inr raw0 \<Rightarrow>
          if length raw0 \<noteq> 65 then Inl ValueError
          else
            (let raw = (if raw0 ! 64 \<in> {0, 1} then raw0[64 := raw0 ! 64 + 27] else raw0);
                 r = from_bytes_big (take 32 raw);
                 s = from_bytes_big (take 32 (drop 32 raw)) in
             if \<not> (0 < r \<and> r < SECP256K1_N) \<or> \<not> (0 < s \<and> s \<le> SECP256K1_N div 2) \<or> raw ! 64 \<notin> {27, 28}
             then Inl ValueError else Inr (''0x'' @ bytes_hex raw)))"

definition platform_sign_evidence :: "env \<Rightarrow> string \<Rightarrow> int \<Rightarrow> string \<Rightarrow> string \<Rightarrow> string result" where
  "platform_sign_evidence env event_id event_type payload_hash_hex previous_hash_hex =
     (let ph = (if starts_with ''0x'' payload_hash_hex then payload_hash_hex else ''0x'' @ payload_hash_hex) in
      case build_evidence_typed_data env event_id event_type ph previous_hash_hex of
        Inl e \<Rightarrow> Inl e
      | Inr td \<Rightarrow>
          if \<not> signer_key_configured env then Inl ImproperlyConfigured
          else normalize_signature (SigStr (bytes_hex (raw_sign env td))))"

definition platform_signer_address :: "env \<Rightarrow> string result" where
  "platform_signer_address env =
     (if signer_key_configured env then Inr (signer_account_address env) else Inl ImproperlyConfigured)"

section \<open>Queueing\<close>

definition same_identity :: "outbox_row \<Rightarrow> outbox_row \<Rightarrow> bool" where
  "same_identity a b \<longleftrightarrow> ob_event_type a = ob_event_type b \<and> ob_payload a = ob_payload b
     \<and> ob_payload_hash a = ob_payload_hash b \<and> ob_previous_hash a = ob_previous_hash b
     \<and> ob_signature a = ob_signature b \<and> ob_signer_address a = ob_signer_address b"

text \<open>The row the insert procedure writes.\<close>

definition new_outbox_row ::
  "env \<Rightarrow> string \<Rightarrow> int \<Rightarrow> json \<Rightarrow> string \<Rightarrow> string \<Rightarrow> string \<Rightarrow> string \<Rightarrow> pk \<Rightarrow> outbox_row" where
  "new_outbox_row env event_id event_type payload digest previous_hash signature signer building =
     \<lparr> ob_event_id = event_id, ob_event_type = event_type, ob_payload = payload, ob_payload_hash = digest,
       ob_previous_hash = previous_hash, ob_signature = signature, ob_signer_address = signer,
       ob_building = building, ob_status = Pending, ob_attempts = 0, ob_next_attempt_at = None,
       ob_lease_expires_at = None, ob_last_attempt_at = None, ob_transaction_hash = [],
       ob_receipt_status = None, ob_receipt = [], ob_last_error = [], ob_chain_confirmed_block = None,
       ob_chain_block_timestamp = None, ob_submitted_at = None, ob_confirmed_at = None,
       ob_created_at = now env \<rparr>"

text \<open>
  Everything before the database is read: validation, canonical form, digest, signature.  The result is
  the row that would be inserted.
\<close>

definition prepare_event :: "env \<Rightarrow> string \<Rightarrow> pyval \<Rightarrow> pyval \<Rightarrow> string \<Rightarrow> pk \<Rightarrow> outbox_row result" where
  "prepare_event env event_id0 event_type payload previous_hash0 building =
     (let event_id = py_lower event_id0; previous_hash = py_lower previous_hash0 in
      case validate_payload event_type payload of
        Inl e \<Rightarrow> Inl e
      | Inr _ \<Rightarrow>
          if \<not> is_bytes32 event_id \<or> \<not> is_bytes32 previous_hash then Inl ValidationError
          else (case canonical_bytes (nfc env) payload of
              Inl e \<Rightarrow> Inl e
            | Inr bytes \<Rightarrow> (case json_loads bytes of
                  None \<Rightarrow> Inl ValueError
                | Some normalized \<Rightarrow> (case payload_hash (nfc env) (sha256_hex env) (of_json normalized) of
                      Inl e \<Rightarrow> Inl e
                    | Inr digest \<Rightarrow>
                        (let t = (case event_type of PyInt t \<Rightarrow> t | _ \<Rightarrow> 0) in
                         case platform_sign_evidence env event_id t (''0x'' @ digest) previous_hash of
                           Inl e \<Rightarrow> Inl e
                         | Inr signature \<Rightarrow> (case platform_signer_address env of
                               Inl e \<Rightarrow> Inl e
                             | Inr signer \<Rightarrow> Inr (new_outbox_row env event_id t normalized digest previous_hash
                                 signature signer building)))))))"

definition queue_platform_event ::
  "env \<Rightarrow> 'z edb \<Rightarrow> string \<Rightarrow> pyval \<Rightarrow> pyval \<Rightarrow> string \<Rightarrow> pk \<Rightarrow> (pk \<times> 'z edb) result" where
  "queue_platform_event env db event_id event_type payload previous_hash building =
     (case prepare_event env event_id event_type payload previous_hash building of
        Inl e \<Rightarrow> Inl e
      | Inr new \<Rightarrow>
          (case t_first (\<lambda>_ r. ob_event_id r = ob_event_id new) (outbox db) of
             Some (k, existing) \<Rightarrow> if same_identity existing new then Inr (k, db) else Inl EvidenceConflict
           | None \<Rightarrow>
               if ob_signer_address new = [] then Inl DoesNotExist
               else Inr (next_pk (outbox db), db \<lparr> outbox := t_insert new (outbox db) \<rparr>)))"

section \<open>Lemmas on signatures\<close>

lemma hexd_hex_value: "n < 16 \<Longrightarrow> hex_value (hexd n) = Some n"
  by (auto simp: hexd_def is_digit_def)

lemma hexd_not_space: "n < 16 \<Longrightarrow> \<not> is_space (hexd n)"
  by (auto simp: hexd_def is_space_def)

lemma from_hex_bytes_hex: "list_all (\<lambda>b. b < 256) bs \<Longrightarrow> from_hex (bytes_hex bs) = Some bs"
proof (induction bs)
  case (Cons b bs)
  have "b div 16 < 16" "b mod 16 < 16" using Cons.prems by auto
  then have "from_hex (hexd (b div 16) # hexd (b mod 16) # bytes_hex bs) = Some (b # bs)"
    using Cons hexd_hex_value [of "b div 16"] hexd_hex_value [of "b mod 16"] hexd_not_space [of "b div 16"]
    by (simp del: hex_value.simps)
  then show ?case by (simp add: bytes_hex_def)
qed (simp add: bytes_hex_def)

lemma hex_value_less: "hex_value c = Some n \<Longrightarrow> n < 16"
  by (auto simp: is_digit_def split: if_splits)

lemma from_hex_less: "from_hex s = Some bs \<Longrightarrow> list_all (\<lambda>b. b < 256) bs"
proof (induction s arbitrary: bs rule: from_hex.induct)
  case (3 c d ds)
  show ?case
  proof (cases "is_space c")
    case True
    then show ?thesis using 3 by simp
  next
    case False
    then obtain a b bs' where ab: "hex_value c = Some a" "hex_value d = Some b" "from_hex ds = Some bs'" "bs = (16 * a + b) # bs'"
      using 3(3) by (auto split: option.splits simp del: hex_value.simps)
    then have "a < 16" "b < 16" "list_all (\<lambda>b. b < 256) bs'" using hex_value_less 3(2) [OF False] by auto
    then show ?thesis using ab(4) by simp
  qed
qed (auto split: if_splits)

text \<open>
  A normalised signature is canonical: it is \<open>0x\<close> and 65 bytes in lower-case hexadecimal with a
  positive low \<open>s\<close> and a recovery id of 27 or 28, and normalising it again returns it unchanged, so two
  spellings of one signature are stored and compared as one.
\<close>

theorem normalize_signature_canonical:
  assumes "normalize_signature (SigStr sig) = Inr out"
  shows "normalize_signature (SigStr out) = Inr out
    \<and> (\<exists>raw. out = ''0x'' @ bytes_hex raw \<and> length raw = 65 \<and> raw ! 64 \<in> {27, 28}
         \<and> 0 < from_bytes_big (take 32 raw) \<and> from_bytes_big (take 32 raw) < SECP256K1_N
         \<and> 0 < from_bytes_big (take 32 (drop 32 raw))
         \<and> from_bytes_big (take 32 (drop 32 raw)) \<le> SECP256K1_N div 2)"
proof -
  obtain raw0 where raw0: "signature_bytes (SigStr sig) = Inr raw0"
    using assms by (cases "signature_bytes (SigStr sig)") (auto simp: normalize_signature_def)
  define raw where "raw = (if raw0 ! 64 \<in> {0, 1} then raw0[64 := raw0 ! 64 + 27] else raw0)"
  have len: "length raw0 = 65" using assms raw0 by (auto simp: normalize_signature_def split: if_splits)
  have ok: "0 < from_bytes_big (take 32 raw)" "from_bytes_big (take 32 raw) < SECP256K1_N"
    "0 < from_bytes_big (take 32 (drop 32 raw))" "from_bytes_big (take 32 (drop 32 raw)) \<le> SECP256K1_N div 2"
    "raw ! 64 \<in> {27, 28}" "out = ''0x'' @ bytes_hex raw"
    using assms raw0 len by (auto simp: normalize_signature_def Let_def raw_def split: if_splits)
  have "list_all (\<lambda>b. b < 256) raw0"
    using raw0 from_hex_less by (auto simp: signature_bytes_def split: option.splits)
  then have raw: "list_all (\<lambda>b. b < 256) raw" "length raw = 65"
    using len by (auto simp: raw_def list_all_length nth_list_update)
  have "signature_bytes (SigStr out) = Inr raw"
    using from_hex_bytes_hex [OF raw(1)] by (simp add: ok(6) signature_bytes_def starts_with_def)
  then have "normalize_signature (SigStr out) = Inr out"
    using ok raw(2) by (auto simp: normalize_signature_def Let_def)
  then show ?thesis using ok raw(2) by blast
qed

lemma from_bytes_big_ones: "255 * from_bytes_big (replicate n 1) + 1 = 256 ^ n"
proof (induction n)
  case (Suc n)
  have "from_bytes_big (replicate (Suc n) 1) = from_bytes_big (replicate n 1) * 256 + 1"
    unfolding replicate_Suc replicate_append_same [symmetric] by (simp add: from_bytes_big_def)
  then show ?case using Suc by simp
qed (simp add: from_bytes_big_def)

lemma sample_signature: "\<exists>out. normalize_signature (SigStr (bytes_hex (replicate 65 1))) = Inr out"
proof -
  have 1: "bytes_hex (replicate 65 1) = CHR ''0'' # CHR ''1'' # bytes_hex (replicate 64 1)"
  proof -
    have "replicate 65 (1::nat) = 1 # replicate 64 1" using replicate_Suc [of 64 "1::nat"] by simp
    moreover have "hexd 0 = CHR ''0''" "hexd 1 = CHR ''1''" by code_simp+
    ultimately show ?thesis by (simp add: bytes_hex_def)
  qed
  have "from_hex (bytes_hex (replicate 65 1)) = Some (replicate 65 1)"
    by (rule from_hex_bytes_hex) (simp add: list_all_iff)
  then have b: "signature_bytes (SigStr (bytes_hex (replicate 65 1))) = Inr (replicate 65 1)"
    by (simp add: signature_bytes_def starts_with_def 1 del: One_nat_def)
  have x: "255 * from_bytes_big (replicate 32 1) + 1 = 256 ^ 32" by (rule from_bytes_big_ones)
  show ?thesis using x
    by (simp add: normalize_signature_def b Let_def drop_update_swap SECP256K1_N_def del: One_nat_def)
qed

theorem normalize_signature_canonical_witness:
  "\<exists>out. normalize_signature (SigStr (bytes_hex (replicate 65 1))) = Inr out \<and> normalize_signature (SigStr out) = Inr out"
  using sample_signature normalize_signature_canonical [of "bytes_hex (replicate 65 1)"] by blast

section \<open>Accepted payloads\<close>

lemma validate_payload_Inr:
  assumes "validate_payload (PyInt t) payload = Inr ()"
  shows "\<exists>kvs sch. payload = PyDict kvs \<and> EVIDENCE_PAYLOAD_SCHEMAS t = Some sch
    \<and> (\<forall>(k, v) \<in> set kvs. \<exists>f sh. k = PyStr f \<and> shape_of sch f = Some sh \<and> valid_value sh v)
    \<and> (\<forall>(f, sh) \<in> set (fst sch). \<exists>v. (PyStr f, v) \<in> set kvs)"
proof -
  obtain kvs sch where p: "payload = PyDict kvs" "EVIDENCE_PAYLOAD_SCHEMAS t = Some sch"
    and str: "list_all (\<lambda>(k, _). is_pystr k) kvs"
    and known: "\<not> list_ex (\<lambda>(k, _). shape_of sch (the_str k) = None) kvs"
    and present: "\<not> list_ex (\<lambda>(f, _). f \<notin> set (map (the_str \<circ> fst) kvs)) (fst sch)"
    and valid: "\<not> list_ex (\<lambda>(k, v). case shape_of sch (the_str k) of Some sh \<Rightarrow> \<not> valid_value sh v | None \<Rightarrow> True) kvs"
    using assms by (auto simp: validate_payload_def split: if_splits option.splits pyval.splits)
  have keys: "k = PyStr (the_str k)" if "(k, v) \<in> set kvs" for k v
    using str that by (auto simp: list_all_iff is_pystr_def split: pyval.splits)
  have "\<exists>f sh. k = PyStr f \<and> shape_of sch f = Some sh \<and> valid_value sh v" if "(k, v) \<in> set kvs" for k v
    using keys [OF that] known valid that by (fastforce simp: list_ex_iff split: option.splits)
  moreover have "\<exists>v. (PyStr f, v) \<in> set kvs" if "(f, sh) \<in> set (fst sch)" for f sh
  proof -
    have "f \<in> set (map (the_str \<circ> fst) kvs)" using present that by (fastforce simp: list_ex_iff)
    then show ?thesis using keys by auto
  qed
  ultimately show ?thesis using p by blast
qed

definition opaque :: "pyval \<Rightarrow> bool" where
  "opaque v = (case v of
      PyInt i \<Rightarrow> i \<ge> 0
    | PyStr s \<Rightarrow> hash_re s \<or> utc_rfc3339_re s \<or> s = ''settlement.v2''
    | PyList xs \<Rightarrow> xs \<noteq> [] \<and> list_all (\<lambda>x. case x of PyStr s \<Rightarrow> hash_re s | _ \<Rightarrow> False) xs
    | _ \<Rightarrow> False)"

lemma schema_shapes:
  assumes "EVIDENCE_PAYLOAD_SCHEMAS t = Some sch" "shape_of sch f = Some sh"
  shows "sh \<in> {SId, SPositiveInt, SMoney, SHash, SHashes, STimestamp, OneOf [''settlement.v2'']}"
proof -
  have "sh \<in> snd ` set (fst sch @ snd sch)"
    using assms(2) by (force simp: shape_of_def dest: map_of_SomeD split: option.splits)
  moreover have "snd ` set (fst sch @ snd sch) \<subseteq> {SId, SPositiveInt, SMoney, SHash, SHashes, STimestamp, OneOf [''settlement.v2'']}"
    using assms(1) by (simp add: EVIDENCE_PAYLOAD_SCHEMAS_def split: if_split_asm) (drule sym, simp)+
  ultimately show ?thesis by blast
qed

lemma valid_value_opaque:
  "valid_value sh v \<Longrightarrow> sh \<in> {SId, SPositiveInt, SMoney, SHash, SHashes, STimestamp, OneOf [''settlement.v2'']} \<Longrightarrow> opaque v"
  by (cases "(sh, v)" rule: valid_value.cases) (auto simp: opaque_def)

text \<open>
  C14.  What may be anchored is opaque: an accepted payload is a dictionary with string keys, its values
  are non-negative integers, hashes, lists of hashes, a UTC timestamp or the schema tag, never free text,
  and every required field of the event's schema is present.
\<close>

theorem validate_payload_opaque:
  assumes "validate_payload (PyInt t) payload = Inr ()"
  shows "\<exists>kvs sch. payload = PyDict kvs \<and> EVIDENCE_PAYLOAD_SCHEMAS t = Some sch
    \<and> (\<forall>(k, v) \<in> set kvs. is_pystr k \<and> opaque v)
    \<and> (\<forall>(f, sh) \<in> set (fst sch). \<exists>v. (PyStr f, v) \<in> set kvs)"
proof -
  obtain kvs sch where p: "payload = PyDict kvs" "EVIDENCE_PAYLOAD_SCHEMAS t = Some sch"
    and v: "\<forall>(k, v) \<in> set kvs. \<exists>f sh. k = PyStr f \<and> shape_of sch f = Some sh \<and> valid_value sh v"
    and r: "\<forall>(f, sh) \<in> set (fst sch). \<exists>v. (PyStr f, v) \<in> set kvs"
    using validate_payload_Inr [OF assms] by blast
  have "is_pystr k \<and> opaque v" if "(k, v) \<in> set kvs" for k v
  proof -
    obtain f sh where "k = PyStr f" "shape_of sch f = Some sh" "valid_value sh v" using v \<open>(k, v) \<in> set kvs\<close> by blast
    then show ?thesis using schema_shapes [OF p(2)] valid_value_opaque by (simp add: is_pystr_def)
  qed
  then show ?thesis using p r by blast
qed

definition sample_hash :: string where
  "sample_hash = replicate 64 (CHR ''0'')"

definition sample_payload :: pyval where
  "sample_payload = PyDict
     [(PyStr ''proposal_id'', PyInt 1), (PyStr ''proposal_version'', PyInt 1), (PyStr ''record_id'', PyInt 1),
      (PyStr ''amount_vnd'', PyInt 500), (PyStr ''proposal_snapshot_hash'', PyStr sample_hash),
      (PyStr ''quotation_hash'', PyStr sample_hash)]"

lemma sample_hash_ok: "is_hex64 sample_hash"
  by (simp add: is_hex64_def sample_hash_def list_all_iff is_lower_hex_def is_digit_def code_def)

lemma sample_payload_valid: "validate_payload (PyInt 1) sample_payload = Inr ()"
  by (simp add: validate_payload_def EVIDENCE_PAYLOAD_SCHEMAS_def sample_payload_def PROPOSAL_CREATED_def
      shape_of_def is_pystr_def hash_re_def sample_hash_ok)

theorem validate_payload_opaque_witness:
  "\<exists>kvs. sample_payload = PyDict kvs \<and> list_all (\<lambda>(k, v). opaque v) kvs"
  using validate_payload_opaque [OF sample_payload_valid] unfolding list_all_iff by blast

end
