(* ===== verification/Domain.thy ===== *)
theory Domain
  imports Outbox
begin

text \<open>
  The rows of maintenance and finance (\<open>maintenance/models.py\<close>, \<open>finance/models/\<close>) and the parts of a document
  row they read (\<open>documents/models.py\<close>), the full state they form with accounts and evidence, and the
  queries several services share.
\<close>

section \<open>Documents\<close>

datatype document_kind =
  ReportPhoto | Quotation | Invoice | AcceptanceReport | PaymentProof | Contract | ResidentBill

datatype scan_status = Clean | NotClean

record document_row =
  d_building :: pk
  d_kind :: document_kind

record document_version_row =
  dv_document :: pk
  dv_version :: nat
  dv_storage_key :: string
  dv_provider_version_id :: string
  dv_filename :: string
  dv_content_type :: string
  dv_byte_size :: nat
  dv_sha256 :: string
  dv_scan_status :: scan_status
  dv_uploader :: pk
  dv_created_at :: time

section \<open>Maintenance\<close>

record location_row =
  lo_building :: pk
  lo_parent :: "pk option"
  lo_name :: string
  lo_active :: bool

datatype report_status =
  RSubmitted | RInReview | RNeedsInfo | RDeclined | RInProgress | RProposed | RCompleted | RClosed

record report_row =
  rp_reporter :: pk
  rp_unit :: pk
  rp_building :: pk
  rp_text :: string
  rp_location :: pk
  rp_location_path :: string
  rp_status :: report_status
  rp_is_private :: bool
  rp_declined_reason :: string
  rp_declined_by :: "pk option"
  rp_declined_at :: "time option"
  rp_client_ref :: "string option"
  rp_created_at :: time

record report_photo_row =
  ph_report :: pk
  ph_version :: pk
  ph_content_sha :: string

datatype triage_status = TPending | TProcessing | TSucceeded | TNeedsManual

record triage_job_row =
  tj_report :: pk
  tj_status :: triage_status
  tj_failure_reason :: string
  tj_started_at :: "time option"
  tj_completed_at :: "time option"

record suggestion_row =
  ts_job :: pk
  ts_category :: string
  ts_interpreted_location :: string
  ts_urgency :: string
  ts_confidence_percent :: int
  ts_duplicate_report_ids :: "int list"
  ts_management_queue :: string
  ts_deadline_minutes :: int
  ts_missing_information :: "string list"
  ts_raw_response :: pyval
  ts_provider_request_id :: string
  ts_validation_metadata :: pyval
  ts_elapsed_ms :: int
  ts_created_at :: time

record decision_row =
  td_report :: pk
  td_suggestion :: "pk option"
  td_operator :: pk
  td_category :: string
  td_urgency :: string
  td_location :: pk
  td_management_queue :: string
  td_deadline_minutes :: int
  td_differences :: "(string \<times> pyval \<times> pyval) list"

record case_row =
  cs_decision :: pk
  cs_building :: pk
  cs_category :: string
  cs_urgency :: string
  cs_location :: pk
  cs_management_queue :: string
  cs_deadline_at :: time
  cs_active :: bool
  cs_started_at :: "time option"
  cs_completed_at :: "time option"
  cs_closed_at :: "time option"

record case_report_row =
  cr_case :: pk
  cr_report :: pk
  cr_grouped_by :: pk

record info_request_row =
  ir_report :: pk
  ir_message :: string
  ir_created_by :: pk
  ir_reply_text :: string
  ir_resolved_at :: "time option"

record work_update_row =
  wu_case :: "pk option"
  wu_proposal :: "pk option"
  wu_author :: "pk option"
  wu_cause :: string
  wu_result :: string
  wu_created_at :: time

record rating_row =
  ra_resident :: pk
  ra_case :: "pk option"
  ra_proposal :: "pk option"
  ra_satisfied :: bool
  ra_comment :: string

section \<open>Finance\<close>

datatype proposal_status = PDraft | PPublished | PNotProceeding | PInProgress | PCompleted | PClosed

record proposal_row =
  pr_case :: "pk option"
  pr_building :: pk
  pr_creator_membership :: pk
  pr_status :: proposal_status
  pr_current_version :: "pk option"
  pr_decided_by :: "pk option"
  pr_decided_at :: "time option"
  pr_decision_note :: string
  pr_public_token :: "string option"
  pr_completed_at :: "time option"
  pr_closed_at :: "time option"

record proposal_version_row =
  pv_proposal :: pk
  pv_number :: nat
  pv_amount_vnd :: int
  pv_contractor_name :: string
  pv_purpose :: string
  pv_proposed_action :: string
  pv_expected_start :: "nat option"
  pv_expected_end :: "nat option"
  pv_expected_schedule :: string
  pv_snapshot :: pyval
  pv_snapshot_hash :: string
  pv_creator_membership :: pk
  pv_outbox_event :: pk

record proposal_document_row =
  pd_version :: pk
  pd_document_version :: pk

record settlement_row =
  se_proposal :: pk
  se_amount_vnd :: int
  se_transfer :: pk
  se_settled_by :: pk
  se_settled_at :: time
  se_outbox_event :: "pk option"

datatype entry_type = OpeningBalance | Inflow | Outflow | Reversal | Replacement

record fund_row =
  fu_building :: pk

record fund_entry_row =
  fe_fund :: pk
  fe_type :: entry_type
  fe_amount_vnd :: int
  fe_evidence :: "pk option"
  fe_evidence_hash :: string
  fe_recorder :: "pk option"
  fe_proposal :: "pk option"
  fe_source_key :: string
  fe_recorded_at :: time

record fund_verification_row =
  fv_entry :: pk
  fv_membership :: pk
  fv_verified_at :: time

datatype observation_result = ObVerified | ObMismatch | ObUnavailable

record observation_row =
  vo_entry :: pk
  vo_result :: observation_result
  vo_checked_hashes :: "string list"
  vo_chain_event_ids :: "string list"
  vo_chain_consulted :: bool
  vo_details :: pyval
  vo_observed_at :: time

record ledger_entry_row =
  le_payload :: pyval
  le_case :: "pk option"
  le_proposal :: pk
  le_settlement :: pk
  le_actual_cost_vnd :: int
  le_contractor_name :: string
  le_published_at :: time

record prediction_row =
  pp_building :: pk
  pp_case :: "pk option"
  pp_category :: string
  pp_amount_vnd :: int
  pp_minimum_vnd :: int
  pp_central_vnd :: int
  pp_maximum_vnd :: int
  pp_reasoning :: string
  pp_predicted :: bool
  pp_requested_by :: pk
  pp_proposal_version :: "pk option"
  pp_created_at :: time

section \<open>The state\<close>

record domain_db = evidence_db +
  documents :: "document_row table"
  document_versions :: "document_version_row table"
  locations :: "location_row table"
  reports :: "report_row table"
  report_photos :: "report_photo_row table"
  triage_jobs :: "triage_job_row table"
  suggestions :: "suggestion_row table"
  decisions :: "decision_row table"
  cases :: "case_row table"
  case_reports :: "case_report_row table"
  info_requests :: "info_request_row table"
  work_updates :: "work_update_row table"
  ratings :: "rating_row table"
  proposals :: "proposal_row table"
  proposal_versions :: "proposal_version_row table"
  proposal_documents :: "proposal_document_row table"
  settlements :: "settlement_row table"
  funds :: "fund_row table"
  fund_entries :: "fund_entry_row table"
  fund_verifications :: "fund_verification_row table"
  observations :: "observation_row table"
  ledger :: "ledger_entry_row table"
  predictions :: "prediction_row table"

type_synonym 'z ddb = "'z domain_db_scheme"

section \<open>Shared queries\<close>

definition TERMINAL_STATUSES :: "report_status set" where
  "TERMINAL_STATUSES = {RDeclined, RCompleted, RClosed}"

text \<open>The reports linked to a case, with their rows.\<close>

definition linked :: "'z ddb \<Rightarrow> pk \<Rightarrow> pk \<Rightarrow> bool" where
  "linked db c r \<longleftrightarrow> t_exists (\<lambda>_ l. cr_case l = c \<and> cr_report l = r) (case_reports db)"

definition case_has_report :: "(report_row \<Rightarrow> bool) \<Rightarrow> 'z ddb \<Rightarrow> pk \<Rightarrow> bool" where
  "case_has_report P db c \<longleftrightarrow> t_exists (\<lambda>r row. linked db c r \<and> P row) (reports db)"

definition set_reports :: "(pk \<Rightarrow> report_row \<Rightarrow> bool) \<Rightarrow> report_status \<Rightarrow> 'z ddb \<Rightarrow> 'z ddb" where
  "set_reports P s db = db \<lparr> reports := t_update_all P (\<lambda>r. r \<lparr> rp_status := s \<rparr>) (reports db) \<rparr>"

text \<open>Every report of a case that is not in a terminal status.\<close>

definition open_report_of :: "'z ddb \<Rightarrow> pk \<Rightarrow> pk \<Rightarrow> report_row \<Rightarrow> bool" where
  "open_report_of db c k r \<longleftrightarrow> linked db c k \<and> rp_status r \<notin> TERMINAL_STATUSES"

definition active_occupancy_in :: "'z adb \<Rightarrow> pk \<Rightarrow> pk \<Rightarrow> (pk \<times> occupancy_row) option" where
  "active_occupancy_in db user building =
     t_first (\<lambda>_ oc. oc_user oc = user \<and> oc_active oc \<and>
       map_option un_building (t_get (units db) (oc_unit oc)) = Some building) (occupancies db)"

definition unit_building :: "'z adb \<Rightarrow> pk \<Rightarrow> pk" where
  "unit_building db u = (case t_get (units db) u of None \<Rightarrow> 0 | Some r \<Rightarrow> un_building r)"

definition clean_document :: "'z ddb \<Rightarrow> document_kind \<Rightarrow> pk \<Rightarrow> document_version_row \<Rightarrow> bool" where
  "clean_document db kind building v \<longleftrightarrow> dv_scan_status v = Clean \<and>
     (case t_get (documents db) (dv_document v) of
        None \<Rightarrow> False | Some d \<Rightarrow> d_kind d = kind \<and> d_building d = building)"

definition opt_int :: "nat option \<Rightarrow> pyval" where
  "opt_int n = (case n of None \<Rightarrow> PyNone | Some i \<Rightarrow> PyInt (int i))"

definition pint :: "nat \<Rightarrow> pyval" where
  "pint n = PyInt (int n)"

lemma set_reports_frame [simp]:
  "proposals (set_reports P s db) = proposals db" "cases (set_reports P s db) = cases db"
  "case_reports (set_reports P s db) = case_reports db" "memberships (set_reports P s db) = memberships db"
  "audit_log (set_reports P s db) = audit_log db" "info_requests (set_reports P s db) = info_requests db"
  "settlements (set_reports P s db) = settlements db" "fund_entries (set_reports P s db) = fund_entries db"
  "ledger (set_reports P s db) = ledger db" "outbox (set_reports P s db) = outbox db"
  "proposal_versions (set_reports P s db) = proposal_versions db" "funds (set_reports P s db) = funds db"
  "units (set_reports P s db) = units db" "occupancies (set_reports P s db) = occupancies db"
  "fund_verifications (set_reports P s db) = fund_verifications db" "ratings (set_reports P s db) = ratings db"
  "work_updates (set_reports P s db) = work_updates db" "decisions (set_reports P s db) = decisions db"
  by (simp_all add: set_reports_def)

end
