(* ===== verification/Reports.thy ===== *)
theory Reports
  imports Domain
begin

text \<open>
  Reports and triage (\<open>maintenance/reporting.py\<close>, \<open>maintenance/triage.py\<close>, the vocabularies of
  \<open>maintenance/models.py\<close>): submitting a report with its location path and photos, the idempotent entry
  point, the triage decision that opens a case, and grouping a report into a case.
\<close>

section \<open>Closed vocabularies\<close>

definition CATEGORIES :: "string list" where
  "CATEGORIES = [''ELEVATOR'', ''WATER_LEAK'', ''ELECTRICAL_FAULT'', ''HEATING_COOLING'', ''LIGHTING'', ''DOOR_LOCK'',
     ''APPLIANCE'', ''STRUCTURAL'', ''CLEANLINESS'', ''NOISE'', ''OTHER'']"

definition MANAGEMENT_QUEUES :: "string list" where
  "MANAGEMENT_QUEUES = [''MAINTENANCE'', ''PLUMBING'', ''ELECTRICAL'', ''ELEVATOR'', ''HVAC'', ''CLEANING'', ''SECURITY'',
     ''LANDSCAPING'', ''PEST_CONTROL'', ''GENERAL'']"

definition URGENCIES :: "string list" where
  "URGENCIES = [''LOW'', ''MEDIUM'', ''HIGH'']"

definition upper_char :: "char \<Rightarrow> char" where
  "upper_char c = (if 97 \<le> code c \<and> code c \<le> 122 then char_of (code c - 32) else c)"

definition code_char :: "char \<Rightarrow> bool" where
  "code_char c \<longleftrightarrow> is_upper c \<or> is_digit c"

text \<open>\<open>re.sub(r"[^A-Z0-9]+", "_", s)\<close>: every run of other characters becomes one underscore.\<close>

fun sub_runs :: "bool \<Rightarrow> string \<Rightarrow> string" where
  "sub_runs inrun [] = []"
| "sub_runs inrun (c # cs) =
     (if code_char c then c # sub_runs False cs
      else if inrun then sub_runs True cs else CHR ''_'' # sub_runs True cs)"

definition strip_underscores :: "string \<Rightarrow> string" where
  "strip_underscores s = rev (dropWhile (\<lambda>c. c = CHR ''_'') (rev (dropWhile (\<lambda>c. c = CHR ''_'') s)))"

definition label_code :: "string \<Rightarrow> string" where
  "label_code s = strip_underscores (sub_runs False (map upper_char s))"

definition normalize_category :: "string \<Rightarrow> string" where
  "normalize_category v = (let c = label_code v in if c \<in> set CATEGORIES then c else ''OTHER'')"

definition normalize_management_queue :: "string \<Rightarrow> string" where
  "normalize_management_queue v = (let c = label_code v in if c \<in> set MANAGEMENT_QUEUES then c else ''GENERAL'')"

section \<open>The location hierarchy\<close>

text \<open>
  The loop of \<open>submit_report\<close> and of \<open>_active_location\<close>: from a location to its root, refusing a repeated,
  inactive or foreign location; the names of the locations passed.
\<close>

function location_walk :: "location_row table \<Rightarrow> pk \<Rightarrow> pk list \<Rightarrow> pk \<Rightarrow> location_row \<Rightarrow> string list result" where
  "location_walk t building seen k loc =
     (if k \<in> set seen \<or> \<not> lo_active loc \<or> lo_building loc \<noteq> building then Inl ValidationError
      else (case lo_parent loc of
          None \<Rightarrow> Inr [lo_name loc]
        | Some p \<Rightarrow> (case t_get t p of
              None \<Rightarrow> Inl ValidationError
            | Some parent \<Rightarrow>
                (case location_walk t building (k # seen) p parent of
                   Inl e \<Rightarrow> Inl e
                 | Inr names \<Rightarrow> Inr (lo_name loc # names)))))"
  by auto

definition unseen :: "location_row table \<Rightarrow> pk list \<Rightarrow> pk set" where
  "unseen t seen = fst ` set (table_rows t) - set seen"

definition in_table :: "location_row table \<Rightarrow> pk \<Rightarrow> bool" where
  "in_table t k \<longleftrightarrow> k \<in> fst ` set (table_rows t)"

lemma get_in_table: "t_get t k = Some r \<Longrightarrow> in_table t k"
  by (force simp: t_get_def in_table_def dest: map_of_SomeD)

definition walk_measure :: "location_row table \<Rightarrow> pk list \<Rightarrow> pk \<Rightarrow> nat" where
  "walk_measure t seen k = 2 * card (unseen t seen) + (if in_table t k then 0 else 1)"

lemma walk_decreases:
  assumes "k \<notin> set seen" "t_get t p = Some r"
  shows "walk_measure t (k # seen) p < walk_measure t seen k"
proof (cases "in_table t k")
  case True
  have eq: "unseen t (k # seen) = unseen t seen - {k}" by (auto simp: unseen_def)
  have "k \<in> unseen t seen" "finite (unseen t seen)"
    using True assms(1) by (simp_all add: unseen_def in_table_def)
  then have "card (unseen t (k # seen)) < card (unseen t seen)" unfolding eq by (rule card_Diff1_less [rotated])
  then show ?thesis using True get_in_table [OF assms(2)] by (simp add: walk_measure_def)
next
  case False
  have "unseen t (k # seen) = unseen t seen" using False by (auto simp: unseen_def in_table_def)
  then show ?thesis using False get_in_table [OF assms(2)] by (simp add: walk_measure_def)
qed

termination location_walk
  by (relation "measure (\<lambda>(t, b, seen, k, loc). walk_measure t seen k)") (auto simp: walk_decreases)

declare location_walk.simps [simp del]

definition active_location :: "'z ddb \<Rightarrow> pk \<Rightarrow> pk \<Rightarrow> pk result" where
  "active_location db location building =
     (case t_get (locations db) location of
        None \<Rightarrow> Inl ValidationError
      | Some loc \<Rightarrow> (case location_walk (locations db) building [] location loc of
            Inl e \<Rightarrow> Inl e | Inr _ \<Rightarrow> Inr location))"

fun join_slash :: "string list \<Rightarrow> string" where
  "join_slash [] = []"
| "join_slash [x] = x"
| "join_slash (x # y # xs) = x @ '' / '' @ join_slash (y # xs)"

text \<open>\<open>BuildingLocation.path_label\<close>: the same walk bounded to a hundred steps, with no check but cycles.\<close>

fun path_names :: "nat \<Rightarrow> location_row table \<Rightarrow> pk list \<Rightarrow> pk option \<Rightarrow> string list result" where
  "path_names 0 t seen loc = Inl ValidationError"
| "path_names (Suc n) t seen None = Inr []"
| "path_names (Suc n) t seen (Some k) =
     (if k \<in> set seen then Inl ValidationError
      else (case t_get t k of
          None \<Rightarrow> Inr []
        | Some loc \<Rightarrow> (case path_names n t (k # seen) (lo_parent loc) of
              Inl e \<Rightarrow> Inl e | Inr names \<Rightarrow> Inr (lo_name loc # names))))"

definition path_label :: "'z ddb \<Rightarrow> pk \<Rightarrow> string result" where
  "path_label db k =
     (case t_get (locations db) k of
        None \<Rightarrow> Inl DoesNotExist
      | Some loc \<Rightarrow> (case path_names 100 (locations db) [] (Some k) of
            Inl e \<Rightarrow> Inl e
          | Inr names \<Rightarrow> Inr (join_slash ((case t_get (buildings db) (lo_building loc) of
                None \<Rightarrow> [] | Some b \<Rightarrow> b_name b) # rev names))))"

section \<open>Submitting a report\<close>

definition photo_ok :: "'z ddb \<Rightarrow> pk \<Rightarrow> pk \<Rightarrow> pk list \<Rightarrow> pk \<Rightarrow> document_version_row \<Rightarrow> bool" where
  "photo_ok db resident building ids k v \<longleftrightarrow> k \<in> set ids \<and> dv_uploader v = resident \<and> clean_document db ReportPhoto building v"

definition client_ref_used :: "'z ddb \<Rightarrow> pk \<Rightarrow> string \<Rightarrow> bool" where
  "client_ref_used db resident ref \<longleftrightarrow>
     t_exists (\<lambda>_ r. rp_reporter r = resident \<and> rp_client_ref r = Some ref) (reports db)"

definition submit_report ::
  "env \<Rightarrow> 'z ddb \<Rightarrow> pk \<Rightarrow> pk \<Rightarrow> string \<Rightarrow> pk \<Rightarrow> pk list \<Rightarrow> string option \<Rightarrow> bool \<Rightarrow> (pk \<times> 'z ddb) result" where
  "submit_report env db resident unit_id text0 location photo_ids client_ref is_private =
     (case t_get (units db) unit_id of
        None \<Rightarrow> Inl ValidationError
      | Some u \<Rightarrow>
          (case t_first (\<lambda>_ oc. oc_user oc = resident \<and> oc_unit oc = unit_id \<and> oc_active oc) (occupancies db) of
             None \<Rightarrow> Inl PermissionDenied
           | Some (occ, _) \<Rightarrow>
               (let text = py_strip text0; building = un_building u in
                if text = [] then Inl ValidationError
                else (case t_get (locations db) location of
                    None \<Rightarrow> Inl ValidationError
                  | Some loc \<Rightarrow>
                      (case location_walk (locations db) building [] location loc of
                         Inl e \<Rightarrow> Inl e
                       | Inr names \<Rightarrow>
                           (let path = join_slash ((case t_get (buildings db) (lo_building loc) of
                                  None \<Rightarrow> [] | Some b \<Rightarrow> b_name b) # rev names);
                                photos = t_filter (photo_ok db resident building photo_ids) (document_versions db);
                                k = next_pk (reports db) in
                            if \<not> distinct photo_ids then Inl ValidationError
                            else if length photos \<noteq> length photo_ids then Inl ValidationError
                            else if client_ref \<noteq> None \<and> client_ref_used db resident (the client_ref)
                            then Inl (IntegrityError ''report_client_ref_once'')
                            else
                              (let db1 = db \<lparr> reports := t_insert \<lparr> rp_reporter = resident, rp_unit = unit_id,
                                     rp_building = building, rp_text = text, rp_location = location,
                                     rp_location_path = path, rp_status = RSubmitted, rp_is_private = is_private,
                                     rp_declined_reason = [], rp_declined_by = None, rp_declined_at = None,
                                     rp_client_ref = client_ref, rp_created_at = now env \<rparr> (reports db),
                                   report_photos := fold (\<lambda>(v, row). t_insert \<lparr> ph_report = k, ph_version = v,
                                     ph_content_sha = dv_sha256 row \<rparr>) photos (report_photos db),
                                   triage_jobs := t_insert \<lparr> tj_report = k, tj_status = TPending,
                                     tj_failure_reason = [], tj_started_at = None, tj_completed_at = None \<rparr>
                                     (triage_jobs db) \<rparr> in
                               case record_audit env db1 resident None ''report.submit'' ''IssueReport''
                                      (nat_str k) ''accepted'' [(''occupancy_id'', pint occ)] of
                                 Inl e \<Rightarrow> Inl e
                               | Inr db2 \<Rightarrow> Inr (k, db2))))))))"

definition content_matches :: "report_row \<Rightarrow> string \<Rightarrow> pk \<Rightarrow> pk \<Rightarrow> bool \<Rightarrow> bool" where
  "content_matches r text unit_id location is_private \<longleftrightarrow>
     rp_text r = py_strip text \<and> rp_unit r = unit_id \<and> rp_location r = location \<and> rp_is_private r = is_private"

definition submit_report_idempotent ::
  "env \<Rightarrow> 'z ddb \<Rightarrow> pk \<Rightarrow> pk \<Rightarrow> string \<Rightarrow> pk \<Rightarrow> pk list \<Rightarrow> string \<Rightarrow> bool \<Rightarrow> (pk \<times> bool \<times> 'z ddb) result" where
  "submit_report_idempotent env db resident unit_id text location photo_ids client_ref is_private =
     (let existing = t_first (\<lambda>_ r. rp_reporter r = resident \<and> rp_client_ref r = Some client_ref) (reports db) in
      case existing of
        Some (k, r) \<Rightarrow>
          if content_matches r text unit_id location is_private then Inr (k, False, db) else Inl ReportClientRefConflict
      | None \<Rightarrow>
          (case submit_report env db resident unit_id text location photo_ids (Some client_ref) is_private of
             Inr (k, db') \<Rightarrow> Inr (k, True, db')
           | Inl e \<Rightarrow> Inl e))"

section \<open>Triage\<close>

definition decision_values :: "pyval \<Rightarrow> string \<Rightarrow> pyval \<Rightarrow> pyval \<Rightarrow> (string \<times> string \<times> string \<times> int) result" where
  "decision_values category urgency queue deadline =
     (case category of
        PyStr c \<Rightarrow>
          if py_strip c = [] then Inl ValidationError
          else if urgency \<notin> set URGENCIES then Inl ValidationError
          else (case queue of
              PyStr q \<Rightarrow>
                if py_strip q = [] then Inl ValidationError
                else (case deadline of
                    PyInt d \<Rightarrow>
                      if d \<le> 0 then Inl ValidationError
                      else Inr (normalize_category (py_strip c), urgency, normalize_management_queue (py_strip q), d)
                  | _ \<Rightarrow> Inl ValidationError)
            | _ \<Rightarrow> Inl ValidationError)
      | _ \<Rightarrow> Inl ValidationError)"

definition suggestion_of :: "'z ddb \<Rightarrow> pk \<Rightarrow> (pk \<times> suggestion_row) option" where
  "suggestion_of db report =
     t_first (\<lambda>_ s. map_option tj_report (t_get (triage_jobs db) (ts_job s)) = Some report) (suggestions db)"

definition differences_from :: "suggestion_row option \<Rightarrow> string \<Rightarrow> string \<Rightarrow> string \<Rightarrow> int \<Rightarrow> (string \<times> pyval \<times> pyval) list" where
  "differences_from s category urgency queue deadline =
     (case s of
        None \<Rightarrow> []
      | Some sg \<Rightarrow> filter (\<lambda>(_, suggested, chosen). suggested \<noteq> chosen)
          [(''category'', PyStr (ts_category sg), PyStr category), (''urgency'', PyStr (ts_urgency sg), PyStr urgency),
           (''management_queue'', PyStr (ts_management_queue sg), PyStr queue),
           (''deadline_minutes'', PyInt (ts_deadline_minutes sg), PyInt deadline)])"

text \<open>The differences as the audit event records them.\<close>

definition differences_dict :: "(string \<times> pyval \<times> pyval) list \<Rightarrow> pyval" where
  "differences_dict ds = PyDict (map (\<lambda>(key, suggested, chosen). (PyStr key,
     PyDict [(PyStr ''suggested'', suggested), (PyStr ''chosen'', chosen)])) ds)"

text \<open>
  Inserting a link between a case and a report: the trigger \<open>case_report_one_active_case\<close> refuses a report
  that another active case holds, the unique constraint a second link of the same pair.
\<close>

definition in_other_active_case :: "'z ddb \<Rightarrow> pk \<Rightarrow> pk \<Rightarrow> bool" where
  "in_other_active_case db c r \<longleftrightarrow>
     t_exists (\<lambda>_ l. cr_report l = r \<and> cr_case l \<noteq> c \<and>
       (case t_get (cases db) (cr_case l) of None \<Rightarrow> False | Some row \<Rightarrow> cs_active row)) (case_reports db)"

definition link_report :: "pk \<Rightarrow> pk \<Rightarrow> pk \<Rightarrow> 'z ddb \<Rightarrow> (pk \<times> 'z ddb) result" where
  "link_report c r by db =
     (if in_other_active_case db c r then Inl (IntegrityError ''case_report_one_active_case'')
      else if linked db c r then Inl (IntegrityError ''case_report_once'')
      else Inr (next_pk (case_reports db),
        db \<lparr> case_reports := t_insert \<lparr> cr_case = c, cr_report = r, cr_grouped_by = by \<rparr> (case_reports db) \<rparr>))"

definition confirm_triage ::
  "env \<Rightarrow> 'z ddb \<Rightarrow> pk \<Rightarrow> pk \<Rightarrow> pyval \<Rightarrow> string \<Rightarrow> pk \<Rightarrow> pyval \<Rightarrow> pyval \<Rightarrow> (pk \<times> 'z ddb) result" where
  "confirm_triage env db report operator category0 urgency0 location queue0 deadline0 =
     (case t_get (reports db) report of
        None \<Rightarrow> Inl ValidationError
      | Some r \<Rightarrow>
          (let building = unit_building db (rp_unit r) in
           case require_management db operator building of
             Inl e \<Rightarrow> Inl e
           | Inr m \<Rightarrow> (case active_location db location building of
                 Inl e \<Rightarrow> Inl e
               | Inr loc \<Rightarrow> (case decision_values category0 urgency0 queue0 deadline0 of
                     Inl e \<Rightarrow> Inl e
                   | Inr (category, urgency, queue, deadline) \<Rightarrow>
                       (let suggestion = suggestion_of db report in
                        case t_first (\<lambda>_ d. td_report d = report) (decisions db) of
                          Some (d, _) \<Rightarrow>
                            (case t_first (\<lambda>_ c. cs_decision c = d) (cases db) of
                               None \<Rightarrow> Inl DoesNotExist | Some (c, _) \<Rightarrow> Inr (c, db))
                        | None \<Rightarrow>
                            (let diffs = differences_from (map_option snd suggestion) category urgency queue deadline;
                                 d = next_pk (decisions db); c = next_pk (cases db);
                                 db1 = db \<lparr> decisions := t_insert \<lparr> td_report = report,
                                     td_suggestion = map_option fst suggestion, td_operator = operator,
                                     td_category = category, td_urgency = urgency, td_location = loc,
                                     td_management_queue = queue, td_deadline_minutes = deadline,
                                     td_differences = diffs \<rparr> (decisions db),
                                   cases := t_insert \<lparr> cs_decision = d, cs_building = building, cs_category = category,
                                     cs_urgency = urgency, cs_location = loc, cs_management_queue = queue,
                                     cs_deadline_at = now env + minutes deadline, cs_active = True,
                                     cs_started_at = None, cs_completed_at = None, cs_closed_at = None \<rparr> (cases db) \<rparr> in
                             case link_report c report operator db1 of
                               Inl e \<Rightarrow> Inl e
                             | Inr (_, db2) \<Rightarrow>
                                 (case record_audit env db2 operator (Some m) ''triage.confirm'' ''MaintenanceCase''
                                         (nat_str c) ''accepted''
                                         [(''report_id'', pint report), (''differences'', differences_dict diffs)] of
                                    Inl e \<Rightarrow> Inl e | Inr db3 \<Rightarrow> Inr (c, db3))))))))"

definition case_proposal :: "'z ddb \<Rightarrow> pk \<Rightarrow> (pk \<times> proposal_row) option" where
  "case_proposal db c = t_first (\<lambda>_ p. pr_case p = Some c) (proposals db)"

definition group_report :: "env \<Rightarrow> 'z ddb \<Rightarrow> pk \<Rightarrow> pk \<Rightarrow> pk \<Rightarrow> (pk \<times> 'z ddb) result" where
  "group_report env db c report operator =
     (case (t_get (cases db) c, t_get (reports db) report) of
        (Some cs, Some r) \<Rightarrow>
          if \<not> cs_active cs then Inl ValidationError
          else (case require_management db operator (cs_building cs) of
              Inl e \<Rightarrow> Inl e
            | Inr m \<Rightarrow>
                if unit_building db (rp_unit r) \<noteq> cs_building cs then Inl ValidationError
                else (case t_first (\<lambda>_ l. cr_report l = report \<and>
                        (case t_get (cases db) (cr_case l) of None \<Rightarrow> False | Some row \<Rightarrow> cs_active row)) (case_reports db) of
                    Some (l, link) \<Rightarrow> if cr_case link = c then Inr (l, db) else Inl ValidationError
                  | None \<Rightarrow>
                      (let status = (if case_has_report (\<lambda>x. rp_status x = RInProgress) db c then RInProgress
                                     else if case_proposal db c \<noteq> None then RProposed else RInReview) in
                       if rp_is_private r \<and> status = RProposed then Inl ValidationError
                       else (case link_report c report operator db of
                           Inl e \<Rightarrow> Inl e
                         | Inr (l, db1) \<Rightarrow>
                             (case record_audit env (set_reports (\<lambda>k _. k = report) status db1) operator (Some m)
                                     ''case.group'' ''CaseReport'' (nat_str l) ''accepted''
                                     [(''case_id'', pint c), (''report_id'', pint report)] of
                                Inl e \<Rightarrow> Inl e | Inr db2 \<Rightarrow> Inr (l, db2))))))
      | _ \<Rightarrow> Inl ValidationError)"

end
