(* ===== verification/Cases.thy ===== *)
theory Cases
  imports Reports
begin

text \<open>
  The outcome services on reports and cases (\<open>maintenance/cases.py\<close>) and residents' ratings
  (\<open>maintenance/ratings.py\<close>).  Every operation is one transaction: an \<open>Inl\<close> leaves the database unchanged.
  Notification hooks run inside \<open>try/except\<close> and do not touch these tables.
\<close>

definition RATING_WINDOW_DAYS :: int where "RATING_WINDOW_DAYS = 14"

section \<open>Guards\<close>

definition locked_case :: "'z ddb \<Rightarrow> pk \<Rightarrow> case_row result" where
  "locked_case db c =
     (case t_get (cases db) c of
        None \<Rightarrow> Inl ValidationError
      | Some cs \<Rightarrow> if \<not> cs_active cs \<or> cs_completed_at cs \<noteq> None then Inl ValidationError else Inr cs)"

definition started_case :: "'z ddb \<Rightarrow> pk \<Rightarrow> case_row result" where
  "started_case db c =
     (case locked_case db c of
        Inl e \<Rightarrow> Inl e
      | Inr cs \<Rightarrow> if cs_started_at cs = None then Inl ValidationError else Inr cs)"

definition append_update ::
  "env \<Rightarrow> pk option \<Rightarrow> pk \<Rightarrow> string \<Rightarrow> string \<Rightarrow> pk option \<Rightarrow> 'z ddb \<Rightarrow> (pk \<times> 'z ddb) result" where
  "append_update env c manager cause res proposal db =
     (if py_strip cause = [] \<or> py_strip res = [] then Inl ValidationError
      else Inr (next_pk (work_updates db), db \<lparr> work_updates := t_insert \<lparr> wu_case = c, wu_proposal = proposal,
        wu_author = Some manager, wu_cause = py_strip cause, wu_result = py_strip res, wu_created_at = now env \<rparr>
        (work_updates db) \<rparr>))"

definition proposal_awaiting_decision :: "'z ddb \<Rightarrow> pk \<Rightarrow> (pk \<times> proposal_row) option" where
  "proposal_awaiting_decision db c = t_first (\<lambda>_ p. pr_case p = Some c \<and> pr_status p = PPublished) (proposals db)"

definition standalone_in_progress :: "'z ddb \<Rightarrow> pk \<Rightarrow> proposal_row result" where
  "standalone_in_progress db p =
     (case t_get (proposals db) p of
        None \<Rightarrow> Inl ValidationError
      | Some pr \<Rightarrow> if pr_case pr \<noteq> None \<or> pr_status pr \<noteq> PInProgress then Inl ValidationError else Inr pr)"

definition set_case :: "pk \<Rightarrow> (case_row \<Rightarrow> case_row) \<Rightarrow> 'z ddb \<Rightarrow> 'z ddb" where
  "set_case c f db = db \<lparr> cases := t_update c f (cases db) \<rparr>"

definition set_proposal :: "pk \<Rightarrow> (proposal_row \<Rightarrow> proposal_row) \<Rightarrow> 'z ddb \<Rightarrow> 'z ddb" where
  "set_proposal p f db = db \<lparr> proposals := t_update p f (proposals db) \<rparr>"

section \<open>Work on a case\<close>

definition start_case_work :: "env \<Rightarrow> 'z ddb \<Rightarrow> pk \<Rightarrow> pk \<Rightarrow> 'z ddb result" where
  "start_case_work env db c manager =
     (case locked_case db c of
        Inl e \<Rightarrow> Inl e
      | Inr cs \<Rightarrow> (case require_management db manager (cs_building cs) of
            Inl e \<Rightarrow> Inl e
          | Inr m \<Rightarrow>
              if proposal_awaiting_decision db c \<noteq> None then Inl ValidationError
              else
                (let db1 = (if cs_started_at cs = None
                            then set_case c (\<lambda>r. r \<lparr> cs_started_at := Some (now env) \<rparr>) db else db);
                     db2 = set_reports (open_report_of db1 c) RInProgress db1 in
                 record_audit env db2 manager (Some m) ''case.work_started'' ''MaintenanceCase'' (nat_str c) ''accepted'' [])))"

definition publish_progress ::
  "env \<Rightarrow> 'z ddb \<Rightarrow> pk option \<Rightarrow> pk \<Rightarrow> string \<Rightarrow> string \<Rightarrow> pk option \<Rightarrow> (pk \<times> 'z ddb) result" where
  "publish_progress env db c manager cause res proposal =
     (if (c = None) = (proposal = None) then Inl ValidationError
      else
        (case (case c of
                 Some k \<Rightarrow> (case started_case db k of Inl e \<Rightarrow> Inl e | Inr cs \<Rightarrow> Inr (cs_building cs))
               | None \<Rightarrow> (case proposal of
                     None \<Rightarrow> Inl ValidationError
                   | Some p \<Rightarrow> (case standalone_in_progress db p of Inl e \<Rightarrow> Inl e | Inr pr \<Rightarrow> Inr (pr_building pr)))) of
           Inl e \<Rightarrow> Inl e
         | Inr building \<Rightarrow> (case require_management db manager building of
               Inl e \<Rightarrow> Inl e
             | Inr m \<Rightarrow> (case append_update env c manager cause res proposal db of
                   Inl e \<Rightarrow> Inl e
                 | Inr (u, db1) \<Rightarrow>
                     (case record_audit env db1 manager (Some m) ''case.progress_published'' ''WorkUpdate'' (nat_str u)
                             ''accepted'' [(''case_id'', opt_int c), (''proposal_id'', opt_int proposal)] of
                        Inl e \<Rightarrow> Inl e | Inr db2 \<Rightarrow> Inr (u, db2))))))"

definition complete_proposal_work :: "env \<Rightarrow> 'z ddb \<Rightarrow> pk \<Rightarrow> pk \<Rightarrow> string \<Rightarrow> string \<Rightarrow> 'z ddb result" where
  "complete_proposal_work env db p manager cause res =
     (case standalone_in_progress db p of
        Inl e \<Rightarrow> Inl e
      | Inr pr \<Rightarrow> (case require_management db manager (pr_building pr) of
            Inl e \<Rightarrow> Inl e
          | Inr m \<Rightarrow> (case append_update env None manager cause res (Some p) db of
                Inl e \<Rightarrow> Inl e
              | Inr (u, db1) \<Rightarrow>
                  record_audit env (set_proposal p (\<lambda>r. r \<lparr> pr_status := PCompleted, pr_completed_at := Some (now env) \<rparr>) db1)
                    manager (Some m) ''proposal.work_completed'' ''Proposal'' (nat_str p) ''accepted''
                    [(''work_update_id'', pint u)])))"

definition complete_case_work :: "env \<Rightarrow> 'z ddb \<Rightarrow> pk \<Rightarrow> pk \<Rightarrow> string \<Rightarrow> string \<Rightarrow> 'z ddb result" where
  "complete_case_work env db c manager cause res =
     (case started_case db c of
        Inl e \<Rightarrow> Inl e
      | Inr cs \<Rightarrow> (case require_management db manager (cs_building cs) of
            Inl e \<Rightarrow> Inl e
          | Inr m \<Rightarrow> (case append_update env (Some c) manager cause res None db of
                Inl e \<Rightarrow> Inl e
              | Inr (u, db1) \<Rightarrow>
                  (let db2 = set_case c (\<lambda>r. r \<lparr> cs_completed_at := Some (now env) \<rparr>) db1;
                       db3 = (case t_first (\<lambda>_ p. pr_case p = Some c \<and> pr_status p = PInProgress) (proposals db2) of
                           None \<Rightarrow> db2
                         | Some (p, _) \<Rightarrow> set_proposal p (\<lambda>r. r \<lparr> pr_status := PCompleted,
                             pr_completed_at := Some (now env) \<rparr>) db2);
                       db4 = set_reports (open_report_of db3 c) RCompleted db3 in
                   record_audit env db4 manager (Some m) ''case.work_completed'' ''MaintenanceCase'' (nat_str c)
                     ''accepted'' [(''work_update_id'', pint u)]))))"

section \<open>Closing\<close>

definition close_case :: "time \<Rightarrow> pk \<Rightarrow> 'z ddb \<Rightarrow> 'z ddb" where
  "close_case t c db =
     set_case c (\<lambda>r. r \<lparr> cs_active := False, cs_closed_at := Some t \<rparr>)
       (set_reports (\<lambda>k r. linked db c k \<and> rp_status r = RCompleted) RClosed db)"

definition window_over :: "time \<Rightarrow> time option \<Rightarrow> bool" where
  "window_over t completed = (case completed of None \<Rightarrow> False | Some d \<Rightarrow> d \<le> t - days RATING_WINDOW_DAYS)"

definition proposal_close_at :: "'z ddb \<Rightarrow> pk \<Rightarrow> time \<Rightarrow> time" where
  "proposal_close_at db p completed =
     (let close_at = completed + days RATING_WINDOW_DAYS in
      case t_first (\<lambda>_ s. se_proposal s = p) (settlements db) of
        None \<Rightarrow> close_at
      | Some (_, s) \<Rightarrow> if se_settled_at s > close_at then se_settled_at s else close_at)"

definition close_proposal :: "time \<Rightarrow> pk \<times> proposal_row \<Rightarrow> nat \<times> 'z ddb \<Rightarrow> nat \<times> 'z ddb" where
  "close_proposal t pp st =
     (case (pp, st) of ((p, pr), (n, db)) \<Rightarrow>
        if t < proposal_close_at db p (case pr_completed_at pr of None \<Rightarrow> t | Some d \<Rightarrow> d) then (n, db)
        else (Suc n, set_proposal p (\<lambda>r. r \<lparr> pr_status := PClosed, pr_closed_at := Some t \<rparr>) db))"

definition close_expired_completed_cases :: "time \<Rightarrow> 'z ddb \<Rightarrow> nat \<times> 'z ddb" where
  "close_expired_completed_cases t db =
     (let due = t_filter (\<lambda>_ c. window_over t (cs_completed_at c) \<and> cs_closed_at c = None) (cases db);
          db1 = fold (\<lambda>(c, _). close_case t c) due db;
          ps = t_filter (\<lambda>_ p. pr_case p = None \<and> pr_status p = PCompleted \<and> window_over t (pr_completed_at p)
                 \<and> pr_closed_at p = None) (proposals db1);
          (n, db2) = fold (close_proposal t) ps (0, db1) in
      (length due + n, db2))"

section \<open>Information requests and declining\<close>

definition request_information :: "env \<Rightarrow> 'z ddb \<Rightarrow> pk \<Rightarrow> pk \<Rightarrow> string \<Rightarrow> (pk \<times> 'z ddb) result" where
  "request_information env db report manager message =
     (case t_get (reports db) report of
        None \<Rightarrow> Inl ValidationError
      | Some r \<Rightarrow> (case require_management db manager (unit_building db (rp_unit r)) of
            Inl e \<Rightarrow> Inl e
          | Inr m \<Rightarrow>
              if rp_status r \<in> TERMINAL_STATUSES then Inl ValidationError
              else if py_strip message = [] then Inl ValidationError
              else if t_exists (\<lambda>_ i. ir_report i = report \<and> ir_resolved_at i = None) (info_requests db) then Inl ValidationError
              else
                (let k = next_pk (info_requests db);
                     db1 = db \<lparr> info_requests := t_insert \<lparr> ir_report = report, ir_message = py_strip message,
                       ir_created_by = manager, ir_reply_text = [], ir_resolved_at = None \<rparr> (info_requests db) \<rparr>;
                     db2 = set_reports (\<lambda>i _. i = report) RNeedsInfo db1 in
                 case record_audit env db2 manager (Some m) ''request.info_requested'' ''InfoRequest'' (nat_str k)
                        ''accepted'' [(''report_id'', pint report)] of
                   Inl e \<Rightarrow> Inl e | Inr db3 \<Rightarrow> Inr (k, db3))))"

definition reply_information :: "env \<Rightarrow> 'z ddb \<Rightarrow> pk \<Rightarrow> pk \<Rightarrow> string \<Rightarrow> (pk \<times> 'z ddb) result" where
  "reply_information env db resident report text =
     (case t_get (reports db) report of
        None \<Rightarrow> Inl ValidationError
      | Some r \<Rightarrow>
          if rp_reporter r \<noteq> resident then Inl PermissionDenied
          else (case t_first (\<lambda>_ i. ir_report i = report \<and> ir_resolved_at i = None) (info_requests db) of
              None \<Rightarrow> Inl ValidationError
            | Some (k, _) \<Rightarrow>
                if py_strip text = [] then Inl ValidationError
                else (case active_occupancy_in db resident (unit_building db (rp_unit r)) of
                    None \<Rightarrow> Inl PermissionDenied
                  | Some (occ, _) \<Rightarrow>
                      (let db1 = db \<lparr> info_requests := t_update k (\<lambda>i. i \<lparr> ir_reply_text := py_strip text,
                             ir_resolved_at := Some (now env) \<rparr>) (info_requests db) \<rparr>;
                           db2 = set_reports (\<lambda>i _. i = report) RInReview db1 in
                       case record_audit env db2 resident None ''request.info_replied'' ''InfoRequest'' (nat_str k)
                              ''accepted'' [(''report_id'', pint report), (''occupancy_id'', pint occ)] of
                         Inl e \<Rightarrow> Inl e | Inr db3 \<Rightarrow> Inr (k, db3)))))"

text \<open>A case that the declined report leaves with no open report is closed.\<close>

definition only_open_report :: "'z ddb \<Rightarrow> pk \<Rightarrow> pk \<Rightarrow> bool" where
  "only_open_report db c report \<longleftrightarrow>
     \<not> t_exists (\<lambda>_ l. cr_case l = c \<and> cr_report l \<noteq> report \<and>
         (case t_get (reports db) (cr_report l) of None \<Rightarrow> False | Some r \<Rightarrow> rp_status r \<notin> TERMINAL_STATUSES)) (case_reports db)"

definition decline_close :: "time \<Rightarrow> pk \<Rightarrow> pk \<times> case_report_row \<Rightarrow> 'z ddb \<Rightarrow> 'z ddb" where
  "decline_close t report l db =
     (let c = cr_case (snd l) in
      case t_get (cases db) c of
        None \<Rightarrow> db
      | Some cs \<Rightarrow>
          if cs_active cs \<and> only_open_report db c report
          then set_case c (\<lambda>r. r \<lparr> cs_active := False, cs_closed_at := Some t \<rparr>) db else db)"

definition decline_report :: "env \<Rightarrow> 'z ddb \<Rightarrow> pk \<Rightarrow> pk \<Rightarrow> string \<Rightarrow> 'z ddb result" where
  "decline_report env db report manager reason0 =
     (case t_get (reports db) report of
        None \<Rightarrow> Inl ValidationError
      | Some r \<Rightarrow> (case require_management db manager (unit_building db (rp_unit r)) of
            Inl e \<Rightarrow> Inl e
          | Inr m \<Rightarrow>
              (let reason = py_strip reason0 in
               if rp_status r \<in> TERMINAL_STATUSES then Inl ValidationError
               else if reason = [] then Inl ValidationError
               else
                 (let db1 = db \<lparr> reports := t_update report (\<lambda>x. x \<lparr> rp_status := RDeclined, rp_declined_reason := reason,
                        rp_declined_by := Some manager, rp_declined_at := Some (now env) \<rparr>) (reports db) \<rparr>;
                      db2 = fold (decline_close (now env) report) (t_filter (\<lambda>_ l. cr_report l = report) (case_reports db1)) db1 in
                  record_audit env db2 manager (Some m) ''request.declined'' ''IssueReport'' (nat_str report) ''accepted''
                    [(''reason_length'', pint (py_len reason))]))))"

section \<open>Ratings\<close>

definition rating_comment :: "pyval \<Rightarrow> string result" where
  "rating_comment v =
     (case v of
        PyNone \<Rightarrow> Inr []
      | PyStr s \<Rightarrow> if py_len (py_strip s) > 500 then Inl ValidationError else Inr (py_strip s)
      | _ \<Rightarrow> Inl ValidationError)"

definition rate_completed_case :: "env \<Rightarrow> 'z ddb \<Rightarrow> pk \<Rightarrow> pk \<Rightarrow> pyval \<Rightarrow> pyval \<Rightarrow> (pk \<times> 'z ddb) result" where
  "rate_completed_case env db resident c satisfied comment0 =
     (case t_get (cases db) c of
        None \<Rightarrow> Inl ValidationError
      | Some cs \<Rightarrow>
          if cs_completed_at cs = None then Inl ValidationError
          else (case satisfied of
              PyBool sat \<Rightarrow> (case rating_comment comment0 of
                  Inl e \<Rightarrow> Inl e
                | Inr comment \<Rightarrow>
                    if \<not> case_has_report (\<lambda>r. rp_reporter r = resident) db c then Inl PermissionDenied
                    else (case active_occupancy_in db resident (cs_building cs) of
                        None \<Rightarrow> Inl PermissionDenied
                      | Some (occ, _) \<Rightarrow>
                          if t_exists (\<lambda>_ x. ra_resident x = resident \<and> ra_case x = Some c) (ratings db) then Inl ValidationError
                          else
                            (let k = next_pk (ratings db);
                                 db1 = db \<lparr> ratings := t_insert \<lparr> ra_resident = resident, ra_case = Some c,
                                   ra_proposal = None, ra_satisfied = sat, ra_comment = comment \<rparr> (ratings db) \<rparr> in
                             case record_audit env db1 resident None ''work.rate'' ''CompletionRating'' (nat_str k) ''accepted''
                                    [(''occupancy_id'', pint occ), (''case_id'', pint c)] of
                               Inl e \<Rightarrow> Inl e
                             | Inr db2 \<Rightarrow>
                                 (let db3 = set_reports (\<lambda>i r. linked db2 c i \<and> rp_reporter r = resident \<and>
                                        rp_status r = RCompleted) RClosed db2 in
                                  Inr (k, if \<not> case_has_report (\<lambda>r. rp_status r \<notin> TERMINAL_STATUSES) db3 c
                                    then set_case c (\<lambda>r. r \<lparr> cs_active := False, cs_closed_at := Some (now env) \<rparr>) db3
                                    else db3)))))
            | _ \<Rightarrow> Inl ValidationError))"

definition rate_completed_proposal :: "env \<Rightarrow> 'z ddb \<Rightarrow> pk \<Rightarrow> pk \<Rightarrow> pyval \<Rightarrow> pyval \<Rightarrow> (pk \<times> 'z ddb) result" where
  "rate_completed_proposal env db resident p satisfied comment0 =
     (case t_get (proposals db) p of
        None \<Rightarrow> Inl ValidationError
      | Some pr \<Rightarrow>
          if pr_case pr \<noteq> None then Inl ValidationError
          else if pr_status pr \<noteq> PCompleted \<or> pr_completed_at pr = None then Inl ValidationError
          else (case satisfied of
              PyBool sat \<Rightarrow> (case rating_comment comment0 of
                  Inl e \<Rightarrow> Inl e
                | Inr comment \<Rightarrow> (case active_occupancy_in db resident (pr_building pr) of
                      None \<Rightarrow> Inl PermissionDenied
                    | Some (occ, _) \<Rightarrow>
                        if t_exists (\<lambda>_ x. ra_resident x = resident \<and> ra_proposal x = Some p) (ratings db) then Inl ValidationError
                        else
                          (let k = next_pk (ratings db);
                               db1 = db \<lparr> ratings := t_insert \<lparr> ra_resident = resident, ra_case = None,
                                 ra_proposal = Some p, ra_satisfied = sat, ra_comment = comment \<rparr> (ratings db) \<rparr> in
                           case record_audit env db1 resident None ''work.rate'' ''CompletionRating'' (nat_str k) ''accepted''
                                  [(''occupancy_id'', pint occ), (''proposal_id'', pint p)] of
                             Inl e \<Rightarrow> Inl e | Inr db2 \<Rightarrow> Inr (k, db2))))
            | _ \<Rightarrow> Inl ValidationError))"

end
