(* ===== verification/Proposals.thy ===== *)
theory Proposals
  imports Cases
begin

text \<open>
  Spending proposals (\<open>finance/proposals.py\<close>): creation for a case or standalone, the Proceed decision, and
  publication of a version, which freezes a snapshot, queues its evidence event chained to the previous
  version and makes the version current.
\<close>

definition ZERO_HASH :: string where
  "ZERO_HASH = ''0x'' @ replicate 64 (CHR ''0'')"

definition BIGINT_MAX :: int where "BIGINT_MAX = 2 ^ 63 - 1"

section \<open>Dates\<close>

text \<open>A date is its number of days after 0001-01-01.  A date given as text is read in the form \<open>YYYY-MM-DD\<close>.\<close>

datatype date_arg = NoDate | Date nat | DateText string

definition date_fields :: "nat \<Rightarrow> nat \<times> nat \<times> nat" where
  "date_fields n = (let (y, doy) = year_of 1 n; (m, d) = month_of 1 (month_lens y) doy in (y, m, Suc d))"

definition isoformat :: "nat \<Rightarrow> string" where
  "isoformat n = (let (y, m, d) = date_fields n in pad4 y @ ''-'' @ pad2 m @ ''-'' @ pad2 d)"

definition strftime_dmy :: "nat \<Rightarrow> string" where
  "strftime_dmy n = (let (y, m, d) = date_fields n in pad2 d @ ''/'' @ pad2 m @ ''/'' @ nat_str y)"

definition ordinal :: "nat \<Rightarrow> nat \<Rightarrow> nat \<Rightarrow> nat" where
  "ordinal y m d = sum_list (map year_len [1..<y]) + sum_list (take (m - 1) (month_lens y)) + (d - 1)"

definition date_fromisoformat :: "string \<Rightarrow> nat result" where
  "date_fromisoformat s =
     (let y = read_nat (take 4 s); m = read_nat (take 2 (drop 5 s)); d = read_nat (take 2 (drop 8 s)) in
      if matches ''dddd-dd-dd'' s \<and> 1 \<le> y \<and> 1 \<le> d \<and> d \<le> days_in_month y m then Inr (ordinal y m d) else Inl ValueError)"

definition resolve_date :: "date_arg \<Rightarrow> nat option result" where
  "resolve_date a =
     (case a of
        NoDate \<Rightarrow> Inr None
      | Date n \<Rightarrow> Inr (Some n)
      | DateText s \<Rightarrow>
          if py_strip s = [] then Inr None
          else (case date_fromisoformat (py_strip s) of Inl e \<Rightarrow> Inl e | Inr n \<Rightarrow> Inr (Some n)))"

definition en_dash :: string where
  "en_dash = [CHR 0xE2, CHR 0x80, CHR 0x93]"

definition to_be_scheduled :: string where
  "to_be_scheduled = ''To be scheduled''"

definition resolve_schedule_and_dates ::
  "date_arg \<Rightarrow> date_arg \<Rightarrow> string \<Rightarrow> (nat option \<times> nat option \<times> string) result" where
  "resolve_schedule_and_dates start0 end0 schedule =
     (case resolve_date start0 of
        Inl e \<Rightarrow> Inl e
      | Inr st \<Rightarrow> (case resolve_date end0 of
            Inl e \<Rightarrow> Inl e
          | Inr en \<Rightarrow>
              (case (st, en) of
                 (Some s, Some e) \<Rightarrow>
                   if e < s then Inl ValidationError
                   else Inr (st, en, strftime_dmy s @ '' '' @ en_dash @ '' '' @ strftime_dmy e)
               | (None, None) \<Rightarrow>
                   if py_strip schedule \<noteq> [] then Inr (None, None, py_strip schedule)
                   else Inr (None, None, to_be_scheduled)
               | _ \<Rightarrow> Inl ValidationError)))"

section \<open>Quotations and the snapshot\<close>

definition quotation_versions :: "'z ddb \<Rightarrow> pk \<Rightarrow> pk list \<Rightarrow> (pk \<times> document_version_row) list result" where
  "quotation_versions db building ids =
     (if ids = [] \<or> \<not> distinct ids then Inl ValidationError
      else if \<not> list_all (\<lambda>i. t_get (document_versions db) i \<noteq> None) ids then Inl ValidationError
      else
        (let vs = map (\<lambda>i. (i, the (t_get (document_versions db) i))) ids in
         if list_all (\<lambda>(_, v). clean_document db Quotation building v) vs then Inr vs else Inl ValidationError))"

definition opt_date :: "nat option \<Rightarrow> pyval" where
  "opt_date d = (case d of None \<Rightarrow> PyNone | Some n \<Rightarrow> PyStr (isoformat n))"

definition quotation_snapshot :: "(pk \<times> document_version_row) list \<Rightarrow> pyval" where
  "quotation_snapshot vs =
     PyList (map (\<lambda>(k, v). PyDict [(PyStr ''version_id'', pint k), (PyStr ''sha256'', PyStr (dv_sha256 v))]) vs)"

definition build_snapshot ::
  "pk \<Rightarrow> proposal_row \<Rightarrow> int \<Rightarrow> string \<Rightarrow> string \<Rightarrow> string \<Rightarrow> string \<Rightarrow> (pk \<times> document_version_row) list
     \<Rightarrow> nat \<Rightarrow> nat option \<Rightarrow> nat option \<Rightarrow> pyval" where
  "build_snapshot p pr amount contractor purpose action schedule vs number st en =
     PyDict [(PyStr ''proposal_id'', pint p), (PyStr ''proposal_version'', pint number), (PyStr ''case_id'', opt_int (pr_case pr)),
       (PyStr ''building_id'', pint (pr_building pr)), (PyStr ''amount_vnd'', PyInt amount),
       (PyStr ''contractor_name'', PyStr contractor), (PyStr ''purpose'', PyStr purpose),
       (PyStr ''proposed_action'', PyStr action), (PyStr ''expected_start'', opt_date st),
       (PyStr ''expected_end'', opt_date en), (PyStr ''expected_schedule'', PyStr schedule),
       (PyStr ''quotation_versions'', quotation_snapshot vs)]"

definition case_snapshot :: "pk \<Rightarrow> case_row \<Rightarrow> pyval" where
  "case_snapshot c cs = PyDict [(PyStr ''case_id'', pint c), (PyStr ''category'', PyStr (cs_category cs)),
     (PyStr ''management_queue'', PyStr (cs_management_queue cs)), (PyStr ''location_id'', pint (cs_location cs))]"

definition hash_of :: "env \<Rightarrow> pyval \<Rightarrow> string result" where
  "hash_of env v = payload_hash (nfc env) (sha256_hex env) v"

text \<open>\<open>_submission_snapshot\<close>: the snapshot and the evidence payload that carries its hash.\<close>

definition submission_snapshot ::
  "env \<Rightarrow> 'z ddb \<Rightarrow> pk \<Rightarrow> proposal_row \<Rightarrow> int \<Rightarrow> string \<Rightarrow> string \<Rightarrow> string \<Rightarrow> string \<Rightarrow> (pk \<times> document_version_row) list
     \<Rightarrow> nat \<Rightarrow> nat option \<Rightarrow> nat option \<Rightarrow> (pyval \<times> (pyval \<times> pyval) list) result" where
  "submission_snapshot env db p pr amount contractor purpose action schedule vs number st en =
     (let snapshot = build_snapshot p pr amount contractor purpose action schedule vs number st en in
      case hash_of env snapshot of
        Inl e \<Rightarrow> Inl e
      | Inr sh \<Rightarrow> (case hash_of env (PyList (map (\<lambda>(_, v). PyStr (dv_sha256 v)) vs)) of
            Inl e \<Rightarrow> Inl e
          | Inr qh \<Rightarrow>
              (let base = [(PyStr ''proposal_id'', pint p), (PyStr ''proposal_version'', pint number), (PyStr ''record_id'', pint p),
                     (PyStr ''building_id'', pint (pr_building pr)), (PyStr ''amount_vnd'', PyInt amount),
                     (PyStr ''proposal_snapshot_hash'', PyStr sh), (PyStr ''quotation_hash'', PyStr qh)] in
               case pr_case pr of
                 None \<Rightarrow> Inr (snapshot, base)
               | Some c \<Rightarrow> (case t_get (cases db) c of
                     None \<Rightarrow> Inl DoesNotExist
                   | Some cs \<Rightarrow> (case hash_of env (case_snapshot c cs) of
                         Inl e \<Rightarrow> Inl e
                       | Inr ch \<Rightarrow> Inr (snapshot, base @ [(PyStr ''case_id'', pint c), (PyStr ''case_snapshot_hash'', PyStr ch)]))))))"

section \<open>Creation\<close>

definition member_user :: "'z adb \<Rightarrow> pk \<Rightarrow> pk result" where
  "member_user db m = (case t_get (memberships db) m of None \<Rightarrow> Inl DoesNotExist | Some r \<Rightarrow> Inr (mb_user r))"

definition new_proposal :: "pk option \<Rightarrow> pk \<Rightarrow> pk \<Rightarrow> proposal_row" where
  "new_proposal c building m = \<lparr> pr_case = c, pr_building = building, pr_creator_membership = m, pr_status = PDraft,
     pr_current_version = None, pr_decided_by = None, pr_decided_at = None, pr_decision_note = [],
     pr_public_token = None, pr_completed_at = None, pr_closed_at = None \<rparr>"

definition spending_proposal_cases :: "'z ddb \<Rightarrow> pk list" where
  "spending_proposal_cases db =
     map fst (t_filter (\<lambda>c cs. cs_active cs \<and> cs_completed_at cs = None
       \<and> \<not> case_has_report rp_is_private db c \<and> \<not> case_has_report (\<lambda>r. rp_status r = RInProgress) db c) (cases db))"

definition create_proposal :: "env \<Rightarrow> 'z ddb \<Rightarrow> pk \<Rightarrow> pk \<Rightarrow> (pk \<times> 'z ddb) result" where
  "create_proposal env db c creator =
     (case t_get (cases db) c of
        None \<Rightarrow> Inl ValidationError
      | Some cs \<Rightarrow>
          if \<not> cs_active cs \<or> cs_completed_at cs \<noteq> None then Inl ValidationError
          else (case member_user db creator of
              Inl e \<Rightarrow> Inl e
            | Inr user \<Rightarrow> (case require_management db user (cs_building cs) of
                  Inl e \<Rightarrow> Inl e
                | Inr m \<Rightarrow>
                    if case_has_report rp_is_private db c then Inl ValidationError
                    else if case_has_report (\<lambda>r. rp_status r = RInProgress) db c then Inl ValidationError
                    else if t_exists (\<lambda>_ p. pr_case p = Some c) (proposals db) then Inl ValidationError
                    else
                      (let p = next_pk (proposals db);
                           db1 = db \<lparr> proposals := t_insert (new_proposal (Some c) (cs_building cs) m) (proposals db) \<rparr>;
                           db2 = set_reports (open_report_of db1 c) RProposed db1 in
                       case record_audit env db2 user (Some m) ''proposal.create'' ''Proposal'' (nat_str p) ''accepted''
                              [(''case_id'', pint c)] of
                         Inl e \<Rightarrow> Inl e | Inr db3 \<Rightarrow> Inr (p, db3)))))"

definition create_standalone_proposal :: "env \<Rightarrow> 'z ddb \<Rightarrow> pk \<Rightarrow> pk \<Rightarrow> (pk \<times> 'z ddb) result" where
  "create_standalone_proposal env db building creator =
     (case member_user db creator of
        Inl e \<Rightarrow> Inl e
      | Inr user \<Rightarrow> (case require_management db user building of
            Inl e \<Rightarrow> Inl e
          | Inr m \<Rightarrow>
              (let p = next_pk (proposals db);
                   db1 = db \<lparr> proposals := t_insert (new_proposal None building m) (proposals db) \<rparr> in
               case record_audit env db1 user (Some m) ''proposal.create'' ''Proposal'' (nat_str p) ''accepted''
                      [(''case_id'', PyNone)] of
                 Inl e \<Rightarrow> Inl e | Inr db2 \<Rightarrow> Inr (p, db2))))"

section \<open>The Proceed decision\<close>

definition decide_proposal :: "env \<Rightarrow> 'z ddb \<Rightarrow> pk \<Rightarrow> pk \<Rightarrow> pyval \<Rightarrow> string \<Rightarrow> 'z ddb result" where
  "decide_proposal env db p manager proceed0 note0 =
     (case t_get (proposals db) p of
        None \<Rightarrow> Inl DoesNotExist
      | Some pr \<Rightarrow> (case require_management db manager (pr_building pr) of
            Inl e \<Rightarrow> Inl e
          | Inr m \<Rightarrow>
              if pr_status pr \<noteq> PPublished then Inl ValidationError
              else (case proceed0 of
                  PyBool proceed \<Rightarrow>
                    record_audit env (set_proposal p (\<lambda>r. r \<lparr> pr_status := (if proceed then PInProgress else PNotProceeding),
                        pr_decided_by := Some m, pr_decided_at := Some (now env), pr_decision_note := py_strip note0,
                        pr_closed_at := (if proceed then None else Some (now env)) \<rparr>) db)
                      manager (Some m) ''proposal.decided'' ''Proposal'' (nat_str p) ''accepted'' [(''proceed'', PyBool proceed)]
                | _ \<Rightarrow> Inl ValidationError)))"

section \<open>Publishing a version\<close>

definition versions_of :: "'z ddb \<Rightarrow> pk \<Rightarrow> (pk \<times> proposal_version_row) list" where
  "versions_of db p = t_filter (\<lambda>_ v. pv_proposal v = p) (proposal_versions db)"

definition latest_version :: "'z ddb \<Rightarrow> pk \<Rightarrow> (pk \<times> proposal_version_row) option" where
  "latest_version db p =
     (case rev (sort_key (\<lambda>(_, v). pv_number v) (versions_of db p)) of [] \<Rightarrow> None | x # _ \<Rightarrow> Some x)"

definition event_hash :: "'z edb \<Rightarrow> pk \<Rightarrow> string" where
  "event_hash db k = (case t_get (outbox db) k of None \<Rightarrow> [] | Some r \<Rightarrow> ob_payload_hash r)"

definition attach_prediction :: "pk option \<Rightarrow> pk \<Rightarrow> proposal_row \<Rightarrow> int \<Rightarrow> 'z ddb \<Rightarrow> 'z ddb" where
  "attach_prediction pid v pr amount db =
     (case pid of
        None \<Rightarrow> db
      | Some k \<Rightarrow> (case t_get (predictions db) k of
            None \<Rightarrow> db
          | Some pp \<Rightarrow>
              if pp_building pp = pr_building pr \<and> pp_case pp = pr_case pr \<and> pp_amount_vnd pp = amount
                \<and> pp_proposal_version pp = None
              then db \<lparr> predictions := t_update k (\<lambda>r. r \<lparr> pp_proposal_version := Some v \<rparr>) (predictions db) \<rparr>
              else db))"

record version_args =
  va_amount :: pyval
  va_contractor :: pyval
  va_purpose :: pyval
  va_action :: pyval
  va_start :: date_arg
  va_end :: date_arg
  va_schedule :: string
  va_quotations :: "pk list"
  va_event_id :: string
  va_prediction :: "pk option"

text \<open>The checks on the arguments, in the order of the code; \<open>status\<close> is that of the locked proposal.\<close>

definition check_version_args :: "version_args \<Rightarrow> proposal_status \<Rightarrow> (int \<times> string \<times> string \<times> string) result" where
  "check_version_args a status =
     (case va_amount a of
        PyInt amount \<Rightarrow>
          if amount \<le> 0 then Inl ValidationError
          else (case va_contractor a of
              PyStr contractor \<Rightarrow>
                if py_strip contractor = [] then Inl ValidationError
                else if status \<notin> {PDraft, PPublished, PInProgress} then Inl ValidationError
                else (case (va_purpose a, va_action a) of
                    (PyStr purpose, PyStr action) \<Rightarrow>
                      if py_strip purpose = [] \<or> py_strip action = [] then Inl ValidationError
                      else Inr (amount, py_strip contractor, py_strip purpose, py_strip action)
                  | _ \<Rightarrow> Inl ValidationError)
            | _ \<Rightarrow> Inl ValidationError)
      | _ \<Rightarrow> Inl ValidationError)"

text \<open>
  The writes after the event is queued: the version row (its event must not belong to another version, its
  amount must fit a big integer), its quotation links, the price prediction, and the proposal.
\<close>

definition insert_version ::
  "'z ddb \<Rightarrow> pk \<Rightarrow> proposal_row \<Rightarrow> proposal_version_row \<Rightarrow> pk list \<Rightarrow> pk option \<Rightarrow> string option \<Rightarrow> (pk \<times> 'z ddb) result" where
  "insert_version db p pr row quotations prediction token =
     (if pv_amount_vnd row > BIGINT_MAX then Inl DataError
      else if t_exists (\<lambda>_ v. pv_outbox_event v = pv_outbox_event row) (proposal_versions db)
      then Inl (IntegrityError ''finance_proposalversion_outbox_event_id_key'')
      else if token \<noteq> pr_public_token pr \<and> t_exists (\<lambda>_ q. pr_public_token q = token) (proposals db)
      then Inl (IntegrityError ''finance_proposal_public_token_key'')
      else
        (let v = next_pk (proposal_versions db);
             db1 = db \<lparr> proposal_versions := t_insert row (proposal_versions db),
               proposal_documents := fold (\<lambda>d. t_insert \<lparr> pd_version = v, pd_document_version = d \<rparr>) quotations
                 (proposal_documents db) \<rparr>;
             db2 = attach_prediction prediction v pr (pv_amount_vnd row) db1 in
         Inr (v, set_proposal p (\<lambda>r. r \<lparr> pr_current_version := Some v, pr_status := PPublished,
           pr_public_token := token \<rparr>) db2)))"

definition publish_proposal_version ::
  "env \<Rightarrow> 'z ddb \<Rightarrow> pk \<Rightarrow> pk \<Rightarrow> version_args \<Rightarrow> (pk \<times> 'z ddb) result" where
  "publish_proposal_version env db p creator a =
     (case t_get (proposals db) p of
        None \<Rightarrow> Inl DoesNotExist
      | Some pr \<Rightarrow> (case member_user db creator of
            Inl e \<Rightarrow> Inl e
          | Inr user \<Rightarrow> (case require_management db user (pr_building pr) of
                Inl e \<Rightarrow> Inl e
              | Inr m \<Rightarrow> (case check_version_args a (pr_status pr) of
                    Inl e \<Rightarrow> Inl e
                  | Inr (amount, contractor, purpose, action) \<Rightarrow>
                      (case resolve_schedule_and_dates (va_start a) (va_end a) (va_schedule a) of
                         Inl e \<Rightarrow> Inl e
                       | Inr (st, en, schedule) \<Rightarrow> (case quotation_versions db (pr_building pr) (va_quotations a) of
                             Inl e \<Rightarrow> Inl e
                           | Inr vs \<Rightarrow>
                               (let previous = latest_version db p;
                                    number = (case previous of None \<Rightarrow> 1 | Some (_, v) \<Rightarrow> pv_number v + 1);
                                    token = (if previous = None then Some (token_urlsafe env) else pr_public_token pr) in
                                case submission_snapshot env db p pr amount contractor purpose action schedule vs number st en of
                                  Inl e \<Rightarrow> Inl e
                                | Inr (snapshot, payload) \<Rightarrow>
                                    (let previous_hash = (case previous of None \<Rightarrow> ZERO_HASH
                                           | Some (_, v) \<Rightarrow> ''0x'' @ event_hash db (pv_outbox_event v)) in
                                     case queue_platform_event env db (va_event_id a) (PyInt PROPOSAL_CREATED) (PyDict payload)
                                            previous_hash (pr_building pr) of
                                       Inl e \<Rightarrow> Inl e
                                     | Inr (ev, db1) \<Rightarrow> (case hash_of env snapshot of
                                           Inl e \<Rightarrow> Inl e
                                         | Inr sh \<Rightarrow>
                                             (case insert_version db1 p pr \<lparr> pv_proposal = p, pv_number = number,
                                                 pv_amount_vnd = amount, pv_contractor_name = contractor, pv_purpose = purpose,
                                                 pv_proposed_action = action, pv_expected_start = st, pv_expected_end = en,
                                                 pv_expected_schedule = schedule, pv_snapshot = snapshot, pv_snapshot_hash = sh,
                                                 pv_creator_membership = m, pv_outbox_event = ev \<rparr>
                                                 (map fst vs) (va_prediction a) token of
                                                Inl e \<Rightarrow> Inl e
                                              | Inr (v, db2) \<Rightarrow>
                                                  (case record_audit env db2 user (Some m) ''proposal.version.publish''
                                                          ''ProposalVersion'' (nat_str v) ''accepted''
                                                          [(''proposal_id'', pint p), (''number'', pint number),
                                                           (''event_id'', PyStr (case t_get (outbox db2) ev of
                                                              None \<Rightarrow> [] | Some r \<Rightarrow> ob_event_id r))] of
                                                     Inl e \<Rightarrow> Inl e | Inr db3 \<Rightarrow> Inr (v, db3))))))))))))"

end
