(* ===== verification/Fund.thy ===== *)
theory Fund
  imports Proposals
begin

text \<open>
  The maintenance fund (\<open>finance/fund.py\<close>): sources of money recorded with evidence and verified, the outflow
  a settlement posts, and the balance.
\<close>

section \<open>Recording and verifying\<close>

definition SOURCE_ENTRY_TYPES :: "entry_type set" where "SOURCE_ENTRY_TYPES = {OpeningBalance, Inflow}"
definition FINALIZED_ENTRY_TYPES :: "entry_type set" where "FINALIZED_ENTRY_TYPES = {Outflow, Reversal, Replacement}"

definition entry_type_str :: "entry_type \<Rightarrow> string" where
  "entry_type_str t = (case t of OpeningBalance \<Rightarrow> ''OPENING_BALANCE'' | Inflow \<Rightarrow> ''INFLOW'' | Outflow \<Rightarrow> ''OUTFLOW''
     | Reversal \<Rightarrow> ''REVERSAL'' | Replacement \<Rightarrow> ''REPLACEMENT'')"

definition get_or_create_fund :: "pk \<Rightarrow> 'z ddb \<Rightarrow> pk \<times> 'z ddb" where
  "get_or_create_fund building db =
     (case t_first (\<lambda>_ f. fu_building f = building) (funds db) of
        Some (k, _) \<Rightarrow> (k, db)
      | None \<Rightarrow> (next_pk (funds db), db \<lparr> funds := t_insert \<lparr> fu_building = building \<rparr> (funds db) \<rparr>))"

definition require_evidence :: "'z ddb \<Rightarrow> pk option \<Rightarrow> pk \<Rightarrow> (pk \<times> document_version_row) result" where
  "require_evidence db evidence building =
     (case evidence of
        None \<Rightarrow> Inl ValidationError
      | Some k \<Rightarrow> (case t_get (document_versions db) k of
            None \<Rightarrow> Inl ValidationError
          | Some v \<Rightarrow>
              if map_option d_building (t_get (documents db) (dv_document v)) \<noteq> Some building \<or> dv_scan_status v \<noteq> Clean
              then Inl ValidationError else Inr (k, v)))"

definition validate_source_amount :: "entry_type \<Rightarrow> pyval \<Rightarrow> int result" where
  "validate_source_amount t amount =
     (if t \<notin> SOURCE_ENTRY_TYPES then Inl ValidationError
      else (case amount of PyInt i \<Rightarrow> if i \<le> 0 then Inl ValidationError else Inr i | _ \<Rightarrow> Inl ValidationError))"

definition source_key_of :: "entry_type \<Rightarrow> pk \<Rightarrow> string \<Rightarrow> string" where
  "source_key_of t fund h = entry_type_str t @ '':'' @ nat_str fund @ '':'' @ h"

text \<open>The check constraint \<open>fund_entry_amount_sign\<close>.\<close>

definition sign_ok :: "fund_entry_row \<Rightarrow> bool" where
  "sign_ok e \<longleftrightarrow>
     (if fe_type e \<in> SOURCE_ENTRY_TYPES then fe_amount_vnd e > 0
      else if fe_type e = Outflow then fe_amount_vnd e < 0 else fe_amount_vnd e \<noteq> 0)"

text \<open>
  \<open>record_fund_source\<close> as the program calls it: the entry id comes from the sequence, the source key from
  the evidence.
\<close>

definition record_fund_source ::
  "env \<Rightarrow> 'z ddb \<Rightarrow> pk \<Rightarrow> entry_type \<Rightarrow> pyval \<Rightarrow> pk option \<Rightarrow> pk \<Rightarrow> (pk \<times> 'z ddb) result" where
  "record_fund_source env db fund t amount0 evidence0 recorder =
     (case t_get (funds db) fund of
        None \<Rightarrow> Inl ValidationError
      | Some f \<Rightarrow> (case member_user db recorder of
            Inl e \<Rightarrow> Inl e
          | Inr user \<Rightarrow> (case require_management db user (fu_building f) of
                Inl e \<Rightarrow> Inl e
              | Inr m \<Rightarrow> (case validate_source_amount t amount0 of
                    Inl e \<Rightarrow> Inl e
                  | Inr amount \<Rightarrow> (case require_evidence db evidence0 (fu_building f) of
                        Inl e \<Rightarrow> Inl e
                      | Inr (ek, ev) \<Rightarrow>
                          (let key = source_key_of t fund (dv_sha256 ev); k = next_pk (fund_entries db) in
                           if t_exists (\<lambda>_ x. fe_source_key x = key) (fund_entries db) then Inl ValidationError
                           else if amount > BIGINT_MAX then Inl DataError
                           else
                             (let db1 = db \<lparr> fund_entries := t_insert \<lparr> fe_fund = fund, fe_type = t, fe_amount_vnd = amount,
                                    fe_evidence = Some ek, fe_evidence_hash = dv_sha256 ev, fe_recorder = Some m,
                                    fe_proposal = None, fe_source_key = key, fe_recorded_at = now env \<rparr> (fund_entries db) \<rparr> in
                              case record_audit env db1 user (Some m) ''fund.record'' ''MaintenanceFundEntry'' (nat_str k) ''accepted''
                                     [(''entry_type'', PyStr (entry_type_str t)), (''amount_vnd'', PyInt amount)] of
                                Inl e \<Rightarrow> Inl e | Inr db2 \<Rightarrow> Inr (k, db2))))))))"

definition verify_fund_source :: "env \<Rightarrow> 'z ddb \<Rightarrow> pk \<Rightarrow> pk \<Rightarrow> (pk \<times> 'z ddb) result" where
  "verify_fund_source env db entry verifier =
     (case t_get (fund_entries db) entry of
        None \<Rightarrow> Inl ValidationError
      | Some e \<Rightarrow> (case t_get (funds db) (fe_fund e) of
            None \<Rightarrow> Inl DoesNotExist
          | Some f \<Rightarrow> (case member_user db verifier of
                Inl x \<Rightarrow> Inl x
              | Inr user \<Rightarrow> (case require_management db user (fu_building f) of
                    Inl x \<Rightarrow> Inl x
                  | Inr m \<Rightarrow>
                      if fe_type e \<notin> SOURCE_ENTRY_TYPES then Inl ValidationError
                      else if fe_recorder e = None then Inl ValidationError
                      else if t_exists (\<lambda>_ v. fv_entry v = entry) (fund_verifications db) then Inl ValidationError
                      else
                        (let k = next_pk (fund_verifications db);
                             db1 = db \<lparr> fund_verifications := t_insert \<lparr> fv_entry = entry, fv_membership = m,
                               fv_verified_at = now env \<rparr> (fund_verifications db) \<rparr> in
                         case record_audit env db1 user (Some m) ''fund.verify'' ''FundEntryVerification'' (nat_str k) ''accepted''
                                [(''entry_id'', pint entry)] of
                           Inl x \<Rightarrow> Inl x | Inr db2 \<Rightarrow> Inr (k, db2))))))"

section \<open>The balance\<close>

definition is_verified_source :: "'z ddb \<Rightarrow> pk \<Rightarrow> fund_entry_row \<Rightarrow> bool" where
  "is_verified_source db k e \<longleftrightarrow> fe_type e \<in> SOURCE_ENTRY_TYPES \<and> t_exists (\<lambda>_ v. fv_entry v = k) (fund_verifications db)"

definition is_finalized_posting :: "'z ddb \<Rightarrow> fund_entry_row \<Rightarrow> bool" where
  "is_finalized_posting db e \<longleftrightarrow> fe_type e \<in> FINALIZED_ENTRY_TYPES \<and>
     (case fe_proposal e of None \<Rightarrow> False | Some p \<Rightarrow> t_exists (\<lambda>_ l. le_proposal l = p) (ledger db))"

definition verified_fund_entries :: "'z ddb \<Rightarrow> pk \<Rightarrow> (pk \<times> fund_entry_row) list" where
  "verified_fund_entries db building =
     t_filter (\<lambda>k e. map_option fu_building (t_get (funds db) (fe_fund e)) = Some building
       \<and> (is_verified_source db k e \<or> is_finalized_posting db e)) (fund_entries db)"

definition entries_total :: "(pk \<times> fund_entry_row) list \<Rightarrow> int" where
  "entries_total es = sum_list (map (\<lambda>(_, e). fe_amount_vnd e) es)"

definition fund_balance :: "'z ddb \<Rightarrow> pk \<Rightarrow> bool \<Rightarrow> int result" where
  "fund_balance db building verified_only =
     (if t_get (buildings db) building = None then Inl ValidationError
      else (case t_first (\<lambda>_ f. fu_building f = building) (funds db) of
          None \<Rightarrow> Inr 0
        | Some (fund, _) \<Rightarrow> Inr (entries_total (t_filter (\<lambda>k e. fe_fund e = fund
            \<and> ((if verified_only then is_verified_source db k e else fe_type e \<in> SOURCE_ENTRY_TYPES)
               \<or> is_finalized_posting db e)) (fund_entries db)))))"

section \<open>Posting a settlement\<close>

definition outflow_key :: "pk \<Rightarrow> string" where
  "outflow_key p = ''OUTFLOW:proposal:'' @ nat_str p"

definition create_settlement_outflow :: "pk \<Rightarrow> settlement_row \<Rightarrow> pk \<Rightarrow> 'z ddb \<Rightarrow> (pk \<times> 'z ddb) result" where
  "create_settlement_outflow sk s building db =
     (let (fund, db1) = get_or_create_fund building db in
      case t_first (\<lambda>_ e. fe_source_key e = outflow_key (se_proposal s)) (fund_entries db1) of
        Some (k, _) \<Rightarrow> Inr (k, db1)
      | None \<Rightarrow>
          if - se_amount_vnd s \<ge> 0 then Inl (IntegrityError ''fund_entry_amount_sign'')
          else Inr (next_pk (fund_entries db1), db1 \<lparr> fund_entries := t_insert \<lparr> fe_fund = fund, fe_type = Outflow,
            fe_amount_vnd = - se_amount_vnd s, fe_evidence = None, fe_evidence_hash = [], fe_recorder = None,
            fe_proposal = Some (se_proposal s), fe_source_key = outflow_key (se_proposal s),
            fe_recorded_at = se_settled_at s \<rparr> (fund_entries db1) \<rparr>))"

end
