(* ===== verification/Settlements.thy ===== *)
theory Settlements
  imports Fund
begin

text \<open>
  Settlement and publication (\<open>finance/settlements.py\<close>, \<open>finance/publication.py\<close>): a completed proposal is settled
  against a transfer proof in one transaction that queues the settlement's evidence event, posts the fund
  outflow and publishes the ledger entry.
\<close>

definition require_proof :: "'z ddb \<Rightarrow> pk \<Rightarrow> pk \<Rightarrow> document_version_row result" where
  "require_proof db proof building =
     (case t_get (document_versions db) proof of
        None \<Rightarrow> Inl ValidationError
      | Some v \<Rightarrow> if clean_document db PaymentProof building v then Inr v else Inl ValidationError)"

definition build_settlement_evidence_payload ::
  "pk \<Rightarrow> settlement_row \<Rightarrow> proposal_version_row \<Rightarrow> string \<Rightarrow> (pyval \<times> pyval) list" where
  "build_settlement_evidence_payload sk s v transfer_sha =
     [(PyStr ''schema'', PyStr ''settlement.v2''), (PyStr ''settlement_id'', pint sk), (PyStr ''proposal_id'', pint (se_proposal s)),
      (PyStr ''proposal_version'', pint (pv_number v)), (PyStr ''amount_vnd'', PyInt (se_amount_vnd s)),
      (PyStr ''transfer_sha256'', PyStr transfer_sha), (PyStr ''settled_at'', PyStr (utc_rfc3339 (se_settled_at s)))]"

section \<open>Publication\<close>

fun snapshot_quotations :: "pyval \<Rightarrow> (nat \<times> string) list" where
  "snapshot_quotations (PyDict kvs) =
     (case map_of (map (\<lambda>(k, v). (the_str k, v)) kvs) ''quotation_versions'' of
        Some (PyList xs) \<Rightarrow> map (\<lambda>x. case x of
            PyDict [(_, PyInt i), (_, PyStr h)] \<Rightarrow> (nat i, h) | _ \<Rightarrow> (0, [])) xs
      | _ \<Rightarrow> [])"
| "snapshot_quotations _ = []"

datatype gate = GateQuotation | GateTransfer

text \<open>The documents an entry stands on, with the hash each must have.\<close>

fun quotation_checks :: "'z ddb \<Rightarrow> (nat \<times> string) list \<Rightarrow> (pk \<times> document_version_row \<times> string \<times> gate) list result" where
  "quotation_checks db [] = Inr []"
| "quotation_checks db ((k, h) # qs) =
     (case t_get (document_versions db) k of
        None \<Rightarrow> Inl DoesNotExist
      | Some v \<Rightarrow> (case quotation_checks db qs of Inl e \<Rightarrow> Inl e | Inr cs \<Rightarrow> Inr ((k, v, h, GateQuotation) # cs)))"

definition collect_document_checks ::
  "'z ddb \<Rightarrow> proposal_version_row \<Rightarrow> settlement_row \<Rightarrow> (pk \<times> document_version_row \<times> string \<times> gate) list result" where
  "collect_document_checks db v s =
     (case quotation_checks db (snapshot_quotations (pv_snapshot v)) of
        Inl e \<Rightarrow> Inl e
      | Inr cs \<Rightarrow> (case t_get (document_versions db) (se_transfer s) of
            None \<Rightarrow> Inl DoesNotExist
          | Some t \<Rightarrow> Inr (cs @ [(se_transfer s, t, dv_sha256 t, GateTransfer)])))"

definition case_report_id :: "'z ddb \<Rightarrow> pk \<Rightarrow> pyval" where
  "case_report_id db c =
     (case t_get (cases db) c of
        None \<Rightarrow> PyNone
      | Some cs \<Rightarrow> (case t_get (decisions db) (cs_decision cs) of None \<Rightarrow> PyNone | Some d \<Rightarrow> pint (td_report d)))"

definition resident_payload ::
  "'z ddb \<Rightarrow> pk \<Rightarrow> proposal_row \<Rightarrow> proposal_version_row \<Rightarrow> pk \<Rightarrow> settlement_row \<Rightarrow> string \<Rightarrow> string list \<Rightarrow> pyval" where
  "resident_payload db p pr v sk s event_hash_str hashes =
     PyDict [(PyStr ''report_id'', case pr_case pr of None \<Rightarrow> PyNone | Some c \<Rightarrow> case_report_id db c),
       (PyStr ''case_id'', opt_int (pr_case pr)), (PyStr ''proposal_id'', pint p), (PyStr ''proposal_version'', pint (pv_number v)),
       (PyStr ''proposed_amount_vnd'', PyInt (pv_amount_vnd v)), (PyStr ''actual_cost_vnd'', PyInt (se_amount_vnd s)),
       (PyStr ''contractor_name'', PyStr (pv_contractor_name v)),
       (PyStr ''document_hashes'', PyList (map PyStr hashes)),
       (PyStr ''settlement'', PyDict [(PyStr ''settlement_id'', pint sk), (PyStr ''settlement_event_hash'', PyStr event_hash_str)])]"

definition publish_settlement_entry :: "env \<Rightarrow> 'z ddb \<Rightarrow> pk \<Rightarrow> (pk \<times> 'z ddb) result" where
  "publish_settlement_entry env db sk =
     (case t_get (settlements db) sk of
        None \<Rightarrow> Inl DoesNotExist
      | Some s \<Rightarrow> (case t_first (\<lambda>_ l. le_settlement l = sk) (ledger db) of
            Some (k, _) \<Rightarrow> Inr (k, db)
          | None \<Rightarrow> (case se_outbox_event s of
                None \<Rightarrow> Inl ValidationError
              | Some ev \<Rightarrow> (case t_get (proposals db) (se_proposal s) of
                    None \<Rightarrow> Inl DoesNotExist
                  | Some pr \<Rightarrow> (case pr_current_version pr of
                        None \<Rightarrow> Inl ValidationError
                      | Some vk \<Rightarrow> (case t_get (proposal_versions db) vk of
                            None \<Rightarrow> Inl DoesNotExist
                          | Some v \<Rightarrow> (case collect_document_checks db v s of
                                Inl e \<Rightarrow> Inl e
                              | Inr checks \<Rightarrow>
                                  (let hashes = sort (remdups (map (\<lambda>(_, d, _, _). dv_sha256 d) checks));
                                       k = next_pk (ledger db) in
                                   if t_exists (\<lambda>_ l. le_proposal l = se_proposal s) (ledger db)
                                   then Inl (IntegrityError ''finance_publishedledgerentry_proposal_id_key'')
                                   else if se_amount_vnd s \<le> 0 then Inl (IntegrityError ''published_ledger_actual_cost_positive'')
                                   else
                                     (let db1 = db \<lparr> ledger := t_insert \<lparr> le_payload = resident_payload db (se_proposal s) pr v sk s
                                              (event_hash db ev) hashes, le_case = pr_case pr, le_proposal = se_proposal s,
                                            le_settlement = sk, le_actual_cost_vnd = se_amount_vnd s,
                                            le_contractor_name = pv_contractor_name v, le_published_at = now env \<rparr> (ledger db) \<rparr> in
                                      case member_user db (se_settled_by s) of
                                        Inl e \<Rightarrow> Inl e
                                      | Inr user \<Rightarrow>
                                          (case record_audit env db1 user (Some (se_settled_by s)) ''ledger.published''
                                                  ''PublishedLedgerEntry'' (nat_str k) ''accepted'' [] of
                                             Inl e \<Rightarrow> Inl e | Inr db2 \<Rightarrow> Inr (k, db2)))))))))))"

section \<open>Settlement\<close>

definition record_settlement :: "env \<Rightarrow> 'z ddb \<Rightarrow> pk \<Rightarrow> pk \<Rightarrow> pk \<Rightarrow> string \<Rightarrow> (pk \<times> 'z ddb) result" where
  "record_settlement env db p membership transfer event_id =
     (case t_get (proposals db) p of
        None \<Rightarrow> Inl DoesNotExist
      | Some pr \<Rightarrow> (case member_user db membership of
            Inl e \<Rightarrow> Inl e
          | Inr user \<Rightarrow> (case require_management db user (pr_building pr) of
                Inl e \<Rightarrow> Inl e
              | Inr m \<Rightarrow>
                  if pr_status pr \<noteq> PCompleted then Inl ValidationError
                  else if t_exists (\<lambda>_ s. se_proposal s = p) (settlements db) then Inl ValidationError
                  else (case pr_current_version pr of
                      None \<Rightarrow> Inl ValidationError
                    | Some vk \<Rightarrow> (case t_get (proposal_versions db) vk of
                          None \<Rightarrow> Inl DoesNotExist
                        | Some v \<Rightarrow> (case require_proof db transfer (pr_building pr) of
                              Inl e \<Rightarrow> Inl e
                            | Inr proof \<Rightarrow>
                                (let sk = next_pk (settlements db);
                                     s = \<lparr> se_proposal = p, se_amount_vnd = pv_amount_vnd v, se_transfer = transfer,
                                       se_settled_by = m, se_settled_at = now env, se_outbox_event = None \<rparr>;
                                     db1 = db \<lparr> settlements := t_insert s (settlements db) \<rparr> in
                                 if pv_amount_vnd v \<le> 0 then Inl (IntegrityError ''settlement_amount_positive'')
                                 else (case queue_platform_event env db1 event_id (PyInt SETTLEMENT)
                                         (PyDict (build_settlement_evidence_payload sk s v (dv_sha256 proof)))
                                         (''0x'' @ event_hash db1 (pv_outbox_event v)) (pr_building pr) of
                                     Inl e \<Rightarrow> Inl e
                                   | Inr (ev, db2) \<Rightarrow>
                                       if t_exists (\<lambda>_ x. se_outbox_event x = Some ev) (settlements db2)
                                       then Inl (IntegrityError ''finance_settlement_outbox_event_id_key'')
                                       else
                                         (let db3 = db2 \<lparr> settlements := t_update sk (\<lambda>x. x \<lparr> se_outbox_event := Some ev \<rparr>)
                                                (settlements db2) \<rparr> in
                                          case create_settlement_outflow sk s (pr_building pr) db3 of
                                            Inl e \<Rightarrow> Inl e
                                          | Inr (_, db4) \<Rightarrow> (case publish_settlement_entry env db4 sk of
                                                Inl e \<Rightarrow> Inl e
                                              | Inr (_, db5) \<Rightarrow>
                                                  (case record_audit env db5 user (Some m) ''settlement.settled'' ''Settlement''
                                                          (nat_str sk) ''accepted'' [(''event_id'', PyStr (case t_get (outbox db5) ev of
                                                             None \<Rightarrow> [] | Some r \<Rightarrow> ob_event_id r))] of
                                                     Inl e \<Rightarrow> Inl e | Inr db6 \<Rightarrow> Inr (sk, db6))))))))))))"

end
