(* ===== verification/Worker.thy ===== *)
theory Worker
  imports Outbox
begin

text \<open>
  Delivery of the outbox: the EvidenceRegistry client (\<open>evidence/chain.py\<close>) and the idempotent worker
  (\<open>evidence/worker.py\<close>).  The web3 provider is a parameter: what a contract call, a sent transaction and
  a receipt answer, an exception being its text.
\<close>

section \<open>The chain client\<close>

datatype chain_bytes = ChNone | ChBytes "nat list" | ChText string

record chain_record =
  cr_payload_hash :: string
  cr_previous_hash :: string
  cr_event_type :: int
  cr_signer :: string
  cr_recorded_at :: int

record evidence_call =
  ec_event_id :: string
  ec_payload_hash :: string
  ec_previous_hash :: string
  ec_event_type :: int
  ec_signer :: string
  ec_signature :: string

record provider =
  relayer_private_key :: string
  call_records :: "string \<Rightarrow> string + chain_bytes \<times> chain_bytes \<times> int \<times> string \<times> int"
  send_locked :: "evidence_call \<Rightarrow> string + string"
  wait_for_receipt :: "string \<Rightarrow> string + (string \<times> pyval) list"

definition normalize_bytes32 :: "chain_bytes \<Rightarrow> string" where
  "normalize_bytes32 value =
     (case value of
        ChNone \<Rightarrow> ''0x'' @ replicate 64 (CHR ''0'')
      | ChBytes bs \<Rightarrow> ''0x'' @ bytes_hex bs
      | ChText s \<Rightarrow> if starts_with ''0x'' s then py_lower s else ''0x'' @ py_lower s)"

definition payload_hash_for_chain :: "string \<Rightarrow> string" where
  "payload_hash_for_chain ph =
     (let s = py_lower ph in if starts_with ''0x'' s then s else ''0x'' @ s)"

definition find_record :: "env \<Rightarrow> provider \<Rightarrow> outbox_row \<Rightarrow> string + chain_record option" where
  "find_record env p event =
     (case call_records p (ob_event_id event) of
        Inl err \<Rightarrow> Inl err
      | Inr (ph, prev, ty, signer, recorded_at) \<Rightarrow>
          if recorded_at = 0 then Inr None
          else Inr (Some \<lparr> cr_payload_hash = normalize_bytes32 ph, cr_previous_hash = normalize_bytes32 prev,
            cr_event_type = ty, cr_signer = to_checksum_address env signer, cr_recorded_at = recorded_at \<rparr>))"

definition receipt_int :: "(string \<times> pyval) list \<Rightarrow> string \<Rightarrow> int option" where
  "receipt_int receipt key = (case map_of receipt key of Some (PyInt i) \<Rightarrow> Some i | _ \<Rightarrow> None)"

definition call_of :: "env \<Rightarrow> outbox_row \<Rightarrow> evidence_call" where
  "call_of env event = \<lparr> ec_event_id = ob_event_id event,
     ec_payload_hash = payload_hash_for_chain (ob_payload_hash event), ec_previous_hash = ob_previous_hash event,
     ec_event_type = ob_event_type event, ec_signer = to_checksum_address env (ob_signer_address event),
     ec_signature = ob_signature event \<rparr>"

definition relayer_key_missing :: string where
  "relayer_key_missing = ''BLOCKCHAIN_RELAYER_PRIVATE_KEY is not configured.''"

definition bad_receipt :: "string \<Rightarrow> string" where
  "bad_receipt tx = ''recordEvidence receipt status for '' @ tx"

text \<open>
  \<open>submit\<close>: the transaction hash is stored as soon as the transaction is sent, before the receipt is
  awaited and outside any transaction, so it stays when the wait fails.
\<close>

definition submit_event ::
  "env \<Rightarrow> provider \<Rightarrow> pk \<Rightarrow> outbox_row \<Rightarrow> 'z edb \<Rightarrow> 'z edb \<times> (string + string \<times> (string \<times> pyval) list)" where
  "submit_event env p k event db =
     (if relayer_private_key p = [] then (db, Inl relayer_key_missing)
      else (case send_locked p (call_of env event) of
          Inl err \<Rightarrow> (db, Inl err)
        | Inr tx \<Rightarrow>
            (let db1 = (if ob_transaction_hash event = []
                        then db \<lparr> outbox := t_update k (\<lambda>r. r \<lparr> ob_transaction_hash := tx \<rparr>) (outbox db) \<rparr> else db) in
             case wait_for_receipt p tx of
               Inl err \<Rightarrow> (db1, Inl err)
             | Inr receipt \<Rightarrow>
                 if receipt_int receipt ''status'' \<noteq> Some 1
                 then (db1, Inl (bad_receipt tx))
                 else (db1, Inr (tx, receipt)))))"

section \<open>Marking a row\<close>

definition LEASE_SECONDS :: int where "LEASE_SECONDS = 180"
definition RETRY_BASE_SECONDS :: int where "RETRY_BASE_SECONDS = 30"
definition RETRY_MAX_SECONDS :: int where "RETRY_MAX_SECONDS = 3600"

definition retry_delay :: "nat \<Rightarrow> int" where
  "retry_delay attempts = seconds (min (RETRY_BASE_SECONDS * 2 ^ (attempts - 1)) RETRY_MAX_SECONDS)"

definition anchoring_disabled :: "env \<Rightarrow> bool" where
  "anchoring_disabled env \<longleftrightarrow> anchoring_backend env = ''disabled''"

definition normalize_payload_hash :: "string \<Rightarrow> string" where
  "normalize_payload_hash v = (let s = py_lower v in if starts_with ''0x'' s then drop 2 s else s)"

definition record_matches_event :: "env \<Rightarrow> chain_record \<Rightarrow> outbox_row \<Rightarrow> bool" where
  "record_matches_event env rec event \<longleftrightarrow>
     normalize_payload_hash (cr_payload_hash rec) = normalize_payload_hash (ob_payload_hash event)
     \<and> py_lower (cr_previous_hash rec) = py_lower (ob_previous_hash event)
     \<and> cr_event_type rec = ob_event_type event
     \<and> to_checksum_address env (cr_signer rec) = to_checksum_address env (ob_signer_address event)"

definition claimable :: "time \<Rightarrow> outbox_row \<Rightarrow> bool" where
  "claimable t r \<longleftrightarrow>
     ob_status r = Pending \<and> (case ob_next_attempt_at r of None \<Rightarrow> True | Some n \<Rightarrow> n \<le> t)
     \<or> ob_status r = Submitted \<and> (case ob_lease_expires_at r of None \<Rightarrow> False | Some l \<Rightarrow> l \<le> t)"

definition claim_row :: "time \<Rightarrow> outbox_row \<Rightarrow> outbox_row" where
  "claim_row t r = r \<lparr> ob_status := Submitted, ob_lease_expires_at := Some (t + seconds LEASE_SECONDS),
     ob_submitted_at := (case ob_submitted_at r of None \<Rightarrow> Some t | Some s \<Rightarrow> Some s),
     ob_last_attempt_at := Some t, ob_last_error := [] \<rparr>"

definition mark_confirmed :: "time \<Rightarrow> string \<Rightarrow> (string \<times> pyval) list \<Rightarrow> int option \<Rightarrow> outbox_row \<Rightarrow> outbox_row" where
  "mark_confirmed t tx receipt recorded_at r =
     (let r1 = r \<lparr> ob_status := Confirmed, ob_lease_expires_at := None, ob_confirmed_at := Some t, ob_last_error := [] \<rparr>;
          r2 = (if tx \<noteq> [] then r1 \<lparr> ob_transaction_hash := tx \<rparr> else r1);
          r3 = (if receipt \<noteq> [] then
                  r2 \<lparr> ob_receipt := receipt,
                     ob_receipt_status := (case receipt_int receipt ''status'' of
                       Some s \<Rightarrow> Some s | None \<Rightarrow> ob_receipt_status r2),
                     ob_chain_confirmed_block := (case receipt_int receipt ''blockNumber'' of
                       Some b \<Rightarrow> Some b | None \<Rightarrow> ob_chain_confirmed_block r2) \<rparr>
                else r2) in
      case recorded_at of
        None \<Rightarrow> r3
      | Some a \<Rightarrow> if a = 0 then r3 else r3 \<lparr> ob_chain_block_timestamp := Some a \<rparr>)"

definition mismatch_text :: "chain_record \<Rightarrow> string" where
  "mismatch_text rec = ''On-chain record does not match outbox signed identity (payload='' @ cr_payload_hash rec
     @ '', previous='' @ cr_previous_hash rec @ '', type='' @ int_str (cr_event_type rec)
     @ '', signer='' @ cr_signer rec @ '').''"

definition mark_mismatch :: "chain_record \<Rightarrow> outbox_row \<Rightarrow> outbox_row" where
  "mark_mismatch rec r = r \<lparr> ob_status := Mismatch, ob_lease_expires_at := None,
     ob_last_error := mismatch_text rec \<rparr>"

definition mark_retry :: "time \<Rightarrow> string \<Rightarrow> outbox_row \<Rightarrow> outbox_row" where
  "mark_retry t err r =
     (let n = ob_attempts r + 1 in
      r \<lparr> ob_attempts := n, ob_status := Pending, ob_lease_expires_at := None,
        ob_next_attempt_at := Some (t + retry_delay n), ob_last_attempt_at := Some t, ob_last_error := take 2000 err \<rparr>)"

definition mark_local :: "outbox_row \<Rightarrow> outbox_row" where
  "mark_local r = r \<lparr> ob_status := Local, ob_lease_expires_at := None, ob_submitted_at := None,
     ob_transaction_hash := [], ob_confirmed_at := None, ob_last_error := [] \<rparr>"

lemma marks [simp]:
  "ob_status (claim_row t r) = Submitted" "ob_status (mark_confirmed t tx rc at r) = Confirmed"
  "ob_status (mark_mismatch rec r) = Mismatch" "ob_status (mark_retry t err r) = Pending"
  "ob_status (mark_local r) = Local"
  "ob_transaction_hash (mark_confirmed t tx rc at r) = (if tx \<noteq> [] then tx else ob_transaction_hash r)"
  by (simp_all add: claim_row_def mark_confirmed_def mark_mismatch_def mark_retry_def mark_local_def Let_def
      split: option.splits)

section \<open>Processing\<close>

definition set_row :: "pk \<Rightarrow> (outbox_row \<Rightarrow> outbox_row) \<Rightarrow> 'z edb \<Rightarrow> 'z edb" where
  "set_row k f db = db \<lparr> outbox := t_update k f (outbox db) \<rparr>"

definition claim_outbox_event :: "env \<Rightarrow> pk \<Rightarrow> 'z edb \<Rightarrow> (outbox_row \<times> 'z edb) option" where
  "claim_outbox_event env k db =
     (case t_get (outbox db) k of
        None \<Rightarrow> None
      | Some r \<Rightarrow> if claimable (now env) r then Some (claim_row (now env) r, set_row k (claim_row (now env)) db) else None)"

definition process_claimed_event :: "env \<Rightarrow> provider \<Rightarrow> pk \<Rightarrow> outbox_row \<Rightarrow> 'z edb \<Rightarrow> 'z edb" where
  "process_claimed_event env p k claimed db =
     (if anchoring_disabled env then set_row k mark_local db
      else (case find_record env p claimed of
          Inl err \<Rightarrow> set_row k (mark_retry (now env) err) db
        | Inr (Some rec) \<Rightarrow>
            set_row k (\<lambda>event. if record_matches_event env rec event
              then mark_confirmed (now env) (ob_transaction_hash event) [] (Some (cr_recorded_at rec)) event
              else mark_mismatch rec event) db
        | Inr None \<Rightarrow>
            (case submit_event env p k claimed db of
               (db1, Inl err) \<Rightarrow> set_row k (mark_retry (now env) err) db1
             | (db1, Inr (tx, receipt)) \<Rightarrow> set_row k (mark_confirmed (now env) tx receipt None) db1)))"

definition process_outbox_event :: "env \<Rightarrow> provider \<Rightarrow> pk \<Rightarrow> 'z edb \<Rightarrow> 'z edb result" where
  "process_outbox_event env p k db =
     (case t_get (outbox db) k of
        None \<Rightarrow> Inl DoesNotExist
      | Some existing \<Rightarrow>
          if ob_status existing \<in> {Confirmed, Mismatch, Local} then
            if ob_status existing = Confirmed \<and> \<not> anchoring_disabled env then
              (case find_record env p existing of
                 Inr (Some rec) \<Rightarrow>
                   if \<not> record_matches_event env rec existing then Inr (set_row k (mark_mismatch rec) db) else Inr db
               | _ \<Rightarrow> Inr db)
            else Inr db
          else (case claim_outbox_event env k db of
              None \<Rightarrow> Inr db
            | Some (claimed, db1) \<Rightarrow> Inr (process_claimed_event env p k claimed db1)))"

definition claim_next_due_outbox_event :: "env \<Rightarrow> 'z edb \<Rightarrow> (pk \<times> outbox_row \<times> 'z edb) option" where
  "claim_next_due_outbox_event env db =
     (case sort_key (\<lambda>(_, r). ob_created_at r) (t_filter (\<lambda>_. claimable (now env)) (outbox db)) of
        [] \<Rightarrow> None
      | (k, r) # _ \<Rightarrow> Some (k, claim_row (now env) r, set_row k (claim_row (now env)) db))"

fun process_due_outbox_events :: "env \<Rightarrow> provider \<Rightarrow> nat \<Rightarrow> 'z edb \<Rightarrow> pk list \<times> 'z edb" where
  "process_due_outbox_events env p 0 db = ([], db)"
| "process_due_outbox_events env p (Suc limit) db =
     (case claim_next_due_outbox_event env db of
        None \<Rightarrow> ([], db)
      | Some (k, claimed, db1) \<Rightarrow>
          (let (ks, db2) = process_due_outbox_events env p limit (process_claimed_event env p k claimed db1) in
           (k # ks, db2)))"

section \<open>Identity of rows\<close>

definition keeps_id :: "(outbox_row \<Rightarrow> outbox_row) \<Rightarrow> bool" where
  "keeps_id f \<longleftrightarrow> (\<forall>r. ob_identity (f r) = ob_identity r \<and> ob_created_at (f r) = ob_created_at r)"

lemma keeps_id_rows [simp]:
  "keeps_id (claim_row t)" "keeps_id (mark_confirmed t tx rcpt at)" "keeps_id (mark_mismatch rec)"
  "keeps_id (mark_retry t err)" "keeps_id mark_local" "keeps_id (\<lambda>r. r \<lparr> ob_transaction_hash := tx \<rparr>)"
  by (auto simp: keeps_id_def ob_identity_def claim_row_def mark_confirmed_def mark_mismatch_def mark_retry_def
      mark_local_def Let_def split: option.splits)

lemma keeps_id_settle [simp]:
  "keeps_id (\<lambda>event. if record_matches_event env rec event
     then mark_confirmed t (ob_transaction_hash event) rcpt at event else mark_mismatch rec event)"
  using keeps_id_rows unfolding keeps_id_def by simp

definition outbox_log :: "'z edb \<Rightarrow> (pk \<times> (string \<times> int \<times> json \<times> string \<times> string \<times> string \<times> string \<times> pk) \<times> time) list" where
  "outbox_log db = map (\<lambda>(k, r). (k, ob_identity r, ob_created_at r)) (table_rows (outbox db))"

lemma outbox_log_set_row [simp]: "keeps_id f \<Longrightarrow> outbox_log (set_row k f db) = outbox_log db"
  by (auto simp: outbox_log_def set_row_def t_update_def keeps_id_def)

lemma submit_event_log [simp]: "submit_event env p k ev db = (db1, res) \<Longrightarrow> outbox_log db1 = outbox_log db"
  by (auto simp: submit_event_def set_row_def [symmetric] Let_def split: if_splits sum.splits)

lemma process_claimed_log [simp]: "outbox_log (process_claimed_event env p k c db) = outbox_log db"
  by (auto simp: process_claimed_event_def split: sum.splits option.splits prod.splits)

lemma process_outbox_log: "process_outbox_event env p k db = Inr db' \<Longrightarrow> outbox_log db' = outbox_log db"
  by (auto simp: process_outbox_event_def claim_outbox_event_def split: option.splits if_splits sum.splits)

lemma claim_next_log: "claim_next_due_outbox_event env db = Some (k, c, db') \<Longrightarrow> outbox_log db' = outbox_log db"
  by (auto simp: claim_next_due_outbox_event_def split: list.splits)

text \<open>What every claim-and-process step keeps, the batch keeps.\<close>

lemma process_due_keeps:
  assumes step: "\<And>db k c db1. claim_next_due_outbox_event env db = Some (k, c, db1) \<Longrightarrow> P db \<Longrightarrow>
      P (process_claimed_event env p k c db1)"
    and "P db"
  shows "P (snd (process_due_outbox_events env p n db))"
  using assms(2)
proof (induction n arbitrary: db)
  case (Suc n)
  show ?case
  proof (cases "claim_next_due_outbox_event env db")
    case (Some kc)
    obtain k c db1 where kc: "kc = (k, c, db1)" by (cases kc) auto
    have "P (snd (process_due_outbox_events env p n (process_claimed_event env p k c db1)))"
      by (rule Suc.IH) (use step Some kc Suc.prems in blast)
    then show ?thesis using Some kc by (simp add: Let_def split_def)
  qed (simp add: Suc.prems)
qed simp

lemma process_due_log: "outbox_log (snd (process_due_outbox_events env p n db)) = outbox_log db"
  by (rule process_due_keeps [where P = "\<lambda>d. outbox_log d = outbox_log db"]) (simp_all add: claim_next_log)

text \<open>The well-formedness of the table is a property of the log alone, up to the key sequence.\<close>

definition obx_ok :: "'z edb \<Rightarrow> bool" where
  "obx_ok db \<longleftrightarrow> t_ok (outbox db) \<and> distinct (map (\<lambda>(_, r). ob_event_id r) (table_rows (outbox db)))"

lemma log_ids: "map (\<lambda>(_, r). ob_event_id r) (table_rows (outbox db)) = map (\<lambda>(_, i, _). fst i) (outbox_log db)"
  by (auto simp: outbox_log_def ob_identity_def)

lemma log_keys: "map fst (table_rows (outbox db)) = map fst (outbox_log db)"
  by (auto simp: outbox_log_def)

lemma obx_ok_same_log:
  assumes "obx_ok db" "outbox_log db' = outbox_log db" "next_pk (outbox db') = next_pk (outbox db)"
  shows "obx_ok db'"
proof -
  have "list_all (\<lambda>i. i < n) (map fst xs) = list_all (\<lambda>(i, r). i < n) xs" for n and xs :: "(pk \<times> outbox_row) list"
    by (auto simp: list_all_iff)
  then show ?thesis using assms log_ids [of db] log_ids [of db'] log_keys [of db] log_keys [of db']
    unfolding obx_ok_def t_ok_def by metis
qed

lemma set_row_next [simp]: "next_pk (outbox (set_row k f db)) = next_pk (outbox db)"
  by (simp add: set_row_def)

lemma submit_event_next [simp]: "submit_event env p k ev db = (db1, res) \<Longrightarrow> next_pk (outbox db1) = next_pk (outbox db)"
  by (auto simp: submit_event_def Let_def split: if_splits sum.splits)

lemma process_claimed_next [simp]: "next_pk (outbox (process_claimed_event env p k c db)) = next_pk (outbox db)"
  by (auto simp: process_claimed_event_def split: sum.splits option.splits prod.splits)

lemma process_outbox_next: "process_outbox_event env p k db = Inr db' \<Longrightarrow> next_pk (outbox db') = next_pk (outbox db)"
  by (auto simp: process_outbox_event_def claim_outbox_event_def split: option.splits if_splits sum.splits)

lemma claim_next_next: "claim_next_due_outbox_event env db = Some (k, c, db') \<Longrightarrow> next_pk (outbox db') = next_pk (outbox db)"
  by (auto simp: claim_next_due_outbox_event_def split: list.splits)

lemma process_due_next: "next_pk (outbox (snd (process_due_outbox_events env p n db))) = next_pk (outbox db)"
  by (rule process_due_keeps [where P = "\<lambda>d. next_pk (outbox d) = next_pk (outbox db)"])
    (simp_all add: claim_next_next)

section \<open>The outbox machine\<close>

datatype ob_op =
    Queue string pyval pyval string pk
  | Process pk
  | ProcessDue nat

fun ob_exec :: "env \<times> provider \<times> ob_op \<Rightarrow> 'z edb \<Rightarrow> 'z edb" where
  "ob_exec (env, p, Queue eid ty payload prev b) db =
     (case queue_platform_event env db eid ty payload prev b of Inl _ \<Rightarrow> db | Inr (_, db') \<Rightarrow> db')"
| "ob_exec (env, p, Process k) db = (case process_outbox_event env p k db of Inl _ \<Rightarrow> db | Inr db' \<Rightarrow> db')"
| "ob_exec (env, p, ProcessDue n) db = snd (process_due_outbox_events env p n db)"

lemma queue_effect:
  assumes "queue_platform_event env db eid ty payload prev b = Inr (k, db')"
  shows "\<exists>new. prepare_event env eid ty payload prev b = Inr new \<and>
    ((\<exists>r. t_first (\<lambda>_ r. ob_event_id r = ob_event_id new) (outbox db) = Some (k, r) \<and> same_identity r new \<and> db' = db)
     \<or> t_first (\<lambda>_ r. ob_event_id r = ob_event_id new) (outbox db) = None \<and> k = next_pk (outbox db)
       \<and> db' = db \<lparr> outbox := t_insert new (outbox db) \<rparr>)"
  using assms by (auto simp: queue_platform_event_def split: sum.splits option.splits if_splits)

lemma queue_obx_ok:
  assumes "obx_ok db" "queue_platform_event env db eid ty payload prev b = Inr (k, db')"
  shows "obx_ok db' \<and> (\<exists>new. outbox_log db' = outbox_log db @ new)"
proof -
  have ok: "t_ok (outbox db)" using assms(1) by (simp add: obx_ok_def)
  consider "db' = db" | new where "db' = db \<lparr> outbox := t_insert new (outbox db) \<rparr>"
      "t_first (\<lambda>_ r. ob_event_id r = ob_event_id new) (outbox db) = None"
    using queue_effect [OF assms(2)] by blast
  then show ?thesis
  proof cases
    case (2 new)
    have "ob_event_id new \<notin> set (map (\<lambda>(_, r). ob_event_id r) (table_rows (outbox db)))"
      using 2(2) unfolding t_first_def find_None_iff by force
    then have "distinct (map (\<lambda>(_, r). ob_event_id r) (table_rows (outbox db')))"
      using assms(1) by (simp add: obx_ok_def 2(1) t_insert_def)
    then have "obx_ok db'" using ok by (simp add: obx_ok_def 2(1))
    moreover have "outbox_log db' = outbox_log db @ [(next_pk (outbox db), ob_identity new, ob_created_at new)]"
      by (simp add: outbox_log_def 2(1) t_insert_def)
    ultimately show ?thesis by blast
  qed (use assms(1) in simp)
qed

lemma ob_exec_ok: "obx_ok db \<Longrightarrow> obx_ok (ob_exec c db) \<and> (\<exists>new. outbox_log (ob_exec c db) = outbox_log db @ new)"
proof (induction c db rule: ob_exec.induct)
  case (1 env p eid ty payload prev b db)
  then show ?case using queue_obx_ok [OF 1] by (auto split: sum.splits)
next
  case (2 env p k db)
  then show ?case
    using process_outbox_log [of env p k db] process_outbox_next [of env p k db] obx_ok_same_log [OF 2]
    by (auto split: sum.splits)
next
  case (3 env p n db)
  then show ?case using process_due_log [of env p n db] process_due_next [of env p n db] obx_ok_same_log [OF 3] by simp
qed

interpretation obx: append_only ob_exec obx_ok outbox_log
  by unfold_locales (use ob_exec_ok in blast)+

section \<open>Sample outbox\<close>

definition sample_row :: outbox_row where
  "sample_row = new_outbox_row sample_env (''0x'' @ sample_hash) 1 JNull sample_hash (''0x'' @ sample_hash) ''sig'' ''0xAb'' 1"

definition sample_evidence :: evidence_db where
  "sample_evidence = \<lparr> users = users sample_accounts, buildings = buildings sample_accounts,
     units = units sample_accounts, occupancies = occupancies sample_accounts,
     memberships = memberships sample_accounts, registrations = t_empty, throttles = t_empty,
     audit_log = t_empty, outbox = Table 2 [(1, sample_row)] \<rparr>"

definition sample_provider :: provider where
  "sample_provider = \<lparr> relayer_private_key = ''k'', call_records = (\<lambda>_. Inr (ChNone, ChNone, 0, [], 0)),
     send_locked = (\<lambda>_. Inr ''0xt''), wait_for_receipt = (\<lambda>_. Inr [(''status'', PyInt 1)]) \<rparr>"

definition sample_chain_env :: env where
  "sample_chain_env = sample_env \<lparr> anchoring_backend := ''evm'' \<rparr>"

lemma sample_evidence_ok [simp]: "obx_ok sample_evidence"
  by (simp add: obx_ok_def t_ok_def sample_evidence_def)

lemma sample_evidence_row [simp]: "t_get (outbox sample_evidence) 1 = Some sample_row"
  by (simp add: sample_evidence_def t_get_def)

lemma sample_row_claimable [simp]: "claimable t sample_row"
  by (simp add: claimable_def sample_row_def new_outbox_row_def)

lemma sample_env_modes [simp]: "anchoring_disabled sample_env" "\<not> anchoring_disabled sample_chain_env"
  by (simp_all add: anchoring_disabled_def sample_env_def sample_chain_env_def)

lemma sample_find [simp]: "find_record env sample_provider r = Inr None"
  by (simp add: find_record_def sample_provider_def)

section \<open>Queueing is idempotent\<close>

definition outbox_keeps :: "'z edb \<Rightarrow> 'z edb \<Rightarrow> bool" where
  "outbox_keeps db db' \<longleftrightarrow> (\<forall>k r. t_get (outbox db) k = Some r \<longrightarrow>
     (\<exists>r'. t_get (outbox db') k = Some r' \<and> ob_identity r' = ob_identity r))"

lemma obx_first:
  assumes "obx_ok db" "t_get (outbox db) k = Some r"
  shows "t_first (\<lambda>_ x. ob_event_id x = ob_event_id r) (outbox db) = Some (k, r)"
proof -
  have ok: "t_ok (outbox db)" and dist: "distinct (map (\<lambda>(_, r). ob_event_id r) (table_rows (outbox db)))"
    using assms(1) by (auto simp: obx_ok_def)
  obtain k' r' where f: "t_first (\<lambda>_ x. ob_event_id x = ob_event_id r) (outbox db) = Some (k', r')"
    using t_first_None_iff [OF ok, of "\<lambda>_ x. ob_event_id x = ob_event_id r"] assms(2) by fastforce
  have "(k', r') \<in> set (table_rows (outbox db))" "ob_event_id r' = ob_event_id r"
    using t_first_SomeD [OF f] by auto
  moreover have "(k, r) \<in> set (table_rows (outbox db))" using in_rows_get [OF ok] assms(2) by simp
  moreover have "inj_on (\<lambda>(_, r). ob_event_id r) (set (table_rows (outbox db)))" using dist by (simp add: distinct_map)
  ultimately have "(k', r') = (k, r)" by (auto dest: inj_onD [of _ _ "(k', r')" "(k, r)"])
  then show ?thesis using f by simp
qed

lemma same_identity_of: "ob_identity a = ob_identity b \<Longrightarrow> same_identity a b"
  by (simp add: ob_identity_def same_identity_def)

lemma same_identity_trans: "same_identity a b \<Longrightarrow> same_identity b c \<Longrightarrow> same_identity a c"
  by (simp add: same_identity_def)

type_synonym queue_args = "env \<times> string \<times> pyval \<times> pyval \<times> string \<times> pk"

definition queue_put :: "queue_args \<Rightarrow> 'z edb \<Rightarrow> (pk \<times> 'z edb) result" where
  "queue_put a db = (case a of (env, eid, ty, payload, prev, b) \<Rightarrow> queue_platform_event env db eid ty payload prev b)"

lemma queue_row:
  assumes "obx_ok db" "queue_platform_event env db eid ty payload prev b = Inr (k, db')"
  shows "\<exists>new r. prepare_event env eid ty payload prev b = Inr new \<and> t_get (outbox db') k = Some r
    \<and> ob_event_id r = ob_event_id new \<and> same_identity r new"
proof -
  have ok: "t_ok (outbox db)" using assms(1) by (simp add: obx_ok_def)
  obtain new where new: "prepare_event env eid ty payload prev b = Inr new"
    and c: "(\<exists>r. t_first (\<lambda>_ r. ob_event_id r = ob_event_id new) (outbox db) = Some (k, r) \<and> same_identity r new \<and> db' = db)
     \<or> k = next_pk (outbox db) \<and> db' = db \<lparr> outbox := t_insert new (outbox db) \<rparr>"
    using queue_effect [OF assms(2)] by blast
  have "\<exists>r. t_get (outbox db') k = Some r \<and> ob_event_id r = ob_event_id new \<and> same_identity r new"
    using c t_first_Some_get [OF ok] by (fastforce simp: t_get_insert [OF ok] same_identity_def)
  then show ?thesis using new by blast
qed

lemma queue_again:
  assumes "obx_ok db" "queue_platform_event env db eid ty payload prev b = Inr (k, db')"
    and "obx_ok db''" "outbox_keeps db' db''"
  shows "queue_platform_event env db'' eid ty payload prev b = Inr (k, db'')"
proof -
  obtain new r where new: "prepare_event env eid ty payload prev b = Inr new" and r: "t_get (outbox db') k = Some r"
    "ob_event_id r = ob_event_id new" "same_identity r new"
    using queue_row [OF assms(1,2)] by blast
  obtain r' where r': "t_get (outbox db'') k = Some r'" "ob_identity r' = ob_identity r"
    using assms(4) r(1) by (auto simp: outbox_keeps_def)
  have "ob_event_id r' = ob_event_id new" "same_identity r' new"
    using r r'(2) same_identity_trans [OF same_identity_of [OF r'(2)]] by (auto simp: ob_identity_def)
  then show ?thesis using obx_first [OF assms(3) r'(1)] new by (simp add: queue_platform_event_def)
qed

lemma queue_keeps:
  assumes "obx_ok db" "queue_platform_event env db eid ty payload prev b = Inr (k, db')"
  shows "outbox_keeps db db'"
  using queue_effect [OF assms(2)] assms(1)
  by (auto simp: outbox_keeps_def obx_ok_def t_get_insert_old)

interpretation oq: keyed_queue queue_put obx_ok outbox_keeps
proof (unfold_locales, goal_cases)
  case (1 s a k s')
  then show ?case using queue_obx_ok [of s] queue_keeps [of s]
    by (cases a) (auto simp: queue_put_def)
next
  case (2 s a k s' s'')
  then show ?case using queue_again [of s _ _ _ _ _ _ k s' s''] by (cases a) (auto simp: queue_put_def)
next
  case (4 s s' s'')
  then show ?case unfolding outbox_keeps_def by metis
qed (simp add: outbox_keeps_def)

text \<open>
  C9.  Queueing is idempotent: a batch of events that was queued once can be queued again, at any later
  time, and returns the same rows without writing anything.  (A retried publication does not produce a
  second evidence event.)
\<close>

theorem queue_replay:
  assumes "obx_ok db" "puts queue_put batch db = Inr (ks, db')"
  shows "puts queue_put batch db' = Inr (ks, db')"
  by (rule oq.replay [OF assms])

text \<open>
  An event id never changes meaning: queueing an id that exists with other signed content raises
  \<open>EvidenceConflict\<close>, whatever happened in between.
\<close>

theorem queue_conflict:
  assumes "obx_ok db" "t_get (outbox db) k = Some r"
    and "prepare_event env eid ty payload prev b = Inr new" "ob_event_id new = ob_event_id r"
    and "ob_payload_hash new \<noteq> ob_payload_hash r \<or> ob_previous_hash new \<noteq> ob_previous_hash r
      \<or> ob_event_type new \<noteq> ob_event_type r"
  shows "queue_platform_event env db eid ty payload prev b = Inl EvidenceConflict"
  using assms(3-5) obx_first [OF assms(1,2)] by (auto simp: queue_platform_event_def same_identity_def)

text \<open>
  C10.  The signed identity of every outbox row is immutable and rows are never removed or reordered: in
  every run of queueing and worker operations the list of (key, identity, creation time) only grows.
\<close>

theorem outbox_identity_append_only:
  assumes "obx_ok db"
  shows "\<exists>new. outbox_log (fold ob_exec cmds db) = outbox_log db @ new"
  by (rule obx.run_appends [OF assms])

section \<open>Terminal states\<close>

lemma set_row_other: "k \<noteq> i \<Longrightarrow> t_get (outbox (set_row k f db)) i = t_get (outbox db) i"
  by (simp add: set_row_def t_get_update)

lemma set_row_same: "t_get (outbox (set_row k f db)) k = map_option f (t_get (outbox db) k)"
  by (simp add: set_row_def t_get_update)

lemma submit_event_other:
  "submit_event env p k ev db = (db1, res) \<Longrightarrow> k \<noteq> i \<Longrightarrow> t_get (outbox db1) i = t_get (outbox db) i"
  by (auto simp: submit_event_def t_get_update Let_def split: if_splits sum.splits)

lemma process_claimed_other: "k \<noteq> i \<Longrightarrow> t_get (outbox (process_claimed_event env p k c db)) i = t_get (outbox db) i"
  by (auto simp: process_claimed_event_def set_row_other submit_event_other split: sum.splits option.splits prod.splits)

lemma claim_next_claimable:
  assumes "t_ok (outbox db)" "claim_next_due_outbox_event env db = Some (k, c, db1)"
  shows "\<exists>r. t_get (outbox db) k = Some r \<and> claimable (now env) r \<and> c = claim_row (now env) r
    \<and> db1 = set_row k (claim_row (now env)) db"
proof -
  obtain r rest where s: "sort_key (\<lambda>(_, r). ob_created_at r) (t_filter (\<lambda>_. claimable (now env)) (outbox db)) = (k, r) # rest"
    and c: "c = claim_row (now env) r" "db1 = set_row k (claim_row (now env)) db"
    using assms(2) by (auto simp: claim_next_due_outbox_event_def split: list.splits)
  have "(k, r) \<in> set (sort_key (\<lambda>(_, r). ob_created_at r) (t_filter (\<lambda>_. claimable (now env)) (outbox db)))"
    unfolding s by simp
  then have "t_get (outbox db) k = Some r \<and> claimable (now env) r"
    unfolding set_sort in_filter_get [OF assms(1)] .
  then show ?thesis using c by simp
qed

definition settled_row :: "outbox_row \<Rightarrow> bool" where
  "settled_row r \<longleftrightarrow> ob_status r \<in> {Confirmed, Local, Mismatch, Failed}"

lemma settled_not_claimable: "settled_row r \<Longrightarrow> \<not> claimable t r"
  by (auto simp: settled_row_def claimable_def)

lemma claim_step_settled:
  assumes c: "claim_next_due_outbox_event env db = Some (k, c, db1)"
    and "obx_ok db" "t_get (outbox db) i = Some r" "settled_row r"
  shows "obx_ok (process_claimed_event env p k c db1) \<and> t_get (outbox (process_claimed_event env p k c db1)) i = Some r"
proof
  have "t_ok (outbox db)" using assms(2) by (simp add: obx_ok_def)
  from claim_next_claimable [OF this c]
  obtain q where q: "t_get (outbox db) k = Some q" "claimable (now env) q" "db1 = set_row k (claim_row (now env)) db"
    by blast
  have "k \<noteq> i"
  proof
    assume "k = i"
    then have "q = r" using q(1) assms(3) by simp
    then show False using q(2) settled_not_claimable [OF assms(4)] by blast
  qed
  then show "t_get (outbox (process_claimed_event env p k c db1)) i = Some r"
    using assms(3) q(3) by (simp add: process_claimed_other set_row_other)
  show "obx_ok (process_claimed_event env p k c db1)"
    by (rule obx_ok_same_log [OF assms(2)]) (simp_all add: claim_next_log [OF c] claim_next_next [OF c])
qed

lemma process_due_settled:
  assumes "obx_ok db" "t_get (outbox db) i = Some r" "settled_row r"
  shows "t_get (outbox (snd (process_due_outbox_events env p n db))) i = Some r"
proof -
  have "obx_ok (snd (process_due_outbox_events env p n db)) \<and>
      t_get (outbox (snd (process_due_outbox_events env p n db))) i = Some r"
    by (rule process_due_keeps [where P = "\<lambda>d. obx_ok d \<and> t_get (outbox d) i = Some r"])
      (use claim_step_settled assms in blast)+
  then show ?thesis by blast
qed



text \<open>
  C12.  CONFIRMED is never claimed without the chain: when processing takes a row to CONFIRMED, anchoring
  is enabled, and either the registry answered with a record that matches the row's signed identity, or the
  row's own transaction was sent and mined with status 1.
\<close>

theorem confirmed_by_chain:
  assumes "process_outbox_event env p k db = Inr db'" "t_get (outbox db) k = Some r" "ob_status r \<noteq> Confirmed"
    and "t_get (outbox db') k = Some r'" "ob_status r' = Confirmed"
  shows "\<not> anchoring_disabled env \<and>
    ((\<exists>rec. find_record env p r = Inr (Some rec) \<and> record_matches_event env rec r)
     \<or> (\<exists>tx receipt. send_locked p (call_of env r) = Inr tx \<and> wait_for_receipt p tx = Inr receipt
          \<and> receipt_int receipt ''status'' = Some 1 \<and> (tx \<noteq> [] \<longrightarrow> ob_transaction_hash r' = tx)))"
proof -
  let ?c = "claim_row (now env) r"
  let ?db = "set_row k (claim_row (now env)) db"
  have same: "find_record env p ?c = find_record env p r" "call_of env ?c = call_of env r"
    "record_matches_event env rec ?c = record_matches_event env rec r" for rec
    by (simp_all add: find_record_def call_of_def claim_row_def record_matches_event_def)
  have db': "db' = process_claimed_event env p k ?c ?db"
    using assms by (auto simp: process_outbox_event_def claim_outbox_event_def split: if_splits)
  have row: "t_get (outbox ?db) k = Some ?c" using assms(2) by (simp add: set_row_same)
  have en: "\<not> anchoring_disabled env"
    using assms(4,5) row by (auto simp: db' process_claimed_event_def set_row_same)
  show ?thesis
  proof (cases "find_record env p r")
    case (Inl err)
    then show ?thesis using assms(4,5) row by (auto simp: db' process_claimed_event_def set_row_same same en)
  next
    case (Inr found)
    note fr = Inr
    show ?thesis
    proof (cases found)
      case (Some rc)
      then show ?thesis using assms(4,5) row fr
        by (auto simp: db' process_claimed_event_def set_row_same same en split: if_splits)
    next
      case None
      obtain db1 res where s: "submit_event env p k ?c ?db = (db1, res)" by fastforce
      have get1: "\<exists>r1. t_get (outbox db1) k = Some r1"
        using s row by (auto simp: submit_event_def Let_def t_get_update split: if_splits sum.splits)
      show ?thesis
      proof (cases res)
        case (Inl err)
        then show ?thesis using assms(4,5) get1 fr None s
          by (auto simp: db' process_claimed_event_def set_row_same same en)
      next
        case (Inr txr)
        obtain tx receipt where tx: "txr = (tx, receipt)" by fastforce
        have "send_locked p (call_of env r) = Inr tx \<and> wait_for_receipt p tx = Inr receipt
            \<and> receipt_int receipt ''status'' = Some 1"
          using s Inr tx by (auto simp: submit_event_def Let_def same split: if_splits sum.splits)
        moreover have "tx \<noteq> [] \<longrightarrow> ob_transaction_hash r' = tx"
          using assms(4) get1 fr None s Inr tx by (auto simp: db' process_claimed_event_def set_row_same same en)
        ultimately show ?thesis using en by blast
      qed
    qed
  qed
qed

section \<open>Progress\<close>

lemma process_claimed_local:
  assumes "anchoring_disabled env" "claim_next_due_outbox_event env db = Some (k, c, db1)"
  shows "process_claimed_event env p k c db1 = set_row k (mark_local \<circ> claim_row (now env)) db"
  using assms by (auto simp: claim_next_due_outbox_event_def process_claimed_event_def set_row_def t_update_update
      split: list.splits)

lemma local_not_claimable: "\<not> claimable t (mark_local r)"
  by (simp add: claimable_def)

text \<open>
  With anchoring disabled the worker makes progress: a batch whose limit is at least the number of
  due rows leaves no due row, and every row that was due is LOCAL, with no lease, submission, transaction
  or confirmation left on it.
\<close>

theorem disabled_batch_settles_all:
  assumes "anchoring_disabled env" "obx_ok db"
    and "length (t_filter (\<lambda>_. claimable (now env)) (outbox db)) \<le> limit"
    and "t_get (outbox db) i = Some r" "claimable (now env) r"
  shows "\<exists>r'. t_get (outbox (snd (process_due_outbox_events env p limit db))) i = Some r' \<and> ob_status r' = Local
    \<and> ob_lease_expires_at r' = None \<and> ob_submitted_at r' = None \<and> ob_transaction_hash r' = [] \<and> ob_confirmed_at r' = None"
  using assms(2-)
proof (induction limit arbitrary: db)
  case 0
  then have "t_filter (\<lambda>_. claimable (now env)) (outbox db) = []" by simp
  moreover have "(i, r) \<in> set (t_filter (\<lambda>_. claimable (now env)) (outbox db))"
    by (subst in_filter_get) (use 0 in \<open>simp_all add: obx_ok_def\<close>)
  ultimately show ?case by simp
next
  case (Suc limit)
  have ok: "t_ok (outbox db)" using Suc.prems(1) by (simp add: obx_ok_def)
  have "(i, r) \<in> set (t_filter (\<lambda>_. claimable (now env)) (outbox db))"
    using Suc.prems(3,4) by (simp add: in_filter_get ok)
  then have "t_filter (\<lambda>_. claimable (now env)) (outbox db) \<noteq> []" by auto
  then obtain k c db1 where c: "claim_next_due_outbox_event env db = Some (k, c, db1)"
    by (cases "sort_key (\<lambda>(_, r). ob_created_at r) (t_filter (\<lambda>_. claimable (now env)) (outbox db))")
      (auto simp: claim_next_due_outbox_event_def dest: arg_cong [where f = set])
  obtain q where q: "t_get (outbox db) k = Some q" "claimable (now env) q"
    using claim_next_claimable [OF ok c] by blast
  let ?f = "mark_local \<circ> claim_row (now env)"
  let ?db = "process_claimed_event env p k c db1"
  have db: "?db = set_row k ?f db" by (rule process_claimed_local [OF assms(1) c])
  have ok': "obx_ok ?db"
    by (rule obx_ok_same_log [OF Suc.prems(1)]) (simp_all add: claim_next_log [OF c] claim_next_next [OF c])
  have less: "length (t_filter (\<lambda>_. claimable (now env)) (outbox ?db)) \<le> limit"
    using t_filter_leave [OF ok q(1), of "\<lambda>_. claimable (now env)" ?f] q(2) Suc.prems(2)
    by (simp add: db set_row_def local_not_claimable)
  have step: "snd (process_due_outbox_events env p (Suc limit) db) = snd (process_due_outbox_events env p limit ?db)"
    by (simp add: c Let_def split_def)
  show ?case
  proof (cases "k = i")
    case True
    have "t_get (outbox ?db) i = Some (?f r)" using Suc.prems(3) True by (subst db) (simp add: set_row_same)
    moreover have "settled_row (?f r)" by (simp add: settled_row_def)
    ultimately have "t_get (outbox (snd (process_due_outbox_events env p limit ?db))) i = Some (?f r)"
      by (rule process_due_settled [OF ok'])
    then show ?thesis unfolding step by (simp add: mark_local_def)
  next
    case False
    then have "t_get (outbox ?db) i = Some r" using Suc.prems(3) by (simp add: db set_row_other)
    then show ?thesis unfolding step by (rule Suc.IH [OF ok' less _ Suc.prems(4)])
  qed
qed

section \<open>Retries\<close>

text \<open>
  The delay before a retry is between thirty seconds and one hour, never shrinks from one attempt to
  the next, doubles until it reaches the hour and is constant from the eighth attempt on.
\<close>

theorem retry_delay_bounds:
  "seconds 30 \<le> retry_delay n \<and> retry_delay n \<le> seconds 3600 \<and> retry_delay n \<le> retry_delay (Suc n)
   \<and> (8 \<le> n \<longrightarrow> retry_delay n = seconds 3600) \<and> (1 \<le> n \<and> n < 7 \<longrightarrow> retry_delay (Suc n) = 2 * retry_delay n)"
proof -
  have pos: "(1::int) \<le> 2 ^ m" for m by simp
  have "retry_delay n \<le> retry_delay (Suc n)"
    using pos [of "n - 1"] by (cases n) (auto simp: retry_delay_def RETRY_BASE_SECONDS_def RETRY_MAX_SECONDS_def min_def)
  moreover have "retry_delay n = seconds 3600" if "8 \<le> n"
  proof -
    have "(2::int) ^ 7 \<le> 2 ^ (n - 1)" using that by (intro power_increasing) auto
    then show ?thesis by (simp add: retry_delay_def RETRY_BASE_SECONDS_def RETRY_MAX_SECONDS_def)
  qed
  moreover have "retry_delay (Suc n) = 2 * retry_delay n" if "1 \<le> n" "n < 7"
  proof -
    have "n \<in> {1, 2, 3, 4, 5, 6}" using that by auto
    then show ?thesis by (auto simp: retry_delay_def RETRY_BASE_SECONDS_def RETRY_MAX_SECONDS_def seconds_def)
  qed
  ultimately show ?thesis using pos [of "n - 1"]
    by (simp add: retry_delay_def RETRY_BASE_SECONDS_def RETRY_MAX_SECONDS_def)
qed

theorem retry_delay_bounds_witness: "retry_delay 8 = seconds 3600 \<and> retry_delay 9 = seconds 3600"
  using retry_delay_bounds [of 8] retry_delay_bounds [of 9] by simp

section \<open>Two workers\<close>

text \<open>
  A stalled worker can take back settled evidence: worker A claims a row and stalls past its lease,
  worker B claims the row and confirms it, and when A's chain lookup then fails, \<open>_mark_retry\<close> writes
  PENDING over CONFIRMED, because nothing checks that A still holds the lease.
\<close>

theorem stalled_worker_unsettles:
  assumes "claim_outbox_event envA k db = Some (claimed, db1)"
    and "process_outbox_event envB pB k db1 = Inr db2"
    and "t_get (outbox db2) k = Some r" "ob_status r = Confirmed"
    and "\<not> anchoring_disabled envA'" "find_record envA' pA claimed = Inl err"
  shows "t_get (outbox (process_claimed_event envA' pA k claimed db2)) k = Some (mark_retry (now envA') err r)
    \<and> ob_status (mark_retry (now envA') err r) = Pending"
  using assms(3-) by (simp add: process_claimed_event_def set_row_same)

section \<open>Witnesses\<close>

theorem outbox_identity_append_only_witness:
  "\<exists>new. outbox_log (fold ob_exec [(sample_chain_env, sample_provider, Process 1)] sample_evidence)
     = outbox_log sample_evidence @ new"
  by (rule outbox_identity_append_only) simp

lemma process_submits:
  assumes "t_get (outbox db) k = Some r" "claimable (now env) r" "\<not> anchoring_disabled env"
    and "find_record env p r = Inr None" "relayer_private_key p \<noteq> []" "send_locked p (call_of env r) = Inr tx"
    and "wait_for_receipt p tx = Inr receipt" "receipt_int receipt ''status'' = Some 1"
  shows "\<exists>db' r'. process_outbox_event env p k db = Inr db' \<and> t_get (outbox db') k = Some r' \<and> ob_status r' = Confirmed"
proof -
  let ?c = "claim_row (now env) r"
  let ?db = "set_row k (claim_row (now env)) db"
  have st: "ob_status r \<notin> {Confirmed, Mismatch, Local}" using assms(2) by (auto simp: claimable_def)
  have same: "find_record env p ?c = Inr None" "call_of env ?c = call_of env r"
    using assms(4) by (simp_all add: find_record_def call_of_def claim_row_def)
  obtain db1 where s: "submit_event env p k ?c ?db = (db1, Inr (tx, receipt))"
    using assms(5-) by (simp add: submit_event_def same Let_def)
  then obtain r1 where r1: "t_get (outbox db1) k = Some r1"
    using assms(1,5-) by (auto simp: submit_event_def same Let_def t_get_update set_row_def split: if_splits)
  have "process_outbox_event env p k db = Inr (set_row k (mark_confirmed (now env) tx receipt None) db1)"
    using assms(1-3) st same s by (simp add: process_outbox_event_def claim_outbox_event_def process_claimed_event_def)
  then show ?thesis using r1 by (simp add: set_row_same)
qed

lemma sample_confirm:
  assumes "t_get (outbox db) 1 = Some r" "claimable (now env) r" "\<not> anchoring_disabled env"
  shows "\<exists>db' r'. process_outbox_event env sample_provider 1 db = Inr db'
     \<and> t_get (outbox db') 1 = Some r' \<and> ob_status r' = Confirmed"
  by (rule process_submits [OF assms, where tx = "''0xt''" and receipt = "[(''status'', PyInt 1)]"])
    (simp_all add: sample_provider_def find_record_def, simp add: receipt_int_def)

theorem confirmed_by_chain_witness:
  "\<exists>tx receipt. send_locked sample_provider (call_of sample_chain_env sample_row) = Inr tx
     \<and> wait_for_receipt sample_provider tx = Inr receipt \<and> receipt_int receipt ''status'' = Some 1"
proof -
  obtain db' r' where c: "process_outbox_event sample_chain_env sample_provider 1 sample_evidence = Inr db'"
    "t_get (outbox db') 1 = Some r'" "ob_status r' = Confirmed"
    using sample_confirm [OF sample_evidence_row sample_row_claimable sample_env_modes(2)] by blast
  have "ob_status sample_row \<noteq> Confirmed" by (simp add: sample_row_def new_outbox_row_def)
  from confirmed_by_chain [OF c(1) sample_evidence_row this c(2,3)] show ?thesis by auto
qed

theorem disabled_batch_settles_all_witness:
  "\<exists>r'. t_get (outbox (snd (process_due_outbox_events sample_env sample_provider 1 sample_evidence))) 1 = Some r'
     \<and> ob_status r' = Local"
proof -
  have "length (t_filter (\<lambda>_. claimable (now sample_env)) (outbox sample_evidence)) \<le> 1"
    by (simp add: sample_evidence_def t_filter_def)
  from disabled_batch_settles_all [OF sample_env_modes(1) sample_evidence_ok this sample_evidence_row sample_row_claimable]
  show ?thesis by blast
qed




lemma sample_digest: "is_hex64 (sha256_hex sample_env bytes)"
proof -
  let ?s = "take 64 (map (\<lambda>c. CHR ''a'') bytes @ replicate 64 (CHR ''0''))"
  have eq: "sha256_hex sample_env bytes = ?s" by (simp add: sample_env_def)
  have hex: "is_lower_hex (CHR ''a'')" "is_lower_hex (CHR ''0'')" by code_simp+
  have "is_lower_hex c" if "c \<in> set ?s" for c using in_set_takeD [OF that] hex by auto
  then show ?thesis unfolding is_hex64_def eq list_all_iff by simp
qed

lemma sample_prepare_row:
  assumes v: "canonical_bytes id payload = Inr v" "validate_payload (PyInt t) payload = Inr ()" "1 \<le> t" "t < 12"
    and b: "is_bytes32 eid" "py_lower eid = eid" "is_bytes32 prev" "py_lower prev = prev"
  shows "\<exists>n sg. prepare_event sample_env eid (PyInt t) payload prev b
    = Inr (new_outbox_row sample_env eid t n (sha256_hex sample_env v) prev sg ''0xAb'' b)"
proof -
  obtain n where n: "json_loads v = Some n" "canonical_bytes id (of_json n) = Inr v"
    using canonical_stable [of id payload v] v by auto
  have d: "is_bytes32 (''0x'' @ sha256_hex sample_env v)" using sample_digest by simp
  obtain sg where sg: "normalize_signature (SigStr (bytes_hex (replicate 65 1))) = Inr sg" using sample_signature by blast
  have "platform_sign_evidence sample_env eid t (''0x'' @ sha256_hex sample_env v) prev = Inr sg"
    using b d sg v(3,4)
    by (simp add: platform_sign_evidence_def build_evidence_typed_data_def starts_with_def) (simp add: sample_env_def)
  moreover have "nfc sample_env = id" "platform_signer_address sample_env = Inr ''0xAb''"
    by (simp_all add: sample_env_def platform_signer_address_def)
  ultimately have "prepare_event sample_env eid (PyInt t) payload prev b
      = Inr (new_outbox_row sample_env eid t n (sha256_hex sample_env v) prev sg ''0xAb'' b)"
    using v n b by (simp add: prepare_event_def payload_hash_def Let_def)
  then show ?thesis by blast
qed

lemma sample_prepare:
  "\<exists>new. prepare_event sample_env (''0x'' @ sample_hash) (PyInt 1) sample_payload (''0x'' @ sample_hash) 1 = Inr new
     \<and> ob_event_id new = ''0x'' @ sample_hash \<and> ob_payload_hash new = sha256_hex sample_env
         (projr (canonical_bytes id sample_payload)) \<and> ob_signer_address new = ''0xAb''"
proof -
  obtain v where v: "canonical_bytes id sample_payload = Inr v"
    by (auto simp: canonical_bytes_def sample_payload_def)
  have b: "is_bytes32 (''0x'' @ sample_hash)" "py_lower (''0x'' @ sample_hash) = ''0x'' @ sample_hash"
    using sample_hash_ok is_bytes32_lower [of "''0x'' @ sample_hash"] by simp_all
  have "\<exists>n sg. prepare_event sample_env (''0x'' @ sample_hash) (PyInt 1) sample_payload (''0x'' @ sample_hash) 1
      = Inr (new_outbox_row sample_env (''0x'' @ sample_hash) 1 n (sha256_hex sample_env v) (''0x'' @ sample_hash) sg ''0xAb'' 1)"
    by (rule sample_prepare_row [OF v sample_payload_valid _ _ b b]) simp_all
  then obtain n sg where "prepare_event sample_env (''0x'' @ sample_hash) (PyInt 1) sample_payload (''0x'' @ sample_hash) 1
      = Inr (new_outbox_row sample_env (''0x'' @ sample_hash) 1 n (sha256_hex sample_env v) (''0x'' @ sample_hash) sg ''0xAb'' 1)"
    by blast
  then show ?thesis by (intro exI conjI) (assumption, simp_all add: new_outbox_row_def v)
qed

definition sample_queue_args :: queue_args where
  "sample_queue_args = (sample_env, ''0x'' @ sample_hash, PyInt 1, sample_payload, ''0x'' @ sample_hash, 1)"

theorem queue_replay_witness:
  "\<exists>db'. puts queue_put [sample_queue_args] (sample_evidence \<lparr> outbox := t_empty \<rparr>) = Inr ([1], db')
     \<and> puts queue_put [sample_queue_args] db' = Inr ([1], db')"
proof -
  obtain new where "prepare_event sample_env (''0x'' @ sample_hash) (PyInt 1) sample_payload (''0x'' @ sample_hash) 1 = Inr new"
    "ob_signer_address new = ''0xAb''" using sample_prepare by blast
  then obtain db' where p: "puts queue_put [sample_queue_args] (sample_evidence \<lparr> outbox := t_empty \<rparr>) = Inr ([1], db')"
    by (simp add: sample_queue_args_def queue_put_def queue_platform_event_def t_first_def t_empty_def)
  have "obx_ok (sample_evidence \<lparr> outbox := t_empty \<rparr>)" by (simp add: obx_ok_def) (simp add: t_empty_def)
  from queue_replay [OF this p] p show ?thesis by blast
qed

theorem queue_conflict_witness:
  "\<exists>db. queue_platform_event sample_env (db :: evidence_db) (''0x'' @ sample_hash) (PyInt 1) sample_payload (''0x'' @ sample_hash) 1
     = Inl EvidenceConflict"
proof -
  obtain new where new: "prepare_event sample_env (''0x'' @ sample_hash) (PyInt 1) sample_payload (''0x'' @ sample_hash) 1 = Inr new"
    "ob_event_id new = ''0x'' @ sample_hash" using sample_prepare by blast
  let ?db = "sample_evidence \<lparr> outbox := Table 2 [(1, sample_row \<lparr> ob_event_type := 10, ob_payload_hash := [] \<rparr>)] \<rparr>"
  have ok: "obx_ok ?db" by (simp add: obx_ok_def t_ok_def)
  have g: "t_get (outbox ?db) 1 = Some (sample_row \<lparr> ob_event_type := 10, ob_payload_hash := [] \<rparr>)"
    by (simp add: t_get_def)
  have "ob_event_type new = 1"
    using new(1) by (auto simp: prepare_event_def new_outbox_row_def Let_def split: sum.splits if_splits option.splits)
  then have diff: "ob_payload_hash new \<noteq> ob_payload_hash (sample_row \<lparr> ob_event_type := 10, ob_payload_hash := [] \<rparr>)
      \<or> ob_previous_hash new \<noteq> ob_previous_hash (sample_row \<lparr> ob_event_type := 10, ob_payload_hash := [] \<rparr>)
      \<or> ob_event_type new \<noteq> ob_event_type (sample_row \<lparr> ob_event_type := 10, ob_payload_hash := [] \<rparr>)" by simp
  have "ob_event_id new = ob_event_id (sample_row \<lparr> ob_event_type := 10, ob_payload_hash := [] \<rparr>)"
    using new(2) by (simp add: sample_row_def new_outbox_row_def)
  from queue_conflict [OF ok g new(1) this diff] show ?thesis by blast
qed

theorem stalled_worker_unsettles_witness:
  "\<exists>claimed db1 db2 r p. claim_outbox_event sample_env 1 sample_evidence = Some (claimed, db1)
     \<and> t_get (outbox (db2 :: evidence_db)) 1 = Some r \<and> ob_status r = Confirmed
     \<and> map_option ob_status (t_get (outbox (process_claimed_event sample_chain_env p 1 claimed db2)) 1) = Some Pending"
proof -
  let ?envB = "sample_chain_env \<lparr> now := now sample_env + seconds 200 \<rparr>"
  let ?pA = "sample_provider \<lparr> call_records := \<lambda>_. Inl ''timeout'' \<rparr>"
  obtain claimed db1 where a: "claim_outbox_event sample_env 1 sample_evidence = Some (claimed, db1)"
    and row1: "t_get (outbox db1) 1 = Some (claim_row (now sample_env) sample_row)"
    by (simp add: claim_outbox_event_def set_row_same sample_evidence_row [simplified])
  have cl: "claimable (now ?envB) (claim_row (now sample_env) sample_row)"
    by (simp add: claimable_def claim_row_def LEASE_SECONDS_def)
  have en: "\<not> anchoring_disabled ?envB" by (simp add: anchoring_disabled_def sample_chain_env_def)
  obtain db2 r where b: "process_outbox_event ?envB sample_provider 1 db1 = Inr db2"
    "t_get (outbox db2) 1 = Some r" "ob_status r = Confirmed"
    using sample_confirm [OF row1 cl en] by blast
  have f: "find_record sample_chain_env ?pA claimed = Inl ''timeout''" by (simp add: find_record_def)
  have "map_option ob_status (t_get (outbox (process_claimed_event sample_chain_env ?pA 1 claimed db2)) 1) = Some Pending"
    using stalled_worker_unsettles [OF a b sample_env_modes(2) f] by simp
  then show ?thesis using a b(2,3) by blast
qed

end
