(* ===== verification/Machine.thy ===== *)
theory Machine
  imports Settlements Worker
begin

text \<open>
  The services as one machine: the commands residents, Management and the workers issue, executed one
  after the other on the database.  A command that raises leaves the state as it is.
\<close>

section \<open>Commands\<close>

datatype cmd =
    SubmitReport pk pk string pk "pk list" string bool
  | ConfirmTriage pk pk pyval string pk pyval pyval
  | GroupReport pk pk pk
  | StartWork pk pk
  | PublishProgress "pk option" pk string string "pk option"
  | CompleteCase pk pk string string
  | CompleteProposal pk pk string string
  | CloseExpired
  | RequestInfo pk pk string
  | ReplyInfo pk pk string
  | DeclineReport pk pk string
  | RateCase pk pk pyval pyval
  | RateProposal pk pk pyval pyval
  | CreateProposal pk pk
  | CreateStandalone pk pk
  | Decide pk pk pyval string
  | PublishVersion pk pk version_args
  | RecordFund pk entry_type pyval "pk option" pk
  | VerifyFund pk pk
  | Settle pk pk pk string
  | DeliverEvent pk
  | DeliverDue nat

definition exec :: "env \<times> provider \<times> cmd \<Rightarrow> 'z ddb \<Rightarrow> 'z ddb" where
  "exec c db =
     (case c of (env, prov, cm) \<Rightarrow>
       (case cm of
          SubmitReport r u t l ps ref priv \<Rightarrow>
            (case submit_report_idempotent env db r u t l ps ref priv of Inl _ \<Rightarrow> db | Inr (_, _, db') \<Rightarrow> db')
        | ConfirmTriage r op cat urg loc q d \<Rightarrow> keep db (confirm_triage env db r op cat urg loc q d)
        | GroupReport c r op \<Rightarrow> keep db (group_report env db c r op)
        | StartWork c m \<Rightarrow> keep_unit db (start_case_work env db c m)
        | PublishProgress c m cause res p \<Rightarrow> keep db (publish_progress env db c m cause res p)
        | CompleteCase c m cause res \<Rightarrow> keep_unit db (complete_case_work env db c m cause res)
        | CompleteProposal p m cause res \<Rightarrow> keep_unit db (complete_proposal_work env db p m cause res)
        | CloseExpired \<Rightarrow> snd (close_expired_completed_cases (now env) db)
        | RequestInfo r m msg \<Rightarrow> keep db (request_information env db r m msg)
        | ReplyInfo res r t \<Rightarrow> keep db (reply_information env db res r t)
        | DeclineReport r m why \<Rightarrow> keep_unit db (decline_report env db r m why)
        | RateCase res c sat com \<Rightarrow> keep db (rate_completed_case env db res c sat com)
        | RateProposal res p sat com \<Rightarrow> keep db (rate_completed_proposal env db res p sat com)
        | CreateProposal c m \<Rightarrow> keep db (create_proposal env db c m)
        | CreateStandalone b m \<Rightarrow> keep db (create_standalone_proposal env db b m)
        | Decide p m proceed nt \<Rightarrow> keep_unit db (decide_proposal env db p m proceed nt)
        | PublishVersion p m a \<Rightarrow> keep db (publish_proposal_version env db p m a)
        | RecordFund f t amt ev m \<Rightarrow> keep db (record_fund_source env db f t amt ev m)
        | VerifyFund e m \<Rightarrow> keep db (verify_fund_source env db e m)
        | Settle p m tr eid \<Rightarrow> keep db (record_settlement env db p m tr eid)
        | DeliverEvent k \<Rightarrow> keep_unit db (process_outbox_event env prov k db)
        | DeliverDue n \<Rightarrow> snd (process_due_outbox_events env prov n db)))"

section \<open>Frames\<close>

text \<open>The money tables, and the rest of what finance owns.\<close>

definition money :: "'z ddb \<Rightarrow> settlement_row table \<times> fund_row table \<times> fund_entry_row table \<times> fund_verification_row table
    \<times> ledger_entry_row table" where
  "money db = (settlements db, funds db, fund_entries db, fund_verifications db, ledger db)"

definition frozen :: "'z ddb \<Rightarrow> proposal_version_row table \<times> outbox_row table" where
  "frozen db = (proposal_versions db, outbox db)"

lemma money_simps [simp]:
  "money (set_reports P s db) = money db" "money (set_case c f db) = money db" "money (set_proposal p g db) = money db"
  "money (db \<lparr> audit_log := a \<rparr>) = money db" "money (db \<lparr> reports := r \<rparr>) = money db"
  "money (db \<lparr> case_reports := cr \<rparr>) = money db" "money (db \<lparr> info_requests := i \<rparr>) = money db"
  "money (db \<lparr> work_updates := w \<rparr>) = money db" "money (db \<lparr> ratings := ra \<rparr>) = money db"
  "money (db \<lparr> proposals := ps \<rparr>) = money db" "money (db \<lparr> decisions := ds \<rparr>) = money db"
  "money (db \<lparr> cases := cs \<rparr>) = money db" "money (db \<lparr> report_photos := ph \<rparr>) = money db"
  "money (db \<lparr> triage_jobs := tj \<rparr>) = money db" "money (db \<lparr> outbox := ob \<rparr>) = money db"
  "money (db \<lparr> proposal_versions := pv \<rparr>) = money db" "money (db \<lparr> proposal_documents := pd \<rparr>) = money db"
  "money (db \<lparr> predictions := pp \<rparr>) = money db"
  by (simp_all add: money_def set_reports_def set_case_def set_proposal_def)

lemma frozen_simps [simp]:
  "frozen (set_reports P s db) = frozen db" "frozen (set_case c f db) = frozen db" "frozen (set_proposal p g db) = frozen db"
  "frozen (db \<lparr> audit_log := a \<rparr>) = frozen db" "frozen (db \<lparr> reports := r \<rparr>) = frozen db"
  "frozen (db \<lparr> case_reports := cr \<rparr>) = frozen db" "frozen (db \<lparr> info_requests := i \<rparr>) = frozen db"
  "frozen (db \<lparr> work_updates := w \<rparr>) = frozen db" "frozen (db \<lparr> ratings := ra \<rparr>) = frozen db"
  "frozen (db \<lparr> proposals := ps \<rparr>) = frozen db" "frozen (db \<lparr> decisions := ds \<rparr>) = frozen db"
  "frozen (db \<lparr> cases := cs \<rparr>) = frozen db" "frozen (db \<lparr> report_photos := ph \<rparr>) = frozen db"
  "frozen (db \<lparr> triage_jobs := tj \<rparr>) = frozen db" "frozen (db \<lparr> fund_entries := fe \<rparr>) = frozen db"
  "frozen (db \<lparr> funds := fu \<rparr>) = frozen db" "frozen (db \<lparr> fund_verifications := fv \<rparr>) = frozen db"
  "frozen (db \<lparr> ledger := le \<rparr>) = frozen db" "frozen (db \<lparr> settlements := st \<rparr>) = frozen db"
  "frozen (db \<lparr> predictions := pp \<rparr>) = frozen db" "frozen (db \<lparr> proposal_documents := pd \<rparr>) = frozen db"
  by (simp_all add: frozen_def set_reports_def set_case_def set_proposal_def)

lemma proposals_simps [simp]:
  "proposals (set_case c f db) = proposals db"
  by (simp_all add: set_case_def)

lemma record_audit_frame:
  assumes "record_audit env db actor mem action ty tid res meta = Inr db'"
  shows "money db' = money db" "frozen db' = frozen db" "proposals db' = proposals db" "cases db' = cases db"
    "reports db' = reports db" "case_reports db' = case_reports db" "info_requests db' = info_requests db"
    "memberships db' = memberships db" "ratings db' = ratings db" "work_updates db' = work_updates db" "buildings db' = buildings db"
  using record_audit_appends [OF assms] by simp_all

lemmas svc_splits = option.splits sum.splits if_splits prod.splits pyval.splits

lemma submit_report_frame:
  assumes "submit_report_idempotent env db r u t l ps ref priv = Inr (k, b, db')"
  shows "money db' = money db \<and> frozen db' = frozen db \<and> proposals db' = proposals db"
  using assms
  by (auto simp: submit_report_idempotent_def submit_report_def Let_def record_audit_frame split: svc_splits)

lemma confirm_triage_frame:
  assumes "confirm_triage env db r op cat urg loc q d = Inr (k, db')"
  shows "money db' = money db \<and> frozen db' = frozen db \<and> proposals db' = proposals db"
  using assms
  by (auto simp: confirm_triage_def link_report_def Let_def record_audit_frame split: svc_splits)

lemma group_report_frame:
  assumes "group_report env db c r op = Inr (k, db')"
  shows "money db' = money db \<and> frozen db' = frozen db \<and> proposals db' = proposals db"
  using assms
  by (auto simp: group_report_def link_report_def Let_def record_audit_frame split: svc_splits)

lemma start_case_work_frame:
  assumes "start_case_work env db c m = Inr db'"
  shows "money db' = money db \<and> frozen db' = frozen db \<and> proposals db' = proposals db"
  using assms by (auto simp: start_case_work_def Let_def record_audit_frame split: svc_splits)

lemma publish_progress_frame:
  assumes "publish_progress env db c m cause res p = Inr (k, db')"
  shows "money db' = money db \<and> frozen db' = frozen db \<and> proposals db' = proposals db"
  using assms by (auto simp: publish_progress_def append_update_def record_audit_frame split: svc_splits)

lemma request_information_frame:
  assumes "request_information env db r m msg = Inr (k, db')"
  shows "money db' = money db \<and> frozen db' = frozen db \<and> proposals db' = proposals db"
  using assms by (auto simp: request_information_def Let_def record_audit_frame split: svc_splits)

lemma reply_information_frame:
  assumes "reply_information env db res r t = Inr (k, db')"
  shows "money db' = money db \<and> frozen db' = frozen db \<and> proposals db' = proposals db"
  using assms by (auto simp: reply_information_def Let_def record_audit_frame split: svc_splits)

lemma decline_close_frame [simp]:
  "money (decline_close t r l db) = money db" "frozen (decline_close t r l db) = frozen db"
  "proposals (decline_close t r l db) = proposals db"
  by (auto simp: decline_close_def Let_def split: option.splits)

lemma fold_decline_frame [simp]:
  "money (fold (decline_close t r) ls db) = money db" "frozen (fold (decline_close t r) ls db) = frozen db"
  "proposals (fold (decline_close t r) ls db) = proposals db"
  by (induction ls arbitrary: db) simp_all

lemma decline_report_frame:
  assumes "decline_report env db r m why = Inr db'"
  shows "money db' = money db \<and> frozen db' = frozen db \<and> proposals db' = proposals db"
  using assms by (auto simp: decline_report_def Let_def record_audit_frame split: svc_splits)

lemma rate_case_frame:
  assumes "rate_completed_case env db res c sat com = Inr (k, db')"
  shows "money db' = money db \<and> frozen db' = frozen db \<and> proposals db' = proposals db"
  using assms by (auto simp: rate_completed_case_def Let_def record_audit_frame split: svc_splits)

lemma rate_proposal_frame:
  assumes "rate_completed_proposal env db res p sat com = Inr (k, db')"
  shows "money db' = money db \<and> frozen db' = frozen db \<and> proposals db' = proposals db"
  using assms by (auto simp: rate_completed_proposal_def Let_def record_audit_frame split: svc_splits)

lemmas maintenance_frames = submit_report_frame confirm_triage_frame group_report_frame start_case_work_frame
  publish_progress_frame request_information_frame reply_information_frame decline_report_frame rate_case_frame
  rate_proposal_frame

section \<open>The life cycle of a proposal\<close>

text \<open>The abstract step relation the services refine.\<close>

inductive prop_step :: "proposal_row \<Rightarrow> proposal_row \<Rightarrow> bool" where
  publish: "pr_status p \<in> {PDraft, PPublished, PInProgress} \<Longrightarrow>
    prop_step p (p \<lparr> pr_current_version := Some v, pr_status := PPublished, pr_public_token := tk \<rparr>)"
| decide: "pr_status p = PPublished \<Longrightarrow>
    prop_step p (p \<lparr> pr_status := (if proceed then PInProgress else PNotProceeding), pr_decided_by := Some m,
      pr_decided_at := Some t, pr_decision_note := note, pr_closed_at := (if proceed then None else Some t) \<rparr>)"
| complete: "pr_status p = PInProgress \<Longrightarrow>
    prop_step p (p \<lparr> pr_status := PCompleted, pr_completed_at := Some t \<rparr>)"
| close: "pr_status p = PCompleted \<Longrightarrow> prop_step p (p \<lparr> pr_status := PClosed, pr_closed_at := Some t \<rparr>)"

inductive_cases prop_stepE: "prop_step p q"

definition prop_moves :: "'z ddb \<Rightarrow> 'z ddb \<Rightarrow> bool" where
  "prop_moves db db' \<longleftrightarrow>
     (\<forall>p pr. t_get (proposals db) p = Some pr \<longrightarrow> (\<exists>pr'. t_get (proposals db') p = Some pr' \<and> prop_step\<^sup>*\<^sup>* pr pr'))
     \<and> (\<forall>p pr'. t_get (proposals db') p = Some pr' \<longrightarrow> t_get (proposals db) p = None \<longrightarrow>
          (\<exists>c b m. pr' = new_proposal c b m))"

lemma prop_moves_same: "proposals db' = proposals db \<Longrightarrow> prop_moves db db'"
  by (auto simp: prop_moves_def)

lemma prop_moves_update:
  assumes "proposals db' = t_update p f (proposals db)" "t_get (proposals db) p = Some pr" "prop_step pr (f pr)"
  shows "prop_moves db db'"
  using assms by (auto simp: prop_moves_def t_get_update)

lemma prop_moves_insert:
  assumes "t_ok (proposals db)" "proposals db' = t_insert (new_proposal c b m) (proposals db)"
  shows "prop_moves db db'"
  using assms tbl.insert_keeps_rows [of "proposals db"] by (auto simp: prop_moves_def t_get_insert)

lemma prop_moves_trans:
  assumes "prop_moves a b" "prop_moves b c" "\<And>p. t_get (proposals a) p = None \<Longrightarrow> t_get (proposals b) p = None"
  shows "prop_moves a c"
  using assms unfolding prop_moves_def by (meson rtranclp_trans)

lemma create_proposal_effect:
  assumes "create_proposal env db c m = Inr (k, db')"
  shows "money db' = money db \<and> frozen db' = frozen db \<and> k = next_pk (proposals db) \<and>
    (\<exists>b mm. proposals db' = t_insert (new_proposal (Some c) b mm) (proposals db))"
  using assms by (auto simp: create_proposal_def Let_def record_audit_frame split: svc_splits)

lemma create_standalone_effect:
  assumes "create_standalone_proposal env db b m = Inr (k, db')"
  shows "money db' = money db \<and> frozen db' = frozen db \<and> k = next_pk (proposals db) \<and>
    (\<exists>mm. proposals db' = t_insert (new_proposal None b mm) (proposals db))"
  using assms by (auto simp: create_standalone_proposal_def Let_def record_audit_frame split: svc_splits)

lemma set_proposal_proposals [simp]: "proposals (set_proposal p f db) = t_update p f (proposals db)"
  by (simp add: set_proposal_def)

lemma decide_proposal_effect:
  assumes "decide_proposal env db p m proceed0 note0 = Inr db'"
  shows "money db' = money db \<and> frozen db' = frozen db \<and>
    (\<exists>pr proceed mm. t_get (proposals db) p = Some pr \<and> pr_status pr = PPublished \<and> manages db m (pr_building pr)
      \<and> proposals db' = t_update p (\<lambda>r. r \<lparr> pr_status := (if proceed then PInProgress else PNotProceeding),
          pr_decided_by := Some mm, pr_decided_at := Some (now env), pr_decision_note := py_strip note0,
          pr_closed_at := (if proceed then None else Some (now env)) \<rparr>) (proposals db))"
  using assms
  by (auto simp: decide_proposal_def record_audit_frame split: svc_splits dest: require_management_manages)

lemma complete_proposal_work_effect:
  assumes "complete_proposal_work env db p m cause res = Inr db'"
  shows "money db' = money db \<and> frozen db' = frozen db \<and>
    (\<exists>pr. t_get (proposals db) p = Some pr \<and> pr_status pr = PInProgress
      \<and> proposals db' = t_update p (\<lambda>r. r \<lparr> pr_status := PCompleted, pr_completed_at := Some (now env) \<rparr>) (proposals db))"
  using assms
  by (auto simp: complete_proposal_work_def standalone_in_progress_def append_update_def record_audit_frame split: svc_splits)

lemma complete_case_work_effect:
  assumes "complete_case_work env db c m cause res = Inr db'"
  shows "money db' = money db \<and> frozen db' = frozen db \<and>
    (proposals db' = proposals db \<or>
     (\<exists>p pr. t_first (\<lambda>_ p. pr_case p = Some c \<and> pr_status p = PInProgress) (proposals db) = Some (p, pr)
      \<and> proposals db' = t_update p (\<lambda>r. r \<lparr> pr_status := PCompleted, pr_completed_at := Some (now env) \<rparr>) (proposals db)))"
  using assms
  by (auto simp: complete_case_work_def append_update_def Let_def record_audit_frame split: svc_splits)

lemma close_case_frame [simp]:
  "money (close_case t c db) = money db" "frozen (close_case t c db) = frozen db" "proposals (close_case t c db) = proposals db"
  by (simp_all add: close_case_def)

lemma fold_close_case_frame [simp]:
  "money (fold (\<lambda>(c, _). close_case t c) cs db) = money db" "frozen (fold (\<lambda>(c, _). close_case t c) cs db) = frozen db"
  "proposals (fold (\<lambda>(c, _). close_case t c) cs db) = proposals db"
  by (induction cs arbitrary: db) auto

lemma close_proposal_frame:
  "money (snd (close_proposal t pp st)) = money (snd st)" "frozen (snd (close_proposal t pp st)) = frozen (snd st)"
  by (simp_all add: close_proposal_def split: prod.splits)

lemma fold_close_proposal_frame:
  "money (snd (fold (close_proposal t) ps st)) = money (snd st) \<and> frozen (snd (fold (close_proposal t) ps st)) = frozen (snd st)"
  by (induction ps arbitrary: st) (simp_all add: close_proposal_frame)

lemma close_proposal_cases:
  "proposals (snd (close_proposal t (p, pr) st)) = proposals (snd st)
   \<or> proposals (snd (close_proposal t (p, pr) st)) =
       t_update p (\<lambda>r. r \<lparr> pr_status := PClosed, pr_closed_at := Some t \<rparr>) (proposals (snd st))"
  by (cases st) (auto simp: close_proposal_def)

lemma close_proposal_others:
  "q \<noteq> p \<Longrightarrow> t_get (proposals (snd (close_proposal t (p, pr) st))) q = t_get (proposals (snd st)) q"
  using close_proposal_cases [of t p pr st] by (auto simp: t_get_update)

lemma close_proposal_dom:
  "t_get (proposals (snd (close_proposal t (p, pr) st))) q = None \<longleftrightarrow> t_get (proposals (snd st)) q = None"
  using close_proposal_cases [of t p pr st] by (auto simp: t_get_update split: if_splits)

lemma close_proposal_moves:
  assumes "t_get (proposals (snd st)) p = Some pr" "pr_status pr = PCompleted"
  shows "prop_moves (snd st) (snd (close_proposal t (p, pr) st))"
  using close_proposal_cases [of t p pr st]
proof
  assume "proposals (snd (close_proposal t (p, pr) st)) = proposals (snd st)"
  then show ?thesis by (rule prop_moves_same)
next
  assume "proposals (snd (close_proposal t (p, pr) st)) =
      t_update p (\<lambda>r. r \<lparr> pr_status := PClosed, pr_closed_at := Some t \<rparr>) (proposals (snd st))"
  then show ?thesis by (rule prop_moves_update [OF _ assms(1)]) (rule prop_step.close [OF assms(2)])
qed

lemma fold_close_proposal_moves:
  assumes "distinct (map fst ps)" "\<forall>x \<in> set ps. t_get (proposals (snd st)) (fst x) = Some (snd x) \<and> pr_status (snd x) = PCompleted"
  shows "prop_moves (snd st) (snd (fold (close_proposal t) ps st))"
  using assms
proof (induction ps arbitrary: st)
  case Nil
  then show ?case by (simp add: prop_moves_same)
next
  case (Cons pp ps)
  obtain p pr where pp: "pp = (p, pr)" by fastforce
  let ?st = "close_proposal t (p, pr) st"
  have first: "prop_moves (snd st) (snd ?st)"
    by (rule close_proposal_moves) (use Cons.prems(2) pp in auto)
  have "fst x \<noteq> p" if "x \<in> set ps" for x using Cons.prems(1) pp that by auto
  then have rest: "prop_moves (snd ?st) (snd (fold (close_proposal t) ps ?st))"
    using Cons.prems by (intro Cons.IH) (auto simp: close_proposal_others)
  show ?case using prop_moves_trans [OF first rest] by (simp add: close_proposal_dom pp)
qed

lemma t_filter_distinct: "t_ok t \<Longrightarrow> distinct (map fst (t_filter P t))"
  by (auto simp: t_ok_def t_filter_def strict_sorted_iff intro: distinct_map_filter)

lemma close_expired_effect:
  assumes "t_ok (proposals db)"
  shows "money (snd (close_expired_completed_cases t db)) = money db
    \<and> frozen (snd (close_expired_completed_cases t db)) = frozen db
    \<and> prop_moves db (snd (close_expired_completed_cases t db))"
proof -
  define db1 where "db1 = fold (\<lambda>(c, _). close_case t c)
    (t_filter (\<lambda>_ c. window_over t (cs_completed_at c) \<and> cs_closed_at c = None) (cases db)) db"
  let ?ps = "t_filter (\<lambda>_ p. pr_case p = None \<and> pr_status p = PCompleted \<and> window_over t (pr_completed_at p)
                 \<and> pr_closed_at p = None) (proposals db1)"
  have same: "money db1 = money db" "frozen db1 = frozen db" "proposals db1 = proposals db" by (simp_all add: db1_def)
  have eq: "snd (close_expired_completed_cases t db) = snd (fold (close_proposal t) ?ps (0, db1))"
    by (simp add: close_expired_completed_cases_def Let_def db1_def split_def)
  have "prop_moves (snd (0 :: nat, db1)) (snd (fold (close_proposal t) ?ps (0, db1)))"
  proof (rule fold_close_proposal_moves)
    show "distinct (map fst ?ps)" using assms same(3) by (intro t_filter_distinct) simp
    show "\<forall>x \<in> set ?ps. t_get (proposals (snd (0 :: nat, db1))) (fst x) = Some (snd x) \<and> pr_status (snd x) = PCompleted"
      using assms same(3) by (auto simp: in_filter_get)
  qed
  then have "prop_moves db (snd (fold (close_proposal t) ?ps (0, db1)))" by (simp add: prop_moves_def same(3))
  then show ?thesis using fold_close_proposal_frame [of t ?ps "(0, db1)"] same unfolding eq by simp
qed

section \<open>Publication of a version\<close>

lemma attach_prediction_frame [simp]:
  "money (attach_prediction pid v pr amount db) = money db" "frozen (attach_prediction pid v pr amount db) = frozen db"
  "proposals (attach_prediction pid v pr amount db) = proposals db"
  by (simp_all add: attach_prediction_def split: option.splits)

lemma insert_version_effect:
  assumes "insert_version db p pr row qs pred tok = Inr (v, db')"
  shows "money db' = money db \<and> v = next_pk (proposal_versions db)
    \<and> frozen db' = (t_insert row (proposal_versions db), outbox db)
    \<and> proposals db' = t_update p (\<lambda>r. r \<lparr> pr_current_version := Some v, pr_status := PPublished, pr_public_token := tok \<rparr>)
        (proposals db)
    \<and> pv_amount_vnd row \<le> BIGINT_MAX
    \<and> \<not> t_exists (\<lambda>_ v. pv_outbox_event v = pv_outbox_event row) (proposal_versions db)"
  using assms by (auto simp: insert_version_def Let_def split: if_splits) (simp_all add: frozen_def)

lemma outbox_unchanged: "\<exists>ob. db = db \<lparr> outbox := ob \<rparr>"
  by (rule exI [of _ "outbox db"]) simp

lemma queue_domain:
  assumes "queue_platform_event env db eid ty payload prev b = Inr (ev, db')"
  shows "\<exists>ob. db' = db \<lparr> outbox := ob \<rparr>"
  using queue_effect [OF assms] outbox_unchanged by blast

definition prev_hash_of :: "'z ddb \<Rightarrow> pk \<Rightarrow> string" where
  "prev_hash_of db p =
     (case latest_version db p of None \<Rightarrow> ZERO_HASH | Some (_, v) \<Rightarrow> ''0x'' @ event_hash db (pv_outbox_event v))"

definition next_number :: "'z ddb \<Rightarrow> pk \<Rightarrow> nat" where
  "next_number db p = (case latest_version db p of None \<Rightarrow> 1 | Some (_, v) \<Rightarrow> pv_number v + 1)"

lemma check_version_args_Inr:
  assumes "check_version_args a st = Inr (amount, contractor, purpose, action)"
  shows "amount > 0 \<and> va_amount a = PyInt amount \<and> contractor \<noteq> [] \<and> purpose \<noteq> [] \<and> action \<noteq> []
    \<and> st \<in> {PDraft, PPublished, PInProgress}"
  using assms by (auto simp: check_version_args_def split: pyval.splits if_splits)

lemma publish_version_effect:
  assumes "publish_proposal_version env db p creator a = Inr (v, db')"
  shows "\<exists>pr row payload ev db1 tok. t_get (proposals db) p = Some pr
    \<and> pr_status pr \<in> {PDraft, PPublished, PInProgress}
    \<and> (\<exists>user. member_user db creator = Inr user \<and> manages db user (pr_building pr))
    \<and> queue_platform_event env db (va_event_id a) (PyInt PROPOSAL_CREATED) (PyDict payload) (prev_hash_of db p)
        (pr_building pr) = Inr (ev, db1)
    \<and> pv_proposal row = p \<and> pv_number row = next_number db p \<and> pv_outbox_event row = ev
    \<and> va_amount a = PyInt (pv_amount_vnd row) \<and> 0 < pv_amount_vnd row \<and> pv_amount_vnd row \<le> BIGINT_MAX
    \<and> v = next_pk (proposal_versions db) \<and> money db' = money db
    \<and> frozen db' = (t_insert row (proposal_versions db), outbox db1)
    \<and> proposals db' = t_update p (\<lambda>r. r \<lparr> pr_current_version := Some v, pr_status := PPublished, pr_public_token := tok \<rparr>)
        (proposals db)
    \<and> \<not> t_exists (\<lambda>_ v. pv_outbox_event v = ev) (proposal_versions db)"
proof -
  obtain pr user m where pr: "t_get (proposals db) p = Some pr" and user: "member_user db creator = Inr user"
    and m: "require_management db user (pr_building pr) = Inr m"
    using assms by (auto simp: publish_proposal_version_def split: option.splits sum.splits)
  obtain amount contractor purpose action where args:
      "check_version_args a (pr_status pr) = Inr (amount, contractor, purpose, action)"
    using assms pr user m by (auto simp: publish_proposal_version_def split: sum.splits)
  obtain st en schedule where sched: "resolve_schedule_and_dates (va_start a) (va_end a) (va_schedule a) = Inr (st, en, schedule)"
    using assms pr user m args by (auto simp: publish_proposal_version_def split: sum.splits)
  obtain vs where vs: "quotation_versions db (pr_building pr) (va_quotations a) = Inr vs"
    using assms pr user m args sched by (auto simp: publish_proposal_version_def split: sum.splits)
  define tok where "tok = (if latest_version db p = None then Some (token_urlsafe env) else pr_public_token pr)"
  obtain snapshot payload where snap: "submission_snapshot env db p pr amount contractor purpose action schedule vs
      (next_number db p) st en = Inr (snapshot, payload)"
    using assms pr user m args sched vs
    by (auto simp: publish_proposal_version_def Let_def next_number_def split: sum.splits)
  obtain ev db1 where q: "queue_platform_event env db (va_event_id a) (PyInt PROPOSAL_CREATED) (PyDict payload)
      (prev_hash_of db p) (pr_building pr) = Inr (ev, db1)"
    using assms pr user m args sched vs snap
    by (auto simp: publish_proposal_version_def Let_def next_number_def prev_hash_of_def split: sum.splits)
  obtain sh where sh: "hash_of env snapshot = Inr sh"
    using assms pr user m args sched vs snap q
    by (auto simp: publish_proposal_version_def Let_def next_number_def prev_hash_of_def split: sum.splits)
  define row where "row = \<lparr> pv_proposal = p, pv_number = next_number db p, pv_amount_vnd = amount,
    pv_contractor_name = contractor, pv_purpose = purpose, pv_proposed_action = action, pv_expected_start = st,
    pv_expected_end = en, pv_expected_schedule = schedule, pv_snapshot = snapshot, pv_snapshot_hash = sh,
    pv_creator_membership = m, pv_outbox_event = ev \<rparr>"
  obtain db2 where ins: "insert_version db1 p pr row (map fst vs) (va_prediction a) tok = Inr (v, db2)"
    and aud: "money db' = money db2" "frozen db' = frozen db2" "proposals db' = proposals db2"
    using assms pr user m args sched vs snap q sh
    by (auto simp: publish_proposal_version_def Let_def next_number_def prev_hash_of_def row_def tok_def record_audit_frame
        split: sum.splits)
  obtain ob where ob: "db1 = db \<lparr> outbox := ob \<rparr>" using queue_domain [OF q] by blast
  show ?thesis
    using insert_version_effect [OF ins] aud ob pr user require_management_manages [OF m] q
      check_version_args_Inr [OF args]
    by (intro exI [of _ pr] exI [of _ row] exI [of _ payload] exI [of _ ev] exI [of _ db1] exI [of _ tok])
      (simp add: row_def)
qed

section \<open>Money\<close>

lemma record_fund_effect:
  assumes "record_fund_source env db f t amt ev m = Inr (k, db')"
  shows "\<exists>fr amount ek h mm. t_get (funds db) f = Some fr \<and> t \<in> SOURCE_ENTRY_TYPES \<and> 0 < amount \<and> amt = PyInt amount
    \<and> (\<exists>user. member_user db m = Inr user \<and> manages db user (fu_building fr))
    \<and> k = next_pk (fund_entries db)
    \<and> \<not> t_exists (\<lambda>_ x. fe_source_key x = source_key_of t f h) (fund_entries db)
    \<and> money db' = (settlements db, funds db, t_insert \<lparr> fe_fund = f, fe_type = t, fe_amount_vnd = amount,
        fe_evidence = Some ek, fe_evidence_hash = h, fe_recorder = Some mm, fe_proposal = None,
        fe_source_key = source_key_of t f h, fe_recorded_at = now env \<rparr> (fund_entries db), fund_verifications db, ledger db)
    \<and> frozen db' = frozen db \<and> proposals db' = proposals db"
  using assms
  by (auto simp: record_fund_source_def validate_source_amount_def Let_def record_audit_frame
      split: svc_splits dest: require_management_manages) (fastforce simp: money_def dest: require_management_manages)

lemma verify_fund_effect:
  assumes "verify_fund_source env db e m = Inr (k, db')"
  shows "\<exists>er mm. t_get (fund_entries db) e = Some er \<and> fe_type er \<in> SOURCE_ENTRY_TYPES
    \<and> \<not> t_exists (\<lambda>_ v. fv_entry v = e) (fund_verifications db)
    \<and> money db' = (settlements db, funds db, fund_entries db,
        t_insert \<lparr> fv_entry = e, fv_membership = mm, fv_verified_at = now env \<rparr> (fund_verifications db), ledger db)
    \<and> frozen db' = frozen db \<and> proposals db' = proposals db"
  using assms
  by (auto simp: verify_fund_source_def Let_def record_audit_frame split: svc_splits) (auto simp: money_def)

lemma get_or_create_fund_effect:
  assumes "get_or_create_fund b db = (f, db')" "t_ok (funds db)"
  shows "\<exists>fs. db' = db \<lparr> funds := fs \<rparr> \<and> t_ok fs \<and> map_option fu_building (t_get fs f) = Some b
    \<and> (\<forall>k r. t_get (funds db) k = Some r \<longrightarrow> t_get fs k = Some r)
    \<and> (\<forall>k r. t_get fs k = Some r \<longrightarrow> t_get (funds db) k = Some r \<or> k = f \<and> fu_building r = b
         \<and> \<not> t_exists (\<lambda>_ x. fu_building x = b) (funds db))"
proof (cases "t_first (\<lambda>_ f. fu_building f = b) (funds db)")
  case None
  let ?fs = "t_insert \<lparr> fu_building = b \<rparr> (funds db)"
  have "db' = db \<lparr> funds := ?fs \<rparr>" "f = next_pk (funds db)" using assms(1) None by (auto simp: get_or_create_fund_def)
  moreover have "\<forall>k r. t_get (funds db) k = Some r \<longrightarrow> t_get ?fs k = Some r" by (simp add: t_get_insert_old)
  ultimately show ?thesis using assms(2) None
    by (intro exI [of _ ?fs]) (auto simp: t_get_insert t_exists_first)
next
  case (Some kf)
  obtain k fr where kf: "kf = (k, fr)" by fastforce
  have "db' = db \<lparr> funds := funds db \<rparr>" "f = k" using assms(1) Some kf by (auto simp: get_or_create_fund_def)
  then show ?thesis using t_first_Some_get [OF assms(2) Some [unfolded kf]] assms(2)
    by (intro exI [of _ "funds db"]) auto
qed

lemma outflow_effect:
  assumes "create_settlement_outflow sk s b db = Inr (k, db')" "t_ok (funds db)"
    and "\<not> t_exists (\<lambda>_ e. fe_source_key e = outflow_key (se_proposal s)) (fund_entries db)"
  shows "\<exists>fs f row. 0 < se_amount_vnd s \<and> k = next_pk (fund_entries db)
    \<and> db' = db \<lparr> funds := fs, fund_entries := t_insert row (fund_entries db) \<rparr> \<and> t_ok fs
    \<and> map_option fu_building (t_get fs f) = Some b
    \<and> (\<forall>k r. t_get (funds db) k = Some r \<longrightarrow> t_get fs k = Some r)
    \<and> (\<forall>k r. t_get fs k = Some r \<longrightarrow> t_get (funds db) k = Some r \<or> k = f \<and> fu_building r = b
         \<and> \<not> t_exists (\<lambda>_ x. fu_building x = b) (funds db))
    \<and> row = \<lparr> fe_fund = f, fe_type = Outflow,
            fe_amount_vnd = - se_amount_vnd s, fe_evidence = None, fe_evidence_hash = [], fe_recorder = None,
            fe_proposal = Some (se_proposal s), fe_source_key = outflow_key (se_proposal s),
            fe_recorded_at = se_settled_at s \<rparr>"
proof -
  obtain f db1 where g: "get_or_create_fund b db = (f, db1)" by fastforce
  obtain fs where fs: "db1 = db \<lparr> funds := fs \<rparr>" "t_ok fs" "map_option fu_building (t_get fs f) = Some b"
    "\<forall>k r. t_get (funds db) k = Some r \<longrightarrow> t_get fs k = Some r"
    "\<forall>k r. t_get fs k = Some r \<longrightarrow> t_get (funds db) k = Some r \<or> k = f \<and> fu_building r = b
         \<and> \<not> t_exists (\<lambda>_ x. fu_building x = b) (funds db)"
    using get_or_create_fund_effect [OF g assms(2)] by blast
  have none: "t_first (\<lambda>_ e. fe_source_key e = outflow_key (se_proposal s)) (fund_entries db1) = None"
    using assms(3) fs(1) by (simp add: t_exists_first del: not_None_eq split_paired_All)
  show ?thesis
    using assms(1) fs none g
    by (intro exI [of _ fs] exI [of _ f]) (auto simp: create_settlement_outflow_def Let_def split: if_splits)
qed

lemma publish_entry_effect:
  assumes "publish_settlement_entry env db sk = Inr (k, db')" "t_get (settlements db) sk = Some s"
    and "\<not> t_exists (\<lambda>_ l. le_settlement l = sk) (ledger db)"
  shows "\<exists>row. le_settlement row = sk \<and> le_proposal row = se_proposal s \<and> le_actual_cost_vnd row = se_amount_vnd s
    \<and> k = next_pk (ledger db)
    \<and> \<not> t_exists (\<lambda>_ l. le_proposal l = se_proposal s) (ledger db)
    \<and> money db' = (settlements db, funds db, fund_entries db, fund_verifications db, t_insert row (ledger db))
    \<and> frozen db' = frozen db \<and> proposals db' = proposals db"
proof -
  have none: "t_first (\<lambda>_ l. le_settlement l = sk) (ledger db) = None"
    using assms(3) by (simp add: t_exists_first del: not_None_eq split_paired_All)
  obtain ev pr vk v checks where c: "se_outbox_event s = Some ev" "t_get (proposals db) (se_proposal s) = Some pr"
    "pr_current_version pr = Some vk" "t_get (proposal_versions db) vk = Some v" "collect_document_checks db v s = Inr checks"
    using assms(1,2) none by (auto simp: publish_settlement_entry_def split: option.splits sum.splits)
  define hashes where "hashes = sort (remdups (map (\<lambda>(_, d, _, _). dv_sha256 d) checks))"
  define row where "row = \<lparr> le_payload = resident_payload db (se_proposal s) pr v sk s (event_hash db ev) hashes,
    le_case = pr_case pr, le_proposal = se_proposal s, le_settlement = sk, le_actual_cost_vnd = se_amount_vnd s,
    le_contractor_name = pv_contractor_name v, le_published_at = now env \<rparr>"
  obtain user where u: "member_user db (se_settled_by s) = Inr user"
    "\<not> t_exists (\<lambda>_ l. le_proposal l = se_proposal s) (ledger db)" "k = next_pk (ledger db)"
    "record_audit env (db \<lparr> ledger := t_insert row (ledger db) \<rparr>) user (Some (se_settled_by s)) ''ledger.published''
       ''PublishedLedgerEntry'' (nat_str k) ''accepted'' [] = Inr db'"
    using assms(1,2) none c
    by (auto simp: publish_settlement_entry_def Let_def row_def hashes_def split: sum.splits if_splits)
  have "money (db \<lparr> ledger := t_insert row (ledger db) \<rparr>) =
      (settlements db, funds db, fund_entries db, fund_verifications db, t_insert row (ledger db))"
    by (simp add: money_def)
  then show ?thesis using u record_audit_frame [OF u(4)]
    by (intro exI [of _ row]) (simp add: row_def)
qed

text \<open>What a successful settlement writes: \<open>s0\<close> is the settlement row before its event is attached.\<close>

definition settlement_row_of :: "env \<Rightarrow> pk \<Rightarrow> proposal_version_row \<Rightarrow> pk \<Rightarrow> pk \<Rightarrow> settlement_row" where
  "settlement_row_of env p v transfer m = \<lparr> se_proposal = p, se_amount_vnd = pv_amount_vnd v, se_transfer = transfer,
     se_settled_by = m, se_settled_at = now env, se_outbox_event = None \<rparr>"

definition outflow_row :: "env \<Rightarrow> pk \<Rightarrow> pk \<Rightarrow> int \<Rightarrow> fund_entry_row" where
  "outflow_row env f p amount = \<lparr> fe_fund = f, fe_type = Outflow, fe_amount_vnd = - amount, fe_evidence = None,
     fe_evidence_hash = [], fe_recorder = None, fe_proposal = Some p, fe_source_key = outflow_key p,
     fe_recorded_at = now env \<rparr>"

lemma settlement_effect:
  assumes "record_settlement env db p membership transfer event_id = Inr (sk, db')"
    and "t_ok (funds db)" "t_ok (settlements db)"
    and nokey: "\<not> t_exists (\<lambda>_ e. fe_source_key e = outflow_key p) (fund_entries db)"
    and noled: "\<not> t_exists (\<lambda>_ l. le_settlement l = next_pk (settlements db)) (ledger db)"
  shows "\<exists>pr vk v m pd ev db2 fs f le.
    t_get (proposals db) p = Some pr \<and> pr_status pr = PCompleted \<and> pr_current_version pr = Some vk
    \<and> t_get (proposal_versions db) vk = Some v \<and> 0 < pv_amount_vnd v
    \<and> (\<exists>user. member_user db membership = Inr user \<and> manages db user (pr_building pr))
    \<and> require_proof db transfer (pr_building pr) = Inr pd
    \<and> \<not> t_exists (\<lambda>_ s. se_proposal s = p) (settlements db) \<and> sk = next_pk (settlements db)
    \<and> queue_platform_event env (db \<lparr> settlements := t_insert (settlement_row_of env p v transfer m) (settlements db) \<rparr>)
        event_id (PyInt SETTLEMENT)
        (PyDict (build_settlement_evidence_payload sk (settlement_row_of env p v transfer m) v (dv_sha256 pd)))
        (''0x'' @ event_hash db (pv_outbox_event v)) (pr_building pr) = Inr (ev, db2)
    \<and> t_ok fs \<and> map_option fu_building (t_get fs f) = Some (pr_building pr)
    \<and> (\<forall>k r. t_get (funds db) k = Some r \<longrightarrow> t_get fs k = Some r)
    \<and> (\<forall>k r. t_get fs k = Some r \<longrightarrow> t_get (funds db) k = Some r \<or> k = f \<and> fu_building r = pr_building pr
         \<and> \<not> t_exists (\<lambda>_ x. fu_building x = pr_building pr) (funds db))
    \<and> le_settlement le = sk \<and> le_proposal le = p \<and> le_actual_cost_vnd le = pv_amount_vnd v
    \<and> money db' = (t_update sk (\<lambda>x. x \<lparr> se_outbox_event := Some ev \<rparr>)
          (t_insert (settlement_row_of env p v transfer m) (settlements db)), fs,
        t_insert (outflow_row env f p (pv_amount_vnd v)) (fund_entries db), fund_verifications db, t_insert le (ledger db))
    \<and> frozen db' = (proposal_versions db, outbox db2) \<and> proposals db' = proposals db"
proof -
  obtain pr user m where pr: "t_get (proposals db) p = Some pr" and user: "member_user db membership = Inr user"
    and m: "require_management db user (pr_building pr) = Inr m"
    using assms(1) by (auto simp: record_settlement_def split: option.splits sum.splits)
  obtain vk v pd where st: "pr_status pr = PCompleted" "\<not> t_exists (\<lambda>_ s. se_proposal s = p) (settlements db)"
    "pr_current_version pr = Some vk" "t_get (proposal_versions db) vk = Some v" "require_proof db transfer (pr_building pr) = Inr pd"
    using assms(1) pr user m by (auto simp: record_settlement_def split: option.splits sum.splits if_splits)
  let ?s = "settlement_row_of env p v transfer m"
  let ?sk = "next_pk (settlements db)"
  let ?db1 = "db \<lparr> settlements := t_insert ?s (settlements db) \<rparr>"
  obtain ev db2 where pos: "0 < pv_amount_vnd v" and q: "queue_platform_event env ?db1 event_id (PyInt SETTLEMENT)
      (PyDict (build_settlement_evidence_payload ?sk ?s v (dv_sha256 pd)))
      (''0x'' @ event_hash db (pv_outbox_event v)) (pr_building pr) = Inr (ev, db2)"
    using assms(1) pr user m st
    by (auto simp: record_settlement_def Let_def settlement_row_of_def event_hash_def split: sum.splits if_splits)
  obtain ob where ob: "db2 = ?db1 \<lparr> outbox := ob \<rparr>" using queue_domain [OF q] by blast
  let ?db3 = "db2 \<lparr> settlements := t_update ?sk (\<lambda>x. x \<lparr> se_outbox_event := Some ev \<rparr>) (settlements db2) \<rparr>"
  obtain ek db4 lk db5 where o: "create_settlement_outflow ?sk ?s (pr_building pr) ?db3 = Inr (ek, db4)"
    and l: "publish_settlement_entry env db4 ?sk = Inr (lk, db5)" and sk: "sk = ?sk"
    and aud: "money db' = money db5" "frozen db' = frozen db5" "proposals db' = proposals db5"
    using assms(1) pr user m st pos q
    by (auto simp: record_settlement_def Let_def settlement_row_of_def event_hash_def record_audit_frame
        split: sum.splits if_splits)
  have "\<not> t_exists (\<lambda>_ e. fe_source_key e = outflow_key (se_proposal ?s)) (fund_entries ?db3)"
    using nokey by (simp add: ob settlement_row_of_def)
  moreover have "t_ok (funds ?db3)" using assms(2) by (simp add: ob)
  ultimately obtain fs f where fs: "db4 = ?db3 \<lparr> funds := fs, fund_entries := t_insert (outflow_row env f p (pv_amount_vnd v)) (fund_entries db) \<rparr>"
    "t_ok fs" "map_option fu_building (t_get fs f) = Some (pr_building pr)"
    "\<forall>k r. t_get (funds db) k = Some r \<longrightarrow> t_get fs k = Some r"
    "\<forall>k r. t_get fs k = Some r \<longrightarrow> t_get (funds db) k = Some r \<or> k = f \<and> fu_building r = pr_building pr
         \<and> \<not> t_exists (\<lambda>_ x. fu_building x = pr_building pr) (funds db)"
    using outflow_effect [OF o] by (auto simp: ob settlement_row_of_def outflow_row_def)
  have get: "t_get (settlements db4) ?sk = Some (?s \<lparr> se_outbox_event := Some ev \<rparr>)"
    using assms(3) by (simp add: fs(1) ob t_get_update t_get_insert)
  have "\<not> t_exists (\<lambda>_ l. le_settlement l = ?sk) (ledger db4)" using noled by (simp add: fs(1) ob)
  from publish_entry_effect [OF l get this] obtain le where le: "le_settlement le = ?sk" "le_proposal le = p"
    "le_actual_cost_vnd le = pv_amount_vnd v"
    "money db5 = (settlements db4, funds db4, fund_entries db4, fund_verifications db4, t_insert le (ledger db4))"
    "frozen db5 = frozen db4" "proposals db5 = proposals db4"
    by (auto simp: settlement_row_of_def)
  have fr: "frozen db' = (proposal_versions db, outbox db2)"
    using aud le(5) by (simp add: fs(1) ob frozen_def)
  have mo: "money db' = (t_update sk (\<lambda>x. x \<lparr> se_outbox_event := Some ev \<rparr>) (t_insert ?s (settlements db)), fs,
      t_insert (outflow_row env f p (pv_amount_vnd v)) (fund_entries db), fund_verifications db, t_insert le (ledger db))"
    using aud le(4) by (simp add: fs(1) ob sk)
  have pp: "proposals db' = proposals db" using aud(3) le(6) by (simp add: fs(1) ob)
  show ?thesis
    using pr st pos user require_management_manages [OF m] q sk fs(2-) le(1-3) fr mo pp by blast
qed

section \<open>Delivery\<close>

text \<open>The worker writes outbox rows and nothing else.\<close>

definition beside_outbox :: "'z ddb \<Rightarrow> 'z ddb" where
  "beside_outbox db = db \<lparr> outbox := t_empty \<rparr>"

lemma beside_outbox_cong:
  assumes "beside_outbox db' = beside_outbox db"
  shows "money db' = money db" "proposals db' = proposals db" "proposal_versions db' = proposal_versions db"
    "audit_log db' = audit_log db"
proof -
  have "money (beside_outbox db') = money (beside_outbox db)" "proposals (beside_outbox db') = proposals (beside_outbox db)"
    "proposal_versions (beside_outbox db') = proposal_versions (beside_outbox db)"
    "audit_log (beside_outbox db') = audit_log (beside_outbox db)"
    using assms by (rule arg_cong)+
  then show "money db' = money db" "proposals db' = proposals db" "proposal_versions db' = proposal_versions db"
    "audit_log db' = audit_log db"
    by (simp_all add: beside_outbox_def)
qed

lemma beside_set_row [simp]: "beside_outbox (set_row k f db) = beside_outbox db"
  by (simp add: beside_outbox_def set_row_def)

lemma beside_submit: "submit_event env p k ev db = (db1, res) \<Longrightarrow> beside_outbox db1 = beside_outbox db"
  by (auto simp: submit_event_def set_row_def [symmetric] Let_def split: if_splits sum.splits)

lemma beside_claimed [simp]: "beside_outbox (process_claimed_event env p k c db) = beside_outbox db"
  by (auto simp: process_claimed_event_def beside_submit split: sum.splits option.splits prod.splits)

lemma beside_process: "process_outbox_event env p k db = Inr db' \<Longrightarrow> beside_outbox db' = beside_outbox db"
  by (auto simp: process_outbox_event_def claim_outbox_event_def split: option.splits if_splits sum.splits)

lemma beside_due: "beside_outbox (snd (process_due_outbox_events env p n db)) = beside_outbox db"
  by (rule process_due_keeps [where P = "\<lambda>d. beside_outbox d = beside_outbox db"])
    (auto simp: claim_next_due_outbox_event_def split: list.splits)

section \<open>Every command moves proposals along the life cycle\<close>

lemma close_proposal_ok: "t_ok (proposals (snd st)) \<Longrightarrow> t_ok (proposals (snd (close_proposal t pp st)))"
  using close_proposal_cases [of t "fst pp" "snd pp" st] by auto

lemma fold_close_proposal_ok: "t_ok (proposals (snd st)) \<Longrightarrow> t_ok (proposals (snd (fold (close_proposal t) ps st)))"
  by (induction ps arbitrary: st) (simp_all add: close_proposal_ok)

lemma close_expired_ok: "t_ok (proposals db) \<Longrightarrow> t_ok (proposals (snd (close_expired_completed_cases t db)))"
  unfolding close_expired_completed_cases_def Let_def split_def snd_conv
  by (rule fold_close_proposal_ok) (simp add: fold_close_case_frame [unfolded split_def])

definition moves_ok :: "'z ddb \<Rightarrow> 'z ddb \<Rightarrow> bool" where
  "moves_ok db db' \<longleftrightarrow> prop_moves db db' \<and> t_ok (proposals db')"

lemma moves_okI:
  "t_ok (proposals db) \<Longrightarrow> proposals db' = proposals db \<Longrightarrow> moves_ok db db'"
  "t_ok (proposals db) \<Longrightarrow> proposals db' = t_insert (new_proposal c b m) (proposals db) \<Longrightarrow> moves_ok db db'"
  "t_ok (proposals db) \<Longrightarrow> proposals db' = t_update p f (proposals db) \<Longrightarrow> t_get (proposals db) p = Some pr \<Longrightarrow>
     prop_step pr (f pr) \<Longrightarrow> moves_ok db db'"
  by (simp_all add: moves_ok_def prop_moves_same prop_moves_insert prop_moves_update)

text \<open>
  To show that every command relates the state before to the state after, it is enough to look at what a
  command that succeeds does.
\<close>

lemma exec_induct:
  assumes same: "R db db"
    and "\<And>env r u t l ps ref priv k b db'. submit_report_idempotent env db r u t l ps ref priv = Inr (k, b, db') \<Longrightarrow> R db db'"
    and "\<And>env r op cat urg loc q d k db'. confirm_triage env db r op cat urg loc q d = Inr (k, db') \<Longrightarrow> R db db'"
    and "\<And>env c r op k db'. group_report env db c r op = Inr (k, db') \<Longrightarrow> R db db'"
    and "\<And>env c m db'. start_case_work env db c m = Inr db' \<Longrightarrow> R db db'"
    and "\<And>env c m cause res p k db'. publish_progress env db c m cause res p = Inr (k, db') \<Longrightarrow> R db db'"
    and "\<And>env c m cause res db'. complete_case_work env db c m cause res = Inr db' \<Longrightarrow> R db db'"
    and "\<And>env p m cause res db'. complete_proposal_work env db p m cause res = Inr db' \<Longrightarrow> R db db'"
    and "\<And>t. R db (snd (close_expired_completed_cases t db))"
    and "\<And>env r m msg k db'. request_information env db r m msg = Inr (k, db') \<Longrightarrow> R db db'"
    and "\<And>env res r t k db'. reply_information env db res r t = Inr (k, db') \<Longrightarrow> R db db'"
    and "\<And>env r m why db'. decline_report env db r m why = Inr db' \<Longrightarrow> R db db'"
    and "\<And>env res c sat com k db'. rate_completed_case env db res c sat com = Inr (k, db') \<Longrightarrow> R db db'"
    and "\<And>env res p sat com k db'. rate_completed_proposal env db res p sat com = Inr (k, db') \<Longrightarrow> R db db'"
    and "\<And>env c m k db'. create_proposal env db c m = Inr (k, db') \<Longrightarrow> R db db'"
    and "\<And>env b m k db'. create_standalone_proposal env db b m = Inr (k, db') \<Longrightarrow> R db db'"
    and "\<And>env p m proceed nt db'. decide_proposal env db p m proceed nt = Inr db' \<Longrightarrow> R db db'"
    and "\<And>env p m a k db'. publish_proposal_version env db p m a = Inr (k, db') \<Longrightarrow> R db db'"
    and "\<And>env f t amt ev m k db'. record_fund_source env db f t amt ev m = Inr (k, db') \<Longrightarrow> R db db'"
    and "\<And>env e m k db'. verify_fund_source env db e m = Inr (k, db') \<Longrightarrow> R db db'"
    and "\<And>env p m tr eid k db'. record_settlement env db p m tr eid = Inr (k, db') \<Longrightarrow> R db db'"
    and "\<And>env prov k db'. process_outbox_event env prov k db = Inr db' \<Longrightarrow> R db db'"
    and "\<And>env prov n. R db (snd (process_due_outbox_events env prov n db))"
  shows "R db (exec c db)"
proof -
  obtain env prov cm where c: "c = (env, prov, cm)" by (cases c) auto
  show ?thesis
    unfolding c exec_def prod.case
    by (cases cm) (auto simp: keep_def keep_unit_def same split: sum.splits intro: assms(2-))
qed

lemma complete_case_work_moves:
  assumes "t_ok (proposals db)" "complete_case_work env db c m cause res = Inr db'"
  shows "moves_ok db db'"
proof -
  consider "proposals db' = proposals db"
    | p pr where "t_first (\<lambda>_ p. pr_case p = Some c \<and> pr_status p = PInProgress) (proposals db) = Some (p, pr)"
      "proposals db' = t_update p (\<lambda>r. r \<lparr> pr_status := PCompleted, pr_completed_at := Some (now env) \<rparr>) (proposals db)"
    using complete_case_work_effect [OF assms(2)] by blast
  then show ?thesis
  proof cases
    case 1
    then show ?thesis by (rule moves_okI(1) [OF assms(1)])
  next
    case (2 p pr)
    then show ?thesis using t_first_Some_get [OF assms(1) 2(1)]
      by (intro moves_okI(3) [OF assms(1) 2(2)] prop_step.complete) auto
  qed
qed

lemma publish_version_moves:
  assumes "t_ok (proposals db)" "publish_proposal_version env db p m a = Inr (k, db')"
  shows "moves_ok db db'"
proof -
  obtain pr tok where pr: "t_get (proposals db) p = Some pr" "pr_status pr \<in> {PDraft, PPublished, PInProgress}"
    "proposals db' = t_update p (\<lambda>r. r \<lparr> pr_current_version := Some k, pr_status := PPublished, pr_public_token := tok \<rparr>)
        (proposals db)"
    using publish_version_effect [OF assms(2)] by blast
  show ?thesis by (rule moves_okI(3) [OF assms(1) pr(3,1)]) (rule prop_step.publish [OF pr(2)])
qed

lemma decide_moves:
  assumes "t_ok (proposals db)" "decide_proposal env db p m proceed0 note0 = Inr db'"
  shows "moves_ok db db'"
proof -
  obtain pr proceed mm where pr: "t_get (proposals db) p = Some pr" "pr_status pr = PPublished"
      "proposals db' = t_update p (\<lambda>r. r \<lparr> pr_status := (if proceed then PInProgress else PNotProceeding),
          pr_decided_by := Some mm, pr_decided_at := Some (now env), pr_decision_note := py_strip note0,
          pr_closed_at := (if proceed then None else Some (now env)) \<rparr>) (proposals db)"
    using decide_proposal_effect [OF assms(2)] by blast
  show ?thesis by (rule moves_okI(3) [OF assms(1) pr(3,1)]) (rule prop_step.decide [OF pr(2)])
qed

lemma complete_proposal_moves:
  assumes "t_ok (proposals db)" "complete_proposal_work env db p m cause res = Inr db'"
  shows "moves_ok db db'"
proof -
  obtain pr where pr: "t_get (proposals db) p = Some pr" "pr_status pr = PInProgress"
      "proposals db' = t_update p (\<lambda>r. r \<lparr> pr_status := PCompleted, pr_completed_at := Some (now env) \<rparr>) (proposals db)"
    using complete_proposal_work_effect [OF assms(2)] by blast
  show ?thesis by (rule moves_okI(3) [OF assms(1) pr(3,1)]) (rule prop_step.complete [OF pr(2)])
qed

lemma get_or_create_fund_frame: "get_or_create_fund b db = (f, db') \<Longrightarrow> proposals db' = proposals db \<and> frozen db' = frozen db \<and> buildings db' = buildings db"
  by (auto simp: get_or_create_fund_def split: option.splits)

lemma outflow_frame:
  assumes "create_settlement_outflow sk s b db = Inr (k, db')"
  shows "proposals db' = proposals db \<and> frozen db' = frozen db \<and> buildings db' = buildings db"
  using assms get_or_create_fund_frame
  by (fastforce simp: create_settlement_outflow_def split: prod.splits option.splits if_splits)

lemma publish_entry_frame:
  assumes "publish_settlement_entry env db sk = Inr (k, db')"
  shows "proposals db' = proposals db \<and> frozen db' = frozen db \<and> buildings db' = buildings db"
  using assms by (auto simp: publish_settlement_entry_def Let_def record_audit_frame split: option.splits sum.splits if_splits)

lemma queue_keeps_domain:
  assumes "queue_platform_event env db eid ty payload prev b = Inr (ev, db')"
  shows "proposals db' = proposals db" "proposal_versions db' = proposal_versions db" "buildings db' = buildings db"
  using queue_domain [OF assms] by auto

lemma settlement_frame:
  fixes db :: "'z ddb"
  assumes "record_settlement env db p membership tr eid = Inr (sk, db')"
  shows "proposals db' = proposals db \<and> buildings db' = buildings db \<and> (\<exists>(db1 :: 'z ddb) ty payload prev b ev db2. outbox db1 = outbox db
    \<and> queue_platform_event env db1 eid ty payload prev b = Inr (ev, db2)
    \<and> frozen db' = (proposal_versions db, outbox db2))"
proof -
  obtain pr user m where pr: "t_get (proposals db) p = Some pr" "member_user db membership = Inr user"
    "require_management db user (pr_building pr) = Inr m"
    using assms by (auto simp: record_settlement_def split: option.splits sum.splits)
  obtain vk v pd where v: "pr_status pr = PCompleted" "\<not> t_exists (\<lambda>_ s. se_proposal s = p) (settlements db)"
    "pr_current_version pr = Some vk" "t_get (proposal_versions db) vk = Some v" "require_proof db tr (pr_building pr) = Inr pd"
    using assms pr by (auto simp: record_settlement_def split: option.splits sum.splits if_splits)
  let ?s = "settlement_row_of env p v tr m"
  let ?sk = "next_pk (settlements db)"
  let ?db1 = "db \<lparr> settlements := t_insert ?s (settlements db) \<rparr>"
  obtain ev db2 where pos: "0 < pv_amount_vnd v" and q: "queue_platform_event env ?db1 eid (PyInt SETTLEMENT)
      (PyDict (build_settlement_evidence_payload ?sk ?s v (dv_sha256 pd)))
      (''0x'' @ event_hash ?db1 (pv_outbox_event v)) (pr_building pr) = Inr (ev, db2)"
    using assms pr v by (auto simp: record_settlement_def Let_def settlement_row_of_def split: sum.splits if_splits)
  let ?db3 = "db2 \<lparr> settlements := t_update ?sk (\<lambda>x. x \<lparr> se_outbox_event := Some ev \<rparr>) (settlements db2) \<rparr>"
  obtain ek db4 lk db5 where o: "create_settlement_outflow ?sk ?s (pr_building pr) ?db3 = Inr (ek, db4)"
    and l: "publish_settlement_entry env db4 ?sk = Inr (lk, db5)"
    and aud: "frozen db' = frozen db5" "proposals db' = proposals db5" "buildings db' = buildings db5"
    using assms pr v pos q
    by (auto simp: record_settlement_def Let_def settlement_row_of_def record_audit_frame split: sum.splits if_splits)
  have "frozen db' = (proposal_versions db, outbox db2)" "proposals db' = proposals db" "buildings db' = buildings db"
    using outflow_frame [OF o] publish_entry_frame [OF l] aud queue_keeps_domain [OF q] by (simp_all add: frozen_def)
  moreover have "outbox ?db1 = outbox db" by simp
  ultimately show ?thesis using q by blast
qed

lemma exec_moves:
  assumes "t_ok (proposals db)"
  shows "moves_ok db (exec c db)"
proof (rule exec_induct [where R = moves_ok])
  show "moves_ok db db" by (rule moves_okI(1) [OF assms refl])
  show "moves_ok db (snd (close_expired_completed_cases t db))" for t
    using close_expired_effect [OF assms, of t] close_expired_ok [OF assms] by (simp add: moves_ok_def)
next
  fix env c m k db'
  assume "create_proposal env db c m = Inr (k, db')"
  then show "moves_ok db db'" using create_proposal_effect [of env db c m k db'] moves_okI(2) [OF assms] by blast
next
  fix env b m k db'
  assume "create_standalone_proposal env db b m = Inr (k, db')"
  then show "moves_ok db db'" using create_standalone_effect [of env db b m k db'] moves_okI(2) [OF assms] by blast
next
  fix env f t amt ev m k db'
  assume "record_fund_source env db f t amt ev m = Inr (k, db')"
  then have "proposals db' = proposals db" using record_fund_effect by blast
  then show "moves_ok db db'" by (rule moves_okI(1) [OF assms])
next
  fix env e m k db'
  assume "verify_fund_source env db e m = Inr (k, db')"
  then have "proposals db' = proposals db" using verify_fund_effect by blast
  then show "moves_ok db db'" by (rule moves_okI(1) [OF assms])
qed (use assms in \<open>auto simp: beside_outbox_cong(2) [OF beside_process] beside_outbox_cong(2) [OF beside_due] maintenance_frames
    settlement_frame
    intro: moves_okI(1) complete_case_work_moves complete_proposal_moves decide_moves publish_version_moves\<close>)

end
