(* ===== verification/Samples.thy ===== *)
theory Samples
  imports Machine
begin

text \<open>
  A building with one manager, one resident, a fund, an area and its documents: the concrete state on which
  the properties are exercised.
\<close>

definition sample_location :: location_row where
  "sample_location = \<lparr> lo_building = 1, lo_parent = None, lo_name = ''Lobby'', lo_active = True \<rparr>"

definition sample_site :: domain_db where
  "sample_site = \<lparr> users = users sample_accounts, buildings = buildings sample_accounts,
     units = units sample_accounts, occupancies = occupancies sample_accounts,
     memberships = memberships sample_accounts, registrations = t_empty, throttles = t_empty,
     audit_log = t_empty, outbox = t_empty,
     documents = Table 3 [(1, \<lparr> d_building = 1, d_kind = PaymentProof \<rparr>), (2, \<lparr> d_building = 1, d_kind = Quotation \<rparr>)],
     document_versions = Table 3
       [(1, \<lparr> dv_document = 1, dv_version = 1, dv_storage_key = ''k1'', dv_provider_version_id = ''k1'', dv_filename = ''t.pdf'',
              dv_content_type = ''application/pdf'', dv_byte_size = 3, dv_sha256 = sample_hash, dv_scan_status = Clean, dv_uploader = 1,
              dv_created_at = 0 \<rparr>),
        (2, \<lparr> dv_document = 2, dv_version = 1, dv_storage_key = ''k2'', dv_provider_version_id = ''k2'', dv_filename = ''q.pdf'',
              dv_content_type = ''application/pdf'', dv_byte_size = 3, dv_sha256 = sample_hash, dv_scan_status = Clean, dv_uploader = 1,
              dv_created_at = 0 \<rparr>)],
     locations = Table 2 [(1, sample_location)],
     reports = t_empty, report_photos = t_empty, triage_jobs = t_empty, suggestions = t_empty, decisions = t_empty,
     cases = t_empty, case_reports = t_empty, info_requests = t_empty, work_updates = t_empty, ratings = t_empty,
     proposals = t_empty, proposal_versions = t_empty, proposal_documents = t_empty, settlements = t_empty,
     funds = Table 2 [(1, \<lparr> fu_building = 1 \<rparr>)], fund_entries = t_empty, fund_verifications = t_empty,
     observations = t_empty, ledger = t_empty, predictions = t_empty \<rparr>"

definition sample_version :: version_args where
  "sample_version = \<lparr> va_amount = PyInt 500, va_contractor = PyStr ''C'', va_purpose = PyStr ''p'', va_action = PyStr ''a'',
     va_start = NoDate, va_end = NoDate, va_schedule = ''soon'', va_quotations = [2], va_event_id = ''0x'' @ sample_hash,
     va_prediction = None \<rparr>"

definition sample_event2 :: string where
  "sample_event2 = ''0x'' @ replicate 64 (CHR ''b'')"

text \<open>Money in, a proposal from draft to completed work, and its settlement.\<close>

definition sample_cmds :: "cmd list" where
  "sample_cmds = [RecordFund 1 Inflow (PyInt 900) (Some 1) 1, VerifyFund 1 1, CreateStandalone 1 1, PublishVersion 1 1 sample_version,
     Decide 1 1 (PyBool True) ''ok'', CompleteProposal 1 1 ''cause'' ''done'']"

definition sample_run :: "cmd list \<Rightarrow> domain_db \<Rightarrow> domain_db" where
  "sample_run cs db = fold exec (map (\<lambda>c. (sample_env, sample_provider, c)) cs) db"

text \<open>The same building with a completed proposal of 500 that has one version, and 900 verified in the fund.\<close>

definition sample_proposal :: proposal_row where
  "sample_proposal = (new_proposal None 1 1) \<lparr> pr_status := PCompleted, pr_current_version := Some 1, pr_decided_by := Some 1,
     pr_decided_at := Some 42, pr_public_token := Some ''tok'', pr_completed_at := Some 42 \<rparr>"

definition sample_version_row :: proposal_version_row where
  "sample_version_row = \<lparr> pv_proposal = 1, pv_number = 1, pv_amount_vnd = 500, pv_contractor_name = ''C'', pv_purpose = ''p'',
     pv_proposed_action = ''a'', pv_expected_start = None, pv_expected_end = None, pv_expected_schedule = ''soon'',
     pv_snapshot = PyNone, pv_snapshot_hash = sample_hash, pv_creator_membership = 1, pv_outbox_event = 1 \<rparr>"

definition sample_income :: fund_entry_row where
  "sample_income = \<lparr> fe_fund = 1, fe_type = Inflow, fe_amount_vnd = 900, fe_evidence = Some 1, fe_evidence_hash = sample_hash,
     fe_recorder = Some 1, fe_proposal = None, fe_source_key = source_key_of Inflow 1 sample_hash, fe_recorded_at = 42 \<rparr>"

definition sample_done :: domain_db where
  "sample_done = sample_site \<lparr> proposals := Table 2 [(1, sample_proposal)],
     proposal_versions := Table 2 [(1, sample_version_row)],
     outbox := Table 2 [(1, new_outbox_row sample_env (''0x'' @ sample_hash) 1 JNull sample_hash ZERO_HASH ''sig'' ''0xAb'' 1)],
     fund_entries := Table 2 [(1, sample_income)],
     fund_verifications := Table 2 [(1, \<lparr> fv_entry = 1, fv_membership = 1, fv_verified_at = 42 \<rparr>)] \<rparr>"

declare One_nat_def [simp del]

lemma sample_event2_ok: "is_bytes32 sample_event2" "py_lower sample_event2 = sample_event2"
proof -
  have "is_hex64 (replicate 64 (CHR ''b''))"
    by (simp add: is_hex64_def list_all_iff is_lower_hex_def is_digit_def code_def)
  then show "is_bytes32 sample_event2" by (simp add: sample_event2_def)
  then show "py_lower sample_event2 = sample_event2" by (rule is_bytes32_lower)
qed

lemma sample_hash_bytes: "is_bytes32 (''0x'' @ sample_hash)" "py_lower (''0x'' @ sample_hash) = ''0x'' @ sample_hash"
  using sample_hash_ok is_bytes32_lower [of "''0x'' @ sample_hash"] by simp_all

lemma sample_now: "now sample_env = 42"
  by (simp add: sample_env_def)

lemma sample_stamp: "utc_rfc3339 42 = ''0001-01-01T00:00:00.000042Z''"
  by (simp add: utc_rfc3339_def year_of.simps year_len_def is_leap_def month_lens_def pad2_def pad4_def pad6_def digit_def)
    code_simp

definition sample_settlement_payload :: pyval where
  "sample_settlement_payload = PyDict (build_settlement_evidence_payload 1 (settlement_row_of sample_env 1 sample_version_row 1 1)
     sample_version_row sample_hash)"

lemma sample_settlement_valid: "validate_payload (PyInt SETTLEMENT) sample_settlement_payload = Inr ()"
proof -
  have ts: "utc_rfc3339_re ''0001-01-01T00:00:00.000042Z''" "is_valid_utc_timestamp ''0001-01-01T00:00:00.000042Z''"
    by code_simp+
  show ?thesis
    by (simp add: validate_payload_def EVIDENCE_PAYLOAD_SCHEMAS_def sample_settlement_payload_def SETTLEMENT_def pint_def
        build_settlement_evidence_payload_def settlement_row_of_def sample_version_row_def sample_now sample_stamp PROPOSAL_CREATED_def
        shape_of_def is_pystr_def hash_re_def sample_hash_ok ts)
qed

lemmas sample_defs = sample_done_def sample_site_def sample_accounts_def sample_proposal_def new_proposal_def
  sample_version_row_def sample_income_def sample_location_def

lemma sample_outbox: "outbox sample_done =
    Table 2 [(1, new_outbox_row sample_env (''0x'' @ sample_hash) 1 JNull sample_hash ZERO_HASH ''sig'' ''0xAb'' 1)]"
  by (simp add: sample_done_def)

lemma sample_queued:
  "\<exists>r. prepare_event sample_env sample_event2 (PyInt SETTLEMENT) sample_settlement_payload (''0x'' @ sample_hash) 1 = Inr r
     \<and> ob_event_id r = sample_event2 \<and> ob_signer_address r \<noteq> []"
proof -
  obtain v where v: "canonical_bytes id sample_settlement_payload = Inr v"
    by (auto simp: canonical_bytes_def sample_settlement_payload_def build_settlement_evidence_payload_def pint_def)
  have "\<exists>n sg. prepare_event sample_env sample_event2 (PyInt SETTLEMENT) sample_settlement_payload (''0x'' @ sample_hash) 1
      = Inr (new_outbox_row sample_env sample_event2 SETTLEMENT n (sha256_hex sample_env v) (''0x'' @ sample_hash) sg ''0xAb'' 1)"
    by (rule sample_prepare_row [OF v sample_settlement_valid]) (simp_all add: SETTLEMENT_def sample_event2_ok sample_hash_ok sample_hash_bytes [simplified])
  then show ?thesis by (auto simp: new_outbox_row_def)
qed

lemma sample_queue:
  assumes "outbox db = outbox sample_done"
  shows "\<exists>ev. queue_platform_event sample_env db sample_event2 (PyInt SETTLEMENT) sample_settlement_payload (''0x'' @ sample_hash) 1
    = Inr (2, db \<lparr> outbox := t_insert ev (outbox db) \<rparr>)"
proof -
  obtain r where r: "prepare_event sample_env sample_event2 (PyInt SETTLEMENT) sample_settlement_payload (''0x'' @ sample_hash) 1 = Inr r"
    "ob_event_id r = sample_event2" "ob_signer_address r \<noteq> []"
    using sample_queued by blast
  have ne: "''0x'' @ sample_hash \<noteq> sample_event2" by (simp add: sample_hash_def sample_event2_def)
  have "t_first (\<lambda>_ x. ob_event_id x = sample_event2) (outbox db) = None"
    using ne by (simp add: assms sample_outbox t_first_def new_outbox_row_def)
  then show ?thesis using r by (intro exI [of _ r]) (simp add: queue_platform_event_def, simp add: assms sample_outbox)
qed

text \<open>The completed proposal of the sample can be settled.\<close>

lemma sample_audit:
  assumes "memberships db = memberships sample_done"
  shows "\<exists>db'. record_audit sample_env db 1 (Some 1) a ty tid res meta = Inr db'"
  by (simp add: record_audit_def assms sample_done_def sample_site_def sample_accounts_def t_exists_def)

definition sample_transfer :: document_version_row where
  "sample_transfer = \<lparr> dv_document = 1, dv_version = 1, dv_storage_key = ''k1'', dv_provider_version_id = ''k1'', dv_filename = ''t.pdf'',
              dv_content_type = ''application/pdf'', dv_byte_size = 3, dv_sha256 = sample_hash, dv_scan_status = Clean, dv_uploader = 1,
              dv_created_at = 0 \<rparr>"

lemma sample_rows:
  "t_get (proposals sample_done) 1 = Some sample_proposal" "t_get (proposal_versions sample_done) 1 = Some sample_version_row"
  "settlements sample_done = t_empty" "member_user sample_done 1 = Inr 1" "require_management sample_done 1 1 = Inr 1"
  "t_get (document_versions sample_done) 1 = Some sample_transfer" "require_proof sample_done 1 1 = Inr sample_transfer"
  "ledger sample_done = t_empty" "t_first (\<lambda>_ f. fu_building f = 1) (funds sample_done) = Some (1, \<lparr> fu_building = 1 \<rparr>)"
  "fund_entries sample_done = Table 2 [(1, sample_income)]"
  by (simp_all add: sample_done_def sample_site_def sample_accounts_def t_get_def member_user_def require_management_def t_first_def
      require_proof_def clean_document_def sample_transfer_def)

lemma sample_settlement_row: "settlement_row_of sample_env 1 sample_version_row 1 1 =
    \<lparr> se_proposal = 1, se_amount_vnd = 500, se_transfer = 1, se_settled_by = 1, se_settled_at = 42, se_outbox_event = None \<rparr>"
  by (simp add: settlement_row_of_def sample_version_row_def sample_now)

lemma sample_outflow:
  assumes "funds db = funds sample_done" "fund_entries db = fund_entries sample_done"
  shows "create_settlement_outflow 1 (settlement_row_of sample_env 1 sample_version_row 1 1) 1 db
    = Inr (2, db \<lparr> fund_entries := t_insert (outflow_row sample_env 1 1 500) (fund_entries db) \<rparr>)"
proof -
  have f: "get_or_create_fund 1 db = (1, db)" by (simp add: get_or_create_fund_def assms(1) sample_rows(9))
  have "source_key_of Inflow 1 sample_hash \<noteq> outflow_key 1"
    by (simp add: source_key_of_def outflow_key_def entry_type_str_def)
  then have n: "t_first (\<lambda>_ e. fe_source_key e = outflow_key 1) (fund_entries db) = None"
    by (simp add: assms(2) sample_rows(10) t_first_def sample_income_def)
  have k: "next_pk (fund_entries db) = 2" by (simp add: assms(2) sample_rows(10))
  show ?thesis
    unfolding create_settlement_outflow_def f sample_settlement_row by (simp add: n k outflow_row_def sample_now)
qed

lemma sample_publish:
  assumes "t_get (settlements db) 1 = Some (settlement_row_of sample_env 1 sample_version_row 1 1 \<lparr> se_outbox_event := Some 2 \<rparr>)"
    "ledger db = t_empty" "proposals db = proposals sample_done" "proposal_versions db = proposal_versions sample_done"
    "document_versions db = document_versions sample_done" "memberships db = memberships sample_done"
  shows "\<exists>db'. publish_settlement_entry sample_env db 1 = Inr (1, db') \<and> memberships db' = memberships db"
proof -
  have u: "member_user db 1 = Inr 1" using sample_rows(4) by (simp add: member_user_def assms)
  have s: "snapshot_quotations (pv_snapshot sample_version_row) = []" by (simp add: sample_version_row_def)
  have docs: "collect_document_checks db sample_version_row (settlement_row_of sample_env 1 sample_version_row 1 1 \<lparr> se_outbox_event := Some 2 \<rparr>)
      = Inr [(1, sample_transfer, dv_sha256 sample_transfer, GateTransfer)]"
    by (simp add: collect_document_checks_def assms(5) sample_settlement_row sample_rows(6) s)
  have p: "t_get (proposals db) 1 = Some sample_proposal" "pr_current_version sample_proposal = Some 1"
    "t_get (proposal_versions db) 1 = Some sample_version_row" "t_first (\<lambda>_ l. le_settlement l = 1) (ledger db) = None"
    "\<not> t_exists (\<lambda>_ l. le_proposal l = 1) (ledger db)" "next_pk (ledger db) = 1"
    by (simp_all add: sample_proposal_def assms(2,3,4) sample_rows t_first_def t_exists_def t_empty_def)
  define row where "row = \<lparr> le_payload = resident_payload db 1 sample_proposal sample_version_row 1
      (settlement_row_of sample_env 1 sample_version_row 1 1 \<lparr> se_outbox_event := Some 2 \<rparr>) (event_hash db 2)
        (sort (remdups [dv_sha256 sample_transfer])), le_case = pr_case sample_proposal, le_proposal = 1,
      le_settlement = 1, le_actual_cost_vnd = 500, le_contractor_name = pv_contractor_name sample_version_row, le_published_at = 42 \<rparr>"
  have a: "\<exists>db'. record_audit sample_env (db \<lparr> ledger := t_insert row (ledger db) \<rparr>) 1 (Some 1) ''ledger.published''
       ''PublishedLedgerEntry'' (nat_str 1) ''accepted'' [] = Inr db'"
    by (rule sample_audit) (simp add: assms(6))
  obtain db' where a: "record_audit sample_env (db \<lparr> ledger := t_insert row (ledger db) \<rparr>) 1 (Some 1) ''ledger.published''
       ''PublishedLedgerEntry'' (nat_str 1) ''accepted'' [] = Inr db'" using a by blast
  have "publish_settlement_entry sample_env db 1 = Inr (1, db')"
    unfolding publish_settlement_entry_def assms(1)
    by (simp add: sample_settlement_row p u docs [unfolded sample_settlement_row, simplified] a [unfolded row_def sample_settlement_row, simplified] sample_now)
  then show ?thesis using record_audit_frame(8) [OF a] by auto
qed

lemma sample_settlement: "\<exists>db'. record_settlement sample_env sample_done 1 1 1 sample_event2 = Inr (1, db')"
proof -
  let ?s = "settlement_row_of sample_env 1 sample_version_row 1 1"
  let ?db1 = "sample_done \<lparr> settlements := t_insert ?s (settlements sample_done) \<rparr>"
  obtain ev where q: "queue_platform_event sample_env ?db1 sample_event2 (PyInt SETTLEMENT) sample_settlement_payload (''0x'' @ sample_hash) 1
    = Inr (2, ?db1 \<lparr> outbox := t_insert ev (outbox ?db1) \<rparr>)"
    using sample_queue [of ?db1] by auto
  let ?db2 = "?db1 \<lparr> outbox := t_insert ev (outbox ?db1) \<rparr>"
  let ?db3 = "?db2 \<lparr> settlements := t_update 1 (\<lambda>x. x \<lparr> se_outbox_event := Some 2 \<rparr>) (settlements ?db2) \<rparr>"
  let ?db4 = "?db3 \<lparr> fund_entries := t_insert (outflow_row sample_env 1 1 500) (fund_entries ?db3) \<rparr>"
  have k: "next_pk (settlements sample_done) = 1" "\<not> t_exists (\<lambda>_ s. se_proposal s = 1) (settlements sample_done)"
    by (simp_all add: sample_rows t_empty_def t_exists_def)
  have h: "event_hash ?db1 1 = sample_hash" by (simp add: event_hash_def sample_outbox t_get_def new_outbox_row_def)
  have fresh: "\<not> t_exists (\<lambda>_ x. se_outbox_event x = Some 2) (settlements ?db2)"
    by (simp add: sample_rows t_empty_def t_insert_def t_exists_def settlement_row_of_def)
  have o: "create_settlement_outflow 1 ?s 1 ?db3 = Inr (2, ?db4)" by (rule sample_outflow) simp_all
  obtain db5 where l: "publish_settlement_entry sample_env ?db4 1 = Inr (1, db5)" "memberships db5 = memberships ?db4"
    using sample_publish [of ?db4] by (auto simp: sample_rows t_get_update t_get_insert k [unfolded sample_rows])
  obtain db6 where a: "record_audit sample_env db5 1 (Some 1) ''settlement.settled'' ''Settlement''
      (nat_str 1) ''accepted'' [(''event_id'', PyStr (case t_get (outbox db5) 2 of None \<Rightarrow> [] | Some r \<Rightarrow> ob_event_id r))] = Inr db6"
    using sample_audit [of db5] l(2) by force
  have pr: "pr_building sample_proposal = 1" "pr_status sample_proposal = PCompleted" "pr_current_version sample_proposal = Some 1"
    "pv_amount_vnd sample_version_row = 500" "pv_outbox_event sample_version_row = 1" "dv_sha256 sample_transfer = sample_hash"
    by (simp_all add: sample_proposal_def sample_version_row_def sample_transfer_def new_proposal_def)
  have row: "\<lparr> se_proposal = 1, se_amount_vnd = 500, se_transfer = 1, se_settled_by = 1, se_settled_at = now sample_env,
      se_outbox_event = None \<rparr> = ?s" by (simp add: settlement_row_of_def pr)
  have "record_settlement sample_env sample_done 1 1 1 sample_event2 = Inr (1, db6)"
    unfolding record_settlement_def sample_rows pr option.case sum.case Let_def k [unfolded sample_rows] row
    using q o l(1) a k fresh h
    by (simp add: sample_settlement_payload_def sample_rows pr del: append.simps)
  then show ?thesis by blast
qed

declare One_nat_def [simp]

end
