(* ===== verification/Books.thy ===== *)
theory Books
  imports Samples
begin

text \<open>
  The books of the maintenance fund: what every run of the services keeps equal between the settlements,
  the fund's outflows and the published ledger, and what the balance shown to residents then is.
\<close>

section \<open>Three views of the money paid out\<close>

definition paid :: "'z ddb \<Rightarrow> (pk \<times> int) list" where
  "paid db = map (\<lambda>(_, s). (se_proposal s, se_amount_vnd s)) (table_rows (settlements db))"

definition outflow_of :: "fund_entry_row \<Rightarrow> pk \<times> int" where
  "outflow_of e = (case fe_proposal e of None \<Rightarrow> 0 | Some p \<Rightarrow> p, - fe_amount_vnd e)"

definition outflows :: "'z ddb \<Rightarrow> (pk \<times> int) list" where
  "outflows db = map (\<lambda>(_, e). outflow_of e) (t_filter (\<lambda>_ e. fe_type e = Outflow) (fund_entries db))"

definition published :: "'z ddb \<Rightarrow> (pk \<times> int) list" where
  "published db = map (\<lambda>(_, l). (le_proposal l, le_actual_cost_vnd l)) (table_rows (ledger db))"

definition building_of :: "'z ddb \<Rightarrow> pk \<Rightarrow> pk option" where
  "building_of db p = map_option pr_building (t_get (proposals db) p)"

definition fund_building :: "'z ddb \<Rightarrow> fund_entry_row \<Rightarrow> pk option" where
  "fund_building db e = map_option fu_building (t_get (funds db) (fe_fund e))"

definition paid_by :: "'z ddb \<Rightarrow> pk \<Rightarrow> int" where
  "paid_by db b = sum_list (map snd (filter (\<lambda>(p, _). building_of db p = Some b) (paid db)))"

definition verified_income :: "'z ddb \<Rightarrow> pk \<Rightarrow> int" where
  "verified_income db b = entries_total
     (t_filter (\<lambda>k e. fund_building db e = Some b \<and> is_verified_source db k e) (fund_entries db))"

section \<open>The invariant\<close>

definition source_entry :: "'z ddb \<Rightarrow> fund_entry_row \<Rightarrow> bool" where
  "source_entry db e \<longleftrightarrow> fund_building db e \<noteq> None \<and> fe_type e \<in> SOURCE_ENTRY_TYPES \<and> 0 < fe_amount_vnd e \<and> fe_proposal e = None
     \<and> fe_source_key e = source_key_of (fe_type e) (fe_fund e) (fe_evidence_hash e)"

definition outflow_entry :: "'z ddb \<Rightarrow> fund_entry_row \<Rightarrow> bool" where
  "outflow_entry db e \<longleftrightarrow> fe_type e = Outflow \<and> fe_amount_vnd e < 0
     \<and> (case fe_proposal e of None \<Rightarrow> False | Some p \<Rightarrow> fe_source_key e = outflow_key p
          \<and> building_of db p \<noteq> None \<and> fund_building db e = building_of db p)"

definition tables_ok :: "'z ddb \<Rightarrow> bool" where
  "tables_ok db \<longleftrightarrow> t_ok (proposals db) \<and> t_ok (settlements db) \<and> t_ok (funds db) \<and> t_ok (fund_entries db)
     \<and> t_ok (fund_verifications db) \<and> t_ok (ledger db)"

definition one_fund :: "fund_row table \<Rightarrow> bool" where
  "one_fund fs \<longleftrightarrow> (\<forall>i j a b. t_get fs i = Some a \<longrightarrow> t_get fs j = Some b \<longrightarrow> fu_building a = fu_building b \<longrightarrow> i = j)"

definition books_ok :: "'z ddb \<Rightarrow> bool" where
  "books_ok db \<longleftrightarrow> tables_ok db \<and> outflows db = paid db \<and> published db = paid db \<and> distinct (map fst (paid db))
     \<and> map (\<lambda>(_, l). le_settlement l) (table_rows (ledger db)) = map fst (table_rows (settlements db))
     \<and> (\<forall>k e. t_get (fund_entries db) k = Some e \<longrightarrow> source_entry db e \<or> outflow_entry db e)
     \<and> one_fund (funds db)"

lemma money_cong:
  assumes "money db' = money db"
  shows "settlements db' = settlements db" "funds db' = funds db" "fund_entries db' = fund_entries db"
    "fund_verifications db' = fund_verifications db" "ledger db' = ledger db"
  using assms by (simp_all add: money_def)

lemma views_cong:
  assumes "money db' = money db"
  shows "paid db' = paid db" "outflows db' = outflows db" "published db' = published db"
    "fund_building db' e = fund_building db e"
  using money_cong [OF assms] by (simp_all add: paid_def outflows_def published_def fund_building_def)

text \<open>Proposals are never removed and never move to another building.\<close>

definition keeps_buildings :: "'z ddb \<Rightarrow> 'z ddb \<Rightarrow> bool" where
  "keeps_buildings db db' \<longleftrightarrow> (\<forall>p b. building_of db p = Some b \<longrightarrow> building_of db' p = Some b)"

lemma keeps_buildings_same: "proposals db' = proposals db \<Longrightarrow> keeps_buildings db db'"
  by (simp add: keeps_buildings_def building_of_def)

lemma keeps_buildings_refl [simp]: "keeps_buildings db db"
  by (simp add: keeps_buildings_same)

lemma keeps_buildings_trans: "keeps_buildings a b \<Longrightarrow> keeps_buildings b c \<Longrightarrow> keeps_buildings a c"
  by (simp add: keeps_buildings_def)

lemma prop_step_building: "prop_step p q \<Longrightarrow> pr_building q = pr_building p"
  by (auto elim!: prop_stepE)

lemma prop_steps_building: "prop_step\<^sup>*\<^sup>* p q \<Longrightarrow> pr_building q = pr_building p"
  by (induction rule: rtranclp_induct) (simp_all add: prop_step_building)

lemma prop_moves_get:
  assumes "prop_moves db db'" "t_get (proposals db) p = Some pr"
  obtains pr' where "t_get (proposals db') p = Some pr'" "prop_step\<^sup>*\<^sup>* pr pr'"
  using assms unfolding prop_moves_def by blast

lemma prop_moves_buildings:
  assumes "prop_moves db db'"
  shows "keeps_buildings db db'"
  unfolding keeps_buildings_def building_of_def
proof (intro allI impI)
  fix p b
  assume "map_option pr_building (t_get (proposals db) p) = Some b"
  then obtain pr where pr: "t_get (proposals db) p = Some pr" "pr_building pr = b" by auto
  obtain pr' where "t_get (proposals db') p = Some pr'" "prop_step\<^sup>*\<^sup>* pr pr'"
    using prop_moves_get [OF assms pr(1)] .
  then show "map_option pr_building (t_get (proposals db') p) = Some b" using pr(2) prop_steps_building by fastforce
qed

lemma outflow_entry_mono:
  assumes "keeps_buildings db db'" "money db' = money db" "outflow_entry db e"
  shows "outflow_entry db' e"
  using assms(1,3) unfolding outflow_entry_def views_cong(4) [OF assms(2)]
  by (auto simp: keeps_buildings_def split: option.splits)

lemma source_entry_mono:
  assumes "money db' = money db" "source_entry db e"
  shows "source_entry db' e"
  using assms(2) unfolding source_entry_def views_cong(4) [OF assms(1)] .

lemma books_frame:
  assumes "books_ok db" "money db' = money db" "keeps_buildings db db'" "t_ok (proposals db')"
  shows "books_ok db'"
  using assms(1,4) outflow_entry_mono [OF assms(3,2)] source_entry_mono [OF assms(2)]
  unfolding books_ok_def tables_ok_def views_cong [OF assms(2)] money_cong [OF assms(2)] by blast

section \<open>Keys\<close>

lemma outflow_key_inj: "outflow_key p = outflow_key q \<longleftrightarrow> p = q"
  by (simp add: outflow_key_def)

lemma source_not_outflow: "t \<in> SOURCE_ENTRY_TYPES \<Longrightarrow> source_key_of t f h \<noteq> outflow_key p"
  by (auto simp: SOURCE_ENTRY_TYPES_def source_key_of_def outflow_key_def entry_type_str_def)

lemma outflow_in:
  assumes "t_ok (fund_entries db)" "t_get (fund_entries db) k = Some e" "fe_type e = Outflow"
  shows "outflow_of e \<in> set (outflows db)"
  using assms by (force simp: outflows_def in_filter_get intro!: image_eqI [of _ _ "(k, e)"])

lemma unsettled_key_free:
  assumes "books_ok db" "\<not> t_exists (\<lambda>_ s. se_proposal s = p) (settlements db)"
  shows "\<not> t_exists (\<lambda>_ e. fe_source_key e = outflow_key p) (fund_entries db)"
proof
  assume "t_exists (\<lambda>_ e. fe_source_key e = outflow_key p) (fund_entries db)"
  moreover have ok: "t_ok (fund_entries db)" "t_ok (settlements db)" using assms(1) by (simp_all add: books_ok_def tables_ok_def)
  ultimately obtain k e where e: "t_get (fund_entries db) k = Some e" "fe_source_key e = outflow_key p"
    by (auto simp: t_exists_iff)
  have "source_entry db e \<or> outflow_entry db e" using assms(1) e(1) by (simp add: books_ok_def)
  then have out: "fe_type e = Outflow" "fe_proposal e = Some p"
    using e(2) source_not_outflow [of "fe_type e" "fe_fund e" "fe_evidence_hash e" p]
    by (auto simp: source_entry_def outflow_entry_def outflow_key_inj split: option.splits)
  then have "p \<in> fst ` set (outflows db)" using outflow_in [OF ok(1) e(1)] by (force simp: outflow_of_def)
  then have "p \<in> fst ` set (paid db)" using assms(1) by (simp add: books_ok_def)
  then show False using assms(2) by (auto simp: paid_def t_exists_def list_ex_iff)
qed

lemma fresh_settlement_unpublished:
  assumes "books_ok db"
  shows "\<not> t_exists (\<lambda>_ l. le_settlement l = next_pk (settlements db)) (ledger db)"
proof
  assume "t_exists (\<lambda>_ l. le_settlement l = next_pk (settlements db)) (ledger db)"
  then have "next_pk (settlements db) \<in> set (map (\<lambda>(_, l). le_settlement l) (table_rows (ledger db)))"
    by (auto simp: t_exists_def list_ex_iff intro!: rev_image_eqI)
  then have "next_pk (settlements db) \<in> set (map fst (table_rows (settlements db)))"
    using assms unfolding books_ok_def by metis
  then show False using assms by (auto simp: books_ok_def tables_ok_def t_ok_def list_all_iff)
qed

section \<open>Every command keeps the books\<close>

lemma paid_set_event [simp]:
  "map (\<lambda>(_, s). (se_proposal s, se_amount_vnd s)) (table_rows (t_update k (\<lambda>x. x \<lparr> se_outbox_event := ev \<rparr>) t))
   = map (\<lambda>(_, s). (se_proposal s, se_amount_vnd s)) (table_rows t)"
  by (auto simp: t_update_def)

lemma keys_update [simp]: "map fst (table_rows (t_update k f t)) = map fst (table_rows t)"
  by (simp add: t_update_def)

lemma rows_insert [simp]: "table_rows (t_insert r t) = table_rows t @ [(next_pk t, r)]"
  by (simp add: t_insert_def)

lemma one_fund_grow:
  assumes "one_fund fs" "\<And>k r. t_get fs' k = Some r \<Longrightarrow> t_get fs k = Some r \<or> k = f \<and> fu_building r = b
      \<and> (\<forall>i x. t_get fs i = Some x \<longrightarrow> fu_building x \<noteq> b)"
  shows "one_fund fs'"
  unfolding one_fund_def
proof (intro allI impI)
  fix i j x y
  assume "t_get fs' i = Some x" "t_get fs' j = Some y" "fu_building x = fu_building y"
  then show "i = j" using assms(1) assms(2) [of i x] assms(2) [of j y] unfolding one_fund_def by metis
qed

lemma books_record_fund:
  assumes "books_ok db" "record_fund_source env db f t amt ev m = Inr (k, db')"
  shows "books_ok db'"
proof -
  obtain fr amount ek h mm where fr: "t_get (funds db) f = Some fr" and e: "t \<in> SOURCE_ENTRY_TYPES" "0 < amount"
    "money db' = (settlements db, funds db, t_insert \<lparr> fe_fund = f, fe_type = t, fe_amount_vnd = amount,
        fe_evidence = Some ek, fe_evidence_hash = h, fe_recorder = Some mm, fe_proposal = None,
        fe_source_key = source_key_of t f h, fe_recorded_at = now env \<rparr> (fund_entries db), fund_verifications db, ledger db)"
    "proposals db' = proposals db"
    using record_fund_effect [OF assms(2)] by blast
  let ?e = "\<lparr> fe_fund = f, fe_type = t, fe_amount_vnd = amount,
        fe_evidence = Some ek, fe_evidence_hash = h, fe_recorder = Some mm, fe_proposal = None,
        fe_source_key = source_key_of t f h, fe_recorded_at = now env \<rparr>"
  have m: "settlements db' = settlements db" "funds db' = funds db" "ledger db' = ledger db"
    "fund_entries db' = t_insert ?e (fund_entries db)" "fund_verifications db' = fund_verifications db"
    using e(3) by (simp_all add: money_def)
  have no: "t \<noteq> Outflow" using e(1) by (auto simp: SOURCE_ENTRY_TYPES_def)
  have "outflow_entry db' x = outflow_entry db x" for x
    by (simp add: outflow_entry_def fund_building_def building_of_def m e(4) cong: option.case_cong)
  moreover have "source_entry db' x = source_entry db x" for x by (simp add: source_entry_def fund_building_def m)
  moreover have "source_entry db ?e" using e(1,2) fr by (simp add: source_entry_def fund_building_def)
  moreover have "outflows db' = outflows db" using no by (simp add: outflows_def m t_filter_insert)
  ultimately show ?thesis using assms(1)
    unfolding books_ok_def tables_ok_def by (simp add: m e(4) t_get_insert paid_def published_def)
qed

lemma books_verify_fund:
  assumes "books_ok db" "verify_fund_source env db e m = Inr (k, db')"
  shows "books_ok db'"
proof -
  obtain mm where e: "money db' = (settlements db, funds db, fund_entries db,
        t_insert \<lparr> fv_entry = e, fv_membership = mm, fv_verified_at = now env \<rparr> (fund_verifications db), ledger db)"
    "proposals db' = proposals db"
    using verify_fund_effect [OF assms(2)] by blast
  have m: "settlements db' = settlements db" "funds db' = funds db" "ledger db' = ledger db"
    "fund_entries db' = fund_entries db" "t_ok (fund_verifications db) \<longrightarrow> t_ok (fund_verifications db')"
    using e(1) by (simp_all add: money_def)
  have "outflow_entry db' x = outflow_entry db x" for x
    by (simp add: outflow_entry_def fund_building_def building_of_def m e(2) cong: option.case_cong)
  moreover have "source_entry db' x = source_entry db x" for x by (simp add: source_entry_def fund_building_def m)
  ultimately show ?thesis using assms(1) m(5)
    unfolding books_ok_def tables_ok_def by (simp add: m e(2) paid_def published_def outflows_def)
qed

lemma books_settle:
  assumes "books_ok db" "record_settlement env db p membership transfer event_id = Inr (sk, db')"
  shows "books_ok db'"
proof -
  have tabs: "t_ok (proposals db)" "t_ok (settlements db)" "t_ok (funds db)" "t_ok (fund_entries db)"
    "t_ok (fund_verifications db)" "t_ok (ledger db)"
    using assms(1) by (simp_all add: books_ok_def tables_ok_def)
  have uns: "\<not> t_exists (\<lambda>_ s. se_proposal s = p) (settlements db)"
    using assms(2) by (auto simp: record_settlement_def split: option.splits sum.splits if_splits)
  obtain pr v m ev fs f le where pr: "t_get (proposals db) p = Some pr" and pos: "0 < pv_amount_vnd v"
    and sk: "sk = next_pk (settlements db)" and fs: "t_ok fs" "map_option fu_building (t_get fs f) = Some (pr_building pr)"
      "\<forall>k r. t_get (funds db) k = Some r \<longrightarrow> t_get fs k = Some r"
      "\<forall>k r. t_get fs k = Some r \<longrightarrow> t_get (funds db) k = Some r \<or> k = f \<and> fu_building r = pr_building pr
         \<and> \<not> t_exists (\<lambda>_ x. fu_building x = pr_building pr) (funds db)"
    and le: "le_settlement le = sk" "le_proposal le = p" "le_actual_cost_vnd le = pv_amount_vnd v"
    and mo: "money db' = (t_update sk (\<lambda>x. x \<lparr> se_outbox_event := Some ev \<rparr>)
          (t_insert (settlement_row_of env p v transfer m) (settlements db)), fs,
        t_insert (outflow_row env f p (pv_amount_vnd v)) (fund_entries db), fund_verifications db, t_insert le (ledger db))"
    and props: "proposals db' = proposals db"
    using settlement_effect [OF assms(2) tabs(3,2) unsettled_key_free [OF assms(1) uns]
        fresh_settlement_unpublished [OF assms(1)]] by blast
  have m: "settlements db' = t_update sk (\<lambda>x. x \<lparr> se_outbox_event := Some ev \<rparr>)
          (t_insert (settlement_row_of env p v transfer m) (settlements db))" "funds db' = fs"
    "fund_entries db' = t_insert (outflow_row env f p (pv_amount_vnd v)) (fund_entries db)"
    "fund_verifications db' = fund_verifications db" "ledger db' = t_insert le (ledger db)"
    using mo by (simp_all add: money_def)
  have views: "paid db' = paid db @ [(p, pv_amount_vnd v)]" "outflows db' = outflows db @ [(p, pv_amount_vnd v)]"
    "published db' = published db @ [(p, pv_amount_vnd v)]"
    by (simp_all add: paid_def outflows_def published_def m le settlement_row_of_def t_filter_insert outflow_row_def outflow_of_def)
  have fresh: "p \<notin> fst ` set (paid db)" using uns by (auto simp: paid_def t_exists_def list_ex_iff)
  have src: "source_entry db' e" if "source_entry db e" for e
    using that fs(3) by (auto simp: source_entry_def fund_building_def m)
  have old: "outflow_entry db' e" if "outflow_entry db e" for e
    using that fs(3) by (auto simp: outflow_entry_def fund_building_def building_of_def m props split: option.splits)
  have new: "outflow_entry db' (outflow_row env f p (pv_amount_vnd v))"
    using pr pos fs(2) by (simp add: outflow_entry_def outflow_row_def fund_building_def building_of_def m props)
  have "one_fund fs"
    by (rule one_fund_grow [of "funds db" _ f "pr_building pr"])
      (use assms(1) fs(4) tabs(3) in \<open>auto simp: books_ok_def t_exists_iff\<close>)
  moreover have "\<forall>k e. t_get (fund_entries db') k = Some e \<longrightarrow> source_entry db' e \<or> outflow_entry db' e"
    using assms(1) src old new tabs(4) by (auto simp: m(3) t_get_insert books_ok_def)
  moreover have "map (\<lambda>(_, l). le_settlement l) (table_rows (ledger db')) = map fst (table_rows (settlements db'))"
    using assms(1) by (simp add: m le sk books_ok_def)
  ultimately show ?thesis
    using assms(1) fresh tabs fs(1) unfolding books_ok_def tables_ok_def by (simp add: views m props)
qed

lemma exec_books: "books_ok db \<Longrightarrow> books_ok (exec c db)"
proof -
  assume ok: "books_ok db"
  then have tp: "t_ok (proposals db)" by (simp add: books_ok_def tables_ok_def)
  have frame: "books_ok db'" if "money db' = money db" "moves_ok db db'" for db'
    using books_frame [OF ok that(1)] prop_moves_buildings that(2) by (auto simp: moves_ok_def)
  have moves: "moves_ok db (exec c db)" by (rule exec_moves [OF tp])
  have "money (exec c db) = money db \<or> books_ok (exec c db)"
  proof (rule exec_induct [where R = "\<lambda>db db'. money db' = money db \<or> books_ok db'"])
    show "money (snd (close_expired_completed_cases t db)) = money db \<or> books_ok (snd (close_expired_completed_cases t db))" for t
      using close_expired_effect [OF tp, of t] by blast
  next
    fix env c m cause res db'
    assume "complete_case_work env db c m cause res = Inr db'"
    then show "money db' = money db \<or> books_ok db'" using complete_case_work_effect by blast
  next
    fix env p m a k db'
    assume "publish_proposal_version env db p m a = Inr (k, db')"
    then show "money db' = money db \<or> books_ok db'" using publish_version_effect by blast
  qed (use ok in \<open>auto simp: beside_outbox_cong(1) [OF beside_process] beside_outbox_cong(1) [OF beside_due] maintenance_frames
      intro: books_record_fund books_verify_fund books_settle
      dest: create_proposal_effect create_standalone_effect decide_proposal_effect complete_proposal_work_effect\<close>)
  then show "books_ok (exec c db)" using frame [OF _ moves] by blast
qed

interpretation books: service_machine exec books_ok
  by unfold_locales (rule exec_books)

section \<open>The balance\<close>

lemma filter_split_sum:
  assumes "\<And>x. x \<in> set xs \<Longrightarrow> P x \<longleftrightarrow> Q x \<or> R x" "\<And>x. x \<in> set xs \<Longrightarrow> \<not> (Q x \<and> R x)"
  shows "sum_list (map f (filter P xs)) = sum_list (map f (filter Q xs)) + (sum_list (map f (filter R xs)) :: int)"
  using assms by (induction xs) auto

lemma entries_total_split:
  assumes "t_ok t" "\<And>k e. t_get t k = Some e \<Longrightarrow> P k e \<longleftrightarrow> Q k e \<or> R k e"
    and "\<And>k e. t_get t k = Some e \<Longrightarrow> \<not> (Q k e \<and> R k e)"
  shows "entries_total (t_filter P t) = entries_total (t_filter Q t) + entries_total (t_filter R t)"
  unfolding entries_total_def t_filter_def
  by (rule filter_split_sum) (use assms in \<open>auto simp: in_rows_get [OF assms(1), symmetric]\<close>)

lemma published_iff_paid: "books_ok db \<Longrightarrow> t_exists (\<lambda>_ l. le_proposal l = p) (ledger db) \<longleftrightarrow> p \<in> fst ` set (paid db)"
proof -
  assume "books_ok db"
  then have "published db = paid db" by (simp add: books_ok_def)
  moreover have "t_exists (\<lambda>_ l. le_proposal l = p) (ledger db) \<longleftrightarrow> p \<in> fst ` set (published db)"
    by (force simp: published_def t_exists_def list_ex_iff)
  ultimately show ?thesis by simp
qed

lemma entry_kinds:
  assumes "books_ok db" "t_get (fund_entries db) k = Some e"
  shows "fe_type e \<in> SOURCE_ENTRY_TYPES \<and> \<not> is_finalized_posting db e
    \<or> outflow_entry db e \<and> is_finalized_posting db e \<and> fe_type e \<notin> SOURCE_ENTRY_TYPES"
proof -
  have "source_entry db e \<or> outflow_entry db e" using assms by (simp add: books_ok_def)
  then show ?thesis
  proof
    assume "source_entry db e"
    then show ?thesis by (simp add: source_entry_def is_finalized_posting_def)
  next
    assume o: "outflow_entry db e"
    then obtain p where p: "fe_type e = Outflow" "fe_proposal e = Some p" by (auto simp: outflow_entry_def split: option.splits)
    have "outflow_of e \<in> set (paid db)"
      using outflow_in [OF _ assms(2) p(1)] assms(1) by (simp add: books_ok_def tables_ok_def)
    then have "p \<in> fst ` set (paid db)" using p(2) by (force simp: outflow_of_def)
    then show ?thesis using o p published_iff_paid [OF assms(1)]
      by (simp add: is_finalized_posting_def FINALIZED_ENTRY_TYPES_def SOURCE_ENTRY_TYPES_def)
  qed
qed

lemma outflows_total:
  assumes "books_ok db"
  shows "entries_total (t_filter (\<lambda>k e. fund_building db e = Some b \<and> fe_type e = Outflow) (fund_entries db)) = - paid_by db b"
proof -
  have ent: "fund_building db e = building_of db (fst (outflow_of e))"
    if "(k, e) \<in> set (table_rows (fund_entries db))" "fe_type e = Outflow" for k e
  proof -
    have "t_ok (fund_entries db)" using assms by (simp add: books_ok_def tables_ok_def)
    then have "outflow_entry db e"
      using entry_kinds [OF assms, of k e] that by (auto simp: in_rows_get SOURCE_ENTRY_TYPES_def)
    then show ?thesis by (auto simp: outflow_entry_def outflow_of_def split: option.splits)
  qed
  have "sum_list (map (\<lambda>(_, e). fe_amount_vnd e) (filter (\<lambda>(k, e). fund_building db e = Some b \<and> fe_type e = Outflow) xs))
     = - sum_list (map snd (filter (\<lambda>(p, _). building_of db p = Some b)
           (map (\<lambda>(_, e). outflow_of e) (filter (\<lambda>(_, e). fe_type e = Outflow) xs))))"
    if "set xs \<subseteq> set (table_rows (fund_entries db))" for xs
    using that ent by (induction xs) (auto simp: outflow_of_def)
  moreover have "paid db = outflows db" using assms by (simp add: books_ok_def)
  ultimately show ?thesis by (simp add: entries_total_def paid_by_def outflows_def t_filter_def)
qed

lemma books_balance:
  assumes "books_ok db" "t_get (buildings db) b \<noteq> None"
  shows "fund_balance db b True = Inr (verified_income db b - paid_by db b)"
proof -
  have fe: "t_ok (fund_entries db)" "t_ok (funds db)" using assms(1) by (simp_all add: books_ok_def tables_ok_def)
  let ?T = "\<lambda>P. entries_total (t_filter P (fund_entries db))"
  let ?here = "\<lambda>k e. fund_building db e = Some b \<and> (is_verified_source db k e \<or> is_finalized_posting db e)"
  have total: "?T ?here = verified_income db b - paid_by db b"
  proof -
    have "?T ?here = ?T (\<lambda>k e. fund_building db e = Some b \<and> is_verified_source db k e)
        + ?T (\<lambda>k e. fund_building db e = Some b \<and> fe_type e = Outflow)"
      by (rule entries_total_split [OF fe(1)])
        (use entry_kinds [OF assms(1)] in \<open>fastforce simp: is_verified_source_def SOURCE_ENTRY_TYPES_def outflow_entry_def\<close>)+
    then show ?thesis by (simp add: outflows_total [OF assms(1)] verified_income_def)
  qed
  show ?thesis
  proof (cases "t_first (\<lambda>_ f. fu_building f = b) (funds db)")
    case None
    then have "fund_building db e \<noteq> Some b" for e
      using t_first_None_iff [OF fe(2), of "\<lambda>_ f. fu_building f = b"] by (auto simp: fund_building_def)
    then have "?T ?here = 0" by (simp add: entries_total_def t_filter_def)
    then show ?thesis using assms(2) None total by (simp add: fund_balance_def)
  next
    case (Some kf)
    obtain k f where kf: "kf = (k, f)" by fastforce
    have f: "t_get (funds db) k = Some f" "fu_building f = b" using t_first_Some_get [OF fe(2) Some [unfolded kf]] by auto
    have "fe_fund e = k \<longleftrightarrow> fund_building db e = Some b" for e
      using f assms(1) by (auto simp: fund_building_def books_ok_def one_fund_def)
    then show ?thesis using assms(2) Some kf total by (simp add: fund_balance_def)
  qed
qed

lemma shown_entries_total:
  assumes "books_ok db" "t_get (buildings db) b \<noteq> None"
  shows "fund_balance db b True = Inr (entries_total (verified_fund_entries db b))"
proof -
  have fe: "t_ok (funds db)" using assms(1) by (simp add: books_ok_def tables_ok_def)
  show ?thesis
  proof (cases "t_first (\<lambda>_ f. fu_building f = b) (funds db)")
    case None
    then have "map_option fu_building (t_get (funds db) k) \<noteq> Some b" for k
      using t_first_None_iff [OF fe, of "\<lambda>_ f. fu_building f = b"] by auto
    then have "entries_total (verified_fund_entries db b) = 0"
      by (simp add: entries_total_def verified_fund_entries_def t_filter_def del: map_option_eq_Some)
    then show ?thesis using assms(2) None by (simp add: fund_balance_def)
  next
    case (Some kf)
    obtain k f where kf: "kf = (k, f)" by fastforce
    have f: "t_get (funds db) k = Some f" "fu_building f = b" using t_first_Some_get [OF fe Some [unfolded kf]] by auto
    have "map_option fu_building (t_get (funds db) (fe_fund e)) = Some b \<longleftrightarrow> fe_fund e = k" for e :: fund_entry_row
      using f assms(1) by (auto simp: books_ok_def one_fund_def)
    then show ?thesis using assms(2) Some kf by (simp add: fund_balance_def verified_fund_entries_def del: map_option_eq_Some)
  qed
qed

lemma settle_books:
  assumes "books_ok db" "record_settlement env db p membership transfer event_id = Inr (sk, db')"
  shows "\<exists>pr v vk. t_get (proposals db) p = Some pr \<and> pr_status pr = PCompleted \<and> pr_current_version pr = Some vk
    \<and> t_get (proposal_versions db) vk = Some v \<and> 0 < pv_amount_vnd v
    \<and> (\<exists>user. member_user db membership = Inr user \<and> manages db user (pr_building pr))
    \<and> paid db' = paid db @ [(p, pv_amount_vnd v)] \<and> proposals db' = proposals db
    \<and> fund_verifications db' = fund_verifications db \<and> t_exists (\<lambda>_ s. se_proposal s = p) (settlements db')
    \<and> (\<exists>f fs. fund_entries db' = t_insert (outflow_row env f p (pv_amount_vnd v)) (fund_entries db)
       \<and> funds db' = fs \<and> (\<forall>k r. t_get (funds db) k = Some r \<longrightarrow> t_get fs k = Some r)
       \<and> (\<forall>k r. t_get fs k = Some r \<longrightarrow> t_get (funds db) k = Some r \<or> k = f \<and> fu_building r = pr_building pr
         \<and> \<not> t_exists (\<lambda>_ x. fu_building x = pr_building pr) (funds db)))"
proof -
  have tabs: "t_ok (settlements db)" "t_ok (funds db)" using assms(1) by (simp_all add: books_ok_def tables_ok_def)
  have uns: "\<not> t_exists (\<lambda>_ s. se_proposal s = p) (settlements db)"
    using assms(2) by (auto simp: record_settlement_def split: option.splits sum.splits if_splits)
  obtain pr vk v m ev fs f le where e: "t_get (proposals db) p = Some pr" "pr_status pr = PCompleted" "pr_current_version pr = Some vk"
      "t_get (proposal_versions db) vk = Some v" "0 < pv_amount_vnd v"
      "\<exists>user. member_user db membership = Inr user \<and> manages db user (pr_building pr)"
      "\<forall>k r. t_get (funds db) k = Some r \<longrightarrow> t_get fs k = Some r"
      "\<forall>k r. t_get fs k = Some r \<longrightarrow> t_get (funds db) k = Some r \<or> k = f \<and> fu_building r = pr_building pr
         \<and> \<not> t_exists (\<lambda>_ x. fu_building x = pr_building pr) (funds db)"
    and mo: "money db' = (t_update sk (\<lambda>x. x \<lparr> se_outbox_event := Some ev \<rparr>)
          (t_insert (settlement_row_of env p v transfer m) (settlements db)), fs,
        t_insert (outflow_row env f p (pv_amount_vnd v)) (fund_entries db), fund_verifications db, t_insert le (ledger db))"
    and props: "proposals db' = proposals db"
    using settlement_effect [OF assms(2) tabs(2,1) unsettled_key_free [OF assms(1) uns]
        fresh_settlement_unpublished [OF assms(1)]] by blast
  have m: "settlements db' = t_update sk (\<lambda>x. x \<lparr> se_outbox_event := Some ev \<rparr>)
          (t_insert (settlement_row_of env p v transfer m) (settlements db))" "funds db' = fs"
    "fund_entries db' = t_insert (outflow_row env f p (pv_amount_vnd v)) (fund_entries db)"
    "fund_verifications db' = fund_verifications db"
    using mo by (simp_all add: money_def)
  have "paid db' = paid db @ [(p, pv_amount_vnd v)]" by (simp add: paid_def m settlement_row_of_def)
  moreover have "t_exists (\<lambda>_ s. se_proposal s = p) (settlements db')"
    by (simp add: m t_exists_def t_update_def settlement_row_of_def)
  ultimately show ?thesis using e m props by blast
qed

lemma paid_by_settled:
  assumes "paid db' = paid db @ [(p, amount)]" "proposals db' = proposals db" "building_of db p = Some b"
  shows "paid_by db' b = paid_by db b + amount"
proof -
  have "building_of db' = building_of db" by (rule ext) (simp add: building_of_def assms(2))
  then show ?thesis using assms(1,3) by (simp add: paid_by_def)
qed

lemma entries_total_cong:
  assumes "t_ok t" "\<And>k e. t_get t k = Some e \<Longrightarrow> P k e \<longleftrightarrow> Q k e"
  shows "entries_total (t_filter P t) = entries_total (t_filter Q t)"
proof -
  have "t_filter P t = t_filter Q t"
    unfolding t_filter_def by (rule filter_cong) (use assms in \<open>auto simp: in_rows_get [OF assms(1)]\<close>)
  then show ?thesis by simp
qed

lemma income_insert_outflow:
  assumes "books_ok db" "fund_entries db' = t_insert (outflow_row env f p amount) (fund_entries db)"
    "fund_verifications db' = fund_verifications db" "\<forall>k r. t_get (funds db) k = Some r \<longrightarrow> t_get (funds db') k = Some r"
  shows "verified_income db' b = verified_income db b"
proof -
  have ok: "t_ok (fund_entries db)" using assms(1) by (simp add: books_ok_def tables_ok_def)
  have same: "is_verified_source db' k e = is_verified_source db k e" for k e
    by (simp add: is_verified_source_def assms(3))
  have no: "\<not> is_verified_source db k (outflow_row env f p amount)" for k
    by (simp add: is_verified_source_def outflow_row_def SOURCE_ENTRY_TYPES_def)
  have fb: "fund_building db' e = fund_building db e" if "t_get (fund_entries db) k = Some e" for k e
  proof -
    have "fund_building db e \<noteq> None" using assms(1) that
      by (fastforce simp: books_ok_def source_entry_def outflow_entry_def split: option.splits)
    then show ?thesis using assms(4) by (auto simp: fund_building_def)
  qed
  have "verified_income db' b = entries_total (t_filter (\<lambda>k e. fund_building db' e = Some b \<and> is_verified_source db k e) (fund_entries db))"
    by (simp add: verified_income_def assms(2) t_filter_insert same no)
  also have "\<dots> = verified_income db b"
    unfolding verified_income_def by (rule entries_total_cong [OF ok]) (simp add: fb)
  finally show ?thesis .
qed

section \<open>Properties\<close>

text \<open>
  C2.  The books agree after any run of the services: entry by entry, the outflows of the fund and the
  published ledger are the settlements, and no proposal is paid twice.
\<close>

theorem books_agree:
  assumes "books_ok db"
  shows "outflows (fold exec cs db) = paid (fold exec cs db) \<and> published (fold exec cs db) = paid (fold exec cs db)
    \<and> distinct (map fst (paid (fold exec cs db)))"
  using books.run_inv [OF assms, of cs] by (simp add: books_ok_def)

text \<open>
  C3.  The balance shown to residents is, after any run, the verified income of the building less what its
  settlements paid, and it is the sum of the entries the fund page lists.
\<close>

theorem balance_is_income_less_paid:
  assumes "books_ok db" "t_get (buildings (fold exec cs db)) b \<noteq> None"
  shows "fund_balance (fold exec cs db) b True = Inr (verified_income (fold exec cs db) b - paid_by (fold exec cs db) b)
    \<and> fund_balance (fold exec cs db) b True = Inr (entries_total (verified_fund_entries (fold exec cs db) b))"
  using books_balance [OF books.run_inv [OF assms(1)] assms(2)] shown_entries_total [OF books.run_inv [OF assms(1)] assms(2)]
  by blast

text \<open>
  C1.  A settlement pays the amount of the proposal's current version, once: only a completed proposal can
  be settled, by a manager of its building; the balance falls by exactly that amount; and any later attempt
  to settle the same proposal is refused.
\<close>

theorem settlement_pays_once:
  assumes "books_ok db" "record_settlement env db p membership transfer event_id = Inr (sk, db')"
    and "building_of db p = Some b" "fund_balance db b True = Inr x"
  shows "\<exists>pr v vk. t_get (proposals db) p = Some pr \<and> pr_status pr = PCompleted \<and> pr_current_version pr = Some vk
    \<and> t_get (proposal_versions db) vk = Some v \<and> 0 < pv_amount_vnd v
    \<and> (\<exists>user. member_user db membership = Inr user \<and> manages db user b)
    \<and> fund_balance db' b True = Inr (x - pv_amount_vnd v) \<and> paid db' = paid db @ [(p, pv_amount_vnd v)]
    \<and> (\<forall>env' m' t' e'. \<exists>err. record_settlement env' db' p m' t' e' = Inl err)"
proof -
  obtain pr v vk f where e: "t_get (proposals db) p = Some pr" "pr_status pr = PCompleted" "pr_current_version pr = Some vk"
    "t_get (proposal_versions db) vk = Some v" "0 < pv_amount_vnd v"
    "\<exists>user. member_user db membership = Inr user \<and> manages db user (pr_building pr)"
    and p: "paid db' = paid db @ [(p, pv_amount_vnd v)]" "proposals db' = proposals db"
    and st: "t_exists (\<lambda>_ s. se_proposal s = p) (settlements db')"
    and fe: "fund_entries db' = t_insert (outflow_row env f p (pv_amount_vnd v)) (fund_entries db)"
      "fund_verifications db' = fund_verifications db" "\<forall>k r. t_get (funds db) k = Some r \<longrightarrow> t_get (funds db') k = Some r"
    using settle_books [OF assms(1,2)] by blast
  have bd: "t_get (buildings db) b \<noteq> None" using assms(4) by (auto simp: fund_balance_def split: if_splits)
  have bd': "t_get (buildings db') b \<noteq> None" using bd settlement_frame [OF assms(2)] by simp
  have b: "pr_building pr = b" using assms(3) e(1) by (simp add: building_of_def)
  have "fund_balance db' b True = Inr (x - pv_amount_vnd v)"
    using books_balance [OF assms(1) bd] books_balance [OF books_settle [OF assms(1,2)] bd'] assms(4)
      paid_by_settled [OF p assms(3)] income_insert_outflow [OF assms(1) fe] by simp
  moreover have "\<exists>err. record_settlement env' db' p m' t' e' = Inl err" for env' m' t' e'
    using st by (auto simp: record_settlement_def split: option.splits sum.splits)
  ultimately show ?thesis using e p b by blast
qed

lemma sample_books: "books_ok sample_done"
proof -
  have "tables_ok sample_done"
    by (simp add: tables_ok_def t_ok_def sample_done_def sample_site_def t_empty_def)
  moreover have "outflows sample_done = []" "paid sample_done = []" "published sample_done = []"
    by (simp_all add: outflows_def paid_def published_def sample_rows t_filter_def t_empty_def sample_income_def)
  moreover have "source_entry sample_done sample_income"
    by (simp add: source_entry_def fund_building_def sample_done_def sample_site_def sample_income_def t_get_def SOURCE_ENTRY_TYPES_def)
  moreover have "\<forall>k e. t_get (fund_entries sample_done) k = Some e \<longrightarrow> e = sample_income"
    by (simp add: sample_rows t_get_def)
  moreover have "one_fund (funds sample_done)" by (simp add: one_fund_def sample_done_def sample_site_def t_get_def)
  moreover have "table_rows (ledger sample_done) = []" "table_rows (settlements sample_done) = []"
    by (simp_all add: sample_rows t_empty_def)
  ultimately show ?thesis by (auto simp: books_ok_def)
qed

lemma sample_building: "t_get (buildings sample_done) 1 \<noteq> None" "building_of sample_done 1 = Some 1"
  using sample_rows(1)
  by (simp_all add: sample_done_def sample_site_def sample_accounts_def t_get_def building_of_def sample_proposal_def new_proposal_def)

lemma sample_balance: "fund_balance sample_done 1 True = Inr 900"
proof -
  have i: "is_verified_source sample_done 1 sample_income"
    by (simp add: is_verified_source_def sample_income_def SOURCE_ENTRY_TYPES_def sample_done_def t_exists_def)
  have "fe_fund sample_income = 1" "fe_amount_vnd sample_income = 900" by (simp_all add: sample_income_def)
  then show ?thesis using sample_building(1) i sample_rows(9,10)
    by (simp add: fund_balance_def entries_total_def t_filter_def)
qed

theorem settlement_pays_once_witness:
  "\<exists>db'. record_settlement sample_env sample_done 1 1 1 sample_event2 = Inr (1, db') \<and> fund_balance db' 1 True = Inr 400"
proof -
  obtain db' where s: "record_settlement sample_env sample_done 1 1 1 sample_event2 = Inr (1, db')" using sample_settlement by blast
  obtain pr v vk where "t_get (proposals sample_done) 1 = Some pr" "pr_current_version pr = Some vk"
    "t_get (proposal_versions sample_done) vk = Some v" "fund_balance db' 1 True = Inr (900 - pv_amount_vnd v)"
    using settlement_pays_once [OF sample_books s sample_building(2) sample_balance] by blast
  then have "fund_balance db' 1 True = Inr 400"
    using sample_rows(1,2) by (auto simp: sample_proposal_def sample_version_row_def)
  then show ?thesis using s by blast
qed

theorem books_agree_witness:
  "outflows (fold exec [(sample_env, sample_provider, Settle 1 1 1 sample_event2)] sample_done)
   = paid (fold exec [(sample_env, sample_provider, Settle 1 1 1 sample_event2)] sample_done)"
  using books_agree [OF sample_books] by blast

theorem balance_is_income_less_paid_witness:
  "fund_balance (fold exec [] sample_done) 1 True = Inr (verified_income (fold exec [] sample_done) 1 - paid_by (fold exec [] sample_done) 1)"
  using balance_is_income_less_paid [OF sample_books, of "[]" 1] sample_building(1) by simp

end
