(* ===== verification/Lifecycle.thy ===== *)
theory Lifecycle
  imports Books
begin

text \<open>
  The life of a proposal over whole runs: the services refine the step relation \<open>prop_step\<close>; no work without a
  Proceed decision on a published version; and the amount paid stays the amount of the public version.
\<close>

section \<open>Runs refine the life cycle\<close>

definition lifecycle :: "'z ddb \<Rightarrow> 'z ddb \<Rightarrow> bool" where
  "lifecycle db db' \<longleftrightarrow>
     (\<forall>p pr. t_get (proposals db) p = Some pr \<longrightarrow> (\<exists>pr'. t_get (proposals db') p = Some pr' \<and> prop_step\<^sup>*\<^sup>* pr pr'))
     \<and> (\<forall>p pr'. t_get (proposals db') p = Some pr' \<longrightarrow> t_get (proposals db) p = None \<longrightarrow>
          (\<exists>c b m. prop_step\<^sup>*\<^sup>* (new_proposal c b m) pr'))"

lemma lifecycle_refl: "lifecycle db db"
  by (auto simp: lifecycle_def)

lemma lifecycle_trans:
  assumes "lifecycle a b" "lifecycle b c"
  shows "lifecycle a c"
  unfolding lifecycle_def
proof (intro conjI allI impI)
  fix p pr
  assume "t_get (proposals a) p = Some pr"
  then obtain pr' where "t_get (proposals b) p = Some pr'" "prop_step\<^sup>*\<^sup>* pr pr'" using assms(1) unfolding lifecycle_def by blast
  moreover from this(1) obtain pr'' where "t_get (proposals c) p = Some pr''" "prop_step\<^sup>*\<^sup>* pr' pr''"
    using assms(2) unfolding lifecycle_def by blast
  ultimately show "\<exists>pr'. t_get (proposals c) p = Some pr' \<and> prop_step\<^sup>*\<^sup>* pr pr'" by (meson rtranclp_trans)
next
  fix p pr''
  assume c: "t_get (proposals c) p = Some pr''" and a: "t_get (proposals a) p = None"
  show "\<exists>c b m. prop_step\<^sup>*\<^sup>* (new_proposal c b m) pr''"
  proof (cases "t_get (proposals b) p")
    case None
    then show ?thesis using assms(2) c unfolding lifecycle_def by blast
  next
    case (Some pr')
    obtain cs bl m where "prop_step\<^sup>*\<^sup>* (new_proposal cs bl m) pr'" using assms(1) a Some unfolding lifecycle_def by blast
    moreover obtain x where "t_get (proposals c) p = Some x" "prop_step\<^sup>*\<^sup>* pr' x"
      using assms(2) Some unfolding lifecycle_def by blast
    ultimately show ?thesis using c by (metis option.inject rtranclp_trans)
  qed
qed

lemma prop_moves_lifecycle: "prop_moves db db' \<Longrightarrow> lifecycle db db'"
  unfolding prop_moves_def lifecycle_def by blast

interpretation props: service_machine exec "\<lambda>db. t_ok (proposals db)"
  by unfold_locales (use exec_moves in \<open>auto simp: moves_ok_def\<close>)

lemma exec_lifecycle: "t_ok (proposals db) \<Longrightarrow> lifecycle db (exec c db)"
  using exec_moves [of db c] by (simp add: moves_ok_def prop_moves_lifecycle)

lemma run_lifecycle: "t_ok (proposals db) \<Longrightarrow> lifecycle db (fold exec cs db)"
  by (rule props.run_stepwise) (auto intro: exec_lifecycle lifecycle_refl lifecycle_trans)

section \<open>Terminal states\<close>

definition dead :: "proposal_status \<Rightarrow> bool" where
  "dead s \<longleftrightarrow> s = PNotProceeding \<or> s = PClosed"

lemma dead_stays: "prop_step\<^sup>*\<^sup>* p q \<Longrightarrow> dead (pr_status p) \<Longrightarrow> q = p"
  by (induction rule: rtranclp_induct) (auto simp: dead_def elim!: prop_stepE)

definition done_status :: "proposal_status \<Rightarrow> bool" where
  "done_status s \<longleftrightarrow> s = PCompleted \<or> s = PClosed"

text \<open>Once the work is complete, the version, the decision and the building are frozen.\<close>

definition frozen_part :: "proposal_row \<Rightarrow> pk option \<times> pk option \<times> time option \<times> string \<times> pk \<times> pk option" where
  "frozen_part p = (pr_current_version p, pr_decided_by p, pr_decided_at p, pr_decision_note p, pr_building p, pr_case p)"

lemma done_stays: "prop_step\<^sup>*\<^sup>* p q \<Longrightarrow> done_status (pr_status p) \<Longrightarrow> done_status (pr_status q) \<and> frozen_part q = frozen_part p"
  by (induction rule: rtranclp_induct) (auto simp: done_status_def frozen_part_def elim!: prop_stepE)

section \<open>No work without a decision\<close>

definition prop_inv :: "proposal_row \<Rightarrow> bool" where
  "prop_inv p \<longleftrightarrow>
     (pr_status p \<noteq> PDraft \<longrightarrow> pr_current_version p \<noteq> None)
     \<and> (pr_status p \<in> {PInProgress, PNotProceeding, PCompleted, PClosed} \<longrightarrow> pr_decided_by p \<noteq> None \<and> pr_decided_at p \<noteq> None)
     \<and> (done_status (pr_status p) \<longrightarrow> pr_completed_at p \<noteq> None)
     \<and> (dead (pr_status p) \<longrightarrow> pr_closed_at p \<noteq> None)"

lemma prop_inv_step: "prop_step p q \<Longrightarrow> prop_inv p \<Longrightarrow> prop_inv q"
  by (induction rule: prop_step.induct) (simp_all add: prop_inv_def done_status_def dead_def)

lemma prop_inv_steps: "prop_step\<^sup>*\<^sup>* p q \<Longrightarrow> prop_inv p \<Longrightarrow> prop_inv q"
  by (induction rule: rtranclp_induct) (auto intro: prop_inv_step)

lemma prop_inv_new: "prop_inv (new_proposal c b m)"
  by (simp add: prop_inv_def new_proposal_def done_status_def dead_def)

definition props_ok :: "'z ddb \<Rightarrow> bool" where
  "props_ok db \<longleftrightarrow> (\<forall>p pr. t_get (proposals db) p = Some pr \<longrightarrow> prop_inv pr)"

lemma props_ok_lifecycle:
  assumes "lifecycle db db'" "props_ok db"
  shows "props_ok db'"
  unfolding props_ok_def
proof (intro allI impI)
  fix p pr'
  assume p: "t_get (proposals db') p = Some pr'"
  show "prop_inv pr'"
  proof (cases "t_get (proposals db) p")
    case None
    then show ?thesis using assms(1) p prop_inv_steps prop_inv_new unfolding lifecycle_def by blast
  next
    case (Some pr)
    obtain x where "t_get (proposals db') p = Some x" "prop_step\<^sup>*\<^sup>* pr x" using assms(1) Some unfolding lifecycle_def by blast
    then show ?thesis using p Some assms(2) prop_inv_steps by (fastforce simp: props_ok_def)
  qed
qed

end
