(* ===== verification/Chain.thy ===== *)
theory Chain
  imports Lifecycle
begin

text \<open>
  The evidence chain of a proposal: its versions are numbered from one without gaps, and the event of each
  version carries the hash of the event before it.  Every run of the services keeps this, and the rows of the
  evidence outbox keep their identity.
\<close>

section \<open>What a command does to versions and evidence\<close>

lemma log_keeps:
  assumes "obx_ok db" "obx_ok db'" "outbox_log db' = outbox_log db @ new"
  shows "outbox_keeps db db'"
  unfolding outbox_keeps_def
proof (intro allI impI)
  fix k r
  assume "t_get (outbox db) k = Some r"
  then have "(k, r) \<in> set (table_rows (outbox db))" using assms(1) by (simp add: obx_ok_def in_rows_get)
  then have "(k, ob_identity r, ob_created_at r) \<in> set (outbox_log db')" using assms(3) by (force simp: outbox_log_def)
  then obtain r' where "(k, r') \<in> set (table_rows (outbox db'))" "ob_identity r' = ob_identity r"
    by (auto simp: outbox_log_def)
  then show "\<exists>r'. t_get (outbox db') k = Some r' \<and> ob_identity r' = ob_identity r"
    using assms(2) by (auto simp: obx_ok_def in_rows_get)
qed

lemma obx_ok_cong: "outbox db' = outbox db \<Longrightarrow> obx_ok db' = obx_ok db"
  by (simp add: obx_ok_def)

lemma outbox_keeps_cong: "outbox a' = outbox a \<Longrightarrow> outbox b' = outbox b \<Longrightarrow> outbox_keeps a' b' = outbox_keeps a b"
  by (simp add: outbox_keeps_def)

lemma outbox_keeps_refl [simp]: "outbox_keeps db db"
  by (simp add: outbox_keeps_def)

definition evidence_same :: "'z ddb \<Rightarrow> 'z ddb \<Rightarrow> bool" where
  "evidence_same db db' \<longleftrightarrow> proposal_versions db' = proposal_versions db \<and> obx_ok db' \<and> outbox_keeps db db'"

definition version_added :: "'z ddb \<Rightarrow> 'z ddb \<Rightarrow> bool" where
  "version_added db db' \<longleftrightarrow> (\<exists>env p row payload eid ev db1 b.
     queue_platform_event env db eid (PyInt PROPOSAL_CREATED) (PyDict payload) (prev_hash_of db p) b = Inr (ev, db1)
     \<and> pv_proposal row = p \<and> pv_number row = next_number db p \<and> pv_outbox_event row = ev
     \<and> frozen db' = (t_insert row (proposal_versions db), outbox db1))"

lemma frozen_same: "obx_ok db \<Longrightarrow> frozen db' = frozen db \<Longrightarrow> evidence_same db db'"
  by (simp add: evidence_same_def frozen_def obx_ok_def outbox_keeps_def)

lemma delivered_same:
  assumes "obx_ok db" "outbox_log db' = outbox_log db" "next_pk (outbox db') = next_pk (outbox db)"
    "beside_outbox db' = beside_outbox db"
  shows "evidence_same db db'"
  using obx_ok_same_log [OF assms(1-3)] log_keeps [OF assms(1), of db' "[]"] assms(2) beside_outbox_cong(3) [OF assms(4)]
  by (simp add: evidence_same_def)

lemma settled_same:
  fixes db db' :: "'z ddb"
  assumes "obx_ok db" "record_settlement env db p m tr eid = Inr (k, db')"
  shows "evidence_same db db'"
proof -
  obtain db1 :: "'z ddb" and ty payload prev b ev db2 where q: "outbox db1 = outbox db"
    "queue_platform_event env db1 eid ty payload prev b = Inr (ev, db2)" "frozen db' = (proposal_versions db, outbox db2)"
    using settlement_frame [OF assms(2)] by blast
  have ok: "obx_ok db1" using assms(1) q(1) by (simp add: obx_ok_def)
  then have "obx_ok db2" "outbox_keeps db1 db2" using queue_obx_ok [OF ok q(2)] queue_keeps [OF ok q(2)] by auto
  then show ?thesis using q(1,3) by (simp add: evidence_same_def frozen_def obx_ok_def outbox_keeps_def)
qed

lemma exec_evidence:
  assumes "obx_ok db" "t_ok (proposals db)"
  shows "evidence_same db (exec c db) \<or> version_added db (exec c db)"
proof (rule exec_induct [where R = "\<lambda>db db'. evidence_same db db' \<or> version_added db db'"])
  note same = frozen_same [OF assms(1)]
  show "evidence_same db (snd (close_expired_completed_cases t db)) \<or> version_added db (snd (close_expired_completed_cases t db))" for t
    using close_expired_effect [OF assms(2), of t] same by blast
  show "evidence_same db (snd (process_due_outbox_events env prov n db)) \<or> version_added db (snd (process_due_outbox_events env prov n db))"
    for env prov n
    using delivered_same [OF assms(1) process_due_log process_due_next beside_due] by blast
next
  fix env prov k db'
  assume d: "process_outbox_event env prov k db = Inr db'"
  show "evidence_same db db' \<or> version_added db db'"
    using delivered_same [OF assms(1) process_outbox_log [OF d] process_outbox_next [OF d] beside_process [OF d]] by blast
next
  fix env p m a k db'
  assume "publish_proposal_version env db p m a = Inr (k, db')"
  then show "evidence_same db db' \<or> version_added db db'"
    using publish_version_effect [of env db p m a k db'] unfolding version_added_def by blast
next
  fix env c m cause res db'
  assume "complete_case_work env db c m cause res = Inr db'"
  then have "frozen db' = frozen db" using complete_case_work_effect by blast
  then show "evidence_same db db' \<or> version_added db db'" using frozen_same [OF assms(1)] by blast
next
  fix env f t amt ev m k db'
  assume "record_fund_source env db f t amt ev m = Inr (k, db')"
  then have "frozen db' = frozen db" using record_fund_effect by blast
  then show "evidence_same db db' \<or> version_added db db'" using frozen_same [OF assms(1)] by blast
next
  fix env e m k db'
  assume "verify_fund_source env db e m = Inr (k, db')"
  then have "frozen db' = frozen db" using verify_fund_effect by blast
  then show "evidence_same db db' \<or> version_added db db'" using frozen_same [OF assms(1)] by blast
next
  fix env p m tr eid k db'
  assume "record_settlement env db p m tr eid = Inr (k, db')"
  then show "evidence_same db db' \<or> version_added db db'" using settled_same [OF assms(1)] by blast
qed (auto intro!: frozen_same [OF assms(1)] disjI1 simp: maintenance_frames
    dest: create_proposal_effect create_standalone_effect decide_proposal_effect complete_proposal_work_effect)

section \<open>The chain\<close>

definition versions :: "'z ddb \<Rightarrow> pk \<Rightarrow> proposal_version_row list" where
  "versions db p = map snd (versions_of db p)"

definition link_hash :: "'z ddb \<Rightarrow> proposal_version_row list \<Rightarrow> nat \<Rightarrow> string" where
  "link_hash db vs i = (if i = 0 then ZERO_HASH else ''0x'' @ event_hash db (pv_outbox_event (vs ! (i - 1))))"

definition linked_at :: "'z ddb \<Rightarrow> proposal_version_row list \<Rightarrow> nat \<Rightarrow> bool" where
  "linked_at db vs i \<longleftrightarrow> (case t_get (outbox db) (pv_outbox_event (vs ! i)) of
     None \<Rightarrow> False
   | Some r \<Rightarrow> ob_event_type r = PROPOSAL_CREATED \<and> ob_previous_hash r = py_lower (link_hash db vs i))"

definition chain_ok :: "'z ddb \<Rightarrow> bool" where
  "chain_ok db \<longleftrightarrow> t_ok (proposal_versions db) \<and> obx_ok db \<and> (\<forall>p. map pv_number (versions db p) = [1..<Suc (length (versions db p))]
     \<and> (\<forall>i < length (versions db p). linked_at db (versions db p) i))"

lemma linked_at_keeps:
  assumes "outbox_keeps db db'" "linked_at db vs i" "i < length vs" "\<forall>j < i. linked_at db vs j"
  shows "linked_at db' vs i"
proof -
  have hash: "event_hash db' k = event_hash db k" if "t_get (outbox db) k \<noteq> None" for k
    using assms(1) that by (fastforce simp: outbox_keeps_def event_hash_def ob_identity_def)
  obtain r where r: "t_get (outbox db) (pv_outbox_event (vs ! i)) = Some r" "ob_event_type r = PROPOSAL_CREATED"
    "ob_previous_hash r = py_lower (link_hash db vs i)"
    using assms(2) by (auto simp: linked_at_def split: option.splits)
  have "link_hash db' vs i = link_hash db vs i"
  proof (cases i)
    case (Suc j)
    then have "linked_at db vs j" using assms(4) by simp
    then have "t_get (outbox db) (pv_outbox_event (vs ! j)) \<noteq> None" by (auto simp: linked_at_def split: option.splits)
    then show ?thesis using hash Suc by (simp add: link_hash_def)
  qed (simp add: link_hash_def)
  moreover obtain r' where "t_get (outbox db') (pv_outbox_event (vs ! i)) = Some r'" "ob_identity r' = ob_identity r"
    using assms(1) r(1) by (auto simp: outbox_keeps_def)
  ultimately show ?thesis using r by (simp add: linked_at_def ob_identity_def)
qed

lemma chain_same:
  assumes "chain_ok db" "evidence_same db db'"
  shows "chain_ok db'"
proof -
  have v: "versions db' p = versions db p" for p using assms(2) by (simp add: versions_def versions_of_def evidence_same_def)
  then show ?thesis using assms linked_at_keeps [of db db'] unfolding chain_ok_def evidence_same_def by auto
qed

lemma chain_latest:
  assumes "chain_ok db"
  shows "latest_version db p = (if versions_of db p = [] then None else Some (last (versions_of db p)))"
proof -
  have "map pv_number (map snd (versions_of db p)) = [1..<Suc (length (versions db p))]"
    using assms by (simp add: chain_ok_def versions_def)
  then have "sorted (map (\<lambda>(_, v). pv_number v) (versions_of db p))"
    by (metis (no_types, lifting) comp_apply list.map_comp map_eq_conv sorted_upt split_def)
  then have "sort_key (\<lambda>(_, v). pv_number v) (versions_of db p) = versions_of db p" by (rule sort_key_id_if_sorted)
  then show ?thesis
    unfolding latest_version_def by (cases "versions_of db p" rule: rev_cases) simp_all
qed

lemma chain_next:
  assumes "chain_ok db"
  shows "next_number db p = Suc (length (versions db p))"
    and "prev_hash_of db p = link_hash db (versions db p @ [row]) (length (versions db p))"
proof -
  have nums: "map pv_number (versions db p) = [1..<Suc (length (versions db p))]" using assms by (simp add: chain_ok_def)
  show "next_number db p = Suc (length (versions db p))"
    and "prev_hash_of db p = link_hash db (versions db p @ [row]) (length (versions db p))"
  proof (atomize (full), cases "versions_of db p" rule: rev_cases)
    case Nil
    then show "next_number db p = Suc (length (versions db p)) \<and>
      prev_hash_of db p = link_hash db (versions db p @ [row]) (length (versions db p))"
      by (simp add: next_number_def prev_hash_of_def chain_latest [OF assms] versions_def link_hash_def)
  next
    case (snoc vs kv)
    obtain k v where kv: "kv = (k, v)" by fastforce
    have l: "latest_version db p = Some (k, v)" using snoc kv by (simp add: chain_latest [OF assms])
    have "versions db p = map snd vs @ [v]" by (simp add: versions_def snoc kv)
    moreover from this nums have "pv_number v = Suc (length vs)" by simp
    ultimately show "next_number db p = Suc (length (versions db p)) \<and>
      prev_hash_of db p = link_hash db (versions db p @ [row]) (length (versions db p))"
      by (simp add: next_number_def prev_hash_of_def l link_hash_def nth_append)
  qed
qed

lemma versions_insert:
  assumes "proposal_versions db' = t_insert row (proposal_versions db)"
  shows "versions db' p = versions db p @ (if pv_proposal row = p then [row] else [])"
  by (simp add: versions_def versions_of_def assms t_filter_insert)

lemma link_hash_prefix: "i \<le> length vs \<Longrightarrow> link_hash db (vs @ ws) i = link_hash db vs i"
  by (auto simp: link_hash_def nth_append)

lemma linked_at_prefix: "i < length vs \<Longrightarrow> linked_at db (vs @ ws) i = linked_at db vs i"
  by (simp add: linked_at_def link_hash_prefix less_imp_le nth_append cong: option.case_cong)

lemma link_hash_keeps:
  assumes "outbox_keeps db db'" "i \<le> length vs" "\<forall>j < length vs. linked_at db vs j"
  shows "link_hash db' (vs @ ws) i = link_hash db (vs @ ws) i"
proof (cases i)
  case (Suc j)
  then have "linked_at db vs j" using assms(2,3) by simp
  then have "t_get (outbox db) (pv_outbox_event (vs ! j)) \<noteq> None" by (auto simp: linked_at_def split: option.splits)
  then have "event_hash db' (pv_outbox_event (vs ! j)) = event_hash db (pv_outbox_event (vs ! j))"
    using assms(1) by (fastforce simp: outbox_keeps_def event_hash_def ob_identity_def)
  then show ?thesis using Suc assms(2) by (simp add: link_hash_def nth_append)
qed (simp add: link_hash_def)

lemma prepared_row:
  assumes "prepare_event env eid (PyInt t) payload prev b = Inr new"
  shows "ob_event_type new = t \<and> ob_previous_hash new = py_lower prev"
  using assms by (auto simp: prepare_event_def new_outbox_row_def Let_def split: sum.splits if_splits option.splits)

lemma chain_added:
  assumes "chain_ok db" "version_added db db'"
  shows "chain_ok db'"
proof -
  obtain env p row payload eid ev b and db1 where q:
      "queue_platform_event env db eid (PyInt PROPOSAL_CREATED) (PyDict payload) (prev_hash_of db p) b = Inr (ev, db1)"
    and row: "pv_proposal row = p" "pv_number row = next_number db p" "pv_outbox_event row = ev"
    and fr: "frozen db' = (t_insert row (proposal_versions db), outbox db1)"
    using assms(2) unfolding version_added_def by blast
  have ok: "obx_ok db" using assms(1) by (simp add: chain_ok_def)
  have out: "outbox db' = outbox db1" "proposal_versions db' = t_insert row (proposal_versions db)"
    using fr by (simp_all add: frozen_def)
  have ok': "obx_ok db'" "outbox_keeps db db'"
    using queue_obx_ok [OF ok q] queue_keeps [OF ok q] out(1) by (simp_all add: obx_ok_def outbox_keeps_def)
  obtain new r where new: "prepare_event env eid (PyInt PROPOSAL_CREATED) (PyDict payload) (prev_hash_of db p) b = Inr new"
    "t_get (outbox db') ev = Some r" "same_identity r new"
    using queue_row [OF ok q] out(1) by auto
  have links: "linked_at db (versions db x) i" if "i < length (versions db x)" for x i using assms(1) that by (simp add: chain_ok_def)
  have old: "linked_at db' (versions db x @ ws) i" if "i < length (versions db x)" for x i ws
    using linked_at_keeps [OF ok'(2) links [OF that] that] links that by (simp add: linked_at_prefix)
  have "linked_at db' (versions db p @ [row]) (length (versions db p))"
  proof -
    have "ob_previous_hash r = py_lower (link_hash db' (versions db p @ [row]) (length (versions db p)))"
      using prepared_row [OF new(1)] new(3) chain_next(2) [OF assms(1), of p row]
        link_hash_keeps [OF ok'(2), of "length (versions db p)" "versions db p" "[row]"] links
      by (simp add: same_identity_def)
    then show ?thesis using new prepared_row [OF new(1)] row(3) by (simp add: linked_at_def same_identity_def)
  qed
  then have "\<forall>i < length (versions db' x). linked_at db' (versions db' x) i" for x
    using old [of _ x "[row]"] old [of _ x "[]"] row(1) by (auto simp: versions_insert [OF out(2)] less_Suc_eq)
  moreover have "map pv_number (versions db' x) = [1..<Suc (length (versions db' x))]" for x
    using assms(1) row(1,2) chain_next(1) [OF assms(1)] by (auto simp: versions_insert [OF out(2)] chain_ok_def)
  moreover have "t_ok (proposal_versions db')" using assms(1) out(2) by (simp add: chain_ok_def)
  ultimately show ?thesis using ok'(1) by (simp add: chain_ok_def)
qed

interpretation chain: service_machine exec "\<lambda>db. chain_ok db \<and> t_ok (proposals db)"
proof (unfold_locales, goal_cases)
  case (1 db c)
  then have "t_ok (proposals (exec c db))" using exec_moves [of db c] by (simp add: moves_ok_def)
  moreover have "evidence_same db (exec c db) \<or> version_added db (exec c db)"
    using 1 by (intro exec_evidence) (simp_all add: chain_ok_def)
  ultimately show ?case using 1 chain_same chain_added by blast
qed

section \<open>What was paid is what is public\<close>

definition paid_ok :: "'z ddb \<Rightarrow> bool" where
  "paid_ok db \<longleftrightarrow> (\<forall>(p, amount) \<in> set (paid db). \<exists>pr vk v. t_get (proposals db) p = Some pr \<and> done_status (pr_status pr)
     \<and> pr_current_version pr = Some vk \<and> t_get (proposal_versions db) vk = Some v \<and> pv_amount_vnd v = amount)"

definition site_ok :: "'z ddb \<Rightarrow> bool" where
  "site_ok db \<longleftrightarrow> books_ok db \<and> chain_ok db \<and> props_ok db \<and> paid_ok db"

lemma exec_settlements:
  assumes "t_ok (proposals db)"
  shows "settlements (exec c db) = settlements db \<or> (\<exists>env p m tr eid k. record_settlement env db p m tr eid = Inr (k, exec c db))"
proof (rule exec_induct [where R = "\<lambda>db db'. settlements db' = settlements db \<or> (\<exists>env p m tr eid k. record_settlement env db p m tr eid = Inr (k, db'))"])
  have m: "money db' = money db \<Longrightarrow> settlements db' = settlements db" for db' by (simp add: money_def)
  show "settlements (snd (close_expired_completed_cases t db)) = settlements db
    \<or> (\<exists>env p m tr eid k. record_settlement env db p m tr eid = Inr (k, snd (close_expired_completed_cases t db)))" for t
    using close_expired_effect [OF assms, of t] m by blast
next
  fix env c m cause res db'
  assume "complete_case_work env db c m cause res = Inr db'"
  then show "settlements db' = settlements db \<or> (\<exists>env p m tr eid k. record_settlement env db p m tr eid = Inr (k, db'))"
    using complete_case_work_effect money_cong(1) by blast
next
  fix env p m a k db'
  assume "publish_proposal_version env db p m a = Inr (k, db')"
  then show "settlements db' = settlements db \<or> (\<exists>env p m tr eid k. record_settlement env db p m tr eid = Inr (k, db'))"
    using publish_version_effect money_cong(1) by blast
next
  fix env f t amt ev m k db'
  assume "record_fund_source env db f t amt ev m = Inr (k, db')"
  then show "settlements db' = settlements db \<or> (\<exists>env p m tr eid k. record_settlement env db p m tr eid = Inr (k, db'))"
    by (auto simp: money_def dest!: record_fund_effect)
next
  fix env e m k db'
  assume "verify_fund_source env db e m = Inr (k, db')"
  then show "settlements db' = settlements db \<or> (\<exists>env p m tr eid k. record_settlement env db p m tr eid = Inr (k, db'))"
    by (auto simp: money_def dest!: verify_fund_effect)
qed (auto intro: money_cong(1) beside_outbox_cong(1) [OF beside_process, THEN money_cong(1)]
    beside_outbox_cong(1) [OF beside_due, THEN money_cong(1)] simp: maintenance_frames
    dest: create_proposal_effect create_standalone_effect decide_proposal_effect complete_proposal_work_effect)

lemma versions_kept:
  assumes "chain_ok db" "evidence_same db db' \<or> version_added db db'" "t_get (proposal_versions db) k = Some v"
  shows "t_get (proposal_versions db') k = Some v"
  using assms by (auto simp: evidence_same_def version_added_def frozen_def t_get_insert_old)

lemma paid_kept:
  assumes "paid_ok db" "lifecycle db db'" "paid db' = paid db"
    and "\<And>k v. t_get (proposal_versions db) k = Some v \<Longrightarrow> t_get (proposal_versions db') k = Some v"
  shows "paid_ok db'"
  unfolding paid_ok_def
proof (clarify)
  fix p amount
  assume "(p, amount) \<in> set (paid db')"
  then obtain pr vk v where pr: "t_get (proposals db) p = Some pr" "done_status (pr_status pr)" "pr_current_version pr = Some vk"
      "t_get (proposal_versions db) vk = Some v" "pv_amount_vnd v = amount"
    using assms(1,3) unfolding paid_ok_def by fastforce
  obtain pr' where pr': "t_get (proposals db') p = Some pr'" "prop_step\<^sup>*\<^sup>* pr pr'" using assms(2) pr(1) unfolding lifecycle_def by blast
  have "done_status (pr_status pr')" "pr_current_version pr' = Some vk"
    using done_stays [OF pr'(2) pr(2)] pr(3) by (simp_all add: frozen_part_def)
  then show "\<exists>pr vk v. t_get (proposals db') p = Some pr \<and> done_status (pr_status pr) \<and> pr_current_version pr = Some vk
      \<and> t_get (proposal_versions db') vk = Some v \<and> pv_amount_vnd v = amount"
    using pr' pr(5) assms(4) [OF pr(4)] by blast
qed

lemma exec_site: "site_ok db \<Longrightarrow> site_ok (exec c db)"
proof -
  assume ok: "site_ok db"
  then have b: "books_ok db" and ch: "chain_ok db" and pr: "props_ok db" and pd: "paid_ok db" by (simp_all add: site_ok_def)
  have tp: "t_ok (proposals db)" using b by (simp add: books_ok_def tables_ok_def)
  have life: "lifecycle db (exec c db)" by (rule exec_lifecycle [OF tp])
  have keep: "t_get (proposal_versions (exec c db)) k = Some v" if "t_get (proposal_versions db) k = Some v" for k v
    using versions_kept [OF ch _ that] exec_evidence [of db c] ch tp by (simp add: chain_ok_def)
  have "paid_ok (exec c db)"
    using exec_settlements [OF tp, of c]
  proof
    assume "settlements (exec c db) = settlements db"
    then have "paid (exec c db) = paid db" by (simp add: paid_def)
    then show ?thesis using paid_kept [OF pd life] keep by blast
  next
    assume "\<exists>env p m tr eid k. record_settlement env db p m tr eid = Inr (k, exec c db)"
    then obtain env p m tr eid k where s: "record_settlement env db p m tr eid = Inr (k, exec c db)" by blast
    from settle_books [OF b s] obtain q v vk where q: "t_get (proposals db) p = Some q" "pr_status q = PCompleted"
      "pr_current_version q = Some vk" "t_get (proposal_versions db) vk = Some v"
      "paid (exec c db) = paid db @ [(p, pv_amount_vnd v)]" "proposals (exec c db) = proposals db" by blast
    then show ?thesis using pd keep unfolding paid_ok_def by (fastforce simp: done_status_def)
  qed
  moreover have "chain_ok (exec c db)" using chain.exec_inv [of db c] ch tp by blast
  ultimately show "site_ok (exec c db)"
    using exec_books [OF b] props_ok_lifecycle [OF life pr] by (simp add: site_ok_def)
qed

interpretation site: service_machine exec site_ok
  by unfold_locales (rule exec_site)

section \<open>Properties\<close>

lemma site_tables: "site_ok db \<Longrightarrow> t_ok (proposals db)"
  by (simp add: site_ok_def books_ok_def tables_ok_def)

text \<open>
  C4.  The services refine the abstract life cycle: over any run, every proposal row evolves only by the steps
  publish, decide, complete and close of \<open>prop_step\<close>, and every proposal that appears has come from a draft
  by such steps.
\<close>

theorem run_refines_lifecycle:
  assumes "t_ok (proposals db)"
  shows "lifecycle db (fold exec cs db)"
  by (rule run_lifecycle [OF assms])

text \<open>
  A proposal that was closed or decided against is final: no run changes its row.
\<close>

theorem closed_proposal_final:
  assumes "t_ok (proposals db)" "t_get (proposals db) p = Some pr" "pr_status pr \<in> {PNotProceeding, PClosed}"
  shows "t_get (proposals (fold exec cs db)) p = Some pr"
  using run_lifecycle [OF assms(1), of cs] assms(2,3) dead_stays unfolding lifecycle_def dead_def by fastforce



text \<open>
  C7.  The versions of a proposal form a hash chain: in every state a run reaches they are numbered
  1, 2, 3, ... in the order they were published, and the evidence event of each is a PROPOSAL_CREATED event
  whose previous hash is the hash of the event before it (the zero hash for the first).
\<close>

theorem version_hash_chain:
  assumes "site_ok db"
  shows "map pv_number (versions (fold exec cs db) p) = [1..<Suc (length (versions (fold exec cs db) p))]
    \<and> (\<forall>i < length (versions (fold exec cs db) p). linked_at (fold exec cs db) (versions (fold exec cs db) p) i)"
  using site.run_inv [OF assms, of cs] unfolding site_ok_def chain_ok_def by blast

section \<open>The sample site\<close>

lemma zero_hash_lower: "py_lower ZERO_HASH = ZERO_HASH"
  by (simp add: ZERO_HASH_def py_lower_def lower_char_def is_upper_def code_def)

lemma sample_versions: "versions sample_done p = (if p = 1 then [sample_version_row] else [])"
  by (simp add: versions_def versions_of_def t_filter_def sample_done_def) (auto simp: sample_version_row_def)

lemma sample_chain: "chain_ok sample_done"
proof -
  have "linked_at sample_done [sample_version_row] 0"
    by (simp add: linked_at_def link_hash_def sample_outbox t_get_def sample_version_row_def new_outbox_row_def zero_hash_lower PROPOSAL_CREATED_def)
  moreover have "pv_number sample_version_row = 1" by (simp add: sample_version_row_def)
  moreover have "obx_ok sample_done" by (simp add: obx_ok_def t_ok_def sample_outbox)
  moreover have "t_ok (proposal_versions sample_done)" by (simp add: t_ok_def sample_done_def)
  ultimately show ?thesis by (simp add: chain_ok_def sample_versions)
qed

lemma sample_ok: "site_ok sample_done"
proof -
  have "prop_inv sample_proposal"
    by (simp add: prop_inv_def sample_proposal_def new_proposal_def done_status_def dead_def)
  then have "props_ok sample_done" by (simp add: props_ok_def sample_done_def t_get_def)
  moreover have "paid_ok sample_done" by (simp add: paid_ok_def paid_def sample_rows t_empty_def)
  ultimately show ?thesis using sample_books sample_chain by (simp add: site_ok_def)
qed

definition sample_settle :: "(env \<times> provider \<times> cmd) list" where
  "sample_settle = [(sample_env, sample_provider, Settle 1 1 1 sample_event2)]"



theorem run_refines_lifecycle_witness: "lifecycle sample_done (fold exec sample_settle sample_done)"
  using run_refines_lifecycle [OF site_tables [OF sample_ok]] by blast

theorem closed_proposal_final_witness:
  "t_get (proposals (fold exec sample_settle (sample_done \<lparr> proposals := Table 2 [(1, sample_proposal \<lparr> pr_status := PClosed \<rparr>)] \<rparr>))) 1
   = Some (sample_proposal \<lparr> pr_status := PClosed \<rparr>)"
  by (rule closed_proposal_final) (simp_all add: t_ok_def t_get_def)



theorem version_hash_chain_witness: "map pv_number (versions (fold exec [] sample_done) 1) = [1]"
proof -
  have "length (versions (fold exec [] sample_done) 1) = 1" by (simp add: sample_versions)
  then show ?thesis using version_hash_chain [OF sample_ok, of "[]" 1] by (simp add: upt_rec)
qed

end
