(* ===== verification/Trail.thy ===== *)
theory Trail
  imports Books
begin

text \<open>
  The audit trail over whole runs: it only grows, and no command moves money or a version without adding to
  it.
\<close>

definition trail :: "'z adb \<Rightarrow> audit_row list" where
  "trail db = map snd (table_rows (audit_log db))"

lemma trail_simps [simp]:
  "trail (db \<lparr> audit_log := t_insert e (audit_log db) \<rparr>) = trail db @ [e]"
  by (simp add: trail_def t_insert_def)


definition logged :: "'z ddb \<Rightarrow> 'z ddb \<Rightarrow> bool" where
  "logged db db' \<longleftrightarrow> (\<exists>new. trail db' = trail db @ new \<and> (money db' \<noteq> money db \<or> proposal_versions db' \<noteq> proposal_versions db \<longrightarrow> new \<noteq> []))"



lemma logged_refl [simp]: "logged db db"
  by (simp add: logged_def)

lemma trail_cong: "audit_log db' = audit_log db \<Longrightarrow> trail db' = trail db"
  by (simp add: trail_def)

lemma trail_frames [simp]:
  "trail (set_reports P s db) = trail db" "trail (set_case c f db) = trail db" "trail (set_proposal p g db) = trail db"
  "trail (attach_prediction pid v pr amount db) = trail db" "trail (close_case t c db) = trail db"
  "trail (decline_close t r l db) = trail db"
  by (simp_all add: trail_def set_reports_def set_case_def set_proposal_def attach_prediction_def close_case_def decline_close_def Let_def
      split: option.splits)

lemma trail_fold_decline [simp]: "trail (fold (decline_close t r) ls db) = trail db"
  by (induction ls arbitrary: db) simp_all


lemma trail_close_proposal [simp]: "trail (snd (close_proposal t pp st)) = trail (snd st)"
  by (simp add: close_proposal_def split: prod.splits)

lemma trail_fold_close_proposal [simp]: "trail (snd (fold (close_proposal t) ps st)) = trail (snd st)"
  by (induction ps arbitrary: st) simp_all

lemma trail_updates [simp]:
  "trail (db \<lparr> reports := x1 \<rparr>) = trail db" "trail (db \<lparr> report_photos := x2 \<rparr>) = trail db" "trail (db \<lparr> triage_jobs := x3 \<rparr>) = trail db"
  "trail (db \<lparr> decisions := x4 \<rparr>) = trail db" "trail (db \<lparr> cases := x5 \<rparr>) = trail db" "trail (db \<lparr> case_reports := x6 \<rparr>) = trail db"
  "trail (db \<lparr> info_requests := x7 \<rparr>) = trail db" "trail (db \<lparr> work_updates := x8 \<rparr>) = trail db" "trail (db \<lparr> ratings := x9 \<rparr>) = trail db"
  "trail (db \<lparr> proposals := y1 \<rparr>) = trail db" "trail (db \<lparr> proposal_versions := y2 \<rparr>) = trail db" "trail (db \<lparr> proposal_documents := y3 \<rparr>) = trail db"
  "trail (db \<lparr> settlements := y4 \<rparr>) = trail db" "trail (db \<lparr> funds := y5 \<rparr>) = trail db" "trail (db \<lparr> fund_entries := y6 \<rparr>) = trail db"
  "trail (db \<lparr> fund_verifications := y7 \<rparr>) = trail db" "trail (db \<lparr> ledger := y8 \<rparr>) = trail db" "trail (db \<lparr> predictions := y9 \<rparr>) = trail db"
  by (simp_all add: trail_def)

lemma trail_outbox [simp]: "trail (db \<lparr> outbox := x \<rparr>) = trail db"
  by (simp add: trail_def)


section \<open>Command by command\<close>














end
