(* ===== verification/Throttle.thy ===== *)
theory Throttle
  imports Accounts
begin

text \<open>
  The login and registration throttle (\<open>accounts/security.py\<close>): one bucket per digest of account and
  address, five failures in a window of fifteen minutes lock the bucket for fifteen minutes.
\<close>

definition THROTTLE_MAX_FAILURES :: nat where "THROTTLE_MAX_FAILURES = 5"
definition THROTTLE_WINDOW_SECONDS :: int where "THROTTLE_WINDOW_SECONDS = 15 * 60"

definition throttle_digest :: "env \<Rightarrow> string option \<Rightarrow> string option \<Rightarrow> string" where
  "throttle_digest env account ip =
     sha256_hex env (py_lower (py_strip (case account of None \<Rightarrow> [] | Some a \<Rightarrow> a)) @ ''|'' @
       py_strip (case ip of None \<Rightarrow> [] | Some i \<Rightarrow> i))"

definition bucket_of :: "'z adb \<Rightarrow> string \<Rightarrow> (pk \<times> throttle_row) option" where
  "bucket_of db digest = t_first (\<lambda>_ b. th_key_digest b = digest) (throttles db)"

definition is_locked :: "time \<Rightarrow> throttle_row \<Rightarrow> bool" where
  "is_locked t b \<longleftrightarrow> (case th_locked_until b of None \<Rightarrow> False | Some u \<Rightarrow> u > t)"

definition assert_not_throttled :: "env \<Rightarrow> 'z adb \<Rightarrow> string option \<Rightarrow> string option \<Rightarrow> unit result" where
  "assert_not_throttled env db account ip =
     (case bucket_of db (throttle_digest env account ip) of
        None \<Rightarrow> Inr ()
      | Some (_, b) \<Rightarrow> if is_locked (now env) b then Inl PermissionDenied else Inr ())"

text \<open>The update both recorders apply to their bucket.\<close>

definition count_attempt :: "time \<Rightarrow> throttle_row \<Rightarrow> throttle_row" where
  "count_attempt t b =
     (let b1 = (if (case th_window_started_at b of None \<Rightarrow> True
                    | Some w \<Rightarrow> t - w > seconds THROTTLE_WINDOW_SECONDS)
                then b \<lparr> th_failure_count := 1, th_window_started_at := Some t, th_locked_until := None \<rparr>
                else b \<lparr> th_failure_count := th_failure_count b + 1 \<rparr>) in
      if THROTTLE_MAX_FAILURES \<le> th_failure_count b1
      then b1 \<lparr> th_locked_until := Some (t + seconds THROTTLE_WINDOW_SECONDS) \<rparr> else b1)"

definition get_or_create_bucket :: "env \<Rightarrow> 'z adb \<Rightarrow> string \<Rightarrow> pk \<times> 'z adb" where
  "get_or_create_bucket env db digest =
     (case bucket_of db digest of
        Some (k, _) \<Rightarrow> (k, db)
      | None \<Rightarrow> (next_pk (throttles db),
          db \<lparr> throttles := t_insert \<lparr> th_key_digest = digest, th_failure_count = 0,
             th_window_started_at = Some (now env), th_locked_until = None \<rparr> (throttles db) \<rparr>))"

definition record_auth_failure :: "env \<Rightarrow> 'z adb \<Rightarrow> string option \<Rightarrow> string option \<Rightarrow> pk \<times> 'z adb" where
  "record_auth_failure env db account ip =
     (let (k, db1) = get_or_create_bucket env db (throttle_digest env account ip) in
      (k, db1 \<lparr> throttles := t_update k (count_attempt (now env)) (throttles db1) \<rparr>))"

definition record_registration_attempt ::
  "env \<Rightarrow> 'z adb \<Rightarrow> string option \<Rightarrow> string option \<Rightarrow> (pk \<times> 'z adb) result" where
  "record_registration_attempt env db account ip =
     (let (k, db1) = get_or_create_bucket env db (throttle_digest env account ip) in
      case t_get (throttles db1) k of
        None \<Rightarrow> Inl DoesNotExist
      | Some b \<Rightarrow>
          if is_locked (now env) b then Inl PermissionDenied
          else Inr (k, db1 \<lparr> throttles := t_update k (count_attempt (now env)) (throttles db1) \<rparr>))"

definition reset_auth_throttle :: "env \<Rightarrow> 'z adb \<Rightarrow> string option \<Rightarrow> string option \<Rightarrow> 'z adb" where
  "reset_auth_throttle env db account ip =
     (case bucket_of db (throttle_digest env account ip) of
        None \<Rightarrow> db
      | Some (k, _) \<Rightarrow> db \<lparr> throttles := t_update k (\<lambda>b. b \<lparr> th_failure_count := 0,
            th_window_started_at := None, th_locked_until := None \<rparr>) (throttles db) \<rparr>)"

section \<open>Buckets through the operations\<close>

lemma find_map_same:
  assumes "\<And>x. P (f x) = P x"
  shows "List.find P (map f xs) = map_option f (List.find P xs)"
  by (induction xs) (auto simp: assms)

lemma bucket_update:
  assumes "\<And>b. th_key_digest (f b) = th_key_digest b" "bucket_of db d = Some (k, b)"
  shows "bucket_of (db \<lparr> throttles := t_update k f (throttles db) \<rparr>) d = Some (k, f b)"
  using assms(2) find_map_same [of "\<lambda>(_, b). th_key_digest b = d"
      "\<lambda>(i, r). (i, if i = k then f r else r)" "table_rows (throttles db)"] assms(1)
  by (auto simp: bucket_of_def t_first_def t_update_def split: prod.splits)

lemma count_attempt_digest [simp]: "th_key_digest (count_attempt t b) = th_key_digest b"
  by (simp add: count_attempt_def Let_def)

lemma find_append: "List.find P (xs @ ys) = (case List.find P xs of None \<Rightarrow> List.find P ys | Some x \<Rightarrow> Some x)"
  by (induction xs) auto

lemma get_or_create_bucket_of:
  "get_or_create_bucket env db d = (k, db1) \<Longrightarrow>
   bucket_of db1 d = Some (k, case bucket_of db d of Some (_, b) \<Rightarrow> b
     | None \<Rightarrow> \<lparr> th_key_digest = d, th_failure_count = 0, th_window_started_at = Some (now env), th_locked_until = None \<rparr>)"
  by (auto simp: get_or_create_bucket_def bucket_of_def t_first_def t_insert_def find_append split: option.splits)

lemma record_auth_failure_bucket:
  assumes "record_auth_failure env db account ip = (k, db')"
  shows "bucket_of db' (throttle_digest env account ip) =
    Some (k, count_attempt (now env) (case bucket_of db (throttle_digest env account ip) of Some (_, b) \<Rightarrow> b
     | None \<Rightarrow> \<lparr> th_key_digest = throttle_digest env account ip, th_failure_count = 0,
         th_window_started_at = Some (now env), th_locked_until = None \<rparr>))"
proof -
  obtain db1 where g: "get_or_create_bucket env db (throttle_digest env account ip) = (k, db1)"
    and d: "db' = db1 \<lparr> throttles := t_update k (count_attempt (now env)) (throttles db1) \<rparr>"
    using assms by (auto simp: record_auth_failure_def Let_def split: prod.splits)
  show ?thesis unfolding d by (rule bucket_update) (simp_all add: get_or_create_bucket_of [OF g])
qed



lemma throttle_digest_now [simp]: "throttle_digest (env \<lparr> now := t \<rparr>) = throttle_digest env"
  by (simp add: throttle_digest_def fun_eq_iff)





text \<open>
  A successful login clears the throttle: after \<open>reset_auth_throttle\<close> the account is admitted, and
  the next failure counts as the first.
\<close>

theorem reset_clears_throttle:
  "assert_not_throttled env (reset_auth_throttle env db account ip) account ip = Inr ()
   \<and> (\<forall>k db'. record_auth_failure env (reset_auth_throttle env db account ip) account ip = (k, db') \<longrightarrow>
        map_option (th_failure_count \<circ> snd) (bucket_of db' (throttle_digest env account ip)) = Some 1)"
proof (cases "bucket_of db (throttle_digest env account ip)")
  case None
  then have "reset_auth_throttle env db account ip = db" by (simp add: reset_auth_throttle_def)
  then show ?thesis using None record_auth_failure_bucket [of env db account ip]
    by (auto simp: assert_not_throttled_def count_attempt_def THROTTLE_MAX_FAILURES_def THROTTLE_WINDOW_SECONDS_def seconds_def)
next
  case (Some kb)
  obtain k b where kb: "kb = (k, b)" by fastforce
  let ?f = "\<lambda>b. b \<lparr> th_failure_count := 0, th_window_started_at := None, th_locked_until := None \<rparr>"
  have b: "bucket_of (reset_auth_throttle env db account ip) (throttle_digest env account ip) = Some (k, ?f b)"
    using bucket_update [of ?f db _ k b] Some kb by (simp add: reset_auth_throttle_def)
  then show ?thesis using record_auth_failure_bucket [of env "reset_auth_throttle env db account ip" account ip]
    by (auto simp: assert_not_throttled_def is_locked_def count_attempt_def THROTTLE_MAX_FAILURES_def)
qed

theorem reset_clears_throttle_witness:
  "assert_not_throttled sample_env (reset_auth_throttle sample_env sample_accounts (Some ''a'') None) (Some ''a'') None = Inr ()"
  using reset_clears_throttle by blast

end
