(* ===== verification/Registration.thy ===== *)
theory Registration
  imports Throttle
begin

text \<open>
  Self-registration of residents (\<open>accounts/registration.py\<close>): a request is submitted, expires after
  thirty days, and is approved (which creates the account and the occupancy) or rejected by Management.
  Approval and rejection commit the expiry of a stale request and then raise, so they return the state
  beside the outcome.
\<close>

section \<open>Operations\<close>

definition expire_row :: "time \<Rightarrow> registration_row \<Rightarrow> registration_row" where
  "expire_row t r = r \<lparr> rg_status := RegExpired, rg_password_hash := [], rg_decided_at := Some t, rg_updated_at := t \<rparr>"

definition expire_requests :: "pk list \<Rightarrow> time \<Rightarrow> 'z adb \<Rightarrow> 'z adb" where
  "expire_requests ks t db =
     db \<lparr> registrations := t_update_all (\<lambda>k _. k \<in> set ks) (expire_row t) (registrations db) \<rparr>"

definition is_stale :: "time \<Rightarrow> registration_row \<Rightarrow> bool" where
  "is_stale t r \<longleftrightarrow> rg_status r = RegPending \<and> rg_expires_at r \<le> t"

definition expire_registration_requests :: "nat \<Rightarrow> time \<Rightarrow> 'z adb \<Rightarrow> nat \<times> 'z adb" where
  "expire_registration_requests limit t db =
     (let ks = map fst (take limit (sort_key (\<lambda>(_, r). rg_expires_at r) (t_filter (\<lambda>_. is_stale t) (registrations db)))) in
      (length ks, expire_requests ks t db))"

text \<open>The unique constraints of the table that a new request can violate, in the order they are tried.\<close>

definition registration_constraint :: "registration_row \<Rightarrow> registration_row table \<Rightarrow> string option" where
  "registration_constraint new t =
     (if rg_status new = RegPending \<and> t_exists (\<lambda>_ r. rg_status r = RegPending \<and> rg_phone r = rg_phone new) t
      then Some ''unique_pending_registration_phone''
      else if rg_status new = RegPending \<and> rg_email new \<noteq> None \<and>
        t_exists (\<lambda>_ r. rg_status r = RegPending \<and> rg_email r = rg_email new) t
      then Some ''unique_pending_registration_email''
      else if t_exists (\<lambda>_ r. rg_status_token_digest r = rg_status_token_digest new) t
      then Some ''accounts_registrationrequest_status_token_digest_key''
      else None)"

definition duplicate_constraints :: "string list" where
  "duplicate_constraints = [''unique_pending_registration_phone'', ''unique_pending_registration_email'']"

definition status_token_digest :: "env \<Rightarrow> string \<Rightarrow> string" where
  "status_token_digest env token = sha256_hex env token"

definition clean_email :: "env \<Rightarrow> string option \<Rightarrow> string option" where
  "clean_email env email =
     (case email of
        None \<Rightarrow> None
      | Some e \<Rightarrow> if py_strip e = [] then None else Some (casefold env (normalize_email env (py_strip e))))"

definition same_contact :: "string \<Rightarrow> string option \<Rightarrow> registration_row \<Rightarrow> bool" where
  "same_contact phone email r \<longleftrightarrow> rg_phone r = phone \<or> email \<noteq> None \<and> rg_email r = email"

definition user_taken :: "'z adb \<Rightarrow> string \<Rightarrow> string option \<Rightarrow> bool" where
  "user_taken db user_phone email \<longleftrightarrow>
     t_exists (\<lambda>_ u. u_phone u = Some user_phone \<or>
       (case (email, u_email u) of (Some e, Some e') \<Rightarrow> py_lower e' = py_lower e | _ \<Rightarrow> False)) (users db)"

definition submit_registration ::
  "env \<Rightarrow> 'z adb \<Rightarrow> string \<Rightarrow> string \<Rightarrow> string option \<Rightarrow> string \<Rightarrow> pk \<Rightarrow> pk \<Rightarrow> (pk \<times> string \<times> 'z adb) result" where
  "submit_registration env db full_name phone email password building_id unit_id =
     (case normalize_phone (Some phone) of
        None \<Rightarrow> Inl RegistrationConflict
      | Some user_phone \<Rightarrow>
          if \<not> t_exists (\<lambda>k u. k = unit_id \<and> un_building u = building_id) (units db) then Inl RegistrationConflict
          else
            (let email' = clean_email env email;
                 phone' = ''+84'' @ drop 1 user_phone;
                 stale = map fst (t_filter (\<lambda>_ r. same_contact phone' email' r \<and> is_stale (now env) r) (registrations db));
                 db1 = expire_requests stale (now env) db;
                 db2 = snd (expire_registration_requests 100 (now env) db1) in
             if user_taken db2 user_phone email'
               \<or> t_exists (\<lambda>_ r. rg_status r = RegPending \<and> same_contact phone' email' r) (registrations db2)
             then Inl RegistrationConflict
             else
               (let new = \<lparr> rg_full_name = py_strip full_name, rg_phone = phone', rg_email = email',
                      rg_building = building_id, rg_unit = unit_id, rg_password_hash = make_password env password,
                      rg_status_token_digest = status_token_digest env (token_urlsafe env),
                      rg_status = RegPending, rg_rejection_reason = [], rg_decided_by = None,
                      rg_decided_at = None, rg_created_at = now env, rg_updated_at = now env,
                      rg_expires_at = now env + days 30 \<rparr> in
                case registration_constraint new (registrations db2) of
                  Some c \<Rightarrow> if c \<in> set duplicate_constraints then Inl RegistrationConflict else Inl (IntegrityError c)
                | None \<Rightarrow> Inr (next_pk (registrations db2), token_urlsafe env,
                    db2 \<lparr> registrations := t_insert new (registrations db2) \<rparr>))))"

definition get_registration_status :: "env \<Rightarrow> 'z adb \<Rightarrow> string \<Rightarrow> (pk \<times> 'z adb) result" where
  "get_registration_status env db status_token =
     (case t_first (\<lambda>_ r. rg_status_token_digest r = status_token_digest env status_token) (registrations db) of
        None \<Rightarrow> Inl DoesNotExist
      | Some (k, r) \<Rightarrow> Inr (k, if is_stale (now env) r then expire_requests [k] (now env) db else db))"

text \<open>The unique constraints of the user table: email and phone, where present.\<close>

definition user_constraint :: "user_row \<Rightarrow> user_row table \<Rightarrow> bool" where
  "user_constraint new t \<longleftrightarrow>
     u_email new \<noteq> None \<and> t_exists (\<lambda>_ u. u_email u = u_email new) t
     \<or> u_phone new \<noteq> None \<and> t_exists (\<lambda>_ u. u_phone u = u_phone new) t"

definition approve_registration :: "env \<Rightarrow> 'z adb \<Rightarrow> pk \<Rightarrow> pk \<Rightarrow> 'z adb \<times> pk result" where
  "approve_registration env db request_id actor =
     (case t_get (registrations db) request_id of
        None \<Rightarrow> (db, Inl DoesNotExist)
      | Some r \<Rightarrow>
          (case require_management db actor (rg_building r) of
             Inl e \<Rightarrow> (db, Inl e)
           | Inr m \<Rightarrow>
               if rg_status r \<noteq> RegPending then (db, Inl RegistrationConflict)
               else if rg_expires_at r \<le> now env
               then (expire_requests [request_id] (now env) db, Inl RegistrationConflict)
               else
                 (let user = user_save \<lparr> u_email = rg_email r, u_display_name = rg_full_name r,
                        u_phone = Some (rg_phone r), u_password = rg_password_hash r, u_is_active = True \<rparr>;
                      uid = next_pk (users db) in
                  if user_constraint user (users db) then (db, Inl RegistrationConflict)
                  else
                    (let db1 = db \<lparr> users := t_insert user (users db),
                           occupancies := t_insert \<lparr> oc_user = uid, oc_unit = rg_unit r, oc_active = True \<rparr> (occupancies db),
                           registrations := t_update request_id (\<lambda>r. r \<lparr> rg_status := RegApproved, rg_password_hash := [],
                             rg_decided_by := Some actor, rg_decided_at := Some (now env), rg_updated_at := now env \<rparr>)
                             (registrations db) \<rparr> in
                     case record_audit env db1 actor (Some m) ''registration.approved'' ''RegistrationRequest''
                            (nat_str request_id) ''accepted''
                            [(''building_id'', PyInt (int (rg_building r))), (''unit_id'', PyInt (int (rg_unit r)))] of
                       Inl e \<Rightarrow> (db, Inl e)
                     | Inr db2 \<Rightarrow> (db2, Inr uid)))))"

definition reject_registration :: "env \<Rightarrow> 'z adb \<Rightarrow> pk \<Rightarrow> pk \<Rightarrow> string \<Rightarrow> 'z adb \<times> unit result" where
  "reject_registration env db request_id actor reason0 =
     (let reason = py_strip reason0 in
      if reason = [] then (db, Inl ValueError)
      else (case t_get (registrations db) request_id of
          None \<Rightarrow> (db, Inl DoesNotExist)
        | Some r \<Rightarrow>
            (case require_management db actor (rg_building r) of
               Inl e \<Rightarrow> (db, Inl e)
             | Inr m \<Rightarrow>
                 if rg_status r \<noteq> RegPending then (db, Inl RegistrationConflict)
                 else if rg_expires_at r \<le> now env
                 then (expire_requests [request_id] (now env) db, Inl RegistrationConflict)
                 else
                   (let db1 = db \<lparr> registrations := t_update request_id (\<lambda>r. r \<lparr> rg_status := RegRejected,
                          rg_password_hash := [], rg_rejection_reason := reason, rg_decided_by := Some actor,
                          rg_decided_at := Some (now env), rg_updated_at := now env \<rparr>) (registrations db) \<rparr> in
                    case record_audit env db1 actor (Some m) ''registration.rejected'' ''RegistrationRequest''
                           (nat_str request_id) ''accepted''
                           [(''building_id'', PyInt (int (rg_building r))), (''unit_id'', PyInt (int (rg_unit r))),
                            (''reason'', PyStr reason)] of
                      Inl e \<Rightarrow> (db, Inl e)
                    | Inr db2 \<Rightarrow> (db2, Inr ())))))"

section \<open>The registration machine\<close>

datatype reg_op =
    Submit string string "string option" string pk pk
  | ExpireDue nat
  | ReadStatus string
  | Approve pk pk
  | Reject pk pk string

fun reg_exec :: "env \<times> reg_op \<Rightarrow> 'z adb \<Rightarrow> 'z adb" where
  "reg_exec (env, Submit fn ph em pw b u) db =
     (case submit_registration env db fn ph em pw b u of Inl _ \<Rightarrow> db | Inr (_, _, db') \<Rightarrow> db')"
| "reg_exec (env, ExpireDue n) db = snd (expire_registration_requests n (now env) db)"
| "reg_exec (env, ReadStatus tok) db =
     (case get_registration_status env db tok of Inl _ \<Rightarrow> db | Inr (_, db') \<Rightarrow> db')"
| "reg_exec (env, Approve k a) db = fst (approve_registration env db k a)"
| "reg_exec (env, Reject k a why) db = fst (reject_registration env db k a why)"

text \<open>
  The invariant: a request that is no longer pending keeps no password hash and carries the time it was
  decided; no two pending requests share a phone number, nor an email address.
\<close>

definition decided_ok :: "registration_row \<Rightarrow> bool" where
  "decided_ok r \<longleftrightarrow> rg_status r \<noteq> RegPending \<longrightarrow> rg_password_hash r = [] \<and> rg_decided_at r \<noteq> None"

definition contact_clash :: "registration_row \<Rightarrow> registration_row \<Rightarrow> bool" where
  "contact_clash a b \<longleftrightarrow> rg_status a = RegPending \<and> rg_status b = RegPending \<and>
     (rg_phone a = rg_phone b \<or> rg_email a \<noteq> None \<and> rg_email a = rg_email b)"

definition reg_inv :: "'z adb \<Rightarrow> bool" where
  "reg_inv db \<longleftrightarrow> t_ok (registrations db)
     \<and> (\<forall>k r. t_get (registrations db) k = Some r \<longrightarrow> decided_ok r)
     \<and> (\<forall>i j a b. t_get (registrations db) i = Some a \<longrightarrow> t_get (registrations db) j = Some b \<longrightarrow>
          contact_clash a b \<longrightarrow> i = j)"

lemma reg_inv_leave:
  assumes "reg_inv db" "registrations db' = t_update_all P f (registrations db)"
    and f: "\<And>r. rg_status (f r) \<noteq> RegPending \<and> decided_ok (f r)"
  shows "reg_inv db'"
proof -
  have clash: "\<not> contact_clash (f a) b \<and> \<not> contact_clash a (f b)" for a b
    using f by (simp add: contact_clash_def)
  show ?thesis using assms(1) f clash unfolding reg_inv_def assms(2)
    by (auto simp: t_get_update_all split: if_splits)
qed

lemma expire_row_left: "rg_status (expire_row t r) \<noteq> RegPending \<and> decided_ok (expire_row t r)"
  by (simp add: expire_row_def decided_ok_def)

lemma expire_requests_inv: "reg_inv db \<Longrightarrow> reg_inv (expire_requests ks t db)"
  by (rule reg_inv_leave [where f = "expire_row t" and P = "\<lambda>k _. k \<in> set ks"])
    (simp_all add: expire_row_left expire_requests_def)

lemma expire_due_inv: "reg_inv db \<Longrightarrow> reg_inv (snd (expire_registration_requests n t db))"
  by (simp add: expire_registration_requests_def Let_def expire_requests_inv)

lemma reg_inv_insert:
  assumes "reg_inv db" "registration_constraint new (registrations db) = None" "decided_ok new"
  shows "reg_inv (db \<lparr> registrations := t_insert new (registrations db) \<rparr>)"
proof -
  have ok: "t_ok (registrations db)" using assms(1) by (simp add: reg_inv_def)
  have "\<not> contact_clash new r \<and> \<not> contact_clash r new" if "t_get (registrations db) k = Some r" for k r
    using assms(2) that by (auto simp: registration_constraint_def contact_clash_def t_exists_iff [OF ok] split: if_splits)
      metis+
  then show ?thesis using assms(1,3) by (auto simp: reg_inv_def t_get_insert ok split: if_splits)
qed

lemma approve_effect:
  assumes "approve_registration env db k actor = (db', res)"
  shows "db' = db \<or> db' = expire_requests [k] (now env) db
    \<or> registrations db' = t_update k (\<lambda>r. r \<lparr> rg_status := RegApproved, rg_password_hash := [],
        rg_decided_by := Some actor, rg_decided_at := Some (now env), rg_updated_at := now env \<rparr>) (registrations db)"
  using assms by (auto simp: approve_registration_def Let_def record_audit_management
      split: option.splits sum.splits if_splits dest!: record_audit_appends)

lemma reject_effect:
  assumes "reject_registration env db k actor why = (db', res)"
  shows "db' = db \<or> db' = expire_requests [k] (now env) db
    \<or> registrations db' = t_update k (\<lambda>r. r \<lparr> rg_status := RegRejected,
        rg_password_hash := [], rg_rejection_reason := py_strip why, rg_decided_by := Some actor,
        rg_decided_at := Some (now env), rg_updated_at := now env \<rparr>) (registrations db)"
  using assms by (auto simp: reject_registration_def Let_def
      split: option.splits sum.splits if_splits dest!: record_audit_appends)

definition submit_sweep :: "env \<Rightarrow> string \<Rightarrow> string option \<Rightarrow> 'z adb \<Rightarrow> 'z adb" where
  "submit_sweep env phone email db =
     snd (expire_registration_requests 100 (now env)
       (expire_requests (map fst (t_filter (\<lambda>_ r. same_contact phone email r \<and> is_stale (now env) r) (registrations db)))
         (now env) db))"

lemma submit_sweep_inv: "reg_inv db \<Longrightarrow> reg_inv (submit_sweep env ph em db)"
  by (simp add: submit_sweep_def expire_due_inv expire_requests_inv)

lemma submit_sweep_next [simp]: "next_pk (registrations (submit_sweep env ph em db)) = next_pk (registrations db)"
  by (simp add: submit_sweep_def expire_registration_requests_def expire_requests_def Let_def)

lemma submit_effect:
  assumes "submit_registration env db fn ph em pw b u = Inr (k, tok, db')"
  shows "\<exists>user_phone new. normalize_phone (Some ph) = Some user_phone
    \<and> (let db1 = submit_sweep env (''+84'' @ drop 1 user_phone) (clean_email env em) db in
      db' = db1 \<lparr> registrations := t_insert new (registrations db1) \<rparr> \<and> k = next_pk (registrations db1)
      \<and> registration_constraint new (registrations db1) = None \<and> \<not> user_taken db1 user_phone (clean_email env em)
      \<and> rg_status new = RegPending \<and> rg_phone new = ''+84'' @ drop 1 user_phone \<and> rg_email new = clean_email env em
      \<and> rg_building new = b \<and> rg_unit new = u \<and> rg_expires_at new = now env + days 30
      \<and> rg_password_hash new = make_password env pw \<and> rg_full_name new = py_strip fn)"
proof (cases "normalize_phone (Some ph)")
  case None
  then show ?thesis using assms by (simp add: submit_registration_def)
next
  case (Some user_phone)
  let ?db1 = "submit_sweep env (''+84'' @ drop 1 user_phone) (clean_email env em) db"
  show ?thesis
    by (rule exI [of _ user_phone])
      (use assms in \<open>auto simp: Some submit_registration_def submit_sweep_def [symmetric] Let_def
        split: if_splits option.splits\<close>)
qed

lemma reg_exec_inv: "reg_inv db \<Longrightarrow> reg_inv (reg_exec c db)"
proof (induction c db rule: reg_exec.induct)
  case (1 env fn ph em pw b u db)
  show ?case
  proof (cases "submit_registration env db fn ph em pw b u")
    case (Inr r)
    then obtain k tok db' where r: "submit_registration env db fn ph em pw b u = Inr (k, tok, db')"
      by (cases r) auto
    then show ?thesis using submit_effect [OF r] 1 submit_sweep_inv
      by (auto simp: Let_def decided_ok_def intro!: reg_inv_insert)
  qed (simp add: 1)
next
  case (3 env tok db)
  then show ?case
    by (auto simp: get_registration_status_def expire_requests_inv split: option.splits sum.splits)
next
  case (4 env k a db)
  obtain db' res where "approve_registration env db k a = (db', res)" by fastforce
  with approve_effect [OF this] 4 show ?case
    by (elim disjE) (simp, simp add: expire_requests_inv,
      auto simp: t_update_as_all decided_ok_def intro: reg_inv_leave [OF 4])
next
  case (5 env k a why db)
  obtain db' res where "reject_registration env db k a why = (db', res)" by fastforce
  with reject_effect [OF this] 5 show ?case
    by (elim disjE) (simp, simp add: expire_requests_inv,
      auto simp: t_update_as_all decided_ok_def intro: reg_inv_leave [OF 5])
qed (simp add: expire_due_inv)

interpretation reg: service_machine reg_exec reg_inv
  by unfold_locales (rule reg_exec_inv)

section \<open>Properties\<close>

lemma expire_stale_frozen:
  assumes "t_get (registrations db) i = Some r" "rg_status r \<noteq> RegPending"
    "\<And>k r. k \<in> set ks \<Longrightarrow> t_get (registrations db) k = Some r \<Longrightarrow> rg_status r = RegPending"
  shows "t_get (registrations (expire_requests ks t db)) i = Some r"
  using assms by (auto simp: expire_requests_def t_get_update_all)

lemma due_keys_pending:
  assumes "t_ok (registrations db)" "k \<in> set (map fst (t_filter (\<lambda>_ r. Q r \<and> is_stale t r) (registrations db)))"
    "t_get (registrations db) k = Some r"
  shows "rg_status r = RegPending"
  using assms by (auto simp: in_filter_get is_stale_def)

lemma expire_due_frozen:
  assumes "t_ok (registrations db)" "t_get (registrations db) i = Some r" "rg_status r \<noteq> RegPending"
  shows "t_get (registrations (snd (expire_registration_requests n t db))) i = Some r"
  unfolding expire_registration_requests_def Let_def snd_conv
proof (rule expire_stale_frozen [OF assms(2,3)])
  fix k r' assume "k \<in> set (map fst (take n (sort_key (\<lambda>(_, r). rg_expires_at r) (t_filter (\<lambda>_. is_stale t) (registrations db)))))"
  then have "k \<in> set (map fst (t_filter (\<lambda>_. is_stale t) (registrations db)))"
    by (auto dest!: in_set_takeD)
  moreover assume "t_get (registrations db) k = Some r'"
  ultimately show "rg_status r' = RegPending"
    using due_keys_pending [OF assms(1), where Q = "\<lambda>_. True"] by simp
qed

lemma submit_sweep_frozen:
  assumes "t_ok (registrations db)" "t_get (registrations db) i = Some r" "rg_status r \<noteq> RegPending"
  shows "t_get (registrations (submit_sweep env ph em db)) i = Some r"
  unfolding submit_sweep_def
proof (rule expire_due_frozen [OF _ _ assms(3)])
  show "t_ok (registrations (expire_requests ks t db))" for ks t
    using assms(1) by (simp add: expire_requests_def)
  show "t_get (registrations (expire_requests (map fst (t_filter (\<lambda>_ r. same_contact ph em r \<and> is_stale (now env) r)
      (registrations db))) (now env) db)) i = Some r"
    by (rule expire_stale_frozen [OF assms(2,3)])
      (use due_keys_pending [OF assms(1), where Q = "same_contact ph em"] in blast)
qed

lemma approve_frozen:
  assumes "t_get (registrations db) i = Some r" "rg_status r \<noteq> RegPending"
  shows "t_get (registrations (fst (approve_registration env db k a))) i = Some r"
  using assms by (auto simp: approve_registration_def Let_def expire_requests_def t_get_update t_get_update_all
      split: option.splits sum.splits dest!: record_audit_appends)

lemma reject_frozen:
  assumes "t_get (registrations db) i = Some r" "rg_status r \<noteq> RegPending"
  shows "t_get (registrations (fst (reject_registration env db k a why))) i = Some r"
  using assms by (auto simp: reject_registration_def Let_def expire_requests_def t_get_update t_get_update_all
      split: option.splits sum.splits dest!: record_audit_appends)

lemma reg_exec_frozen:
  assumes "reg_inv db" "t_get (registrations db) i = Some r" "rg_status r \<noteq> RegPending"
  shows "t_get (registrations (reg_exec c db)) i = Some r"
  using assms
proof (induction c db rule: reg_exec.induct)
  case (1 env fn ph em pw b u db)
  have ok: "t_ok (registrations db)" using 1(1) by (simp add: reg_inv_def)
  show ?case
  proof (cases "submit_registration env db fn ph em pw b u")
    case (Inr x)
    then obtain k tok db' where x: "submit_registration env db fn ph em pw b u = Inr (k, tok, db')"
      by (cases x) auto
    then show ?thesis using submit_effect [OF x] submit_sweep_frozen [OF ok 1(2,3)]
      by (auto simp: Let_def t_get_insert_old)
  qed (simp add: 1)
next
  case (2 env n db)
  then show ?case by (simp add: expire_due_frozen reg_inv_def)
next
  case (3 env tok db)
  then have ok: "t_ok (registrations db)" by (simp add: reg_inv_def)
  show ?case using 3 t_first_Some_get [OF ok]
    by (auto simp: get_registration_status_def is_stale_def split: option.splits intro!: expire_stale_frozen)
qed (simp_all add: approve_frozen reject_frozen)

text \<open>
  In every run of registration operations from a state that satisfies the invariant (the empty table
  does): a request that was decided keeps no password hash and records when, and no two pending requests
  share a phone number or an email address.
\<close>

theorem registration_invariant:
  assumes "reg_inv db"
  shows "reg_inv (fold reg_exec cmds db)"
  by (rule reg.run_inv [OF assms])

theorem registration_invariant_witness:
  "reg_inv (fold reg_exec [(sample_env, Submit ''An'' ''0912345678'' None ''pw'' 1 1), (sample_env, Approve 1 1)] sample_accounts)"
  by (rule registration_invariant) (simp add: reg_inv_def sample_accounts_def)

text \<open>
  C15.  A decision is final: once a request is approved, rejected or expired, no later registration
  operation changes its row.
\<close>

theorem registration_decision_final:
  assumes "reg_inv db" "t_get (registrations db) i = Some r" "rg_status r \<noteq> RegPending"
  shows "t_get (registrations (fold reg_exec cmds db)) i = Some r"
  using assms
proof (induction cmds arbitrary: db)
  case (Cons c cmds)
  then show ?case using reg_exec_frozen [OF Cons.prems, of c] reg.exec_inv [OF Cons.prems(1), of c] by simp
qed simp

definition sample_rejected :: accounts_db where
  "sample_rejected = fold reg_exec
     [(sample_env, Submit ''An'' ''0912345678'' None ''pw'' 1 1), (sample_env, Reject 1 1 ''no'')] sample_accounts"

theorem registration_decision_final_witness:
  "\<exists>r. t_get (registrations (fold reg_exec [(sample_env, Approve 1 1)] sample_rejected)) 1 = Some r
     \<and> rg_status r = RegRejected"
proof -
  have inv: "reg_inv sample_rejected"
    unfolding sample_rejected_def by (rule reg.run_inv) (simp add: reg_inv_def sample_accounts_def)
  have "map_option rg_status (t_get (registrations sample_rejected) 1) = Some RegRejected"
    by code_simp
  then obtain r where r: "t_get (registrations sample_rejected) 1 = Some r" "rg_status r = RegRejected" by auto
  have "rg_status r \<noteq> RegPending" using r(2) by simp
  from registration_decision_final [OF inv r(1) this] r(2) show ?thesis by blast
qed

text \<open>
  An approval that succeeds was made by Management of the request's building on a live pending
  request; it creates exactly one account, with the password the resident chose and the phone number in
  the form login looks up, an active occupancy of the requested unit, and one audit row.
\<close>

theorem approve_registration_effect:
  assumes "approve_registration env db k actor = (db', Inr uid)"
    and r: "t_get (registrations db) k = Some r"
  shows "manages db actor (rg_building r) \<and> rg_status r = RegPending \<and> now env < rg_expires_at r
    \<and> uid = next_pk (users db)
    \<and> users db' = t_insert (user_save \<lparr> u_email = rg_email r, u_display_name = rg_full_name r,
        u_phone = Some (rg_phone r), u_password = rg_password_hash r, u_is_active = True \<rparr>) (users db)
    \<and> occupancies db' = t_insert \<lparr> oc_user = uid, oc_unit = rg_unit r, oc_active = True \<rparr> (occupancies db)
    \<and> (normalize_phone (Some p0) = Some p \<longrightarrow> rg_phone r = ''+84'' @ drop 1 p \<longrightarrow>
        u_phone (user_save \<lparr> u_email = rg_email r, u_display_name = rg_full_name r,
          u_phone = Some (rg_phone r), u_password = rg_password_hash r, u_is_active = True \<rparr>) = Some p)
    \<and> length (table_rows (audit_log db')) = Suc (length (table_rows (audit_log db)))"
proof -
  have "u_phone (user_save \<lparr> u_email = rg_email r, u_display_name = rg_full_name r,
          u_phone = Some (rg_phone r), u_password = rg_password_hash r, u_is_active = True \<rparr>) = Some p"
    if "normalize_phone (Some p0) = Some p" "rg_phone r = ''+84'' @ drop 1 p"
    using phone_canonical [OF that(1)] that(2) by (simp add: user_save_def)
  moreover have "manages db actor (rg_building r)"
    using assms by (auto simp: approve_registration_def split: sum.splits dest: require_management_manages)
  ultimately show ?thesis
    using assms by (auto simp: approve_registration_def Let_def t_insert_def
        split: sum.splits if_splits dest!: record_audit_appends)
qed

definition sample_pending :: accounts_db where
  "sample_pending = reg_exec (sample_env, Submit ''An'' ''0912345678'' None ''pw'' 1 1) sample_accounts"

theorem approve_registration_effect_witness:
  "\<exists>db' r. approve_registration sample_env sample_pending 1 1 = (db', Inr 3)
     \<and> t_get (registrations sample_pending) 1 = Some r \<and> manages sample_pending 1 (rg_building r)"
proof -
  have a: "snd (approve_registration sample_env sample_pending 1 1) = Inr 3" by code_simp
  then obtain db' where d: "approve_registration sample_env sample_pending 1 1 = (db', Inr 3)"
    by (cases "approve_registration sample_env sample_pending 1 1") auto
  obtain r where r: "t_get (registrations sample_pending) 1 = Some r"
    using d by (auto simp: approve_registration_def split: option.splits)
  show ?thesis using approve_registration_effect [OF d r] d r by blast
qed

end
