(* ===== verification/Push.thy ===== *)
theory Push
  imports Domain
begin

text \<open>
  Push messages (\<open>notifications/push.py\<close>): the fixed copy shown by the phone before the app runs, the deep link
  taken from the event key, and the classification of the provider's errors.  The Firebase library is a parameter
  of the delivery in theory \<open>Notifications\<close>; an error of it is one of the classes \<open>classify_push_error\<close> tells
  apart, with its text.
\<close>

section \<open>Text of an event key\<close>

fun py_split :: "char \<Rightarrow> string \<Rightarrow> string list" where  \<comment> \<open>\<open>s.split(sep)\<close> for one character\<close>
  "py_split sep [] = [[]]"
| "py_split sep (c # s) =
     (if c = sep then [] # py_split sep s
      else (case py_split sep s of [] \<Rightarrow> [[c]] | part # parts \<Rightarrow> (c # part) # parts))"

fun contains :: "string \<Rightarrow> string \<Rightarrow> bool" where  \<comment> \<open>\<open>needle in s\<close>\<close>
  "contains needle [] = (needle = [])"
| "contains needle (c # s) = (starts_with needle (c # s) \<or> contains needle s)"

lemma py_split_nonempty [simp]: "py_split sep s \<noteq> []"
  by (induction s) (auto split: list.splits)

lemma py_split_plain: "sep \<notin> set s \<Longrightarrow> py_split sep s = [s]"
  by (induction s) auto

lemma py_split_append: "sep \<notin> set a \<Longrightarrow> py_split sep (a @ sep # s) = a # py_split sep s"
  by (induction a) auto

definition event_code_from_key :: "string \<Rightarrow> string" where
  "event_code_from_key event_key =
     (if CHR '':'' \<in> set event_key then hd (py_split (CHR '':'') event_key) else event_key)"

definition parse_reference :: "string \<Rightarrow> (string \<times> string) option" where
  "parse_reference event_key =
     (let parts = py_split (CHR '':'') event_key in
      if length parts \<ge> 3 then Some (parts ! 1, parts ! 2) else None)"

section \<open>Copy\<close>

definition PUSH_COPY :: "(string \<times> string \<times> string) list" where
  "PUSH_COPY =
    [(''report.receipt'',
      [CHR 0xC4, CHR 0x90, CHR 0xC3, CHR 0xA3] @ '' nh'' @ [CHR 0xE1, CHR 0xBA, CHR 0xAD] @ ''n ph'' @
      [CHR 0xE1, CHR 0xBA, CHR 0xA3] @ ''n '' @ [CHR 0xC3, CHR 0xA1] @ ''nh'',
      ''Ph'' @ [CHR 0xE1, CHR 0xBA, CHR 0xA3] @ ''n '' @ [CHR 0xC3, CHR 0xA1] @ ''nh c'' @
      [CHR 0xE1, CHR 0xBB, CHR 0xA7] @ ''a b'' @ [CHR 0xE1, CHR 0xBA, CHR 0xA1] @ ''n '' @
      [CHR 0xC4, CHR 0x91, CHR 0xC3, CHR 0xA3] @ '' '' @
      [CHR 0xC4, CHR 0x91, CHR 0xC6, CHR 0xB0, CHR 0xE1, CHR 0xBB, CHR 0xA3] @ ''c ghi nh'' @
      [CHR 0xE1, CHR 0xBA, CHR 0xAD] @ ''n.''),
     (''triage.status'',
      ''Ph'' @ [CHR 0xE1, CHR 0xBA, CHR 0xA3] @ ''n '' @ [CHR 0xC3, CHR 0xA1] @ ''nh '' @
      [CHR 0xC4, CHR 0x91, CHR 0xC3, CHR 0xA3] @ '' '' @
      [CHR 0xC4, CHR 0x91, CHR 0xC6, CHR 0xB0, CHR 0xE1, CHR 0xBB, CHR 0xA3] @ ''c ph'' @ [CHR 0xC3, CHR 0xA2] @
      ''n lo'' @ [CHR 0xE1, CHR 0xBA, CHR 0xA1] @ ''i'',
      ''Ph'' @ [CHR 0xE1, CHR 0xBA, CHR 0xA3] @ ''n '' @ [CHR 0xC3, CHR 0xA1] @ ''nh c'' @
      [CHR 0xE1, CHR 0xBB, CHR 0xA7] @ ''a b'' @ [CHR 0xE1, CHR 0xBA, CHR 0xA1] @ ''n '' @
      [CHR 0xC4, CHR 0x91, CHR 0xC3, CHR 0xA3] @ '' '' @
      [CHR 0xC4, CHR 0x91, CHR 0xC6, CHR 0xB0, CHR 0xE1, CHR 0xBB, CHR 0xA3] @ ''c m'' @
      [CHR 0xE1, CHR 0xBB, CHR 0x9F] @ '' th'' @ [CHR 0xC3, CHR 0xA0] @ ''nh y'' @ [CHR 0xC3, CHR 0xAA] @ ''u c'' @
      [CHR 0xE1, CHR 0xBA, CHR 0xA7] @ ''u x'' @ [CHR 0xE1, CHR 0xBB, CHR 0xAD] @ '' l'' @ [CHR 0xC3, CHR 0xBD] @
      ''.''),
     (''work.completed'',
      ''C'' @ [CHR 0xC3, CHR 0xB4] @ ''ng vi'' @ [CHR 0xE1, CHR 0xBB, CHR 0x87] @ ''c '' @
      [CHR 0xC4, CHR 0x91, CHR 0xC3, CHR 0xA3] @ '' ho'' @ [CHR 0xC3, CHR 0xA0] @ ''n th'' @ [CHR 0xC3, CHR 0xA0] @
      ''nh'',
      ''Vui l'' @ [CHR 0xC3, CHR 0xB2] @ ''ng '' @ [CHR 0xC4, CHR 0x91, CHR 0xC3, CHR 0xA1] @ ''nh gi'' @
      [CHR 0xC3, CHR 0xA1] @ '' c'' @ [CHR 0xC3, CHR 0xB4] @ ''ng vi'' @ [CHR 0xE1, CHR 0xBB, CHR 0x87] @ ''c '' @
      [CHR 0xC4, CHR 0x91, CHR 0xC3, CHR 0xA3] @ '' th'' @ [CHR 0xE1, CHR 0xBB, CHR 0xB1] @ ''c hi'' @
      [CHR 0xE1, CHR 0xBB, CHR 0x87] @ ''n.''),
     (''ledger.publication'',
      ''Kho'' @ [CHR 0xE1, CHR 0xBA, CHR 0xA3] @ ''n chi m'' @ [CHR 0xE1, CHR 0xBB, CHR 0x9B] @ ''i '' @
      [CHR 0xC4, CHR 0x91, CHR 0xC6, CHR 0xB0, CHR 0xE1, CHR 0xBB, CHR 0xA3] @ ''c c'' @ [CHR 0xC3, CHR 0xB4] @
      ''ng b'' @ [CHR 0xE1, CHR 0xBB, CHR 0x91],
      ''C'' @ [CHR 0xC3, CHR 0xB3] @ '' kho'' @ [CHR 0xE1, CHR 0xBA, CHR 0xA3] @ ''n chi m'' @
      [CHR 0xE1, CHR 0xBB, CHR 0x9B] @ ''i trong s'' @ [CHR 0xE1, CHR 0xBB, CHR 0x95] @ '' qu'' @
      [CHR 0xE1, CHR 0xBB, CHR 0xB9] @ '' t'' @ [CHR 0xC3, CHR 0xB2] @ ''a nh'' @ [CHR 0xC3, CHR 0xA0] @ ''.''),
     (''building.bill_issued'',
      ''C'' @ [CHR 0xC3, CHR 0xB3] @ '' h'' @ [CHR 0xC3, CHR 0xB3] @ ''a '' @ [CHR 0xC4, CHR 0x91, CHR 0xC6, CHR 0xA1] @
      ''n m'' @ [CHR 0xE1, CHR 0xBB, CHR 0x9B] @ ''i t'' @ [CHR 0xE1, CHR 0xBB, CHR 0xAB] @ '' ban qu'' @
      [CHR 0xE1, CHR 0xBA, CHR 0xA3] @ ''n l'' @ [CHR 0xC3, CHR 0xBD],
      ''M'' @ [CHR 0xE1, CHR 0xBB, CHR 0x9F] @ '' '' @ [CHR 0xE1, CHR 0xBB, CHR 0xA9] @ ''ng d'' @
      [CHR 0xE1, CHR 0xBB, CHR 0xA5] @ ''ng '' @ [CHR 0xC4, CHR 0x91, CHR 0xE1, CHR 0xBB, CHR 0x83] @ '' xem chi ti'' @
      [CHR 0xE1, CHR 0xBA, CHR 0xBF] @ ''t.'')]"

definition DEFAULT_COPY :: "string \<times> string" where
  "DEFAULT_COPY =
    (''Th'' @ [CHR 0xC3, CHR 0xB4] @ ''ng b'' @ [CHR 0xC3, CHR 0xA1] @ ''o m'' @ [CHR 0xE1, CHR 0xBB, CHR 0x9B] @
     ''i'',
     ''B'' @ [CHR 0xE1, CHR 0xBA, CHR 0xA1] @ ''n c'' @ [CHR 0xC3, CHR 0xB3] @ '' m'' @
     [CHR 0xE1, CHR 0xBB, CHR 0x99] @ ''t th'' @ [CHR 0xC3, CHR 0xB4] @ ''ng b'' @ [CHR 0xC3, CHR 0xA1] @ ''o m'' @
     [CHR 0xE1, CHR 0xBB, CHR 0x9B] @ ''i.'')"

definition ANNOUNCEMENT_COPY :: "(string \<times> string \<times> string) list" where
  "ANNOUNCEMENT_COPY =
    [(''published'',
      ''Th'' @ [CHR 0xC3, CHR 0xB4] @ ''ng b'' @ [CHR 0xC3, CHR 0xA1] @ ''o m'' @ [CHR 0xE1, CHR 0xBB, CHR 0x9B] @
      ''i t'' @ [CHR 0xE1, CHR 0xBB, CHR 0xAB] @ '' ban qu'' @ [CHR 0xE1, CHR 0xBA, CHR 0xA3] @ ''n l'' @
      [CHR 0xC3, CHR 0xBD],
      ''M'' @ [CHR 0xE1, CHR 0xBB, CHR 0x9F] @ '' '' @ [CHR 0xE1, CHR 0xBB, CHR 0xA9] @ ''ng d'' @
      [CHR 0xE1, CHR 0xBB, CHR 0xA5] @ ''ng '' @ [CHR 0xC4, CHR 0x91, CHR 0xE1, CHR 0xBB, CHR 0x83] @ '' xem n'' @
      [CHR 0xE1, CHR 0xBB, CHR 0x99] @ ''i dung.''),
     (''updated'',
      ''Th'' @ [CHR 0xC3, CHR 0xB4] @ ''ng b'' @ [CHR 0xC3, CHR 0xA1] @ ''o c'' @ [CHR 0xE1, CHR 0xBB, CHR 0xA7] @
      ''a ban qu'' @ [CHR 0xE1, CHR 0xBA, CHR 0xA3] @ ''n l'' @ [CHR 0xC3, CHR 0xBD] @ '' '' @
      [CHR 0xC4, CHR 0x91, CHR 0xC3, CHR 0xA3] @ '' '' @
      [CHR 0xC4, CHR 0x91, CHR 0xC6, CHR 0xB0, CHR 0xE1, CHR 0xBB, CHR 0xA3] @ ''c c'' @
      [CHR 0xE1, CHR 0xBA, CHR 0xAD] @ ''p nh'' @ [CHR 0xE1, CHR 0xBA, CHR 0xAD] @ ''t'',
      ''M'' @ [CHR 0xE1, CHR 0xBB, CHR 0x9F] @ '' '' @ [CHR 0xE1, CHR 0xBB, CHR 0xA9] @ ''ng d'' @
      [CHR 0xE1, CHR 0xBB, CHR 0xA5] @ ''ng '' @ [CHR 0xC4, CHR 0x91, CHR 0xE1, CHR 0xBB, CHR 0x83] @ '' xem n'' @
      [CHR 0xE1, CHR 0xBB, CHR 0x99] @ ''i dung m'' @ [CHR 0xE1, CHR 0xBB, CHR 0x9B] @ ''i.''),
     (''withdrawn'',
      ''Th'' @ [CHR 0xC3, CHR 0xB4] @ ''ng b'' @ [CHR 0xC3, CHR 0xA1] @ ''o c'' @ [CHR 0xE1, CHR 0xBB, CHR 0xA7] @
      ''a ban qu'' @ [CHR 0xE1, CHR 0xBA, CHR 0xA3] @ ''n l'' @ [CHR 0xC3, CHR 0xBD] @ '' '' @
      [CHR 0xC4, CHR 0x91, CHR 0xC3, CHR 0xA3] @ '' '' @
      [CHR 0xC4, CHR 0x91, CHR 0xC6, CHR 0xB0, CHR 0xE1, CHR 0xBB, CHR 0xA3] @ ''c thu h'' @
      [CHR 0xE1, CHR 0xBB, CHR 0x93] @ ''i'',
      ''M'' @ [CHR 0xE1, CHR 0xBB, CHR 0x9F] @ '' '' @ [CHR 0xE1, CHR 0xBB, CHR 0xA9] @ ''ng d'' @
      [CHR 0xE1, CHR 0xBB, CHR 0xA5] @ ''ng '' @ [CHR 0xC4, CHR 0x91, CHR 0xE1, CHR 0xBB, CHR 0x83] @ '' ki'' @
      [CHR 0xE1, CHR 0xBB, CHR 0x83] @ ''m tra.'')]"

definition DEEP_LINK_TYPES :: "(string \<times> string) list" where
  "DEEP_LINK_TYPES = [(''report'', ''report''), (''case'', ''case''), (''entry'', ''ledger''), (''bill'', ''bill'')]"

record push_message =
  pm_title :: string
  pm_body :: string
  pm_type :: string
  pm_id :: string
  pm_delivery_id :: string

definition copy_of :: "string \<Rightarrow> string \<Rightarrow> string \<times> string" where
  "copy_of event_code event_key =
     (if event_code = ''building.announcement''
      then (case map_of ANNOUNCEMENT_COPY (last (py_split (CHR '':'') event_key)) of
              None \<Rightarrow> DEFAULT_COPY | Some c \<Rightarrow> c)
      else (case map_of PUSH_COPY event_code of None \<Rightarrow> DEFAULT_COPY | Some c \<Rightarrow> c))"

definition build_push_payload :: "pk \<Rightarrow> string \<Rightarrow> string \<Rightarrow> push_message" where
  "build_push_payload delivery event_code event_key =
     (let code = (if event_code \<noteq> [] then event_code else event_code_from_key event_key);
          (title, body) = copy_of code event_key;
          (link_type, entity_id) =
            (case parse_reference event_key of
               None \<Rightarrow> (''notifications'', [])
             | Some (entity, i) \<Rightarrow>
                 ((case map_of DEEP_LINK_TYPES entity of None \<Rightarrow> ''notifications'' | Some t \<Rightarrow> t), i)) in
      \<lparr> pm_title = title, pm_body = body, pm_type = link_type, pm_id = entity_id,
        pm_delivery_id = nat_str delivery \<rparr>)"

section \<open>Errors of the provider\<close>

datatype push_error =
    UnregisteredError string
  | SenderIdMismatchError string
  | InvalidArgumentError string
  | OtherPushError string

fun push_error_text :: "push_error \<Rightarrow> string" where
  "push_error_text (UnregisteredError s) = s"
| "push_error_text (SenderIdMismatchError s) = s"
| "push_error_text (InvalidArgumentError s) = s"
| "push_error_text (OtherPushError s) = s"

definition INVALID_TOKEN_NEEDLES :: "string list" where
  "INVALID_TOKEN_NEEDLES =
     [''registration token'', ''not a valid fcm'', ''invalid registration'', ''requested entity was not found'']"

fun is_terminal :: "push_error \<Rightarrow> bool" where  \<comment> \<open>\<open>classify_push_error(exc) == "terminal"\<close>\<close>
  "is_terminal (UnregisteredError s) = True"
| "is_terminal (SenderIdMismatchError s) = True"
| "is_terminal (InvalidArgumentError s) = list_ex (\<lambda>n. contains n (py_lower s)) INVALID_TOKEN_NEEDLES"
| "is_terminal (OtherPushError s) = False"

text \<open>The texts a push message can carry.\<close>

definition push_copies :: "(string \<times> string) list" where
  "push_copies = DEFAULT_COPY # map snd PUSH_COPY @ map snd ANNOUNCEMENT_COPY"

lemma copy_of_fixed: "copy_of c key \<in> set push_copies"
  by (auto simp: copy_of_def push_copies_def dest!: map_of_SomeD split: option.splits intro: rev_image_eqI)

lemma payload_fixed:
  "(pm_title (build_push_payload k c key), pm_body (build_push_payload k c key)) \<in> set push_copies"
  "pm_type (build_push_payload k c key) \<in> {''notifications'', ''report'', ''case'', ''ledger'', ''bill''}"
proof -
  show "(pm_title (build_push_payload k c key), pm_body (build_push_payload k c key)) \<in> set push_copies"
    by (simp add: build_push_payload_def Let_def split_beta copy_of_fixed)
  show "pm_type (build_push_payload k c key) \<in> {''notifications'', ''report'', ''case'', ''ledger'', ''bill''}"
    by (auto simp: build_push_payload_def Let_def split_beta DEEP_LINK_TYPES_def split: option.splits if_splits)
qed

end
