(* ===== verification/Notifications.thy ===== *)
theory Notifications
  imports Push
begin

text \<open>
  The notification queue (\<open>notifications/services.py\<close>) and the registry of push devices
  (\<open>notifications/devices.py\<close>), on the rows of \<open>notifications/models.py\<close>.

  The mail and push providers are parameters: what they answer to one send.  Two fields of the state record the
  effects outside the database: the mails and the pushes the providers accepted, in order.
\<close>

section \<open>Rows and state\<close>

datatype announcement_state = Published | Withdrawn

record announcement_row =
  an_building :: pk
  an_title :: string
  an_body :: string
  an_revision :: nat
  an_state :: announcement_state
  an_created_by :: pk
  an_updated_by :: pk
  an_created_at :: time
  an_updated_at :: time
  an_withdrawn_at :: "time option"

record preference_row =
  np_user :: pk
  np_event_code :: string
  np_email_enabled :: bool
  np_push_enabled :: bool

datatype channel = InApp | Email | PushChannel

datatype delivery_status = NPending | NAvailable | NSent | NFailed | NDead

record delivery_row =
  nd_recipient :: pk
  nd_building :: "pk option"
  nd_event_key :: string
  nd_event_code :: string
  nd_subject :: string
  nd_body :: string
  nd_channel :: channel
  nd_status :: delivery_status
  nd_attempts :: nat
  nd_next_retry_at :: "time option"
  nd_last_error :: string
  nd_push_sent_device_ids :: "pk list"
  nd_read_at :: "time option"
  nd_created_at :: time
  nd_updated_at :: time

record device_row =
  dev_user :: pk
  dev_install_id :: string
  dev_fcm_token :: string
  dev_platform :: string
  dev_app_version :: string
  dev_active :: bool
  dev_last_seen_at :: time

record notifications_db = domain_db +
  announcements :: "announcement_row table"
  preferences :: "preference_row table"
  deliveries :: "delivery_row table"
  devices :: "device_row table"
  mails :: "(pk \<times> string option) list"
  pushes :: "(pk \<times> pk) list"

type_synonym 'z ndb = "'z notifications_db_scheme"

text \<open>
  Settings and providers.  \<open>send_mail\<close> is given the delivery, the attempt, the subject, the body and the address
  and answers with the text of the exception it raises, if any; \<open>send_push\<close> is given the token, the message and
  the collapse key.  \<open>local_day\<close> is the calendar day of an instant in the site's time zone.
\<close>

record notify_env =
  PUSH_ENABLED :: bool
  PUSH_DAILY_CAP_PER_CATEGORY :: int
  local_day :: "time \<Rightarrow> int"
  send_mail :: "pk \<Rightarrow> nat \<Rightarrow> string \<Rightarrow> string \<Rightarrow> string option \<Rightarrow> string option"
  send_push :: "string \<Rightarrow> push_message \<Rightarrow> string option \<Rightarrow> push_error option"

section \<open>Event codes\<close>

definition EVENT_PUBLICATION :: string where "EVENT_PUBLICATION = ''ledger.publication''"
definition EVENT_ANNOUNCEMENT :: string where "EVENT_ANNOUNCEMENT = ''building.announcement''"
definition EVENT_BILL_ISSUED :: string where "EVENT_BILL_ISSUED = ''building.bill_issued''"

definition RESIDENT_PUSH_EVENT_CODES :: "string list" where
  "RESIDENT_PUSH_EVENT_CODES =
     [''report.receipt'', ''triage.status'', ''work.completed'', EVENT_PUBLICATION, EVENT_ANNOUNCEMENT, EVENT_BILL_ISSUED]"

definition DEFAULT_CHANNELS :: "channel list" where
  "DEFAULT_CHANNELS = [InApp, Email, PushChannel]"

definition MAX_EMAIL_ATTEMPTS :: nat where "MAX_EMAIL_ATTEMPTS = 8"
definition MAX_PUSH_ATTEMPTS :: nat where "MAX_PUSH_ATTEMPTS = 5"
definition BASE_BACKOFF_SECONDS :: int where "BASE_BACKOFF_SECONDS = 30"

definition PUSH_SUPPRESSED_PREFIX :: string where "PUSH_SUPPRESSED_PREFIX = ''suppressed:''"

definition AGGREGATED_PUSH_CODES :: "string list" where
  "AGGREGATED_PUSH_CODES = [EVENT_PUBLICATION]"

section \<open>Queueing\<close>

definition preference_of :: "'z ndb \<Rightarrow> pk \<Rightarrow> string \<Rightarrow> (pk \<times> preference_row) option" where
  "preference_of db user c = t_first (\<lambda>_ p. np_user p = user \<and> np_event_code p = c) (preferences db)"

definition email_enabled_for :: "'z ndb \<Rightarrow> pk \<Rightarrow> string \<Rightarrow> bool" where
  "email_enabled_for db user c =
     (case preference_of db user c of None \<Rightarrow> True | Some (_, p) \<Rightarrow> np_email_enabled p)"

definition push_enabled_for :: "'z ndb \<Rightarrow> pk \<Rightarrow> string \<Rightarrow> bool" where
  "push_enabled_for db user c =
     (case preference_of db user c of None \<Rightarrow> True | Some (_, p) \<Rightarrow> np_push_enabled p)"

definition event_code_of :: "string \<Rightarrow> string \<Rightarrow> string" where
  "event_code_of event_code event_key = (if event_code \<noteq> [] then event_code else event_code_from_key event_key)"

definition channel_admitted :: "notify_env \<Rightarrow> 'z ndb \<Rightarrow> pk \<Rightarrow> string \<Rightarrow> channel \<Rightarrow> bool" where
  "channel_admitted ne db recipient c ch =
     (case ch of
        InApp \<Rightarrow> True
      | Email \<Rightarrow> email_enabled_for db recipient c
      | PushChannel \<Rightarrow> PUSH_ENABLED ne \<and> c \<in> set RESIDENT_PUSH_EVENT_CODES \<and> push_enabled_for db recipient c
          \<and> t_exists (\<lambda>_ d. dev_user d = recipient \<and> dev_active d) (devices db))"

definition delivery_key :: "delivery_row \<Rightarrow> pk \<times> string \<times> channel" where
  "delivery_key r = (nd_recipient r, nd_event_key r, nd_channel r)"

definition new_delivery ::
  "env \<Rightarrow> pk \<Rightarrow> string \<Rightarrow> string \<Rightarrow> string \<Rightarrow> channel \<Rightarrow> string \<Rightarrow> pk option \<Rightarrow> delivery_row" where
  "new_delivery env recipient event_key subject body ch event_code building =
     \<lparr> nd_recipient = recipient, nd_building = building, nd_event_key = event_key,
       nd_event_code = event_code_of event_code event_key, nd_subject = subject, nd_body = body, nd_channel = ch,
       nd_status = NPending, nd_attempts = 0, nd_next_retry_at = None, nd_last_error = [],
       nd_push_sent_device_ids = [], nd_read_at = None, nd_created_at = now env, nd_updated_at = now env \<rparr>"

text \<open>\<open>get_or_create\<close>; the lengths are those of the columns.\<close>

definition get_or_create_delivery :: "delivery_row \<Rightarrow> 'z ndb \<Rightarrow> (pk \<times> 'z ndb) result" where
  "get_or_create_delivery r db =
     (case t_first (\<lambda>_ d. delivery_key d = delivery_key r) (deliveries db) of
        Some (k, _) \<Rightarrow> Inr (k, db)
      | None \<Rightarrow>
          if py_len (nd_event_key r) > 255 \<or> py_len (nd_event_code r) > 64 \<or> py_len (nd_subject r) > 255
          then Inl DataError
          else Inr (next_pk (deliveries db), db \<lparr> deliveries := t_insert r (deliveries db) \<rparr>))"

text \<open>
  Outside a transaction the rows of the channels before a failing one stay, so the result carries the state beside
  the exception.
\<close>

fun queue_channels ::
  "env \<Rightarrow> notify_env \<Rightarrow> 'z ndb \<Rightarrow> pk \<Rightarrow> string \<Rightarrow> string \<Rightarrow> string \<Rightarrow> channel list \<Rightarrow> string \<Rightarrow> pk option \<Rightarrow>
     'z ndb \<times> pk list result" where
  "queue_channels env ne db recipient event_key subject body [] event_code building = (db, Inr [])"
| "queue_channels env ne db recipient event_key subject body (ch # channels) event_code building =
     (if \<not> channel_admitted ne db recipient (event_code_of event_code event_key) ch
      then queue_channels env ne db recipient event_key subject body channels event_code building
      else (case get_or_create_delivery
              (new_delivery env recipient event_key subject body ch event_code building) db of
              Inl e \<Rightarrow> (db, Inl e)
            | Inr (k, db1) \<Rightarrow>
                (case queue_channels env ne db1 recipient event_key subject body channels event_code building of
                   (db2, Inl e) \<Rightarrow> (db2, Inl e)
                 | (db2, Inr ks) \<Rightarrow> (db2, Inr (k # ks)))))"

definition queue_notification ::
  "env \<Rightarrow> notify_env \<Rightarrow> 'z ndb \<Rightarrow> pk \<Rightarrow> string \<Rightarrow> string \<Rightarrow> string \<Rightarrow> channel list option \<Rightarrow> string \<Rightarrow> pk option \<Rightarrow>
     'z ndb \<times> pk list result" where
  "queue_notification env ne db recipient event_key subject body channels event_code building =
     queue_channels env ne db recipient event_key subject body
       (case channels of None \<Rightarrow> DEFAULT_CHANNELS | Some cs \<Rightarrow> cs) event_code building"

text \<open>The body of \<open>queue_notification_after_commit\<close>, run once the transaction has committed.\<close>

definition enqueue_after_commit ::
  "env \<Rightarrow> notify_env \<Rightarrow> 'z ndb \<Rightarrow> pk \<Rightarrow> string \<Rightarrow> string \<Rightarrow> string \<Rightarrow> channel list option \<Rightarrow> string \<Rightarrow> pk option \<Rightarrow> 'z ndb" where
  "enqueue_after_commit env ne db recipient event_key subject body channels event_code building =
     (case t_get (users db) recipient of
        None \<Rightarrow> db
      | Some _ \<Rightarrow> fst (queue_notification env ne db recipient event_key subject body channels event_code building))"

fun notify_unseen ::
  "env \<Rightarrow> notify_env \<Rightarrow> pk option list \<Rightarrow> pk list \<Rightarrow> string \<Rightarrow> string \<Rightarrow> string \<Rightarrow> string \<Rightarrow> pk option \<Rightarrow> 'z ndb \<Rightarrow> 'z ndb" where
  "notify_unseen env ne [] seen event_key subject body event_code building db = db"
| "notify_unseen env ne (u # us) seen event_key subject body event_code building db =
     (case u of
        None \<Rightarrow> notify_unseen env ne us seen event_key subject body event_code building db
      | Some uid \<Rightarrow>
          if uid \<in> set seen then notify_unseen env ne us seen event_key subject body event_code building db
          else notify_unseen env ne us (uid # seen) event_key subject body event_code building
                 (enqueue_after_commit env ne db uid event_key subject body None event_code building))"

definition notify_users ::
  "env \<Rightarrow> notify_env \<Rightarrow> 'z ndb \<Rightarrow> pk option list \<Rightarrow> string \<Rightarrow> string \<Rightarrow> string \<Rightarrow> string \<Rightarrow> pk option \<Rightarrow> 'z ndb" where
  "notify_users env ne db us event_key subject body event_code building =
     notify_unseen env ne us [] event_key subject body event_code building db"

section \<open>The feed\<close>

definition resident_feed :: "'z ndb \<Rightarrow> pk \<Rightarrow> pk \<Rightarrow> (pk \<times> delivery_row) list" where
  "resident_feed db user building =
     rev (sort_key (\<lambda>(_, r). nd_created_at r)
       (t_filter (\<lambda>_ r. nd_recipient r = user \<and> nd_channel r = InApp \<and> nd_status r = NAvailable
          \<and> (nd_building r = Some building \<or> nd_building r = None)) (deliveries db)))"

definition mark_notification_read :: "env \<Rightarrow> 'z ndb \<Rightarrow> pk \<Rightarrow> pk \<Rightarrow> 'z ndb \<times> nat" where
  "mark_notification_read env db user delivery_id =
     (let P = (\<lambda>k r. k = delivery_id \<and> nd_recipient r = user \<and> nd_channel r = InApp \<and> nd_read_at r = None) in
      (db \<lparr> deliveries := t_update_all P (\<lambda>r. r \<lparr> nd_read_at := Some (now env) \<rparr>) (deliveries db) \<rparr>,
       length (t_filter P (deliveries db))))"

section \<open>Delivery\<close>

definition claimable_delivery :: "time \<Rightarrow> delivery_row \<Rightarrow> bool" where
  "claimable_delivery t r \<longleftrightarrow> nd_status r = NPending
     \<or> nd_status r = NFailed \<and> (case nd_next_retry_at r of None \<Rightarrow> False | Some at \<Rightarrow> at \<le> t)"

definition claim_pending_deliveries :: "env \<Rightarrow> nat \<Rightarrow> 'z ndb \<Rightarrow> pk list" where
  "claim_pending_deliveries env limit db =
     map fst (take limit (sort_key (\<lambda>(_, r). nd_created_at r)
       (t_filter (\<lambda>_ r. claimable_delivery (now env) r) (deliveries db))))"

definition backoff :: "nat \<Rightarrow> int" where
  "backoff attempts = seconds (BASE_BACKOFF_SECONDS * 2 ^ min (attempts - 1) 6)"

definition recipient_can_receive_push :: "'z ndb \<Rightarrow> delivery_row \<Rightarrow> bool" where
  "recipient_can_receive_push db r =
     (case t_get (users db) (nd_recipient r) of
        None \<Rightarrow> False
      | Some u \<Rightarrow> u_is_active u \<and>
          (case nd_building r of None \<Rightarrow> True | Some b \<Rightarrow> active_occupancy_in db (nd_recipient r) b \<noteq> None))"

definition collapse_key :: "delivery_row \<Rightarrow> string option" where
  "collapse_key r =
     (case nd_building r of
        Some b \<Rightarrow> if event_code_of (nd_event_code r) (nd_event_key r) = EVENT_PUBLICATION
                  then Some (''pub:'' @ nat_str b) else None
      | None \<Rightarrow> None)"

definition daily_push_cap_reached :: "env \<Rightarrow> notify_env \<Rightarrow> 'z ndb \<Rightarrow> delivery_row \<Rightarrow> bool" where
  "daily_push_cap_reached env ne db r =
     (let c = event_code_of (nd_event_code r) (nd_event_key r) in
      c \<in> set AGGREGATED_PUSH_CODES \<and>
      int (length (t_filter (\<lambda>_ d. nd_recipient d = nd_recipient r \<and> nd_channel d = PushChannel
             \<and> nd_event_code d = c \<and> nd_status d = NSent \<and> nd_last_error d = []
             \<and> local_day ne (nd_updated_at d) = local_day ne (now env)) (deliveries db)))
        \<ge> PUSH_DAILY_CAP_PER_CATEGORY ne)"

text \<open>The loop over the devices: what it has sent so far, whether anything was accepted or failed for now.\<close>

record push_progress =
  already_sent :: "pk list"
  any_success :: bool
  any_transient :: bool
  last_push_error :: string

fun push_devices ::
  "(string \<Rightarrow> push_error option) \<Rightarrow> pk \<Rightarrow> (pk \<times> device_row) list \<Rightarrow> push_progress \<Rightarrow> 'z ndb \<Rightarrow> push_progress \<times> 'z ndb" where
  "push_devices send delivery [] p db = (p, db)"
| "push_devices send delivery ((d, dev) # rest) p db =
     (if d \<in> set (already_sent p) then push_devices send delivery rest p db
      else (case send (dev_fcm_token dev) of
              None \<Rightarrow> push_devices send delivery rest
                (p \<lparr> already_sent := already_sent p @ [d], any_success := True \<rparr>)
                (db \<lparr> pushes := pushes db @ [(delivery, d)] \<rparr>)
            | Some e \<Rightarrow>
                if is_terminal e
                then push_devices send delivery rest p
                  (db \<lparr> devices := t_update d (\<lambda>x. x \<lparr> dev_active := False \<rparr>) (devices db) \<rparr>)
                else push_devices send delivery rest
                  (p \<lparr> any_transient := True, last_push_error := py_take 2000 (push_error_text e) \<rparr>) db))"

definition suppress_push :: "env \<Rightarrow> string \<Rightarrow> delivery_row \<Rightarrow> delivery_row" where
  "suppress_push env why r =
     r \<lparr> nd_status := NSent, nd_last_error := PUSH_SUPPRESSED_PREFIX @ why, nd_updated_at := now env \<rparr>"

definition push_outcome :: "env \<Rightarrow> push_progress \<Rightarrow> delivery_row \<Rightarrow> delivery_row" where
  "push_outcome env p r =
     (let r1 = r \<lparr> nd_attempts := nd_attempts r + 1, nd_push_sent_device_ids := already_sent p, nd_updated_at := now env \<rparr> in
      if any_transient p
      then (if nd_attempts r1 \<ge> MAX_PUSH_ATTEMPTS
            then r1 \<lparr> nd_last_error := last_push_error p, nd_status := NFailed, nd_next_retry_at := None \<rparr>
            else r1 \<lparr> nd_last_error := last_push_error p, nd_status := NFailed,
                      nd_next_retry_at := Some (now env + backoff (nd_attempts r1)) \<rparr>)
      else if any_success p
      then r1 \<lparr> nd_status := NSent, nd_last_error := [], nd_next_retry_at := None \<rparr>
      else r1 \<lparr> nd_status := NSent, nd_last_error := PUSH_SUPPRESSED_PREFIX @ ''all_tokens_terminal'',
                nd_next_retry_at := None \<rparr>)"

definition put_delivery :: "pk \<Rightarrow> delivery_row \<Rightarrow> 'z ndb \<Rightarrow> 'z ndb" where
  "put_delivery k r db = db \<lparr> deliveries := t_update k (\<lambda>_. r) (deliveries db) \<rparr>"

definition process_push_delivery :: "env \<Rightarrow> notify_env \<Rightarrow> 'z ndb \<Rightarrow> pk \<Rightarrow> delivery_row \<Rightarrow> 'z ndb" where
  "process_push_delivery env ne db k r =
     (if \<not> recipient_can_receive_push db r then put_delivery k (suppress_push env ''recipient_ineligible'' r) db
      else let devs = t_filter (\<lambda>_ d. dev_user d = nd_recipient r \<and> dev_active d) (devices db) in
        if devs = [] then put_delivery k (suppress_push env ''no_active_devices'' r) db
        else if daily_push_cap_reached env ne db r then put_delivery k (suppress_push env ''daily_cap'' r) db
        else let message = build_push_payload k (nd_event_code r) (nd_event_key r);
                 sent = nd_push_sent_device_ids r;
                 (p, db1) = push_devices (\<lambda>token. send_push ne token message (collapse_key r)) k devs
                   \<lparr> already_sent = sent, any_success = (sent \<noteq> []), any_transient = False, last_push_error = [] \<rparr> db in
             put_delivery k (push_outcome env p r) db1)"

definition process_email_delivery :: "env \<Rightarrow> notify_env \<Rightarrow> 'z ndb \<Rightarrow> pk \<Rightarrow> delivery_row \<Rightarrow> 'z ndb" where
  "process_email_delivery env ne db k r =
     (let r1 = r \<lparr> nd_attempts := nd_attempts r + 1, nd_updated_at := now env \<rparr>;
          address = (case t_get (users db) (nd_recipient r) of None \<Rightarrow> None | Some u \<Rightarrow> u_email u) in
      case send_mail ne k (nd_attempts r1) (nd_subject r) (nd_body r) address of
        Some err \<Rightarrow>
          (if nd_attempts r1 \<ge> MAX_EMAIL_ATTEMPTS
           then put_delivery k (r1 \<lparr> nd_last_error := py_take 2000 err, nd_status := NDead, nd_next_retry_at := None \<rparr>) db
           else put_delivery k (r1 \<lparr> nd_last_error := py_take 2000 err, nd_status := NFailed,
                  nd_next_retry_at := Some (now env + backoff (nd_attempts r1)) \<rparr>) db)
      | None \<Rightarrow>
          put_delivery k (r1 \<lparr> nd_status := NSent, nd_last_error := [], nd_next_retry_at := None \<rparr>)
            (db \<lparr> mails := mails db @ [(k, address)] \<rparr>))"

definition process_delivery :: "env \<Rightarrow> notify_env \<Rightarrow> 'z ndb \<Rightarrow> pk \<Rightarrow> 'z ndb" where
  "process_delivery env ne db k =
     (case t_get (deliveries db) k of
        None \<Rightarrow> db
      | Some r \<Rightarrow>
          if nd_status r \<in> {NSent, NAvailable, NDead} then db
          else (case nd_channel r of
                  InApp \<Rightarrow> put_delivery k (r \<lparr> nd_status := NAvailable, nd_attempts := nd_attempts r + 1,
                             nd_last_error := [], nd_updated_at := now env \<rparr>) db
                | PushChannel \<Rightarrow> process_push_delivery env ne db k r
                | Email \<Rightarrow> process_email_delivery env ne db k r))"

definition process_due_notifications :: "env \<Rightarrow> notify_env \<Rightarrow> nat \<Rightarrow> 'z ndb \<Rightarrow> 'z ndb \<times> pk list" where
  "process_due_notifications env ne limit db =
     (let claimed = claim_pending_deliveries env limit db in
      (fold (\<lambda>k db. process_delivery env ne db k) claimed db, claimed))"

section \<open>Devices\<close>

definition deactivate_other_holders :: "pk \<Rightarrow> string \<Rightarrow> string \<Rightarrow> 'z ndb \<Rightarrow> 'z ndb" where
  "deactivate_other_holders user install_id fcm_token db =
     db \<lparr> devices := t_update_all
       (\<lambda>_ d. dev_fcm_token d = fcm_token \<and> dev_active d \<and> \<not> (dev_user d = user \<and> dev_install_id d = install_id))
       (\<lambda>d. d \<lparr> dev_active := False \<rparr>) (devices db) \<rparr>"

text \<open>\<open>update_or_create\<close> under the constraint that an active token belongs to one device.\<close>

definition upsert_device ::
  "env \<Rightarrow> pk \<Rightarrow> string \<Rightarrow> string \<Rightarrow> string \<Rightarrow> string \<Rightarrow> 'z ndb \<Rightarrow> (pk \<times> 'z ndb) result" where
  "upsert_device env user install_id fcm_token platform app_version db =
     (let row = \<lparr> dev_user = user, dev_install_id = install_id, dev_fcm_token = fcm_token, dev_platform = platform,
                  dev_app_version = app_version, dev_active = True, dev_last_seen_at = now env \<rparr>;
          own = t_first (\<lambda>_ d. dev_user d = user \<and> dev_install_id d = install_id) (devices db) in
      if t_exists (\<lambda>k d. dev_fcm_token d = fcm_token \<and> dev_active d \<and> Some k \<noteq> map_option fst own) (devices db)
      then Inl (IntegrityError ''device_active_fcm_token_once'')
      else (case own of
              None \<Rightarrow> Inr (next_pk (devices db), db \<lparr> devices := t_insert row (devices db) \<rparr>)
            | Some (k, _) \<Rightarrow> Inr (k, db \<lparr> devices := t_update k (\<lambda>_. row) (devices db) \<rparr>)))"

definition register_device ::
  "env \<Rightarrow> 'z ndb \<Rightarrow> pk \<Rightarrow> string \<Rightarrow> string \<Rightarrow> string \<Rightarrow> string \<Rightarrow> (pk \<times> 'z ndb) result" where
  "register_device env db user install_id fcm_token platform app_version =
     (let db1 = deactivate_other_holders user install_id fcm_token db in
      case upsert_device env user install_id fcm_token platform app_version db1 of
        Inl (IntegrityError _) \<Rightarrow>
          upsert_device env user install_id fcm_token platform app_version
            (deactivate_other_holders user install_id fcm_token db1)
      | r \<Rightarrow> r)"

definition deactivate_where :: "(device_row \<Rightarrow> bool) \<Rightarrow> 'z ndb \<Rightarrow> 'z ndb \<times> nat" where
  "deactivate_where P db =
     (db \<lparr> devices := t_update_all (\<lambda>_. P) (\<lambda>d. d \<lparr> dev_active := False \<rparr>) (devices db) \<rparr>,
      length (t_filter (\<lambda>_. P) (devices db)))"

definition deactivate_device :: "'z ndb \<Rightarrow> pk \<Rightarrow> string \<Rightarrow> 'z ndb \<times> nat" where
  "deactivate_device db user install_id =
     deactivate_where (\<lambda>d. dev_user d = user \<and> dev_install_id d = install_id \<and> dev_active d) db"

definition deactivate_user_devices :: "'z ndb \<Rightarrow> pk \<Rightarrow> 'z ndb \<times> nat" where
  "deactivate_user_devices db user = deactivate_where (\<lambda>d. dev_user d = user \<and> dev_active d) db"

definition deactivate_stale_devices :: "env \<Rightarrow> 'z ndb \<Rightarrow> int \<Rightarrow> 'z ndb \<times> nat" where
  "deactivate_stale_devices env db n =
     deactivate_where (\<lambda>d. dev_active d \<and> dev_last_seen_at d < now env - days n) db"

end
