(* ===== verification/Announcements.thy ===== *)
theory Announcements
  imports Notifications
begin

text \<open>
  Announcements of Management to the residents of a building (\<open>notifications/announcements.py\<close>): publication,
  editing and withdrawal under a revision counter, with the in-app notices that follow them.
\<close>

definition announcement_key :: "pk \<Rightarrow> string" where  \<comment> \<open>\<open>in_app_event_key\<close>\<close>
  "announcement_key a = EVENT_ANNOUNCEMENT @ '':announcement:'' @ nat_str a"

definition announcement_push_key :: "pk \<Rightarrow> nat \<Rightarrow> string \<Rightarrow> string" where  \<comment> \<open>\<open>push_event_key\<close>\<close>
  "announcement_push_key a revision action =
     EVENT_ANNOUNCEMENT @ '':announcement:'' @ nat_str a @ '':revision:'' @ nat_str revision @ '':'' @ action"

definition active_residents :: "'z ndb \<Rightarrow> pk \<Rightarrow> pk list" where
  "active_residents db building =
     map fst (t_filter (\<lambda>u row. u_is_active row \<and> active_occupancy_in db u building \<noteq> None) (users db))"

definition announcement_clean :: "announcement_row \<Rightarrow> bool" where  \<comment> \<open>\<open>full_clean\<close>\<close>
  "announcement_clean a \<longleftrightarrow> an_title a \<noteq> [] \<and> py_len (an_title a) \<le> 160 \<and> an_body a \<noteq> [] \<and> py_len (an_body a) \<le> 2000"

definition queue_announcement_push ::
  "env \<Rightarrow> notify_env \<Rightarrow> pk \<Rightarrow> announcement_row \<Rightarrow> string \<Rightarrow> pk \<Rightarrow> 'z ndb \<Rightarrow> 'z ndb result" where
  "queue_announcement_push env ne a row action recipient db =
     (case queue_notification env ne db recipient (announcement_push_key a (an_revision row) action) (an_title row)
        (an_body row) (Some [PushChannel]) EVENT_ANNOUNCEMENT (Some (an_building row)) of
        (db1, Inl e) \<Rightarrow> Inl e
      | (db1, Inr _) \<Rightarrow> Inr db1)"

definition queue_announcement ::
  "env \<Rightarrow> notify_env \<Rightarrow> pk \<Rightarrow> announcement_row \<Rightarrow> string \<Rightarrow> pk \<Rightarrow> 'z ndb \<Rightarrow> 'z ndb result" where
  "queue_announcement env ne a row action recipient db =
     (case queue_notification env ne db recipient (announcement_key a) (an_title row) (an_body row)
        (Some [InApp]) EVENT_ANNOUNCEMENT (Some (an_building row)) of
        (db1, Inl e) \<Rightarrow> Inl e
      | (db1, Inr _) \<Rightarrow> queue_announcement_push env ne a row action recipient db1)"

fun each_recipient :: "(pk \<Rightarrow> 'z ndb \<Rightarrow> 'z ndb result) \<Rightarrow> pk list \<Rightarrow> 'z ndb \<Rightarrow> 'z ndb result" where
  "each_recipient f [] db = Inr db"
| "each_recipient f (u # us) db = (case f u db of Inl e \<Rightarrow> Inl e | Inr db1 \<Rightarrow> each_recipient f us db1)"

definition announcement_notice :: "pk \<Rightarrow> pk \<Rightarrow> delivery_row \<Rightarrow> bool" where
  "announcement_notice building a r \<longleftrightarrow>
     nd_building r = Some building \<and> nd_event_key r = announcement_key a \<and> nd_channel r = InApp"

definition audit_announcement ::
  "env \<Rightarrow> pk \<Rightarrow> pk \<Rightarrow> string \<Rightarrow> pk \<Rightarrow> announcement_row \<Rightarrow> 'z ndb \<Rightarrow> (pk \<times> 'z ndb) result" where
  "audit_announcement env actor membership action a row db =
     (case record_audit env db actor (Some membership) action ''Announcement'' (nat_str a) ''accepted''
        [(''announcement_id'', pint a), (''revision'', pint (an_revision row))] of
        Inl e \<Rightarrow> Inl e
      | Inr db1 \<Rightarrow> Inr (a, db1))"

definition new_announcement :: "env \<Rightarrow> pk \<Rightarrow> pk \<Rightarrow> string \<Rightarrow> string \<Rightarrow> announcement_row" where
  "new_announcement env actor building title body =
     \<lparr> an_building = building, an_title = title, an_body = body, an_revision = 1, an_state = Published,
       an_created_by = actor, an_updated_by = actor, an_created_at = now env, an_updated_at = now env,
       an_withdrawn_at = None \<rparr>"

definition edited :: "env \<Rightarrow> pk \<Rightarrow> string \<Rightarrow> string \<Rightarrow> announcement_row \<Rightarrow> announcement_row" where
  "edited env actor title body a =
     a \<lparr> an_title := title, an_body := body, an_revision := an_revision a + 1, an_updated_by := actor,
         an_updated_at := now env \<rparr>"

definition withdrawn :: "env \<Rightarrow> pk \<Rightarrow> announcement_row \<Rightarrow> announcement_row" where
  "withdrawn env actor a =
     a \<lparr> an_revision := an_revision a + 1, an_state := Withdrawn, an_withdrawn_at := Some (now env),
         an_updated_by := actor, an_updated_at := now env \<rparr>"

definition publish_announcement ::
  "env \<Rightarrow> notify_env \<Rightarrow> 'z ndb \<Rightarrow> pk \<Rightarrow> pk \<Rightarrow> string \<Rightarrow> string \<Rightarrow> (pk \<times> 'z ndb) result" where
  "publish_announcement env ne db actor building title body =
     (case require_management db actor building of
        Inl e \<Rightarrow> Inl e
      | Inr membership \<Rightarrow>
          (let row = new_announcement env actor building title body;
               a = next_pk (announcements db) in
           if \<not> announcement_clean row then Inl ValidationError
           else let db1 = db \<lparr> announcements := t_insert row (announcements db) \<rparr> in
             case each_recipient (queue_announcement env ne a row ''published'') (active_residents db1 building) db1 of
               Inl e \<Rightarrow> Inl e
             | Inr db2 \<Rightarrow>
                 audit_announcement env actor membership ''announcement.published'' a row
                   (db2 \<lparr> deliveries := t_update_all (\<lambda>_. announcement_notice building a)
                      (\<lambda>r. r \<lparr> nd_status := NAvailable \<rparr>) (deliveries db2) \<rparr>)))"

definition edit_announcement ::
  "env \<Rightarrow> notify_env \<Rightarrow> 'z ndb \<Rightarrow> pk \<Rightarrow> pk \<Rightarrow> nat \<Rightarrow> string \<Rightarrow> string \<Rightarrow> (pk \<times> 'z ndb) result" where
  "edit_announcement env ne db actor a expected_revision title body =
     (case t_get (announcements db) a of
        None \<Rightarrow> Inl DoesNotExist
      | Some old \<Rightarrow>
          (case require_management db actor (an_building old) of
             Inl e \<Rightarrow> Inl e
           | Inr membership \<Rightarrow>
               if an_state old \<noteq> Published \<or> an_revision old \<noteq> expected_revision then Inl AnnouncementConflict
               else let row = edited env actor title body old;
                        building = an_building old in
                 if \<not> announcement_clean row then Inl ValidationError
                 else let db1 = db \<lparr> announcements := t_update a (\<lambda>_. row) (announcements db) \<rparr> in
                   case each_recipient (queue_announcement env ne a row ''updated'') (active_residents db1 building) db1 of
                     Inl e \<Rightarrow> Inl e
                   | Inr db2 \<Rightarrow>
                       audit_announcement env actor membership ''announcement.updated'' a row
                         (db2 \<lparr> deliveries := t_update_all (\<lambda>_. announcement_notice building a)
                            (\<lambda>r. r \<lparr> nd_subject := title, nd_body := body, nd_read_at := None, nd_status := NAvailable \<rparr>)
                            (deliveries db2) \<rparr>)))"

definition withdraw_announcement ::
  "env \<Rightarrow> notify_env \<Rightarrow> 'z ndb \<Rightarrow> pk \<Rightarrow> pk \<Rightarrow> nat \<Rightarrow> (pk \<times> 'z ndb) result" where
  "withdraw_announcement env ne db actor a expected_revision =
     (case t_get (announcements db) a of
        None \<Rightarrow> Inl DoesNotExist
      | Some old \<Rightarrow>
          (case require_management db actor (an_building old) of
             Inl e \<Rightarrow> Inl e
           | Inr membership \<Rightarrow>
               if an_state old \<noteq> Published \<or> an_revision old \<noteq> expected_revision then Inl AnnouncementConflict
               else let row = withdrawn env actor old;
                        building = an_building old;
                        db1 = db \<lparr> announcements := t_update a (\<lambda>_. row) (announcements db),
                                   deliveries := t_delete (\<lambda>_. announcement_notice building a) (deliveries db) \<rparr> in
                 case each_recipient (queue_announcement_push env ne a row ''withdrawn'') (active_residents db1 building) db1 of
                   Inl e \<Rightarrow> Inl e
                 | Inr db2 \<Rightarrow> audit_announcement env actor membership ''announcement.withdrawn'' a row db2))"

section \<open>What a successful call did\<close>

lemma publish_announcementE:
  assumes "publish_announcement env ne db actor bl title body = Inr (a, db')"
  obtains m db2 where "require_management db actor bl = Inr m" "a = next_pk (announcements db)"
    "announcement_clean (new_announcement env actor bl title body)"
    "each_recipient (queue_announcement env ne a (new_announcement env actor bl title body) ''published'')
       (active_residents db bl)
       (db \<lparr> announcements := t_insert (new_announcement env actor bl title body) (announcements db) \<rparr>) = Inr db2"
    "audit_announcement env actor m ''announcement.published'' a (new_announcement env actor bl title body)
       (db2 \<lparr> deliveries := t_update_all (\<lambda>_. announcement_notice bl a) (\<lambda>r. r \<lparr> nd_status := NAvailable \<rparr>)
          (deliveries db2) \<rparr>) = Inr (a, db')"
proof -
  have "active_residents (db \<lparr> announcements := x \<rparr>) bl = active_residents db bl" for x
    by (simp add: active_residents_def active_occupancy_in_def)
  then show thesis using assms that
    by (simp add: publish_announcement_def Let_def audit_announcement_def split: sum.splits if_splits)
qed

lemma edit_announcementE:
  assumes "edit_announcement env ne db actor k n title body = Inr (a, db')"
  obtains old m db2 where "t_get (announcements db) k = Some old" "require_management db actor (an_building old) = Inr m"
    "a = k" "an_state old = Published" "an_revision old = n" "announcement_clean (edited env actor title body old)"
    "each_recipient (queue_announcement env ne k (edited env actor title body old) ''updated'')
       (active_residents db (an_building old))
       (db \<lparr> announcements := t_update k (\<lambda>_. edited env actor title body old) (announcements db) \<rparr>) = Inr db2"
    "audit_announcement env actor m ''announcement.updated'' k (edited env actor title body old)
       (db2 \<lparr> deliveries := t_update_all (\<lambda>_. announcement_notice (an_building old) k)
          (\<lambda>r. r \<lparr> nd_subject := title, nd_body := body, nd_read_at := None, nd_status := NAvailable \<rparr>)
          (deliveries db2) \<rparr>) = Inr (k, db')"
proof -
  have "active_residents (db \<lparr> announcements := x \<rparr>) bl = active_residents db bl" for x bl
    by (simp add: active_residents_def active_occupancy_in_def)
  then show thesis using assms that
    by (simp add: edit_announcement_def Let_def audit_announcement_def split: sum.splits if_splits option.splits)
qed

lemma withdraw_announcementE:
  assumes "withdraw_announcement env ne db actor k n = Inr (a, db')"
  obtains old m db2 where "t_get (announcements db) k = Some old" "require_management db actor (an_building old) = Inr m"
    "a = k" "an_state old = Published" "an_revision old = n"
    "each_recipient (queue_announcement_push env ne k (withdrawn env actor old) ''withdrawn'')
       (active_residents db (an_building old))
       (db \<lparr> announcements := t_update k (\<lambda>_. withdrawn env actor old) (announcements db),
             deliveries := t_delete (\<lambda>_. announcement_notice (an_building old) k) (deliveries db) \<rparr>) = Inr db2"
    "audit_announcement env actor m ''announcement.withdrawn'' k (withdrawn env actor old) db2 = Inr (k, db')"
proof -
  have "active_residents (db \<lparr> announcements := x, deliveries := y \<rparr>) bl = active_residents db bl" for x y bl
    by (simp add: active_residents_def active_occupancy_in_def)
  then show thesis using assms that
    by (simp add: withdraw_announcement_def Let_def audit_announcement_def split: sum.splits if_splits option.splits)
qed

end
