(* ===== verification/Billing.thy ===== *)
theory Billing
  imports Announcements
begin

text \<open>
  Bills of Management to a resident (\<open>billing/services.py\<close>, \<open>billing/models.py\<close>): issue, payment and voiding, with
  the in-app notice that follows a bill.
\<close>

datatype bill_status = Issued | Paid | Void

datatype payment_source = SelfAttestedDemo | BankWebhook | ManagementManual

record bill_row =
  bi_building :: pk
  bi_resident :: pk
  bi_title :: string
  bi_note :: string
  bi_period :: string
  bi_due_date :: "nat option"
  bi_amount_vnd :: int
  bi_document :: pk
  bi_reference :: string
  bi_status :: bill_status
  bi_payment_source :: "payment_source option"
  bi_issued_by :: pk
  bi_issued_at :: time
  bi_paid_at :: "time option"
  bi_paid_confirmed_by :: "pk option"
  bi_void_by :: "pk option"
  bi_void_at :: "time option"
  bi_void_reason :: string

record billing_db = notifications_db +
  bills :: "bill_row table"

type_synonym 'z bdb = "'z billing_db_scheme"

fun payment_source_str :: "payment_source \<Rightarrow> string" where
  "payment_source_str SelfAttestedDemo = ''SELF_ATTESTED_DEMO''"
| "payment_source_str BankWebhook = ''BANK_WEBHOOK''"
| "payment_source_str ManagementManual = ''MANAGEMENT_MANUAL''"

definition bill_key :: "pk \<Rightarrow> string" where  \<comment> \<open>\<open>in_app_event_key\<close>\<close>
  "bill_key b = EVENT_BILL_ISSUED @ '':bill:'' @ nat_str b"

definition bill_push_key :: "pk \<Rightarrow> string" where  \<comment> \<open>\<open>push_event_key\<close>\<close>
  "bill_push_key b = EVENT_BILL_ISSUED @ '':bill:'' @ nat_str b @ '':issued''"

text \<open>Decimal text with a comma between groups of three digits, \<open>f"{n:,}"\<close>.\<close>

fun group3 :: "string \<Rightarrow> string" where  \<comment> \<open>on the reversed digits\<close>
  "group3 (a # b # c # d # s) = a # b # c # CHR '','' # group3 (d # s)"
| "group3 s = s"

definition thousands :: "int \<Rightarrow> string" where
  "thousands n = (if n < 0 then ''-'' else []) @ rev (group3 (rev (nat_str (nat \<bar>n\<bar>))))"

definition bill_subject :: "string \<Rightarrow> int \<Rightarrow> string" where
  "bill_subject title amount =
     title @ '' '' @ [CHR 0xE2, CHR 0x80, CHR 0x94] @ '' '' @ thousands amount @ [CHR 0xC4, CHR 0x91]"

definition bill_notice :: "pk \<Rightarrow> delivery_row \<Rightarrow> bool" where
  "bill_notice b r \<longleftrightarrow> nd_event_key r = bill_key b \<and> nd_channel r = InApp"

text \<open>The columns of a bill: the lengths, the range of a positive big integer and the check constraint.\<close>

definition bill_insertable :: "bill_row \<Rightarrow> exn option" where
  "bill_insertable b =
     (if py_len (bi_title b) > 160 \<or> py_len (bi_period b) > 64 \<or> py_len (bi_reference b) > 64
         \<or> bi_amount_vnd b > 9223372036854775807 \<or> bi_amount_vnd b < - 9223372036854775808
      then Some DataError
      else if bi_amount_vnd b \<le> 0 then Some (IntegrityError ''bill_amount_positive'')
      else None)"

definition resident_bill_document :: "'z ddb \<Rightarrow> pk \<Rightarrow> pk \<Rightarrow> exn option" where
  "resident_bill_document db building version =
     (case t_get (document_versions db) version of
        None \<Rightarrow> Some DoesNotExist
      | Some v \<Rightarrow>
          (case t_get (documents db) (dv_document v) of
             None \<Rightarrow> Some DoesNotExist
           | Some d \<Rightarrow>
               if d_kind d \<noteq> ResidentBill then Some BillError
               else if d_building d \<noteq> building then Some BillError
               else None))"

definition queue_bill_notice ::
  "env \<Rightarrow> notify_env \<Rightarrow> pk \<Rightarrow> bill_row \<Rightarrow> 'z ndb \<Rightarrow> 'z ndb result" where
  "queue_bill_notice env ne b bill db =
     (case queue_notification env ne db (bi_resident bill) (bill_key b) (bill_subject (bi_title bill) (bi_amount_vnd bill))
        (bi_note bill) (Some [InApp]) EVENT_BILL_ISSUED (Some (bi_building bill)) of
        (db1, Inl e) \<Rightarrow> Inl e
      | (db1, Inr _) \<Rightarrow>
          (case queue_notification env ne db1 (bi_resident bill) (bill_push_key b)
             (bill_subject (bi_title bill) (bi_amount_vnd bill)) (bi_note bill) (Some [PushChannel])
             EVENT_BILL_ISSUED (Some (bi_building bill)) of
             (db2, Inl e) \<Rightarrow> Inl e
           | (db2, Inr _) \<Rightarrow>
               Inr (db2 \<lparr> deliveries := t_update_all (\<lambda>_. bill_notice b) (\<lambda>r. r \<lparr> nd_status := NAvailable \<rparr>)
                            (deliveries db2) \<rparr>)))"

definition new_bill ::
  "env \<Rightarrow> pk \<Rightarrow> pk \<Rightarrow> pk \<Rightarrow> string \<Rightarrow> int \<Rightarrow> pk \<Rightarrow> string \<Rightarrow> string \<Rightarrow> nat option \<Rightarrow> bill_row" where
  "new_bill env actor building resident title amount document note period due_date =
     \<lparr> bi_building = building, bi_resident = resident, bi_title = title, bi_note = note,
       bi_period = period, bi_due_date = due_date, bi_amount_vnd = amount, bi_document = document,
       bi_reference = token_urlsafe env, bi_status = Issued, bi_payment_source = None, bi_issued_by = actor,
       bi_issued_at = now env, bi_paid_at = None, bi_paid_confirmed_by = None, bi_void_by = None,
       bi_void_at = None, bi_void_reason = [] \<rparr>"

definition issue_bill ::
  "env \<Rightarrow> notify_env \<Rightarrow> 'z bdb \<Rightarrow> pk \<Rightarrow> pk \<Rightarrow> pk \<Rightarrow> string \<Rightarrow> int \<Rightarrow> pk \<Rightarrow> string \<Rightarrow> string \<Rightarrow> nat option \<Rightarrow> (pk \<times> 'z bdb) result" where
  "issue_bill env ne db actor building resident title amount document note period due_date =
     (case require_management db actor building of
        Inl e \<Rightarrow> Inl e
      | Inr membership \<Rightarrow>
          if t_get (users db) resident = None then Inl BillError
          else if active_occupancy_in db resident building = None then Inl BillError
          else (case resident_bill_document db building document of
            Some e \<Rightarrow> Inl e
          | None \<Rightarrow>
              (let bill = new_bill env actor building resident title amount document note period due_date;
                   b = next_pk (bills db) in
               case bill_insertable bill of
                 Some e \<Rightarrow> Inl e
               | None \<Rightarrow>
                   (case queue_bill_notice env ne b bill (db \<lparr> bills := t_insert bill (bills db) \<rparr>) of
                      Inl e \<Rightarrow> Inl e
                    | Inr db1 \<Rightarrow>
                        (case record_audit env db1 actor (Some membership) ''bill.issued'' ''Bill'' (nat_str b) ''accepted''
                           [(''bill_id'', pint b), (''amount_vnd'', PyInt amount)] of
                           Inl e \<Rightarrow> Inl e
                         | Inr db2 \<Rightarrow> Inr (b, db2))))))"

definition confirm_payment ::
  "env \<Rightarrow> 'z bdb \<Rightarrow> pk \<Rightarrow> payment_source \<Rightarrow> pk \<Rightarrow> string \<Rightarrow> (pk \<times> 'z bdb) result" where
  "confirm_payment env db b source actor reference =
     (case t_get (bills db) b of
        None \<Rightarrow> Inl DoesNotExist
      | Some locked \<Rightarrow>
          if bi_status locked = Void then Inl BillVoidedError
          else if reference \<noteq> bi_reference locked then Inl BillReferenceError
          else if source = SelfAttestedDemo \<and> actor \<noteq> bi_resident locked then Inl BillActorError
          else if bi_status locked = Paid then Inr (b, db)
          else (let db1 = db \<lparr> bills := t_update b (\<lambda>x. x \<lparr> bi_status := Paid, bi_payment_source := Some source,
                       bi_paid_at := Some (now env), bi_paid_confirmed_by := Some actor \<rparr>) (bills db) \<rparr> in
                case record_audit env db1 actor None ''bill.payment_recorded'' ''Bill'' (nat_str b) ''accepted''
                  [(''bill_id'', pint b), (''source'', PyStr (payment_source_str source))] of
                  Inl e \<Rightarrow> Inl e
                | Inr db2 \<Rightarrow> Inr (b, db2)))"

definition void_bill :: "env \<Rightarrow> 'z bdb \<Rightarrow> pk \<Rightarrow> pk \<Rightarrow> string option \<Rightarrow> (pk \<times> 'z bdb) result" where
  "void_bill env db actor b reason_arg =
     (let reason = py_strip (case reason_arg of None \<Rightarrow> [] | Some s \<Rightarrow> s) in
      if reason = [] then Inl BillError
      else (case t_get (bills db) b of
        None \<Rightarrow> Inl DoesNotExist
      | Some locked \<Rightarrow>
          (case require_management db actor (bi_building locked) of
             Inl e \<Rightarrow> Inl e
           | Inr membership \<Rightarrow>
               if bi_status locked \<noteq> Issued then Inl BillError
               else (let db1 = db \<lparr> bills := t_update b (\<lambda>x. x \<lparr> bi_status := Void, bi_void_by := Some actor,
                            bi_void_at := Some (now env), bi_void_reason := reason \<rparr>) (bills db),
                          deliveries := t_delete (\<lambda>_. bill_notice b) (deliveries db) \<rparr> in
                     case record_audit env db1 actor (Some membership) ''bill.voided'' ''Bill'' (nat_str b) ''accepted''
                       [(''bill_id'', pint b)] of
                       Inl e \<Rightarrow> Inl e
                     | Inr db2 \<Rightarrow> Inr (b, db2)))))"

section \<open>What a successful call did\<close>

lemma issue_billE:
  assumes "issue_bill env ne db actor bl res title amount doc note period due = Inr (b, db')"
  obtains m db1 where "require_management db actor bl = Inr m" "t_get (users db) res \<noteq> None"
    "active_occupancy_in db res bl \<noteq> None" "resident_bill_document db bl doc = None" "b = next_pk (bills db)"
    "bill_insertable (new_bill env actor bl res title amount doc note period due) = None"
    "queue_bill_notice env ne b (new_bill env actor bl res title amount doc note period due)
       (db \<lparr> bills := t_insert (new_bill env actor bl res title amount doc note period due) (bills db) \<rparr>) = Inr db1"
    "record_audit env db1 actor (Some m) ''bill.issued'' ''Bill'' (nat_str b) ''accepted''
       [(''bill_id'', pint b), (''amount_vnd'', PyInt amount)] = Inr db'"
  using assms by (auto simp: issue_bill_def Let_def split: sum.splits if_splits option.splits)

lemma confirm_paymentE:
  assumes "confirm_payment env db b src actor ref = Inr (k, db')"
  obtains bill where "t_get (bills db) b = Some bill" "k = b" "bi_status bill \<noteq> Void" "ref = bi_reference bill"
    "src = SelfAttestedDemo \<longrightarrow> actor = bi_resident bill" "bi_status bill = Paid" "db' = db"
  | bill where "t_get (bills db) b = Some bill" "k = b" "bi_status bill = Issued" "ref = bi_reference bill"
    "src = SelfAttestedDemo \<longrightarrow> actor = bi_resident bill"
    "record_audit env (db \<lparr> bills := t_update b (\<lambda>x. x \<lparr> bi_status := Paid, bi_payment_source := Some src,
       bi_paid_at := Some (now env), bi_paid_confirmed_by := Some actor \<rparr>) (bills db) \<rparr>) actor None
       ''bill.payment_recorded'' ''Bill'' (nat_str b) ''accepted''
       [(''bill_id'', pint b), (''source'', PyStr (payment_source_str src))] = Inr db'"
proof -
  have "bi_status bill \<noteq> Void \<Longrightarrow> bi_status bill \<noteq> Paid \<Longrightarrow> bi_status bill = Issued" for bill :: bill_row
    by (cases "bi_status bill") auto
  then show thesis using assms that
    by (auto simp: confirm_payment_def Let_def split: sum.splits if_splits option.splits)
qed

lemma void_billE:
  assumes "void_bill env db actor b reason = Inr (k, db')"
  obtains bill m why where "t_get (bills db) b = Some bill" "require_management db actor (bi_building bill) = Inr m" "k = b"
    "bi_status bill = Issued" "why \<noteq> []"
    "record_audit env (db \<lparr> bills := t_update b (\<lambda>x. x \<lparr> bi_status := Void, bi_void_by := Some actor,
       bi_void_at := Some (now env), bi_void_reason := why \<rparr>) (bills db),
       deliveries := t_delete (\<lambda>_. bill_notice b) (deliveries db) \<rparr>) actor (Some m) ''bill.voided'' ''Bill'' (nat_str b)
       ''accepted'' [(''bill_id'', pint b)] = Inr db'"
  using assms by (auto simp: void_bill_def Let_def split: sum.splits if_splits option.splits)

end
