(* ===== verification/Notices.thy ===== *)
theory Notices
  imports Billing
begin

text \<open>
  What the notification queue promises, whatever order the queueing, the deliveries, the devices, the
  announcements and the bills come in: an event is queued once per recipient and channel, a mail is accepted once,
  a device gets a push once, every delivery gives up after a bounded number of attempts, and a push token belongs to
  one active device.
\<close>

section \<open>The invariant\<close>

text \<open>The attempts a channel has, and a row the queue may still claim.\<close>

definition budget :: "channel \<Rightarrow> nat" where
  "budget ch = (case ch of InApp \<Rightarrow> 1 | Email \<Rightarrow> MAX_EMAIL_ATTEMPTS | PushChannel \<Rightarrow> MAX_PUSH_ATTEMPTS)"

definition live :: "delivery_row \<Rightarrow> bool" where
  "live r \<longleftrightarrow> nd_status r = NPending \<or> nd_status r = NFailed \<and> nd_next_retry_at r \<noteq> None"

definition delivery_ok :: "(pk \<times> string option) list \<Rightarrow> (pk \<times> pk) list \<Rightarrow> pk \<Rightarrow> delivery_row \<Rightarrow> bool" where
  "delivery_ok ms ps k r \<longleftrightarrow>
     (\<forall>d. (k, d) \<in> set ps \<longleftrightarrow> d \<in> set (nd_push_sent_device_ids r)) \<and>
     (k \<in> fst ` set ms \<longleftrightarrow> nd_channel r = Email \<and> nd_status r = NSent) \<and>
     (live r \<longrightarrow> nd_attempts r < budget (nd_channel r)) \<and>
     (nd_channel r = InApp \<longrightarrow> nd_status r \<in> {NPending, NAvailable} \<and> nd_push_sent_device_ids r = []) \<and>
     (nd_channel r = Email \<longrightarrow> nd_attempts r \<le> MAX_EMAIL_ATTEMPTS \<and> (nd_status r = NFailed \<longrightarrow> nd_next_retry_at r \<noteq> None))"

definition active_token :: "device_row \<Rightarrow> string option" where
  "active_token d = (if dev_active d then Some (dev_fcm_token d) else None)"

definition logged_key :: "(pk \<times> string option) list \<Rightarrow> (pk \<times> pk) list \<Rightarrow> pk \<Rightarrow> bool" where
  "logged_key ms ps k \<longleftrightarrow> k \<in> fst ` set ms \<or> k \<in> fst ` set ps"

definition deliveries_ok :: "delivery_row table \<Rightarrow> (pk \<times> string option) list \<Rightarrow> (pk \<times> pk) list \<Rightarrow> bool" where
  "deliveries_ok t ms ps \<longleftrightarrow> t_ok t \<and> unique_on (\<lambda>r. Some (delivery_key r)) t \<and>
     (\<forall>k r. t_get t k = Some r \<longrightarrow> delivery_ok ms ps k r) \<and>
     (\<forall>k. logged_key ms ps k \<longrightarrow> k < next_pk t) \<and> distinct (map fst ms) \<and> distinct ps"

definition devices_ok :: "device_row table \<Rightarrow> bool" where
  "devices_ok t \<longleftrightarrow> t_ok t \<and> unique_on active_token t \<and> unique_on (\<lambda>d. Some (dev_user d, dev_install_id d)) t"

definition notices_ok :: "'z ndb \<Rightarrow> bool" where
  "notices_ok db \<longleftrightarrow> deliveries_ok (deliveries db) (mails db) (pushes db) \<and> devices_ok (devices db)"

lemma delivery_ok_new: "\<not> logged_key ms ps k \<Longrightarrow> delivery_ok ms ps k (new_delivery env u key s b ch c bl)"
  by (force simp: delivery_ok_def new_delivery_def logged_key_def live_def budget_def MAX_EMAIL_ATTEMPTS_def
      MAX_PUSH_ATTEMPTS_def split: channel.splits)

lemma deliveries_ok_insert:
  assumes "deliveries_ok t ms ps" "\<not> t_exists (\<lambda>_ d. delivery_key d = delivery_key r) t"
    "r = new_delivery env u key s b ch c bl"
  shows "deliveries_ok (t_insert r t) ms ps"
proof -
  have t: "t_ok t" and u: "unique_on (\<lambda>r. Some (delivery_key r)) t" using assms(1) by (auto simp: deliveries_ok_def)
  have "\<not> logged_key ms ps (next_pk t)" using assms(1) by (auto simp: deliveries_ok_def)
  then have "delivery_ok ms ps (next_pk t) r" using assms(3) delivery_ok_new by simp
  moreover have "unique_on (\<lambda>r. Some (delivery_key r)) (t_insert r t)"
    by (rule unique_on_insert [OF t u]) (use assms(2) in simp)
  ultimately show ?thesis using assms(1) t
    by (auto simp: deliveries_ok_def t_get_insert less_Suc_eq split: if_splits)
qed

text \<open>A step on one row: the row keeps its key, the logs grow by entries of that row only.\<close>

lemma deliveries_ok_put:
  assumes "deliveries_ok t ms ps" "t_get t k = Some r" "delivery_key r' = delivery_key r"
    "delivery_ok (ms @ ms') (ps @ ps') k r'" "fst ` set ms' \<subseteq> {k}" "fst ` set ps' \<subseteq> {k}"
    "distinct (map fst (ms @ ms'))" "distinct (ps @ ps')"
  shows "deliveries_ok (t_update k (\<lambda>_. r') t) (ms @ ms') (ps @ ps')"
proof -
  have t: "t_ok t" using assms(1) by (simp add: deliveries_ok_def)
  have "unique_on (\<lambda>r. Some (delivery_key r)) (t_update k (\<lambda>_. r') t)"
    by (rule unique_on_update) (use assms(1-3) in \<open>auto simp: deliveries_ok_def\<close>)
  moreover have "delivery_ok (ms @ ms') (ps @ ps') i x" if i: "t_get (t_update k (\<lambda>_. r') t) i = Some x" for i x
  proof (cases "i = k")
    case True then show ?thesis using i assms(2,4) by (simp add: t_get_update)
  next
    case False
    then have "delivery_ok ms ps i x" using i assms(1) by (simp add: t_get_update deliveries_ok_def)
    moreover have "i \<notin> fst ` set ms'" "\<And>d. (i, d) \<notin> set ps'" using False assms(5,6) by force+
    ultimately show ?thesis by (simp add: delivery_ok_def image_Un)
  qed
  moreover have "j < next_pk t" if "logged_key (ms @ ms') (ps @ ps') j" for j
    using that assms(1,5,6) t_get_less [OF t assms(2)] by (auto simp: logged_key_def deliveries_ok_def)
  ultimately show ?thesis using assms(7,8) t by (auto simp: deliveries_ok_def)
qed

lemmas deliveries_ok_put_quiet = deliveries_ok_put [where ms' = "[]" and ps' = "[]", simplified]

text \<open>Bulk changes of in-app rows, and their removal.\<close>

lemma deliveries_ok_in_app_update:
  assumes "deliveries_ok t ms ps" "\<And>k r. P k r \<Longrightarrow> nd_channel r = InApp"
    "\<And>r. nd_channel r = InApp \<Longrightarrow> delivery_key (f r) = delivery_key r \<and> nd_push_sent_device_ids (f r) = nd_push_sent_device_ids r
       \<and> nd_attempts (f r) = nd_attempts r \<and> (nd_status (f r) = nd_status r \<or> nd_status (f r) = NAvailable)"
  shows "deliveries_ok (t_update_all P f t) ms ps"
proof -
  have "unique_on (\<lambda>r. Some (delivery_key r)) (t_update_all P f t)"
    by (rule unique_on_update_all) (use assms in \<open>auto simp: deliveries_ok_def\<close>)
  moreover have "delivery_ok ms ps k (f r)" if "delivery_ok ms ps k r" "P k r" for k r
    using that(1) assms(3) [OF assms(2) [OF that(2)]] assms(2) [OF that(2)]
    by (auto simp: delivery_ok_def delivery_key_def live_def)
  ultimately show ?thesis using assms(1) by (auto simp: deliveries_ok_def t_get_update_all split: if_splits)
qed

lemma deliveries_ok_delete: "deliveries_ok t ms ps \<Longrightarrow> deliveries_ok (t_delete P t) ms ps"
  by (auto simp: deliveries_ok_def unique_on_delete dtbl.delete_keeps)

section \<open>Queueing\<close>

lemma get_or_create_ok:
  assumes "notices_ok db" "get_or_create_delivery (new_delivery env u key s b ch c bl) db = Inr (k, db')"
  shows "notices_ok db'"
proof (cases "t_first (\<lambda>_ d. delivery_key d = delivery_key (new_delivery env u key s b ch c bl)) (deliveries db)")
  case None
  then have "db' = db \<lparr> deliveries := t_insert (new_delivery env u key s b ch c bl) (deliveries db) \<rparr>"
    using assms(2) by (auto simp: get_or_create_delivery_def split: if_splits)
  then show ?thesis using assms(1) None deliveries_ok_insert by (simp add: notices_ok_def t_exists_first)
next
  case (Some a) then show ?thesis using assms by (auto simp: get_or_create_delivery_def split: prod.splits)
qed

lemma queue_channels_ok: "notices_ok db \<Longrightarrow> notices_ok (fst (queue_channels env ne db u key s b chs c bl))"
proof (induction chs arbitrary: db)
  case (Cons ch chs)
  show ?case
  proof (cases "get_or_create_delivery (new_delivery env u key s b ch c bl) db")
    case (Inl e) then show ?thesis using Cons by simp
  next
    case (Inr a)
    obtain k db1 where a: "a = (k, db1)" by (cases a)
    then have "notices_ok db1" using get_or_create_ok Cons.prems Inr by blast
    from Cons.IH [OF this] Cons.IH [OF Cons.prems] show ?thesis
      using Inr a by (auto split: prod.splits sum.splits)
  qed
qed simp

lemma queue_notification_ok: "notices_ok db \<Longrightarrow> notices_ok (fst (queue_notification env ne db u key s b chs c bl))"
  by (simp add: queue_notification_def queue_channels_ok)

lemma queue_notification_okD:
  "queue_notification env ne db u key s b chs c bl = (db', x) \<Longrightarrow> notices_ok db \<Longrightarrow> notices_ok db'"
  using queue_notification_ok [of db env ne u key s b chs c bl] by simp

lemma notify_unseen_ok: "notices_ok db \<Longrightarrow> notices_ok (notify_unseen env ne us seen key s b c bl db)"
proof (induction us arbitrary: seen db)
  case (Cons u us)
  have "notices_ok (enqueue_after_commit env ne db uid key s b None c bl)" for uid
    using Cons.prems by (simp add: enqueue_after_commit_def queue_notification_ok split: option.splits)
  then show ?case using Cons by (auto split: option.splits)
qed simp

section \<open>Delivery\<close>

lemma devices_ok_deactivate:
  "devices_ok t \<Longrightarrow> devices_ok (t_update_all P (\<lambda>d. d \<lparr> dev_active := False \<rparr>) t)"
  unfolding devices_ok_def by (auto intro!: unique_on_update_all simp: active_token_def)

lemma push_devices_frame:
  "push_devices send k devs p db = (p', db') \<Longrightarrow> deliveries db' = deliveries db \<and> mails db' = mails db
     \<and> (devices_ok (devices db) \<longrightarrow> devices_ok (devices db'))"
proof (induction send k devs p db arbitrary: p' db' rule: push_devices.induct)
  case (2 send k d dev rest p db)
  show ?case
  proof (cases "d \<in> set (already_sent p)")
    case True then show ?thesis using 2 by simp
  next
    case False
    then show ?thesis using 2
      by (cases "send (dev_fcm_token dev)") (auto simp: t_update_as_all devices_ok_deactivate split: if_splits)
  qed
qed simp

lemma push_devices_sent:
  "push_devices send k devs p db = (p', db') \<Longrightarrow>
   \<exists>new. already_sent p' = already_sent p @ new \<and> pushes db' = pushes db @ map (Pair k) new \<and> distinct new
     \<and> set new \<inter> set (already_sent p) = {} \<and> set new \<subseteq> fst ` set devs"
proof (induction send k devs p db arbitrary: p' db' rule: push_devices.induct)
  case (2 send k d dev rest p db)
  show ?case
  proof (cases "d \<in> set (already_sent p)")
    case True
    then obtain new where "already_sent p' = already_sent p @ new \<and> pushes db' = pushes db @ map (Pair k) new \<and> distinct new
      \<and> set new \<inter> set (already_sent p) = {} \<and> set new \<subseteq> fst ` set rest" using 2 by fastforce
    then show ?thesis by (intro exI [of _ new]) auto
  next
    case False
    show ?thesis
    proof (cases "send (dev_fcm_token dev)")
      case None
      then obtain new where "already_sent p' = (already_sent p @ [d]) @ new \<and> pushes db' = (pushes db @ [(k, d)]) @ map (Pair k) new
        \<and> distinct new \<and> set new \<inter> set (already_sent p @ [d]) = {} \<and> set new \<subseteq> fst ` set rest"
        using 2 False by fastforce
      then show ?thesis using False by (intro exI [of _ "d # new"]) auto
    next
      case (Some e)
      then obtain new where "already_sent p' = already_sent p @ new \<and> pushes db' = pushes db @ map (Pair k) new \<and> distinct new
        \<and> set new \<inter> set (already_sent p) = {} \<and> set new \<subseteq> fst ` set rest"
        using 2 False by (cases "is_terminal e") fastforce+
      then show ?thesis by (intro exI [of _ new]) auto
    qed
  qed
qed simp

lemmas attempt_limits = budget_def MAX_EMAIL_ATTEMPTS_def MAX_PUSH_ATTEMPTS_def

lemma notices_ok_row: "notices_ok db \<Longrightarrow> t_get (deliveries db) k = Some r \<Longrightarrow> delivery_ok (mails db) (pushes db) k r"
  by (simp add: notices_ok_def deliveries_ok_def)

lemma notices_ok_put:
  assumes "notices_ok db" "t_get (deliveries db) k = Some r" "delivery_key r' = delivery_key r"
    "delivery_ok (mails db) (pushes db) k r'"
  shows "notices_ok (put_delivery k r' db)"
  using assms deliveries_ok_put_quiet [of "deliveries db" "mails db" "pushes db" k r r']
  by (simp add: notices_ok_def put_delivery_def deliveries_ok_def)

lemma push_outcome_key [simp]:
  "delivery_key (push_outcome env p r) = delivery_key r" "nd_channel (push_outcome env p r) = nd_channel r"
  "nd_push_sent_device_ids (push_outcome env p r) = already_sent p"
  by (simp_all add: push_outcome_def delivery_key_def Let_def)

lemma push_outcome_live: "live (push_outcome env p r) \<Longrightarrow> Suc (nd_attempts r) < MAX_PUSH_ATTEMPTS
    \<and> nd_attempts (push_outcome env p r) = Suc (nd_attempts r)"
  by (auto simp: push_outcome_def live_def Let_def split: if_splits)

lemma push_outcome_ok:
  assumes "delivery_ok ms ps k r" "nd_channel r = PushChannel" "already_sent p = nd_push_sent_device_ids r @ new"
  shows "delivery_ok ms (ps @ map (Pair k) new) k (push_outcome env p r)"
  using assms push_outcome_live [of env p r] by (auto simp: delivery_ok_def budget_def)

lemma suppress_push_ok:
  assumes "delivery_ok ms ps k r" "nd_channel r = PushChannel"
  shows "delivery_ok ms ps k (suppress_push env why r)" "delivery_key (suppress_push env why r) = delivery_key r"
    "\<not> live (suppress_push env why r)"
  using assms by (auto simp: delivery_ok_def suppress_push_def live_def delivery_key_def)

lemma process_push_ok:
  assumes "notices_ok db" "t_get (deliveries db) k = Some r" "nd_channel r = PushChannel"
  shows "notices_ok (process_push_delivery env ne db k r)"
proof -
  have row: "delivery_ok (mails db) (pushes db) k r" using notices_ok_row assms by blast
  have sup: "notices_ok (put_delivery k (suppress_push env why r) db)" for why
    using notices_ok_put [OF assms(1,2)] suppress_push_ok [OF row assms(3)] by simp
  have sent: "notices_ok (put_delivery k (push_outcome env p r) db1)"
    if h: "push_devices send k devs \<lparr> already_sent = nd_push_sent_device_ids r, any_success = b, any_transient = False,
      last_push_error = [] \<rparr> db = (p, db1)" for send devs b p db1
  proof -
    obtain new where new: "already_sent p = nd_push_sent_device_ids r @ new" "pushes db1 = pushes db @ map (Pair k) new"
        "distinct new" "set new \<inter> set (nd_push_sent_device_ids r) = {}"
      using push_devices_sent [OF h] by auto
    have "distinct (pushes db @ map (Pair k) new)"
      using new(3,4) row assms(1) by (auto simp: delivery_ok_def notices_ok_def deliveries_ok_def distinct_map inj_on_def)
    then have "deliveries_ok (t_update k (\<lambda>_. push_outcome env p r) (deliveries db)) (mails db @ []) (pushes db @ map (Pair k) new)"
      using assms(1,2) push_outcome_ok [OF row assms(3) new(1)]
      by (intro deliveries_ok_put [where r = r]) (auto simp: notices_ok_def deliveries_ok_def)
    then show ?thesis using push_devices_frame [OF h] assms(1) new(2) by (auto simp: notices_ok_def put_delivery_def)
  qed
  show ?thesis using sup sent by (simp add: process_push_delivery_def Let_def split: prod.splits)
qed

lemma process_email_ok:
  assumes "notices_ok db" "t_get (deliveries db) k = Some r" "nd_channel r = Email" "nd_status r \<notin> {NSent, NAvailable, NDead}"
  shows "notices_ok (process_email_delivery env ne db k r)"
proof -
  have row: "delivery_ok (mails db) (pushes db) k r" using notices_ok_row assms by blast
  have att: "nd_attempts r < MAX_EMAIL_ATTEMPTS" "k \<notin> fst ` set (mails db)"
    using row assms(3,4) by (cases "nd_status r"; auto simp: delivery_ok_def live_def budget_def)+
  let ?r1 = "r \<lparr> nd_attempts := nd_attempts r + 1, nd_updated_at := now env \<rparr>"
  have fail: "notices_ok (put_delivery k (?r1 \<lparr> nd_last_error := e, nd_status := st, nd_next_retry_at := at \<rparr>) db)"
    if "st = NDead \<and> at = None \<or> st = NFailed \<and> at \<noteq> None \<and> Suc (nd_attempts r) < MAX_EMAIL_ATTEMPTS" for e st at
    using that row att assms(3,4)
    by (intro notices_ok_put [OF assms(1,2)]) (auto simp: delivery_ok_def delivery_key_def live_def budget_def)
  let ?sent = "?r1 \<lparr> nd_status := NSent, nd_last_error := [], nd_next_retry_at := None \<rparr>"
  have "deliveries_ok (t_update k (\<lambda>_. ?sent) (deliveries db)) (mails db @ [(k, a)]) (pushes db @ [])" for a
    using assms(1) row att assms(3)
    by (intro deliveries_ok_put [OF _ assms(2)])
       (auto simp: notices_ok_def deliveries_ok_def delivery_ok_def delivery_key_def live_def)
  then show ?thesis using fail assms(1)
    by (auto simp: process_email_delivery_def Let_def notices_ok_def put_delivery_def split: option.splits)
qed

lemma process_delivery_ok: "notices_ok db \<Longrightarrow> notices_ok (process_delivery env ne db k)"
proof -
  assume ok: "notices_ok db"
  have "notices_ok (put_delivery k (r \<lparr> nd_status := NAvailable, nd_attempts := a, nd_last_error := [], nd_updated_at := t \<rparr>) db)"
    if r: "t_get (deliveries db) k = Some r" and ch: "nd_channel r = InApp" for r a t
    using notices_ok_row [OF ok r] ch
    by (intro notices_ok_put [OF ok r]) (auto simp: delivery_ok_def delivery_key_def live_def)
  then show ?thesis using ok
    by (auto simp: process_delivery_def process_push_ok [OF ok] process_email_ok [OF ok] split: option.splits channel.splits)
qed

lemma process_due_ok: "notices_ok db \<Longrightarrow> notices_ok (fst (process_due_notifications env ne n db))"
proof -
  have "notices_ok db \<Longrightarrow> notices_ok (fold (\<lambda>k db. process_delivery env ne db k) ks db)" for ks
    by (induction ks arbitrary: db) (auto simp: process_delivery_ok)
  then show "notices_ok db \<Longrightarrow> ?thesis" by (simp add: process_due_notifications_def Let_def)
qed

section \<open>Devices\<close>

lemma deactivate_where_ok: "notices_ok db \<Longrightarrow> notices_ok (fst (deactivate_where P db))"
  by (simp add: deactivate_where_def notices_ok_def devices_ok_deactivate)

lemma deactivate_other_ok: "notices_ok db \<Longrightarrow> notices_ok (deactivate_other_holders u i tok db)"
  by (simp add: deactivate_other_holders_def notices_ok_def devices_ok_deactivate)

lemma other_holders_gone:
  assumes "t_get (devices (deactivate_other_holders u i tok db)) k = Some d" "dev_active d" "dev_fcm_token d = tok"
  shows "dev_user d = u \<and> dev_install_id d = i"
proof -
  obtain d0 where "t_get (devices db) k = Some d0"
    "d = (if dev_fcm_token d0 = tok \<and> dev_active d0 \<and> \<not> (dev_user d0 = u \<and> dev_install_id d0 = i)
          then d0 \<lparr> dev_active := False \<rparr> else d0)"
    using assms(1) by (auto simp: deactivate_other_holders_def t_get_update_all)
  then show ?thesis using assms(2,3) by (auto split: if_splits)
qed

text \<open>After the other holders are deactivated the constraint holds, and the upsert goes through.\<close>

lemma upsert_after_deactivation:
  assumes "notices_ok db"
  shows "\<exists>k db'. upsert_device env u i tok pf av (deactivate_other_holders u i tok db) = Inr (k, db') \<and> notices_ok db'
     \<and> t_get (devices db') k = Some \<lparr> dev_user = u, dev_install_id = i, dev_fcm_token = tok, dev_platform = pf,
         dev_app_version = av, dev_active = True, dev_last_seen_at = now env \<rparr>"
proof -
  let ?db1 = "deactivate_other_holders u i tok db"
  let ?row = "\<lparr> dev_user = u, dev_install_id = i, dev_fcm_token = tok, dev_platform = pf,
         dev_app_version = av, dev_active = True, dev_last_seen_at = now env \<rparr>"
  let ?own = "t_first (\<lambda>_ d. dev_user d = u \<and> dev_install_id d = i) (devices ?db1)"
  have ok: "notices_ok ?db1" using assms by (rule deactivate_other_ok)
  then have t: "t_ok (devices ?db1)" and tok: "unique_on active_token (devices ?db1)"
    and ins: "unique_on (\<lambda>d. Some (dev_user d, dev_install_id d)) (devices ?db1)"
    by (auto simp: notices_ok_def devices_ok_def)
  have only: "Some k = map_option fst ?own" if "t_get (devices ?db1) k = Some d" "dev_fcm_token d = tok" "dev_active d" for k d
  proof -
    have d: "dev_user d = u \<and> dev_install_id d = i" using other_holders_gone that by blast
    show ?thesis
    proof (cases ?own)
      case None
      then show ?thesis using d that(1) by (auto simp: t_first_None_iff [OF t])
    next
      case (Some x)
      obtain k' d' where x: "x = (k', d')" by (cases x)
      then have "t_get (devices ?db1) k' = Some d'" "dev_user d' = u" "dev_install_id d' = i"
        using t_first_Some_get [OF t] Some by blast+
      then have "k = k'" using unique_onD [OF ins that(1)] d by simp
      then show ?thesis using Some x by simp
    qed
  qed
  then have free: "\<not> t_exists (\<lambda>k d. dev_fcm_token d = tok \<and> dev_active d \<and> Some k \<noteq> map_option fst ?own) (devices ?db1)"
    by (auto simp: t_exists_iff [OF t])
  show ?thesis
  proof (cases ?own)
    case None
    have "\<not> t_exists (\<lambda>_ d. active_token d = Some tok) (devices ?db1)"
      using only None by (fastforce simp: t_exists_iff [OF t] active_token_def split: if_splits)
    moreover have "\<not> t_exists (\<lambda>_ d. dev_user d = u \<and> dev_install_id d = i) (devices ?db1)"
      using None by (simp add: t_exists_first)
    ultimately have "devices_ok (t_insert ?row (devices ?db1))"
      unfolding devices_ok_def using t tok ins by (intro conjI unique_on_insert) (auto simp: active_token_def)
    then show ?thesis using None free ok t
      by (simp add: upsert_device_def Let_def notices_ok_def t_get_insert)
  next
    case (Some x)
    obtain k d where x: "x = (k, d)" by (cases x)
    then have k: "t_get (devices ?db1) k = Some d" "dev_user d = u" "dev_install_id d = i"
      using t_first_Some_get [OF t] Some by blast+
    have "unique_on active_token (t_update k (\<lambda>_. ?row) (devices ?db1))"
    proof (rule unique_onI)
      fix p q a b y
      assume h: "t_get (t_update k (\<lambda>_. ?row) (devices ?db1)) p = Some a"
        "t_get (t_update k (\<lambda>_. ?row) (devices ?db1)) q = Some b" "active_token a = Some y" "active_token b = Some y"
      have "p = k \<longleftrightarrow> q = k"
        using h only [of p a] only [of q b] Some x by (auto simp: t_get_update active_token_def split: if_splits)
      then show "p = q" using h unique_onD [OF tok] by (auto simp: t_get_update split: if_splits)
    qed
    moreover have "unique_on (\<lambda>d. Some (dev_user d, dev_install_id d)) (t_update k (\<lambda>_. ?row) (devices ?db1))"
      by (rule unique_on_update [OF ins]) (use k in auto)
    ultimately show ?thesis using Some x free ok t k
      by (simp add: upsert_device_def Let_def notices_ok_def devices_ok_def t_get_update)
  qed
qed

lemma register_device_upsert:
  assumes "notices_ok db"
  shows "\<exists>k db'. register_device env db u i tok pf av = Inr (k, db') \<and> notices_ok db' \<and> t_get (devices db') k =
    Some \<lparr> dev_user = u, dev_install_id = i, dev_fcm_token = tok, dev_platform = pf, dev_app_version = av,
      dev_active = True, dev_last_seen_at = now env \<rparr>"
  using upsert_after_deactivation [OF assms, of env u i tok pf av] by (auto simp: register_device_def Let_def)

section \<open>Announcements and bills\<close>

lemma each_recipient_ok:
  assumes "\<And>u db db'. f u db = Inr db' \<Longrightarrow> notices_ok db \<Longrightarrow> notices_ok db'"
  shows "each_recipient f us db = Inr db' \<Longrightarrow> notices_ok db \<Longrightarrow> notices_ok db'"
  using assms by (induction us arbitrary: db) (auto split: sum.splits)

lemma queue_announcement_push_ok: "queue_announcement_push env ne a row act u db = Inr db' \<Longrightarrow> notices_ok db \<Longrightarrow> notices_ok db'"
  by (auto simp: queue_announcement_push_def split: prod.splits sum.splits intro: queue_notification_okD)

lemma queue_announcement_ok: "queue_announcement env ne a row act u db = Inr db' \<Longrightarrow> notices_ok db \<Longrightarrow> notices_ok db'"
  by (auto simp: queue_announcement_def split: prod.splits sum.splits
      dest: queue_notification_okD intro: queue_announcement_push_ok)

lemma notices_ok_audit: "record_audit env db u m a ty tid res meta = Inr db' \<Longrightarrow> notices_ok db \<Longrightarrow> notices_ok db'"
  by (auto dest!: record_audit_appends simp: notices_ok_def)

lemma audit_announcement_ok: "audit_announcement env actor m act a row db = Inr (k, db') \<Longrightarrow> notices_ok db \<Longrightarrow> notices_ok db'"
  by (auto simp: audit_announcement_def split: sum.splits intro: notices_ok_audit)

lemma notices_ok_frame:
  "notices_ok (db \<lparr> announcements := x \<rparr>) = notices_ok db"
  by (simp add: notices_ok_def)

lemma notice_update_ok:
  assumes "notices_ok db" "\<And>r. P r \<Longrightarrow> nd_channel r = InApp"
    "\<And>r. nd_channel r = InApp \<Longrightarrow> delivery_key (f r) = delivery_key r \<and> nd_push_sent_device_ids (f r) = nd_push_sent_device_ids r
       \<and> nd_attempts (f r) = nd_attempts r \<and> (nd_status (f r) = nd_status r \<or> nd_status (f r) = NAvailable)"
  shows "notices_ok (db \<lparr> deliveries := t_update_all (\<lambda>_. P) f (deliveries db) \<rparr>)"
  using assms deliveries_ok_in_app_update [of "deliveries db" "mails db" "pushes db" "\<lambda>_. P" f]
  by (auto simp: notices_ok_def)

lemma notice_delete_ok: "notices_ok db \<Longrightarrow> notices_ok (db \<lparr> deliveries := t_delete P (deliveries db) \<rparr>)"
  by (simp add: notices_ok_def deliveries_ok_delete)

lemma publish_announcement_ok:
  assumes "publish_announcement env ne db actor bl title body = Inr (a, db')" "notices_ok db"
  shows "notices_ok db'"
  using assms(1)
proof (rule publish_announcementE)
  fix m db2
  assume h: "each_recipient (queue_announcement env ne a (new_announcement env actor bl title body) ''published'')
       (active_residents db bl)
       (db \<lparr> announcements := t_insert (new_announcement env actor bl title body) (announcements db) \<rparr>) = Inr db2"
    "audit_announcement env actor m ''announcement.published'' a (new_announcement env actor bl title body)
       (db2 \<lparr> deliveries := t_update_all (\<lambda>_. announcement_notice bl a) (\<lambda>r. r \<lparr> nd_status := NAvailable \<rparr>)
          (deliveries db2) \<rparr>) = Inr (a, db')"
  have "notices_ok db2" using each_recipient_ok [OF queue_announcement_ok h(1)] assms(2) by (simp add: notices_ok_frame)
  then show ?thesis
    by (intro audit_announcement_ok [OF h(2)] notice_update_ok) (auto simp: announcement_notice_def delivery_key_def)
qed

lemma edit_announcement_ok:
  assumes "edit_announcement env ne db actor k n title body = Inr (a, db')" "notices_ok db"
  shows "notices_ok db'"
  using assms(1)
proof (rule edit_announcementE)
  fix old m db2
  assume h: "each_recipient (queue_announcement env ne k (edited env actor title body old) ''updated'')
       (active_residents db (an_building old))
       (db \<lparr> announcements := t_update k (\<lambda>_. edited env actor title body old) (announcements db) \<rparr>) = Inr db2"
    "audit_announcement env actor m ''announcement.updated'' k (edited env actor title body old)
       (db2 \<lparr> deliveries := t_update_all (\<lambda>_. announcement_notice (an_building old) k)
          (\<lambda>r. r \<lparr> nd_subject := title, nd_body := body, nd_read_at := None, nd_status := NAvailable \<rparr>)
          (deliveries db2) \<rparr>) = Inr (k, db')"
  have "notices_ok db2" using each_recipient_ok [OF queue_announcement_ok h(1)] assms(2) by (simp add: notices_ok_frame)
  then show ?thesis
    by (intro audit_announcement_ok [OF h(2)] notice_update_ok) (auto simp: announcement_notice_def delivery_key_def)
qed

lemma withdraw_announcement_ok:
  assumes "withdraw_announcement env ne db actor k n = Inr (a, db')" "notices_ok db"
  shows "notices_ok db'"
  using assms(1)
proof (rule withdraw_announcementE)
  fix old m db2
  assume h: "each_recipient (queue_announcement_push env ne k (withdrawn env actor old) ''withdrawn'')
       (active_residents db (an_building old))
       (db \<lparr> announcements := t_update k (\<lambda>_. withdrawn env actor old) (announcements db),
             deliveries := t_delete (\<lambda>_. announcement_notice (an_building old) k) (deliveries db) \<rparr>) = Inr db2"
    "audit_announcement env actor m ''announcement.withdrawn'' k (withdrawn env actor old) db2 = Inr (k, db')"
  have "notices_ok (db \<lparr> announcements := x, deliveries := t_delete P (deliveries db) \<rparr>)" for x P
    using assms(2) by (simp add: notices_ok_def deliveries_ok_delete)
  with each_recipient_ok [OF queue_announcement_push_ok h(1)] have "notices_ok db2" by simp
  then show ?thesis by (rule audit_announcement_ok [OF h(2)])
qed

lemma queue_bill_notice_ok: "queue_bill_notice env ne b bill db = Inr db' \<Longrightarrow> notices_ok db \<Longrightarrow> notices_ok db'"
  by (auto simp: queue_bill_notice_def split: prod.splits sum.splits dest!: queue_notification_okD
      intro!: notice_update_ok simp: bill_notice_def delivery_key_def)

lemma notices_ok_bills: "notices_ok (db \<lparr> bills := x \<rparr>) = notices_ok db"
  by (simp add: notices_ok_def)

lemma issue_bill_ok:
  "issue_bill env ne db actor bl res title amount doc note period due = Inr (b, db') \<Longrightarrow> notices_ok db \<Longrightarrow> notices_ok db'"
  using queue_bill_notice_ok notices_ok_audit notices_ok_bills by (metis issue_billE)

lemma confirm_payment_ok:
  "confirm_payment env db b src actor ref = Inr (k, db') \<Longrightarrow> notices_ok db \<Longrightarrow> notices_ok db'"
  by (erule confirm_paymentE) (auto simp: notices_ok_bills dest: notices_ok_audit)

lemma void_bill_ok:
  assumes "void_bill env db actor b reason = Inr (k, db')" "notices_ok db"
  shows "notices_ok db'"
proof -
  have "notices_ok (db \<lparr> bills := x, deliveries := t_delete P (deliveries db) \<rparr>)" for x P
    using assms(2) by (simp add: notices_ok_def deliveries_ok_delete)
  then show ?thesis using assms(1) by (elim void_billE) (auto dest: notices_ok_audit)
qed

section \<open>The machine\<close>

datatype notice_op =
    Notify "pk option list" string string string string "pk option"
  | Queue pk string string string "channel list option" string "pk option"
  | Deliver pk
  | DeliverDue nat
  | MarkRead pk pk
  | Register pk string string string string
  | DropDevice pk string
  | DropUserDevices pk
  | DropStale int
  | Announce pk pk string string
  | EditNotice pk pk nat string string
  | WithdrawNotice pk pk nat
  | IssueBill pk pk pk string int pk string string "nat option"
  | ConfirmPayment pk payment_source pk string
  | VoidBill pk pk "string option"

fun notice_exec :: "env \<times> notify_env \<times> notice_op \<Rightarrow> 'z bdb \<Rightarrow> 'z bdb" where
  "notice_exec (env, ne, Notify us key subject body c bl) db = notify_users env ne db us key subject body c bl"
| "notice_exec (env, ne, Queue u key subject body chs c bl) db = fst (queue_notification env ne db u key subject body chs c bl)"
| "notice_exec (env, ne, Deliver k) db = process_delivery env ne db k"
| "notice_exec (env, ne, DeliverDue n) db = fst (process_due_notifications env ne n db)"
| "notice_exec (env, ne, MarkRead u k) db = fst (mark_notification_read env db u k)"
| "notice_exec (env, ne, Register u i tok pf av) db = keep db (register_device env db u i tok pf av)"
| "notice_exec (env, ne, DropDevice u i) db = fst (deactivate_device db u i)"
| "notice_exec (env, ne, DropUserDevices u) db = fst (deactivate_user_devices db u)"
| "notice_exec (env, ne, DropStale n) db = fst (deactivate_stale_devices env db n)"
| "notice_exec (env, ne, Announce u bl title body) db = keep db (publish_announcement env ne db u bl title body)"
| "notice_exec (env, ne, EditNotice u a rv title body) db = keep db (edit_announcement env ne db u a rv title body)"
| "notice_exec (env, ne, WithdrawNotice u a rv) db = keep db (withdraw_announcement env ne db u a rv)"
| "notice_exec (env, ne, IssueBill u bl res title amount doc note period due) db =
     keep db (issue_bill env ne db u bl res title amount doc note period due)"
| "notice_exec (env, ne, ConfirmPayment b src u ref) db = keep db (confirm_payment env db b src u ref)"
| "notice_exec (env, ne, VoidBill u b reason) db = keep db (void_bill env db u b reason)"

lemma mark_read_ok: "notices_ok db \<Longrightarrow> notices_ok (fst (mark_notification_read env db u k))"
  by (auto simp: mark_notification_read_def Let_def notices_ok_def delivery_key_def intro!: deliveries_ok_in_app_update)

lemma keep_ok: "(\<And>a db'. r = Inr (a, db') \<Longrightarrow> P db') \<Longrightarrow> P db \<Longrightarrow> P (keep db r)"
  by (auto simp: keep_def split: sum.splits prod.splits)

lemma notice_exec_ok: "notices_ok db \<Longrightarrow> notices_ok (notice_exec c db)"
proof -
  assume ok: "notices_ok db"
  obtain env ne op where c: "c = (env, ne, op)" by (cases c)
  show ?thesis
  proof (cases op)
    case (Register u i tok pf av)
    then show ?thesis using register_device_upsert [OF ok, of env u i tok pf av] c by (auto simp: keep_def)
  qed (use ok in \<open>auto simp: c notify_users_def notify_unseen_ok queue_notification_ok process_delivery_ok process_due_ok
      mark_read_ok deactivate_where_ok deactivate_device_def deactivate_user_devices_def deactivate_stale_devices_def
      intro!: keep_ok [where P = notices_ok] dest: publish_announcement_ok edit_announcement_ok withdraw_announcement_ok
        issue_bill_ok confirm_payment_ok void_bill_ok\<close>)
qed

interpretation notices: service_machine notice_exec notices_ok
  by unfold_locales (rule notice_exec_ok)

end
