(* ===== verification/Tenancy.thy ===== *)
theory Tenancy
  imports Accounts
begin

text \<open>
  Tenant context (\<open>accounts/tenancy.py\<close>): the frozen carrier handed to the selectors, and the choice of a resident's
  occupancy from an explicit identifier, the session or the resident's own list, with the identifier pinned in the
  session.
\<close>

section \<open>The context\<close>

datatype actor_kind = ResidentActor | StaffActor

record tenant_context =
  tc_building_id :: pk
  tc_actor :: actor_kind
  tc_occupancy_id :: "pk option"
  tc_membership_id :: "pk option"

definition from_occupancy :: "'z adb \<Rightarrow> pk \<Rightarrow> occupancy_row \<Rightarrow> tenant_context result" where
  "from_occupancy db k oc =
     (case t_get (units db) (oc_unit oc) of
        None \<Rightarrow> Inl DoesNotExist
      | Some u \<Rightarrow> Inr \<lparr> tc_building_id = un_building u, tc_actor = ResidentActor, tc_occupancy_id = Some k,
                         tc_membership_id = None \<rparr>)"

definition from_membership :: "pk \<Rightarrow> membership_row \<Rightarrow> tenant_context" where
  "from_membership k m =
     \<lparr> tc_building_id = mb_building m, tc_actor = StaffActor, tc_occupancy_id = None, tc_membership_id = Some k \<rparr>"

section \<open>Identifiers\<close>

text \<open>
  \<open>int(candidate)\<close>: an integer, a truth value, or decimal text with optional surrounding white space, a sign and single
  underscores between digits; \<open>None\<close> for the \<open>TypeError\<close> and the \<open>ValueError\<close>, which the caller treats alike.
\<close>

fun int_digits :: "bool \<Rightarrow> string \<Rightarrow> string option" where  \<comment> \<open>the flag: the last character was a digit\<close>
  "int_digits d [] = (if d then Some [] else None)"
| "int_digits d (c # s) =
     (if is_digit c then map_option ((#) c) (int_digits True s)
      else if c = CHR ''_'' \<and> d then int_digits False s
      else None)"

definition int_text :: "string \<Rightarrow> int option" where
  "int_text s =
     (case py_strip s of
        [] \<Rightarrow> None
      | c # r \<Rightarrow>
          if c = CHR ''-'' then map_option (\<lambda>ds. - int (read_nat ds)) (int_digits False r)
          else if c = CHR ''+'' then map_option (\<lambda>ds. int (read_nat ds)) (int_digits False r)
          else map_option (\<lambda>ds. int (read_nat ds)) (int_digits False (c # r)))"

fun py_int :: "pyval \<Rightarrow> int option" where
  "py_int (PyInt i) = Some i"
| "py_int (PyBool b) = Some (if b then 1 else 0)"
| "py_int (PyStr s) = int_text s"
| "py_int _ = None"

text \<open>Equality with the integer \<open>k\<close>, as Python compares a session value with a primary key.\<close>

definition equals_pk :: "pyval \<Rightarrow> pk \<Rightarrow> bool" where
  "equals_pk v k \<longleftrightarrow> (case v of PyInt i \<Rightarrow> i = int k | PyBool b \<Rightarrow> (if b then 1 else 0) = k | _ \<Rightarrow> False)"

section \<open>The resident's occupancy\<close>

definition active_occupancies :: "'z adb \<Rightarrow> pk \<Rightarrow> (pk \<times> occupancy_row) list" where
  "active_occupancies db user = t_filter (\<lambda>_ oc. oc_user oc = user \<and> oc_active oc) (occupancies db)"

definition find_occupancy :: "(pk \<times> occupancy_row) list \<Rightarrow> pyval \<Rightarrow> (pk \<times> occupancy_row) option" where
  "find_occupancy own candidate =
     (case py_int candidate of
        None \<Rightarrow> None
      | Some cid \<Rightarrow> List.find (\<lambda>(k, _). int k = cid) own)"

text \<open>
  The session holds one value under \<open>SESSION_OCCUPANCY_KEY\<close>; \<open>PyNone\<close> stands for no value.  The result is the chosen
  occupancy, the list for the switcher, and the session value afterwards.
\<close>

definition resolve_resident_occupancy ::
  "'z adb \<Rightarrow> pk \<Rightarrow> pyval \<Rightarrow> pyval \<Rightarrow> ((pk \<times> occupancy_row) \<times> (pk \<times> occupancy_row) list \<times> pyval) result" where
  "resolve_resident_occupancy db user session occupancy_id =
     (let own = active_occupancies db user in
      if own = [] then Inl PermissionDenied
      else
        (let pin = (\<lambda>selected. Inr (selected, own, if equals_pk session (fst selected) then session else PyInt (int (fst selected)))) in
         if occupancy_id \<noteq> PyNone
         then (case find_occupancy own occupancy_id of None \<Rightarrow> Inl Http404 | Some selected \<Rightarrow> pin selected)
         else (case (if session = PyNone then None else find_occupancy own session) of
                 Some selected \<Rightarrow> pin selected
               | None \<Rightarrow> pin (hd own))))"

section \<open>What is chosen\<close>

lemma find_occupancy_own: "find_occupancy own v = Some (k, oc) \<Longrightarrow> (k, oc) \<in> set own \<and> py_int v = Some (int k)"
  by (auto simp: find_occupancy_def find_Some_iff split: option.splits) (metis nth_mem)+

lemma find_occupancy_hit:
  assumes "(k, oc) \<in> set own" "distinct (map fst own)"
  shows "find_occupancy own (PyInt (int k)) = Some (k, oc)"
proof -
  have "\<exists>x. List.find (\<lambda>(i, _). int i = int k) own = Some x"
    using assms(1) by (cases "List.find (\<lambda>(i, _). int i = int k) own") (auto simp: find_None_iff)
  then obtain i x where f: "List.find (\<lambda>(i, _). int i = int k) own = Some (i, x)" by auto
  then have "(i, x) \<in> set own" "i = k" by (auto simp: find_Some_iff) (metis nth_mem)
  then show ?thesis using f assms by (auto simp: find_occupancy_def dest: eq_key_imp_eq_value)
qed

text \<open>
  C38.  A resident only ever works in an own, active occupancy, whatever the request and the session say.  The choice is
  pinned: the next request without an explicit identifier gets the same occupancy and the same session value, as long
  as the occupancy stays active.
\<close>

theorem resident_occupancy_own:
  assumes "t_ok (occupancies db)" "resolve_resident_occupancy db user session occupancy_id = Inr ((k, oc), own, session')"
  shows "t_get (occupancies db) k = Some oc \<and> oc_user oc = user \<and> oc_active oc
    \<and> (occupancy_id \<noteq> PyNone \<longrightarrow> py_int occupancy_id = Some (int k))
    \<and> resolve_resident_occupancy db user session' PyNone = Inr ((k, oc), own, session')"
proof -
  have own: "own = active_occupancies db user" "own \<noteq> []" "session' = (if equals_pk session k then session else PyInt (int k))"
    using assms(2) by (auto simp: resolve_resident_occupancy_def Let_def split: if_splits option.splits)
  have first: "hd (active_occupancies db user) = (k, oc) \<Longrightarrow> (k, oc) \<in> set (active_occupancies db user)"
    using hd_in_set own(1,2) by metis
  have k: "(k, oc) \<in> set own \<and> (occupancy_id \<noteq> PyNone \<longrightarrow> py_int occupancy_id = Some (int k))"
    using assms(2) unfolding own(1)
    by (auto simp: resolve_resident_occupancy_def Let_def dest: find_occupancy_own intro: first split: if_splits option.splits)
  then have row: "t_get (occupancies db) k = Some oc \<and> oc_user oc = user \<and> oc_active oc"
    using in_filter_get [OF assms(1)] own(1) by (simp add: active_occupancies_def)
  have "distinct (map fst own)"
    using assms(1) by (auto simp: own(1) active_occupancies_def t_ok_def t_filter_def strict_sorted_iff intro: distinct_map_filter)
  then have hit: "find_occupancy own (PyInt (int k)) = Some (k, oc)" using find_occupancy_hit k by blast
  have "find_occupancy own session' = find_occupancy own (PyInt (int k))" "session' \<noteq> PyNone" "equals_pk session' k"
    by (auto simp: own(3) equals_pk_def find_occupancy_def split: pyval.splits if_splits)
  then have "resolve_resident_occupancy db user session' PyNone = Inr ((k, oc), own, session')"
    using own(1,2) hit by (simp add: resolve_resident_occupancy_def Let_def)
  then show ?thesis using row k by blast
qed

theorem resident_occupancy_own_witness:
  "\<exists>oc. resolve_resident_occupancy sample_accounts 2 PyNone (PyStr ''1'') = Inr ((1, oc), [(1, oc)], PyInt 1) \<and> oc_user oc = 2"
proof -
  have r: "resolve_resident_occupancy sample_accounts 2 PyNone (PyStr ''1'') =
      Inr ((1, \<lparr> oc_user = 2, oc_unit = 1, oc_active = True \<rparr>), [(1, \<lparr> oc_user = 2, oc_unit = 1, oc_active = True \<rparr>)], PyInt 1)"
    by code_simp
  have "t_ok (occupancies sample_accounts)" by (simp add: sample_accounts_def t_ok_def)
  from resident_occupancy_own [OF this r] show ?thesis using r by auto
qed

end
