(* ===== verification/Sign_In.thy ===== *)
theory Sign_In
  imports Samples Notices Tenancy Throttle
begin

text \<open>
  Residents sign in to the API (\<open>accounts/backends.py\<close>, \<open>api/services.py\<close>, \<open>api/authentication.py\<close>, \<open>api/signals.py\<close>,
  \<open>api/occupancy.py\<close> and the log-in and log-out views of \<open>api/views.py\<close>): a password is exchanged for one of at most five
  tokens, and tokens go when the account or its last occupancy is deactivated.  \<open>resident_tokens\<close> states this over any
  sequence of these operations, each run to its end before the next.  Tokens created at the same instant count as
  created in the order of their keys, an order the database does not promise; log lines are left out.

  Parameters: the check of a password against its hash, and Knox: the secret and digest of a fresh token, its lifetime,
  and the token a request authenticates with, with what is relied on in \<open>knox_law\<close>.
\<close>

section \<open>State and parameters\<close>

record token_row =
  at_user :: pk
  at_digest :: string
  at_created :: time
  at_expiry :: time

record sign_in_db = notifications_db +
  auth_tokens :: "token_row table"

type_synonym 'z sdb = "'z sign_in_db_scheme"

record sign_in_env =
  check_password :: "string \<Rightarrow> string \<Rightarrow> bool"  \<comment> \<open>password, stored hash\<close>
  fresh_token :: string
  token_key :: "string \<Rightarrow> string"
  TOKEN_TTL :: int
  knox_authenticate :: "token_row table \<Rightarrow> user_row table \<Rightarrow> string \<Rightarrow> token_row table \<times> pk option result"

text \<open>
  What the code relies on of Knox's \<open>TokenAuthentication.authenticate\<close>: it deletes expired tokens and moves the expiry
  of the token it accepts, it never creates a token or changes whose it is, and the token it accepts is a live one of
  an active user.
\<close>

definition knox_law :: "sign_in_env \<Rightarrow> bool" where
  "knox_law se \<longleftrightarrow>
     (\<forall>ts us header ts' r. knox_authenticate se ts us header = (ts', r) \<and> t_ok ts \<longrightarrow>
        t_ok ts' \<and>
        (\<forall>k t'. t_get ts' k = Some t' \<longrightarrow> (\<exists>t. t_get ts k = Some t \<and> at_user t = at_user t')) \<and>
        (\<forall>k. r = Inr (Some k) \<longrightarrow>
           (\<exists>t u. t_get ts' k = Some t \<and> t_get us (at_user t) = Some u \<and> u_is_active u)))"

definition TOKEN_CAP_PER_USER :: nat where "TOKEN_CAP_PER_USER = 5"

section \<open>Credentials\<close>

definition canonicalize_login_identifier :: "env \<Rightarrow> string \<Rightarrow> string" where
  "canonicalize_login_identifier env raw =
     (let value = py_strip raw in
      case normalize_phone (Some value) of Some phone \<Rightarrow> phone | None \<Rightarrow> py_lower (normalize_email env value))"

text \<open>\<open>PhoneOrEmailBackend.authenticate\<close>: one user by phone or by e-mail without regard to case.\<close>

definition find_account :: "'z adb \<Rightarrow> string \<Rightarrow> (pk \<times> user_row) option result" where
  "find_account db username =
     (case t_filter (\<lambda>_ u. case normalize_phone (Some username) of
              Some phone \<Rightarrow> u_phone u = Some phone
            | None \<Rightarrow> map_option py_lower (u_email u) = Some (py_lower username)) (users db) of
        [] \<Rightarrow> Inr None
      | [u] \<Rightarrow> Inr (Some u)
      | _ \<Rightarrow> Inl MultipleObjectsReturned)"

definition authenticate ::
  "sign_in_env \<Rightarrow> 'z adb \<Rightarrow> string option \<Rightarrow> string option \<Rightarrow> string option \<Rightarrow> pk option result" where
  "authenticate se db username0 password0 email_kwarg =
     (let username = (case username0 of None \<Rightarrow> email_kwarg | Some u \<Rightarrow> Some u) in
      case (username, password0) of
        (Some name, Some password) \<Rightarrow>
          (case find_account db name of
             Inl e \<Rightarrow> Inl e
           | Inr None \<Rightarrow> Inr None
           | Inr (Some (k, u)) \<Rightarrow>
               Inr (if check_password se password (u_password u) \<and> u_is_active u then Some k else None))
      | _ \<Rightarrow> Inr None)"

section \<open>Tokens\<close>

definition has_occupancy :: "'z adb \<Rightarrow> pk \<Rightarrow> bool" where
  "has_occupancy db user \<longleftrightarrow> active_occupancies db user \<noteq> []"

definition revoke_user_tokens :: "pk \<Rightarrow> 'z sdb \<Rightarrow> 'z sdb" where
  "revoke_user_tokens user db = db \<lparr> auth_tokens := t_delete (\<lambda>_ t. at_user t = user) (auth_tokens db) \<rparr>"

definition revoke_tokens_if_no_active_occupancy :: "pk \<Rightarrow> 'z sdb \<Rightarrow> 'z sdb" where
  "revoke_tokens_if_no_active_occupancy user db = (if has_occupancy db user then db else revoke_user_tokens user db)"

text \<open>Saving a user or an occupancy, with the receivers of \<open>post_save\<close>.\<close>

definition save_user_active :: "pk \<Rightarrow> bool \<Rightarrow> 'z sdb \<Rightarrow> 'z sdb" where
  "save_user_active user active db =
     (let db1 = db \<lparr> users := t_update user (\<lambda>u. u \<lparr> u_is_active := active \<rparr>) (users db) \<rparr> in
      if active then db1 else revoke_user_tokens user db1)"

definition save_occupancy_active :: "pk \<Rightarrow> occupancy_row \<Rightarrow> bool \<Rightarrow> 'z sdb \<Rightarrow> 'z sdb" where
  "save_occupancy_active k oc active db =
     (let db1 = db \<lparr> occupancies := t_update k (\<lambda>x. x \<lparr> oc_active := active \<rparr>) (occupancies db) \<rparr> in
      if active then db1 else revoke_tokens_if_no_active_occupancy (oc_user oc) db1)"

section \<open>Deactivation\<close>

definition deactivate_occupancy :: "pk \<Rightarrow> 'z sdb \<Rightarrow> 'z sdb" where
  "deactivate_occupancy k db =
     (case t_get (occupancies db) k of
        None \<Rightarrow> db
      | Some oc \<Rightarrow> revoke_tokens_if_no_active_occupancy (oc_user oc)
          (if oc_active oc then save_occupancy_active k oc False db else db))"

definition deactivate_occupancies :: "(pk \<Rightarrow> occupancy_row \<Rightarrow> bool) \<Rightarrow> 'z sdb \<Rightarrow> 'z sdb \<times> nat" where
  "deactivate_occupancies P db =
     (let active = t_filter (\<lambda>k oc. P k oc \<and> oc_active oc) (occupancies db);
          user_ids = remdups (map (\<lambda>(_, oc). oc_user oc) active);
          db1 = db \<lparr> occupancies := t_update_all (\<lambda>k oc. P k oc \<and> oc_active oc) (\<lambda>oc. oc \<lparr> oc_active := False \<rparr>) (occupancies db) \<rparr> in
      (fold revoke_tokens_if_no_active_occupancy (map fst (t_filter (\<lambda>u _. u \<in> set user_ids) (users db))) db1, length active))"

definition deactivate_user :: "pk \<Rightarrow> 'z sdb \<Rightarrow> 'z sdb" where
  "deactivate_user user db =
     (case t_get (users db) user of
        None \<Rightarrow> db
      | Some u \<Rightarrow> revoke_user_tokens user (if u_is_active u then save_user_active user False db else db))"

section \<open>Log-in\<close>

definition stale_tokens :: "pk \<Rightarrow> 'z sdb \<Rightarrow> pk list" where
  "stale_tokens user db =
     drop (TOKEN_CAP_PER_USER - 1)
       (map fst (rev (sort_key (\<lambda>(_, t). at_created t) (t_filter (\<lambda>_ t. at_user t = user) (auth_tokens db)))))"

definition issue_token :: "env \<Rightarrow> sign_in_env \<Rightarrow> pk \<Rightarrow> 'z sdb \<Rightarrow> 'z sdb" where
  "issue_token env se user db =
     (let kept = t_delete (\<lambda>k _. k \<in> set (stale_tokens user db)) (auth_tokens db) in
      db \<lparr> auth_tokens := t_insert \<lparr> at_user = user, at_digest = token_key se (fresh_token se), at_created = now env,
             at_expiry = now env + TOKEN_TTL se \<rparr> kept \<rparr>)"

definition login :: "env \<Rightarrow> sign_in_env \<Rightarrow> 'z sdb \<Rightarrow> string \<Rightarrow> string \<Rightarrow> string option \<Rightarrow> 'z sdb \<times> (pk \<times> string) result" where
  "login env se db raw_identifier password ip =
     (let identifier = canonicalize_login_identifier env raw_identifier in
      case assert_not_throttled env db (Some identifier) ip of
        Inl _ \<Rightarrow> (db, Inl Throttled)
      | Inr _ \<Rightarrow>
          (case authenticate se db (Some identifier) (Some password) None of
             Inl e \<Rightarrow> (db, Inl e)
           | Inr None \<Rightarrow> (snd (record_auth_failure env db (Some identifier) ip), Inl AuthenticationFailed)
           | Inr (Some user) \<Rightarrow>
               if \<not> has_occupancy db user
               then (revoke_tokens_if_no_active_occupancy user (snd (record_auth_failure env db (Some identifier) ip)),
                     Inl AuthenticationFailed)
               else (issue_token env se user (reset_auth_throttle env db (Some identifier) ip), Inr (user, fresh_token se))))"

section \<open>Requests\<close>

definition token_authenticate :: "sign_in_env \<Rightarrow> 'z sdb \<Rightarrow> string \<Rightarrow> 'z sdb \<times> (pk \<times> pk) option result" where
  "token_authenticate se db header =
     (case knox_authenticate se (auth_tokens db) (users db) header of
        (ts, r) \<Rightarrow>
          (let db1 = db \<lparr> auth_tokens := ts \<rparr> in
           case r of
             Inl e \<Rightarrow> (db1, Inl e)
           | Inr None \<Rightarrow> (db1, Inr None)
           | Inr (Some k) \<Rightarrow>
               (case t_get ts k of
                  None \<Rightarrow> (db1, Inl DoesNotExist)
                | Some t \<Rightarrow>
                    if has_occupancy db1 (at_user t) then (db1, Inr (Some (at_user t, k)))
                    else (revoke_tokens_if_no_active_occupancy (at_user t) db1, Inl AuthenticationFailed))))"

text \<open>The views ask for an authenticated user; Knox deletes the token of the request, or all of the user's.\<close>

definition logout :: "sign_in_env \<Rightarrow> 'z sdb \<Rightarrow> string \<Rightarrow> string option \<Rightarrow> 'z sdb \<times> unit result" where
  "logout se db header install_id =
     (case token_authenticate se db header of
        (db1, Inl e) \<Rightarrow> (db1, Inl e)
      | (db1, Inr None) \<Rightarrow> (db1, Inl NotAuthenticated)
      | (db1, Inr (Some (user, k))) \<Rightarrow>
          (let db2 = db1 \<lparr> auth_tokens := t_delete (\<lambda>i _. i = k) (auth_tokens db1) \<rparr> in
           (case install_id of None \<Rightarrow> db2 | Some i \<Rightarrow> if i = [] then db2 else fst (deactivate_device db2 user i), Inr ())))"

definition logout_all :: "sign_in_env \<Rightarrow> 'z sdb \<Rightarrow> string \<Rightarrow> 'z sdb \<times> unit result" where
  "logout_all se db header =
     (case token_authenticate se db header of
        (db1, Inl e) \<Rightarrow> (db1, Inl e)
      | (db1, Inr None) \<Rightarrow> (db1, Inl NotAuthenticated)
      | (db1, Inr (Some (user, k))) \<Rightarrow> (fst (deactivate_user_devices (revoke_user_tokens user db1) user), Inr ()))"

text \<open>\<open>resolve_api_occupancy\<close>: the occupancy a request acts for, by the header or when there is only one.\<close>

definition resolve_api_occupancy :: "'z adb \<Rightarrow> pk \<Rightarrow> string option \<Rightarrow> (pk \<times> tenant_context) result" where
  "resolve_api_occupancy db user header =
     (let own = active_occupancies db user in
      if own = [] then Inl PermissionDenied
      else
        (let context = (\<lambda>(k, oc). map_sum id (Pair k) (from_occupancy db k oc)) in
         case header of
           None \<Rightarrow> if length own > 1 then Inl OccupancySelectionRequired else context (hd own)
         | Some raw \<Rightarrow> (case find_occupancy own (PyStr raw) of None \<Rightarrow> Inl Http404 | Some sel \<Rightarrow> context sel)))"

section \<open>Who holds a token\<close>

definition user_tokens :: "'z sdb \<Rightarrow> pk \<Rightarrow> (pk \<times> token_row) list" where
  "user_tokens db user = t_filter (\<lambda>_ t. at_user t = user) (auth_tokens db)"

definition eligible :: "'z adb \<Rightarrow> pk \<Rightarrow> bool" where
  "eligible db user \<longleftrightarrow> (case t_get (users db) user of None \<Rightarrow> False | Some u \<Rightarrow> u_is_active u) \<and> has_occupancy db user"

definition sign_in_ok :: "'z sdb \<Rightarrow> bool" where
  "sign_in_ok db \<longleftrightarrow> t_ok (users db) \<and> t_ok (occupancies db) \<and> t_ok (auth_tokens db) \<and>
     list_all (\<lambda>(_, t). eligible db (at_user t) \<and> length (user_tokens db (at_user t)) \<le> TOKEN_CAP_PER_USER)
       (table_rows (auth_tokens db))"

text \<open>Tokens that are all there already, for the same user.\<close>

definition tokens_from :: "token_row table \<Rightarrow> token_row table \<Rightarrow> bool" where
  "tokens_from new old \<longleftrightarrow> (\<forall>k t'. t_get new k = Some t' \<longrightarrow> (\<exists>t. t_get old k = Some t \<and> at_user t = at_user t'))"

datatype sign_in_command =
    Login string string "string option"
  | Request string
  | Logout string "string option"
  | LogoutAll string
  | DeactivateOccupancy pk
  | DeactivateOccupancies "pk list"
  | DeactivateUser pk
  | SaveUser pk bool
  | SaveOccupancy pk bool

fun sign_in_exec :: "env \<times> sign_in_env \<times> sign_in_command \<Rightarrow> 'z sdb \<Rightarrow> 'z sdb" where
  "sign_in_exec (env, se, Login identifier password ip) db = fst (login env se db identifier password ip)"
| "sign_in_exec (env, se, Request header) db = fst (token_authenticate se db header)"
| "sign_in_exec (env, se, Logout header install_id) db = fst (logout se db header install_id)"
| "sign_in_exec (env, se, LogoutAll header) db = fst (logout_all se db header)"
| "sign_in_exec (env, se, DeactivateOccupancy k) db = deactivate_occupancy k db"
| "sign_in_exec (env, se, DeactivateOccupancies ks) db = fst (deactivate_occupancies (\<lambda>k _. k \<in> set ks) db)"
| "sign_in_exec (env, se, DeactivateUser user) db = deactivate_user user db"
| "sign_in_exec (env, se, SaveUser user active) db = save_user_active user active db"
| "sign_in_exec (env, se, SaveOccupancy k active) db =
     (case t_get (occupancies db) k of None \<Rightarrow> db | Some oc \<Rightarrow> save_occupancy_active k oc active db)"

section \<open>Tokens that stay\<close>

lemma length_filter_card:
  assumes "t_ok t"
  shows "length (t_filter P t) = card {k. \<exists>r. t_get t k = Some r \<and> P k r}"
proof -
  have "distinct (map fst (t_filter P t))"
    using assms by (auto simp: t_ok_def t_filter_def strict_sorted_iff intro: distinct_map_filter)
  moreover have "set (map fst (t_filter P t)) = {k. \<exists>r. t_get t k = Some r \<and> P k r}"
    using in_filter_get [OF assms, of _ _ P] by force
  ultimately show ?thesis by (metis distinct_card length_map)
qed

lemma finite_table_keys: "finite {k. \<exists>r. t_get t k = Some r \<and> P k r}"
  by (rule finite_subset [of _ "dom (map_of (table_rows t))"]) (auto simp: t_get_def finite_dom_map_of)

lemma tokens_from_refl: "tokens_from ts ts"
  by (simp add: tokens_from_def)

lemma tokens_from_trans: "tokens_from c b \<Longrightarrow> tokens_from b a \<Longrightarrow> tokens_from c a"
  unfolding tokens_from_def by metis

lemma tokens_from_delete: "t_ok ts \<Longrightarrow> tokens_from (t_delete P ts) ts"
  by (auto simp: tokens_from_def table_simps split: option.splits if_splits)

lemma tokens_from_count:
  assumes "tokens_from new old" "t_ok new" "t_ok old"
  shows "length (t_filter (\<lambda>_ t. at_user t = user) new) \<le> length (t_filter (\<lambda>_ t. at_user t = user) old)"
  unfolding length_filter_card [OF assms(2)] length_filter_card [OF assms(3)]
  using assms(1) by (intro card_mono finite_table_keys) (fastforce simp: tokens_from_def)

lemma sign_in_ok_iff:
  "sign_in_ok db \<longleftrightarrow> t_ok (users db) \<and> t_ok (occupancies db) \<and> t_ok (auth_tokens db) \<and>
     (\<forall>k t. t_get (auth_tokens db) k = Some t \<longrightarrow>
        eligible db (at_user t) \<and> length (user_tokens db (at_user t)) \<le> TOKEN_CAP_PER_USER)"
  by (auto simp: sign_in_ok_def list_all_iff in_rows_get)

lemma user_tokens_cap:
  assumes "sign_in_ok db"
  shows "length (user_tokens db user) \<le> TOKEN_CAP_PER_USER"
proof (cases "user_tokens db user")
  case (Cons kt rest)
  then have "kt \<in> set (user_tokens db user)" by simp
  with assms show ?thesis
    by (cases kt) (auto simp: sign_in_ok_iff user_tokens_def in_filter_get)
qed simp

lemma has_occupancy_iff:
  "t_ok (occupancies db) \<Longrightarrow>
   has_occupancy db user \<longleftrightarrow> (\<exists>k oc. t_get (occupancies db) k = Some oc \<and> oc_user oc = user \<and> oc_active oc)"
  by (fastforce simp: has_occupancy_def active_occupancies_def filter_empty_conv t_filter_def in_rows_get)

lemma has_occupancyI:
  "t_ok (occupancies db) \<Longrightarrow> t_get (occupancies db) k = Some oc \<Longrightarrow> oc_active oc \<Longrightarrow> oc_user oc = user \<Longrightarrow> has_occupancy db user"
  by (auto simp: has_occupancy_iff)

text \<open>The one argument for every operation that only takes tokens away.\<close>

lemma sign_in_ok_fewer:
  assumes "sign_in_ok db" "t_ok (users db')" "t_ok (occupancies db')" "t_ok (auth_tokens db')"
    "tokens_from (auth_tokens db') (auth_tokens db)"
    "\<And>k t. t_get (auth_tokens db') k = Some t \<Longrightarrow> eligible db (at_user t) \<Longrightarrow> eligible db' (at_user t)"
  shows "sign_in_ok db'"
proof -
  have "eligible db' (at_user t) \<and> length (user_tokens db' (at_user t)) \<le> TOKEN_CAP_PER_USER"
    if "t_get (auth_tokens db') k = Some t" for k t
  proof -
    obtain t0 where "t_get (auth_tokens db) k = Some t0" "at_user t0 = at_user t"
      using assms(5) \<open>t_get (auth_tokens db') k = Some t\<close> by (auto simp: tokens_from_def)
    then have "eligible db (at_user t)" using assms(1) unfolding sign_in_ok_iff by metis
    then show ?thesis
      using assms(6) [OF that] order_trans [OF tokens_from_count [OF assms(5,4)] user_tokens_cap [OF assms(1), unfolded user_tokens_def]]
        assms(1) by (auto simp: user_tokens_def sign_in_ok_iff)
  qed
  with assms(2-4) show ?thesis by (simp add: sign_in_ok_iff)
qed

lemma revoke_user_tokens_fields [simp]:
  "users (revoke_user_tokens user db) = users db"
  "occupancies (revoke_user_tokens user db) = occupancies db"
  "auth_tokens (revoke_user_tokens user db) = t_delete (\<lambda>_ t. at_user t = user) (auth_tokens db)"
  by (simp_all add: revoke_user_tokens_def)

lemma eligible_cong: "users db' = users db \<Longrightarrow> occupancies db' = occupancies db \<Longrightarrow> eligible db' = eligible db"
  by (auto simp: eligible_def has_occupancy_def active_occupancies_def fun_eq_iff)

lemma has_occupancy_cong: "occupancies db' = occupancies db \<Longrightarrow> has_occupancy db' = has_occupancy db"
  by (auto simp: has_occupancy_def active_occupancies_def fun_eq_iff)

lemma revoke_if_fields [simp]:
  "users (revoke_tokens_if_no_active_occupancy user db) = users db"
  "occupancies (revoke_tokens_if_no_active_occupancy user db) = occupancies db"
  by (simp_all add: revoke_tokens_if_no_active_occupancy_def)

lemma revoke_if_ok [simp]: "t_ok (auth_tokens db) \<Longrightarrow> t_ok (auth_tokens (revoke_tokens_if_no_active_occupancy user db))"
  by (simp add: revoke_tokens_if_no_active_occupancy_def)

lemma revoke_if_from: "t_ok (auth_tokens db) \<Longrightarrow> tokens_from (auth_tokens (revoke_tokens_if_no_active_occupancy user db)) (auth_tokens db)"
  by (simp add: revoke_tokens_if_no_active_occupancy_def tokens_from_refl tokens_from_delete)

lemma sign_in_ok_same:
  assumes "sign_in_ok db" "users db' = users db" "occupancies db' = occupancies db" "t_ok (auth_tokens db')"
    "tokens_from (auth_tokens db') (auth_tokens db)"
  shows "sign_in_ok db'"
  using assms eligible_cong [OF assms(2,3)] by (intro sign_in_ok_fewer [OF assms(1) _ _ assms(4,5)]) (auto simp: sign_in_ok_iff)

lemma sign_in_ok_revoke: "sign_in_ok db \<Longrightarrow> sign_in_ok (revoke_user_tokens user db)"
  by (rule sign_in_ok_same) (auto simp: sign_in_ok_iff tokens_from_delete)

lemma sign_in_ok_revoke_if: "sign_in_ok db \<Longrightarrow> sign_in_ok (revoke_tokens_if_no_active_occupancy user db)"
  by (simp add: revoke_tokens_if_no_active_occupancy_def sign_in_ok_revoke)

text \<open>A sweep over users leaves no token of one of them without an occupancy.\<close>

lemma revoke_all_fields [simp]:
  "users (fold revoke_tokens_if_no_active_occupancy us db) = users db"
  "occupancies (fold revoke_tokens_if_no_active_occupancy us db) = occupancies db"
  by (induction us arbitrary: db) auto

lemma revoke_all_ok [simp]: "t_ok (auth_tokens db) \<Longrightarrow> t_ok (auth_tokens (fold revoke_tokens_if_no_active_occupancy us db))"
  by (induction us arbitrary: db) auto

lemma revoke_all_from:
  "t_ok (auth_tokens db) \<Longrightarrow> tokens_from (auth_tokens (fold revoke_tokens_if_no_active_occupancy us db)) (auth_tokens db)"
proof (induction us arbitrary: db)
  case (Cons u us)
  then show ?case using tokens_from_trans [OF Cons.IH [OF revoke_if_ok] revoke_if_from] by simp
qed (simp add: tokens_from_refl)

lemma revoke_all_gone:
  assumes "t_ok (auth_tokens db)" "user \<in> set us"
    "t_get (auth_tokens (fold revoke_tokens_if_no_active_occupancy us db)) k = Some t" "at_user t = user"
  shows "has_occupancy db user"
  using assms
proof (induction us arbitrary: db)
  case (Cons u us)
  let ?db = "revoke_tokens_if_no_active_occupancy u db"
  have ok: "t_ok (auth_tokens ?db)" using Cons.prems(1) by simp
  have same: "has_occupancy ?db = has_occupancy db" by (rule has_occupancy_cong) simp
  show ?case
  proof (cases "u = user")
    case True
    obtain t0 where "t_get (auth_tokens ?db) k = Some t0" "at_user t0 = user"
      using revoke_all_from [OF ok, of us] Cons.prems(3,4) by (auto simp: tokens_from_def)
    then show ?thesis
      using Cons.prems(1) True
      by (auto simp: revoke_tokens_if_no_active_occupancy_def table_simps split: if_splits option.splits)
  qed (use Cons.IH [OF ok] Cons.prems same in auto)
qed simp

section \<open>Deactivation\<close>

lemma save_user_active_ok:
  assumes "sign_in_ok db"
  shows "sign_in_ok (save_user_active user active db)"
proof (rule sign_in_ok_fewer [OF assms])
  fix k t
  assume t: "t_get (auth_tokens (save_user_active user active db)) k = Some t" and e: "eligible db (at_user t)"
  have "has_occupancy (save_user_active user active db) = has_occupancy db"
    by (rule has_occupancy_cong) (simp add: save_user_active_def Let_def)
  then show "eligible (save_user_active user active db) (at_user t)"
    using t e assms
    by (auto simp: eligible_def save_user_active_def Let_def table_simps sign_in_ok_iff split: option.splits if_splits)
qed (use assms in \<open>auto simp: save_user_active_def Let_def sign_in_ok_iff tokens_from_refl tokens_from_delete\<close>)

text \<open>Occupancies may go as long as the users who held them are swept.\<close>

lemma occupancy_sweep_ok:
  assumes ok: "sign_in_ok db" and occ: "t_ok oc'"
    and swept: "\<And>user. eligible db user \<Longrightarrow> \<not> has_occupancy (db \<lparr> occupancies := oc' \<rparr>) user \<Longrightarrow> user \<in> set us"
  shows "sign_in_ok (fold revoke_tokens_if_no_active_occupancy us (db \<lparr> occupancies := oc' \<rparr>))"
proof (rule sign_in_ok_fewer [OF ok])
  let ?db = "db \<lparr> occupancies := oc' \<rparr>"
  let ?db' = "fold revoke_tokens_if_no_active_occupancy us ?db"
  have ts: "t_ok (auth_tokens ?db)" using ok by (simp add: sign_in_ok_iff)
  show "tokens_from (auth_tokens ?db') (auth_tokens db)" using revoke_all_from [OF ts] by simp
  fix k t
  assume t: "t_get (auth_tokens ?db') k = Some t" and e: "eligible db (at_user t)"
  have "has_occupancy ?db (at_user t)"
    using swept [OF e] revoke_all_gone [OF ts _ t] by auto
  moreover have "has_occupancy ?db' = has_occupancy ?db" by (rule has_occupancy_cong) simp
  ultimately show "eligible ?db' (at_user t)" using e by (simp add: eligible_def split: option.splits)
qed (use ok occ in \<open>auto simp: sign_in_ok_iff\<close>)

lemma save_occupancy_active_ok:
  assumes "sign_in_ok db" "t_get (occupancies db) k = Some oc"
  shows "sign_in_ok (save_occupancy_active k oc active db)"
proof -
  let ?oc = "t_update k (\<lambda>x. x \<lparr> oc_active := active \<rparr>) (occupancies db)"
  have occ: "t_ok (occupancies db)" "t_ok ?oc" using assms(1) by (simp_all add: sign_in_ok_iff)
  have "user \<in> set (if active then [] else [oc_user oc])"
    if e: "eligible db user" and lost: "\<not> has_occupancy (db \<lparr> occupancies := ?oc \<rparr>) user" for user
  proof -
    obtain j x where j: "t_get (occupancies db) j = Some x" "oc_user x = user" "oc_active x"
      using e occ(1) by (auto simp: eligible_def has_occupancy_iff)
    then have "t_get ?oc j = Some (if j = k then x \<lparr> oc_active := active \<rparr> else x)" by (auto simp: table_simps)
    then have "j = k \<and> \<not> active"
      using lost occ(2) j has_occupancyI [of "db \<lparr> occupancies := ?oc \<rparr>" j] by (auto split: if_splits)
    then show ?thesis using j assms(2) by simp
  qed
  from occupancy_sweep_ok [OF assms(1) occ(2) this] show ?thesis
    by (cases active) (simp_all add: save_occupancy_active_def)
qed

lemma deactivate_occupancy_ok: "sign_in_ok db \<Longrightarrow> sign_in_ok (deactivate_occupancy k db)"
  by (auto simp: deactivate_occupancy_def intro: sign_in_ok_revoke_if save_occupancy_active_ok split: option.splits)

lemma deactivate_occupancies_ok:
  assumes "sign_in_ok db"
  shows "sign_in_ok (fst (deactivate_occupancies P db))"
proof -
  let ?active = "\<lambda>k oc. P k oc \<and> oc_active oc"
  let ?oc = "t_update_all ?active (\<lambda>oc. oc \<lparr> oc_active := False \<rparr>) (occupancies db)"
  let ?ids = "remdups (map (\<lambda>(_, oc). oc_user oc) (t_filter ?active (occupancies db)))"
  have occ: "t_ok (occupancies db)" "t_ok ?oc" "t_ok (users db)" using assms by (simp_all add: sign_in_ok_iff)
  have "user \<in> set (map fst (t_filter (\<lambda>u _. u \<in> set ?ids) (users db)))"
    if e: "eligible db user" and lost: "\<not> has_occupancy (db \<lparr> occupancies := ?oc \<rparr>) user" for user
  proof -
    obtain k oc where k: "t_get (occupancies db) k = Some oc" "oc_user oc = user" "oc_active oc"
      using e occ(1) by (auto simp: eligible_def has_occupancy_iff)
    then have "P k oc" using lost occ(2) by (auto simp: has_occupancy_iff table_simps split: if_splits)
    then have "user \<in> set ?ids" using k in_filter_get [OF occ(1), of k oc ?active] by force
    moreover obtain u where "t_get (users db) user = Some u" using e by (auto simp: eligible_def split: option.splits)
    ultimately show ?thesis using in_filter_get [OF occ(3), of user u "\<lambda>u _. u \<in> set ?ids"] by force
  qed
  from occupancy_sweep_ok [OF assms occ(2) this] show ?thesis
    by (simp add: deactivate_occupancies_def Let_def)
qed

lemma deactivate_user_ok: "sign_in_ok db \<Longrightarrow> sign_in_ok (deactivate_user user db)"
  by (auto simp: deactivate_user_def intro: sign_in_ok_revoke save_user_active_ok split: option.splits)

section \<open>Log-in\<close>

lemma set_stale:
  assumes "t_ok (auth_tokens db)" "t_get (auth_tokens db) k = Some t" "at_user t = user" "k \<notin> set (stale_tokens user db)"
  shows "k \<in> set (take (TOKEN_CAP_PER_USER - 1)
    (map fst (rev (sort_key (\<lambda>(_, t). at_created t) (t_filter (\<lambda>_ t. at_user t = user) (auth_tokens db))))))"
    (is "k \<in> set (take ?n ?ks)")
proof -
  have "(k, t) \<in> set (t_filter (\<lambda>_ t. at_user t = user) (auth_tokens db))"
    using assms by (simp add: in_filter_get)
  then have "k \<in> set ?ks" by force
  then have "k \<in> set (take ?n ?ks) \<union> set (drop ?n ?ks)" by (metis append_take_drop_id set_append)
  then show ?thesis using assms(4) by (auto simp: stale_tokens_def)
qed

lemma room_for_token:
  assumes "t_ok (auth_tokens db)"
  shows "length (t_filter (\<lambda>_ t. at_user t = user) (t_delete (\<lambda>k _. k \<in> set (stale_tokens user db)) (auth_tokens db)))
    < TOKEN_CAP_PER_USER" (is "length (t_filter _ ?kept) < _")
proof -
  let ?ks = "take (TOKEN_CAP_PER_USER - 1)
    (map fst (rev (sort_key (\<lambda>(_, t). at_created t) (t_filter (\<lambda>_ t. at_user t = user) (auth_tokens db)))))"
  have "{k. \<exists>t. t_get ?kept k = Some t \<and> at_user t = user} \<subseteq> set ?ks"
    using assms set_stale [OF assms] by (auto simp: table_simps split: option.splits if_splits)
  then have "card {k. \<exists>t. t_get ?kept k = Some t \<and> at_user t = user} \<le> card (set ?ks)" by (intro card_mono) auto
  also have "\<dots> \<le> TOKEN_CAP_PER_USER - 1" by (rule order_trans [OF card_length]) simp
  finally show ?thesis using assms by (simp add: length_filter_card TOKEN_CAP_PER_USER_def)
qed

lemma issue_token_ok:
  assumes "sign_in_ok db" "eligible db user"
  shows "sign_in_ok (issue_token env se user db)"
proof -
  let ?kept = "t_delete (\<lambda>k _. k \<in> set (stale_tokens user db)) (auth_tokens db)"
  let ?db1 = "db \<lparr> auth_tokens := ?kept \<rparr>"
  let ?db2 = "issue_token env se user db"
  have ts: "t_ok (auth_tokens db)" using assms(1) by (simp add: sign_in_ok_iff)
  have ok1: "sign_in_ok ?db1"
    by (rule sign_in_ok_same [OF assms(1)]) (simp_all add: ts tokens_from_delete)
  have e: "eligible ?db2 = eligible db" "eligible ?db1 = eligible db"
    by (rule eligible_cong; simp add: issue_token_def Let_def)+
  have cap: "length (user_tokens ?db2 v) \<le> TOKEN_CAP_PER_USER" for v
    using user_tokens_cap [OF ok1, of v] room_for_token [OF ts, of user]
    by (auto simp: user_tokens_def issue_token_def Let_def table_simps)
  have "eligible db (at_user t)" if "t_get (auth_tokens ?db2) k = Some t" for k t
    using that assms(2) ok1 ts e(2) by (auto simp: issue_token_def Let_def table_simps sign_in_ok_iff split: if_splits)
  then show ?thesis using assms(1) cap ts e(1) by (simp add: sign_in_ok_iff issue_token_def Let_def)
qed

lemma auth_failure_keeps_tokens [simp]:
  fixes db :: "'z sdb"
  shows "users (snd (record_auth_failure env db account ip)) = users db"
    "occupancies (snd (record_auth_failure env db account ip)) = occupancies db"
    "auth_tokens (snd (record_auth_failure env db account ip)) = auth_tokens db"
  by (simp_all add: record_auth_failure_def get_or_create_bucket_def Let_def split: prod.splits option.splits)

lemma throttle_reset_keeps_tokens [simp]:
  fixes db :: "'z sdb"
  shows "users (reset_auth_throttle env db account ip) = users db"
    "occupancies (reset_auth_throttle env db account ip) = occupancies db"
    "auth_tokens (reset_auth_throttle env db account ip) = auth_tokens db"
  by (simp_all add: reset_auth_throttle_def split: option.splits)

lemma authenticate_active:
  assumes "t_ok (users db)" "authenticate se db (Some name) (Some password) kwarg = Inr (Some user)"
  shows "\<exists>u. t_get (users db) user = Some u \<and> u_is_active u \<and> check_password se password (u_password u)"
proof -
  obtain u where u: "find_account db name = Inr (Some (user, u))" "u_is_active u" "check_password se password (u_password u)"
    using assms(2) by (auto simp: authenticate_def split: sum.splits option.splits prod.splits if_splits)
  obtain P where "t_filter P (users db) = [(user, u)]"
    using u(1) by (auto simp: find_account_def split: list.splits option.splits)
  then have "(user, u) \<in> set (t_filter P (users db))" by simp
  then show ?thesis using u in_filter_get [OF assms(1)] by blast
qed

lemma frame_ok:
  assumes "sign_in_ok db" "users db' = users db" "occupancies db' = occupancies db" "auth_tokens db' = auth_tokens db"
  shows "sign_in_ok db'"
  by (rule sign_in_ok_same [OF assms(1-3)]) (use assms in \<open>auto simp: sign_in_ok_iff tokens_from_refl\<close>)

lemma login_ok:
  assumes "sign_in_ok db"
  shows "sign_in_ok (fst (login env se db identifier password ip))"
proof -
  let ?id = "canonicalize_login_identifier env identifier"
  have failure: "sign_in_ok (snd (record_auth_failure env db account ip))" for account
    by (rule frame_ok [OF assms]) simp_all
  have success: "sign_in_ok (issue_token env se user (reset_auth_throttle env db account ip))"
    if "authenticate se db (Some ?id) (Some password) None = Inr (Some user)" "has_occupancy db user" for user account
  proof (rule issue_token_ok)
    show "sign_in_ok (reset_auth_throttle env db account ip)" by (rule frame_ok [OF assms]) simp_all
    have "eligible db user" using authenticate_active [OF _ that(1)] that(2) assms by (auto simp: eligible_def sign_in_ok_iff)
    then show "eligible (reset_auth_throttle env db account ip) user" using eligible_cong throttle_reset_keeps_tokens(1,2) by metis
  qed
  show ?thesis
    using assms failure success by (auto simp: login_def Let_def sign_in_ok_revoke_if split: sum.splits option.splits)
qed

section \<open>Requests\<close>

lemma token_authenticate_ok:
  assumes "knox_law se" "sign_in_ok db"
  shows "sign_in_ok (fst (token_authenticate se db header))"
proof -
  obtain ts r where k: "knox_authenticate se (auth_tokens db) (users db) header = (ts, r)" by fastforce
  have "t_ok (auth_tokens db)" using assms(2) by (simp add: sign_in_ok_iff)
  with k assms(1) have "t_ok ts" "tokens_from ts (auth_tokens db)"
    unfolding knox_law_def tokens_from_def by metis+
  then have "sign_in_ok (db \<lparr> auth_tokens := ts \<rparr>)" by (intro sign_in_ok_same [OF assms(2)]) simp_all
  then show ?thesis using k
    by (auto simp: token_authenticate_def Let_def sign_in_ok_revoke_if split: sum.splits option.splits)
qed

lemma deactivate_where_frame [simp]:
  fixes db :: "'z sdb"
  shows "users (fst (deactivate_where P db)) = users db" "occupancies (fst (deactivate_where P db)) = occupancies db"
    "auth_tokens (fst (deactivate_where P db)) = auth_tokens db"
  by (simp_all add: deactivate_where_def)

lemma sign_in_ok_devices:
  fixes db :: "'z sdb"
  shows "sign_in_ok db \<Longrightarrow> sign_in_ok (fst (deactivate_where P db))"
  by (erule frame_ok) simp_all

lemma delete_token_ok: "sign_in_ok db \<Longrightarrow> sign_in_ok (db \<lparr> auth_tokens := t_delete P (auth_tokens db) \<rparr>)"
  by (rule sign_in_ok_same) (auto simp: sign_in_ok_iff tokens_from_delete)

lemma logout_ok:
  assumes "knox_law se" "sign_in_ok db"
  shows "sign_in_ok (fst (logout se db header install_id))" "sign_in_ok (fst (logout_all se db header))"
  using token_authenticate_ok [OF assms, of header]
  by (auto simp: logout_def logout_all_def Let_def deactivate_device_def deactivate_user_devices_def
      intro!: sign_in_ok_devices delete_token_ok sign_in_ok_revoke split: prod.splits sum.splits option.splits)

lemma sign_in_exec_ok:
  assumes "knox_law se" "sign_in_ok db"
  shows "sign_in_ok (sign_in_exec (env, se, c) db)"
  using assms
  by (cases c) (auto simp: login_ok token_authenticate_ok logout_ok deactivate_occupancy_ok deactivate_occupancies_ok
      deactivate_user_ok save_user_active_ok save_occupancy_active_ok split: option.splits)

lemma sign_in_run_ok:
  assumes "list_all (\<lambda>(_, se, _). knox_law se) cs" "sign_in_ok db"
  shows "sign_in_ok (fold sign_in_exec cs db)"
  using assms by (induction cs arbitrary: db) (auto simp: sign_in_exec_ok)

text \<open>
  C39.  Through any sequence of log-ins, requests, log-outs, deactivations and saves of users and occupancies, no user
  ever holds more than five tokens, and every token belongs to an active user with an active occupancy.
\<close>

theorem resident_tokens:
  assumes "list_all (\<lambda>(_, se, _). knox_law se) cs" "sign_in_ok db" "db' = fold sign_in_exec cs db"
  shows "length (user_tokens db' user) \<le> TOKEN_CAP_PER_USER
    \<and> (user_tokens db' user \<noteq> [] \<longrightarrow> eligible db' user)"
proof -
  have ok: "sign_in_ok db'" using sign_in_run_ok assms by blast
  have "eligible db' user" if "(k, t) \<in> set (user_tokens db' user)" for k t
    using that ok by (auto simp: user_tokens_def sign_in_ok_iff in_filter_get)
  then have "user_tokens db' user \<noteq> [] \<Longrightarrow> eligible db' user" by (cases "user_tokens db' user") auto
  with user_tokens_cap [OF ok] show ?thesis by blast
qed





text \<open>
  A token whose user lost the last occupancy through a bulk update is never honoured: the request fails and takes all
  the user's tokens with it.
\<close>

lemma stale_token_refused:
  assumes "knox_law se" "t_ok (auth_tokens db)" "knox_authenticate se (auth_tokens db) (users db) header = (ts, Inr (Some k))"
    "t_get ts k = Some t" "\<not> has_occupancy db (at_user t)"
  shows "snd (token_authenticate se db header) = Inl AuthenticationFailed
    \<and> user_tokens (fst (token_authenticate se db header)) (at_user t) = []"
proof -
  have "has_occupancy (db \<lparr> auth_tokens := ts \<rparr>) = has_occupancy db" by (rule has_occupancy_cong) simp
  then show ?thesis
    using assms by (simp add: token_authenticate_def revoke_tokens_if_no_active_occupancy_def user_tokens_def
        t_filter_def t_delete_def filter_empty_conv split_beta)
qed

section \<open>The occupancy of a request\<close>

lemma map_sum_pair [simp]: "map_sum id (Pair a) r = Inr (k, c) \<longleftrightarrow> a = k \<and> r = Inr c"
  by (cases r) auto

lemma api_occupancy_own:
  assumes "t_ok (occupancies db)" "resolve_api_occupancy db user header = Inr (k, ctx)"
  shows "\<exists>oc. t_get (occupancies db) k = Some oc \<and> oc_user oc = user \<and> oc_active oc \<and> tc_occupancy_id ctx = Some k
    \<and> (case header of None \<Rightarrow> active_occupancies db user = [(k, oc)] | Some raw \<Rightarrow> py_int (PyStr raw) = Some (int k))"
proof -
  let ?own = "active_occupancies db user"
  obtain oc where oc: "(k, oc) \<in> set ?own" "from_occupancy db k oc = Inr ctx"
      "case header of None \<Rightarrow> ?own = [(k, oc)] | Some raw \<Rightarrow> py_int (PyStr raw) = Some (int k)"
  proof (cases header)
    case None
    then obtain x where "?own = [x]"
      using assms(2) by (cases ?own; cases "tl ?own") (auto simp: resolve_api_occupancy_def Let_def split: if_splits)
    with None assms(2) show thesis
      by (intro that [of "snd x"]; cases x) (auto simp: resolve_api_occupancy_def Let_def split: sum.splits)
  next
    case (Some raw)
    then obtain sel where "find_occupancy ?own (PyStr raw) = Some sel"
        "(case sel of (k, oc) \<Rightarrow> map_sum id (Pair k) (from_occupancy db k oc)) = Inr (k, ctx)"
      using assms(2) by (auto simp: resolve_api_occupancy_def Let_def split: if_splits option.splits)
    then show thesis
      using find_occupancy_own [of ?own "PyStr raw"] Some by (cases sel) (auto intro!: that [of "snd sel"])
  qed
  moreover have "tc_occupancy_id ctx = Some k" using oc(2) by (auto simp: from_occupancy_def split: option.splits)
  ultimately show ?thesis using in_filter_get [OF assms(1)] by (auto simp: active_occupancies_def)
qed

section \<open>Sample\<close>

text \<open>A resident with one token; Knox takes a token by its digest, as long as it has not expired.\<close>

definition sample_knox :: "time \<Rightarrow> token_row table \<Rightarrow> user_row table \<Rightarrow> string \<Rightarrow> token_row table \<times> pk option result" where
  "sample_knox moment ts us header =
     (let live = t_delete (\<lambda>_ t. at_expiry t \<le> moment) ts in
      (live, case t_first (\<lambda>_ t. header = ''Token '' @ at_digest t \<and> (case t_get us (at_user t) of None \<Rightarrow> False | Some u \<Rightarrow> u_is_active u)) live of
               None \<Rightarrow> Inl AuthenticationFailed
             | Some (k, _) \<Rightarrow> Inr (Some k)))"

definition sample_sign_in_env :: sign_in_env where
  "sample_sign_in_env = \<lparr> check_password = (\<lambda>p h. h = p), fresh_token = ''secret'', token_key = id, TOKEN_TTL = days 30,
     knox_authenticate = sample_knox 42 \<rparr>"

definition sample_signed_in :: sign_in_db where
  "sample_signed_in = notifications_db.extend
     (domain_db.extend sample_site (notifications_db.fields t_empty t_empty t_empty t_empty [] []))
     (sign_in_db.fields (Table 2 [(1, \<lparr> at_user = 2, at_digest = ''old'', at_created = 1, at_expiry = 100 \<rparr>)]))"

lemma sample_knox_law: "knox_law sample_sign_in_env"
proof -
  have "t_ok (t_delete P ts)" if "t_ok ts" for P and ts :: "token_row table" using that by simp
  then show ?thesis
    by (fastforce simp: knox_law_def sample_sign_in_env_def sample_knox_def Let_def table_simps
        dest: t_first_Some_get [rotated] split: option.splits if_splits)
qed

lemma sample_signed_in_ok: "sign_in_ok sample_signed_in"
  by code_simp

theorem resident_tokens_witness:
  "length (user_tokens (fold sign_in_exec (replicate 7 (sample_env, sample_sign_in_env, Login ''+84 900 000 001'' [] None)) sample_signed_in) 2) \<le> 5"
  using resident_tokens [OF _ sample_signed_in_ok refl, of "replicate 7 (sample_env, sample_sign_in_env, Login ''+84 900 000 001'' [] None)" 2]
    sample_knox_law by (simp add: list_all_iff TOKEN_CAP_PER_USER_def)


end
