(* ===== verification/Triage_Runs.thy ===== *)
theory Triage_Runs
  imports Triage_Jobs Samples
begin

text \<open>
  Triage over whole runs: the services of the site, claims and the processing of claimed jobs by any number of
  workers, in any order, with any answer of the provider.  A job is attempted once, a settled job stays as it is, and
  a suggestion satisfies the contract of \<open>_validate_response\<close> whatever the provider answered.
\<close>

section \<open>The triage tables under the services\<close>

definition triage_part :: "'z ddb \<Rightarrow> triage_job_row table \<times> suggestion_row table" where
  "triage_part db = (triage_jobs db, suggestions db)"

definition new_job :: "pk \<Rightarrow> triage_job_row" where
  "new_job r = \<lparr> tj_report = r, tj_status = TPending, tj_failure_reason = [], tj_started_at = None, tj_completed_at = None \<rparr>"

definition jobs_grow :: "'z ddb \<Rightarrow> 'z ddb \<Rightarrow> bool" where
  "jobs_grow db db' \<longleftrightarrow> triage_part db' = triage_part db
     \<or> (\<exists>r. triage_part db' = (t_insert (new_job r) (triage_jobs db), suggestions db))"

lemma triage_part_updates [simp]:
  "triage_part (db \<lparr> reports := x1 \<rparr>) = triage_part db" "triage_part (db \<lparr> report_photos := x2 \<rparr>) = triage_part db"
  "triage_part (db \<lparr> decisions := x4 \<rparr>) = triage_part db" "triage_part (db \<lparr> cases := x5 \<rparr>) = triage_part db"
  "triage_part (db \<lparr> case_reports := x6 \<rparr>) = triage_part db" "triage_part (db \<lparr> info_requests := x7 \<rparr>) = triage_part db"
  "triage_part (db \<lparr> work_updates := x8 \<rparr>) = triage_part db" "triage_part (db \<lparr> ratings := x9 \<rparr>) = triage_part db"
  "triage_part (db \<lparr> proposals := y1 \<rparr>) = triage_part db" "triage_part (db \<lparr> proposal_versions := y2 \<rparr>) = triage_part db"
  "triage_part (db \<lparr> proposal_documents := y3 \<rparr>) = triage_part db" "triage_part (db \<lparr> settlements := y4 \<rparr>) = triage_part db"
  "triage_part (db \<lparr> funds := y5 \<rparr>) = triage_part db" "triage_part (db \<lparr> fund_entries := y6 \<rparr>) = triage_part db"
  "triage_part (db \<lparr> fund_verifications := y7 \<rparr>) = triage_part db" "triage_part (db \<lparr> ledger := y8 \<rparr>) = triage_part db"
  "triage_part (db \<lparr> predictions := y9 \<rparr>) = triage_part db" "triage_part (db \<lparr> audit_log := z1 \<rparr>) = triage_part db"
  "triage_part (db \<lparr> outbox := z2 \<rparr>) = triage_part db"
  by (simp_all add: triage_part_def)

lemma triage_part_frames [simp]:
  "triage_part (set_reports P s db) = triage_part db" "triage_part (set_case c f db) = triage_part db"
  "triage_part (set_proposal p g db) = triage_part db" "triage_part (attach_prediction pid v pr amount db) = triage_part db"
  "triage_part (close_case t c db) = triage_part db" "triage_part (decline_close t r l db) = triage_part db"
  by (simp_all add: set_reports_def set_case_def set_proposal_def attach_prediction_def close_case_def decline_close_def Let_def
      split: option.splits)

lemma triage_part_close [simp]: "triage_part (snd (close_proposal t pp st)) = triage_part (snd st)"
  by (simp add: close_proposal_def split: prod.splits)

lemma triage_part_folds [simp]:
  "triage_part (fold (decline_close t r) ls db) = triage_part db"
  "triage_part (fold (\<lambda>(c, _). close_case t c) cs db) = triage_part db"
  "triage_part (snd (fold (close_proposal t) ps st)) = triage_part (snd st)"
proof -
  show "triage_part (fold (decline_close t r) ls db) = triage_part db" by (induction ls arbitrary: db) simp_all
  show "triage_part (fold (\<lambda>(c, _). close_case t c) cs db) = triage_part db" by (induction cs arbitrary: db) auto
  show "triage_part (snd (fold (close_proposal t) ps st)) = triage_part (snd st)" by (induction ps arbitrary: st) simp_all
qed

lemma beside_triage: "beside_outbox db' = beside_outbox db \<Longrightarrow> triage_part db' = triage_part db"
  by (drule arg_cong [where f = triage_part]) (simp add: beside_outbox_def)

lemma record_audit_triage: "record_audit env db actor mem action ty tid res meta = Inr db' \<Longrightarrow> triage_part db' = triage_part db"
  using record_audit_appends by fastforce

lemma jobs_grow_same: "triage_part db' = triage_part db \<Longrightarrow> jobs_grow db db'"
  by (simp add: jobs_grow_def)

lemma queue_triage: "queue_platform_event env db eid ty payload prev b = Inr (ev, db') \<Longrightarrow> triage_part db' = triage_part db"
  using queue_domain [of env db eid ty payload prev b ev db'] by auto

lemma submit_report_triage:
  "submit_report_idempotent env db r u t l ps ref priv = Inr (k, b, db') \<Longrightarrow> jobs_grow db db'"
  by (fastforce simp: submit_report_idempotent_def submit_report_def Let_def jobs_grow_def new_job_def triage_part_def
      dest!: record_audit_triage split: svc_splits)

lemma maintenance_triage:
  "confirm_triage env db r op cat urg loc q d = Inr (k', db') \<Longrightarrow> triage_part db' = triage_part db"
  "group_report env db c r op = Inr (k', db') \<Longrightarrow> triage_part db' = triage_part db"
  "start_case_work env db c m = Inr db' \<Longrightarrow> triage_part db' = triage_part db"
  "publish_progress env db oc m cause rs op' = Inr (k', db') \<Longrightarrow> triage_part db' = triage_part db"
  "complete_case_work env db c m cause rs = Inr db' \<Longrightarrow> triage_part db' = triage_part db"
  "complete_proposal_work env db c m cause rs = Inr db' \<Longrightarrow> triage_part db' = triage_part db"
  "request_information env db r m msg = Inr (k', db') \<Longrightarrow> triage_part db' = triage_part db"
  "reply_information env db rs' r t = Inr (k', db') \<Longrightarrow> triage_part db' = triage_part db"
  "decline_report env db r m why = Inr db' \<Longrightarrow> triage_part db' = triage_part db"
  "rate_completed_proposal env db rs' p sat com = Inr (k, db') \<Longrightarrow> triage_part db' = triage_part db"
  "rate_completed_case env db rs' c sat com = Inr (k, db') \<Longrightarrow> triage_part db' = triage_part db"
  subgoal by (auto simp: confirm_triage_def link_report_def Let_def split: svc_splits dest!: record_audit_triage)
  subgoal by (auto simp: group_report_def link_report_def Let_def split: svc_splits dest!: record_audit_triage)
  subgoal by (auto simp: start_case_work_def Let_def split: svc_splits dest!: record_audit_triage)
  subgoal by (auto simp: publish_progress_def append_update_def split: svc_splits dest!: record_audit_triage)
  subgoal by (auto simp: complete_case_work_def append_update_def Let_def split: svc_splits dest!: record_audit_triage)
  subgoal by (auto simp: complete_proposal_work_def append_update_def Let_def split: svc_splits dest!: record_audit_triage)
  subgoal by (auto simp: request_information_def Let_def split: svc_splits dest!: record_audit_triage)
  subgoal by (auto simp: reply_information_def Let_def split: svc_splits dest!: record_audit_triage)
  subgoal by (auto simp: decline_report_def Let_def split: svc_splits dest!: record_audit_triage)
  subgoal by (auto simp: rate_completed_proposal_def Let_def split: svc_splits dest!: record_audit_triage)
  subgoal by (auto simp: rate_completed_case_def Let_def split: svc_splits dest!: record_audit_triage)
  done

lemma insert_version_triage: "insert_version db p pr row qs pred tok = Inr (v, db') \<Longrightarrow> triage_part db' = triage_part db"
  by (auto simp: insert_version_def Let_def split: if_splits)

lemma outflow_triage: "create_settlement_outflow sk s b db = Inr (k, db') \<Longrightarrow> triage_part db' = triage_part db"
  by (auto simp: create_settlement_outflow_def get_or_create_fund_def Let_def split: prod.splits option.splits if_splits)

lemma publish_entry_triage: "publish_settlement_entry env db sk = Inr (k, db') \<Longrightarrow> triage_part db' = triage_part db"
  by (auto simp: publish_settlement_entry_def Let_def split: option.splits sum.splits if_splits dest!: record_audit_triage)

lemma finance_triage:
  "create_proposal env db c m = Inr (k, db') \<Longrightarrow> triage_part db' = triage_part db"
  "create_standalone_proposal env db b m = Inr (k, db') \<Longrightarrow> triage_part db' = triage_part db"
  "decide_proposal env db p m proceed note0 = Inr db' \<Longrightarrow> triage_part db' = triage_part db"
  "record_fund_source env db f t amt ev m = Inr (k, db') \<Longrightarrow> triage_part db' = triage_part db"
  "verify_fund_source env db e m = Inr (k, db') \<Longrightarrow> triage_part db' = triage_part db"
  "publish_proposal_version env db p m a = Inr (k, db') \<Longrightarrow> triage_part db' = triage_part db"
  "record_settlement env db p m tr eid = Inr (k, db') \<Longrightarrow> triage_part db' = triage_part db"
  subgoal by (auto simp: create_proposal_def Let_def split: svc_splits dest!: record_audit_triage)
  subgoal by (auto simp: create_standalone_proposal_def Let_def split: svc_splits dest!: record_audit_triage)
  subgoal by (auto simp: decide_proposal_def Let_def split: svc_splits dest!: record_audit_triage)
  subgoal by (auto simp: record_fund_source_def Let_def split: svc_splits dest!: record_audit_triage)
  subgoal by (auto simp: verify_fund_source_def Let_def split: svc_splits dest!: record_audit_triage)
  subgoal by (auto simp: publish_proposal_version_def Let_def split: sum.splits option.splits
      dest!: insert_version_triage queue_triage record_audit_triage)
  subgoal by (auto simp: record_settlement_def Let_def split: option.splits sum.splits if_splits
      dest!: queue_triage outflow_triage publish_entry_triage record_audit_triage)
  done

lemma exec_jobs_grow: "jobs_grow db (exec c db)"
proof (rule exec_induct [where R = jobs_grow])
  show "jobs_grow db (snd (close_expired_completed_cases t db))" for t
    by (rule jobs_grow_same)
      (simp add: close_expired_completed_cases_def Let_def split_def triage_part_folds [unfolded split_def])
  show "jobs_grow db (snd (process_due_outbox_events env prov n db))" for env prov n
    by (intro jobs_grow_same beside_triage beside_due)
qed (auto intro: jobs_grow_same submit_report_triage maintenance_triage finance_triage beside_triage beside_process)

section \<open>Claims and processing\<close>

text \<open>What a claim and the processing of a claimed job do, on every branch.\<close>

lemma claim_SomeD:
  assumes "claim_triage_job env jid db = Some (k, db')" "t_ok (triage_jobs db)"
  obtains j where "t_get (triage_jobs db) k = Some j" "tj_status j = TPending"
    "db' = db \<lparr> triage_jobs := t_update k (\<lambda>j. j \<lparr> tj_status := TProcessing, tj_started_at := Some (now env),
       tj_failure_reason := [] \<rparr>) (triage_jobs db) \<rparr>"
  using assms t_first_Some_get [OF assms(2)] by (fastforce simp: claim_triage_job_def split: option.splits)

inductive processed ::
  "env \<Rightarrow> triage_env \<Rightarrow> pk \<Rightarrow> 'z ddb \<Rightarrow> 'z ddb \<Rightarrow> pk result \<Rightarrow> bool" for env te k db where
  raised: "processed env te k db db (Inl x)"
| to_manual: "t_get (triage_jobs db) k = Some j \<Longrightarrow>
    processed env te k db (manual env k (tj_report j) reason db) (Inr k)"
| suggested: "t_get (triage_jobs db) k = Some j \<Longrightarrow> t_get (reports db) (tj_report j) = Some r \<Longrightarrow>
    ids = map fst (find_duplicate_candidates te db (tj_report j) r 5) \<Longrightarrow>
    validate_response te triage (int ` set ids) = Inr p \<Longrightarrow> item p ''requires_manual_review'' \<noteq> PyBool True \<Longrightarrow>
    create_suggestion (suggestion_from env te k rid ids p) (stored_texts rid p) db = Inr db1 \<Longrightarrow>
    processed env te k db (succeed env k (tj_report j) db1) (Inr k)"

lemma process_answer_processed:
  assumes "t_get (triage_jobs db) k = Some j" "t_get (reports db) (tj_report j) = Some r"
    and "ids = map fst (find_duplicate_candidates te db (tj_report j) r 5)"
    and "process_answer env te k (tj_report j) ids raw db = (db', res)"
  shows "processed env te k db db' res"
  using assms(4) assms(1-3)
  by (auto simp: process_answer_def split: attempt.splits prod.splits sum.splits if_splits intro: processed.intros)

lemma process_claimed_processed:
  assumes "process_claimed_job env te k db = (db', res)"
  shows "processed env te k db db' res"
  using assms
  by (auto simp: process_claimed_job_def Let_def split: option.splits sum.splits attempt.splits
      intro: processed.intros process_answer_processed)

section \<open>Suggestions\<close>

text \<open>The contract of a suggestion, whatever the provider answered.\<close>

definition suggestion_ok :: "suggestion_row \<Rightarrow> bool" where
  "suggestion_ok s \<longleftrightarrow> ts_category s \<in> set CATEGORIES \<and> ts_urgency s \<in> set URGENCIES
     \<and> ts_management_queue s \<in> set MANAGEMENT_QUEUES \<and> 0 \<le> ts_confidence_percent s \<and> ts_confidence_percent s \<le> 100
     \<and> 0 < ts_deadline_minutes s \<and> ts_deadline_minutes s \<le> MAX_INTEGER
     \<and> ts_interpreted_location s \<noteq> [] \<and> py_len (ts_interpreted_location s) \<le> 1000
     \<and> list_all (\<lambda>x. x \<noteq> []) (ts_missing_information s)"

lemma normalize_vocabulary:
  "normalize_category v \<in> set CATEGORIES" "normalize_management_queue v \<in> set MANAGEMENT_QUEUES"
  by (simp_all add: normalize_category_def normalize_management_queue_def Let_def CATEGORIES_def MANAGEMENT_QUEUES_def)

lemma validate_response_facts:
  assumes "validate_response te payload ids = Inr p"
  shows "item p ''urgency'' \<in> set (map PyStr URGENCIES)"
    and "0 \<le> int_value (item p ''confidence_percent'')" "int_value (item p ''confidence_percent'') \<le> 100"
    and "0 < int_value (item p ''deadline_minutes'')"
    and "valid_string (item p ''interpreted_location'')" "py_len (str_value (item p ''interpreted_location'')) \<le> 1000"
    and "int_value ` set (list_value (item p ''duplicate_report_ids'')) \<subseteq> ids"
    and "list_all valid_string (list_value (item p ''missing_information''))"
  using assms
  by (auto simp: validate_response_def MODEL_STRING_LIMITS_def list_all_iff list_ex_iff split: pyval.splits if_splits option.splits)

lemma valid_string_value: "valid_string v \<Longrightarrow> str_value v \<noteq> []"
  by (auto simp: valid_string_def split: pyval.splits)

lemma suggestion_from_ok:
  assumes "validate_response te payload ids = Inr p" "storable (suggestion_from env te k rid cs p) texts"
  shows "suggestion_ok (suggestion_from env te k rid cs p)"
  using validate_response_facts [OF assms(1)] assms(2) valid_string_value
  by (auto simp: suggestion_ok_def suggestion_from_def normalize_vocabulary storable_def list_all_iff)

lemma candidates_open:
  assumes "t_ok (reports db)" "(i, c) \<in> set (find_duplicate_candidates te db k r n)"
  shows "t_get (reports db) i = Some c \<and> candidate_for te db k r i c"
proof -
  have "(i, c) \<in> set (t_filter (candidate_for te db k r) (reports db))"
    using assms(2) set_take_subset by (fastforce simp: find_duplicate_candidates_def)
  then show ?thesis using in_filter_get [OF assms(1)] by blast
qed

section \<open>Runs\<close>

text \<open>
  A run of the site with its triage workers: besides the database, the jobs that a worker has claimed and not yet
  processed, and the jobs that were sent to the provider, in order.  A worker processes only a job it holds.
\<close>

datatype triage_step =
    Service "env \<times> provider \<times> cmd"
  | Claim env "pk option"
  | Process env triage_env pk

type_synonym 'z triage_state = "'z ddb \<times> pk list \<times> pk list"

fun triage_exec :: "triage_step \<Rightarrow> 'z triage_state \<Rightarrow> 'z triage_state" where
  "triage_exec (Service c) (db, held, attempted) = (exec c db, held, attempted)"
| "triage_exec (Claim env jid) (db, held, attempted) =
     (case claim_triage_job env jid db of None \<Rightarrow> (db, held, attempted) | Some (k, db') \<Rightarrow> (db', k # held, attempted))"
| "triage_exec (Process env te k) (db, held, attempted) =
     (if k \<in> set held then (fst (process_claimed_job env te k db), remove1 k held, attempted @ [k])
      else (db, held, attempted))"

definition job_status :: "'z ddb \<Rightarrow> pk \<Rightarrow> triage_status option" where
  "job_status db k = map_option tj_status (t_get (triage_jobs db) k)"

text \<open>
  The invariant: held jobs are in processing without a suggestion, no job is held or attempted twice, an attempted job
  is not pending, and every suggestion satisfies the contract and is the only one of a succeeded job.
\<close>

definition triage_ok :: "'z triage_state \<Rightarrow> bool" where
  "triage_ok s = (case s of (db, held, attempted) \<Rightarrow>
     t_ok (triage_jobs db) \<and> t_ok (suggestions db) \<and> distinct (held @ attempted)
     \<and> (\<forall>k \<in> set held. job_status db k = Some TProcessing)
     \<and> (\<forall>k \<in> set attempted. job_status db k \<noteq> None \<and> job_status db k \<noteq> Some TPending)
     \<and> (\<forall>i s. t_get (suggestions db) i = Some s \<longrightarrow> suggestion_ok s \<and> job_status db (ts_job s) = Some TSucceeded)
     \<and> unique_on (\<lambda>s. Some (ts_job s)) (suggestions db))"

lemma job_status_cong: "triage_part db' = triage_part db \<Longrightarrow> job_status db' k = job_status db k"
  by (simp add: job_status_def triage_part_def)

lemma job_status_some: "job_status db k = Some s \<longleftrightarrow> (\<exists>j. t_get (triage_jobs db) k = Some j \<and> tj_status j = s)"
  by (auto simp: job_status_def)

lemma jobs_grow_ok:
  assumes "triage_ok (db, held, attempted)" "jobs_grow db db'"
  shows "triage_ok (db', held, attempted)"
proof -
  have t: "t_ok (triage_jobs db)" using assms(1) by (simp add: triage_ok_def)
  have "job_status db k \<noteq> None \<Longrightarrow> job_status db' k = job_status db k" for k
    using assms(2) t_get_fresh [OF t, of "next_pk (triage_jobs db)"]
    by (auto simp: jobs_grow_def triage_part_def job_status_def t_get_insert [OF t])
  moreover have "suggestions db' = suggestions db" "t_ok (triage_jobs db')"
    using assms(2) t by (auto simp: jobs_grow_def triage_part_def)
  ultimately show ?thesis using assms(1) unfolding triage_ok_def by (auto; metis option.distinct(1))
qed

lemma claim_ok:
  assumes "triage_ok (db, held, attempted)" "claim_triage_job env jid db = Some (k, db')"
  shows "triage_ok (db', k # held, attempted)"
proof -
  have t: "t_ok (triage_jobs db)" using assms(1) by (simp add: triage_ok_def)
  obtain j where j: "t_get (triage_jobs db) k = Some j" "tj_status j = TPending" and
    db': "db' = db \<lparr> triage_jobs := t_update k (\<lambda>j. j \<lparr> tj_status := TProcessing, tj_started_at := Some (now env),
       tj_failure_reason := [] \<rparr>) (triage_jobs db) \<rparr>" using claim_SomeD [OF assms(2) t] .
  have st: "job_status db' i = (if i = k then Some TProcessing else job_status db i)" for i
    using j by (auto simp: job_status_def db' t_get_update)
  have pend: "job_status db k = Some TPending" using j by (simp add: job_status_def)
  then have "k \<notin> set held" "k \<notin> set attempted" "\<And>i s. t_get (suggestions db) i = Some s \<Longrightarrow> ts_job s \<noteq> k"
    using assms(1) by (auto simp: triage_ok_def)
  moreover have "suggestions db' = suggestions db" "t_ok (triage_jobs db')" using t by (simp_all add: db')
  ultimately show ?thesis using assms(1) by (auto simp: triage_ok_def st)
qed

lemma report_in_review_part [simp]: "triage_part (report_in_review r db) = triage_part db"
  by (simp add: report_in_review_def)

lemma triage_part_fields:
  "triage_part db = (a, b) \<longleftrightarrow> triage_jobs db = a \<and> suggestions db = b"
  by (auto simp: triage_part_def)

lemma manual_part:
  "triage_part (manual env k r reason db) = (t_update k (\<lambda>j. j \<lparr> tj_status := TNeedsManual,
     tj_failure_reason := py_take 255 reason, tj_completed_at := Some (now env) \<rparr>) (triage_jobs db), suggestions db)"
  by (simp add: manual_def) (simp add: triage_part_def)

lemma succeed_part:
  "triage_part (succeed env k r db) = (t_update k (\<lambda>j. j \<lparr> tj_status := TSucceeded,
     tj_completed_at := Some (now env) \<rparr>) (triage_jobs db), suggestions db)"
  by (simp add: succeed_def) (simp add: triage_part_def)

lemma settle_job_ok:
  assumes "triage_ok (db, held, attempted)" "k \<in> set held" "triage_jobs db' = t_update k f (triage_jobs db)"
    and "\<And>j. tj_status (f j) \<notin> {TPending}" "t_ok (suggestions db')" "unique_on (\<lambda>s. Some (ts_job s)) (suggestions db')"
    and "\<And>i s. t_get (suggestions db') i = Some s \<Longrightarrow> t_get (suggestions db) i = Some s
       \<or> suggestion_ok s \<and> ts_job s = k \<and> (\<forall>j. tj_status (f j) = TSucceeded)"
  shows "triage_ok (db', remove1 k held, attempted @ [k])"
proof -
  have held: "job_status db k = Some TProcessing" using assms(1,2) by (simp add: triage_ok_def)
  then obtain j where j: "t_get (triage_jobs db) k = Some j" by (auto simp: job_status_some)
  have st: "job_status db' i = (if i = k then Some (tj_status (f j)) else job_status db i)" for i
    using j by (auto simp: job_status_def assms(3) t_get_update)
  have d: "distinct held" "distinct attempted" "set held \<inter> set attempted = {}" using assms(1) by (auto simp: triage_ok_def)
  have "distinct (remove1 k held @ attempted @ [k])" using d assms(2) by auto
  moreover have "job_status db' i = Some TProcessing" if "i \<in> set (remove1 k held)" for i
    using that d(1) assms(1) by (auto simp: st triage_ok_def)
  moreover have "job_status db' i \<noteq> None \<and> job_status db' i \<noteq> Some TPending" if "i \<in> set (attempted @ [k])" for i
    using that assms(1,4) by (auto simp: st triage_ok_def)
  moreover have "suggestion_ok s \<and> job_status db' (ts_job s) = Some TSucceeded" if "t_get (suggestions db') i = Some s" for i s
    using assms(7) [OF that] assms(1) held by (auto simp: st triage_ok_def)
  moreover have "t_ok (triage_jobs db')" using assms(1,3) by (simp add: triage_ok_def)
  ultimately show ?thesis using assms(5,6) unfolding triage_ok_def by auto
qed

lemma raised_ok:
  assumes "triage_ok (db, held, attempted)" "k \<in> set held"
  shows "triage_ok (db, remove1 k held, attempted @ [k])"
  using assms notin_set_remove1 by (auto simp: triage_ok_def)

lemma process_ok:
  assumes "triage_ok (db, held, attempted)" "k \<in> set held" "process_claimed_job env te k db = (db', res)"
  shows "triage_ok (db', remove1 k held, attempted @ [k])"
  using process_claimed_processed [OF assms(3)]
proof cases
  case (to_manual j reason)
  have part: "triage_jobs db' = t_update k (\<lambda>j. j \<lparr> tj_status := TNeedsManual, tj_failure_reason := py_take 255 reason,
      tj_completed_at := Some (now env) \<rparr>) (triage_jobs db)" "suggestions db' = suggestions db"
    using manual_part [of env k "tj_report j" reason db] to_manual(1) by (simp_all add: triage_part_fields)
  show ?thesis
    by (rule settle_job_ok [OF assms(1,2) part(1)]) (use assms(1) in \<open>auto simp: part(2) triage_ok_def\<close>)
next
  case (suggested j r ids triage p rid db1)
  let ?s = "suggestion_from env te k rid ids p"
  have st: "storable ?s (stored_texts rid p)" and new: "\<not> t_exists (\<lambda>_ x. ts_job x = ts_job ?s) (suggestions db)"
    and db1: "db1 = db \<lparr> suggestions := t_insert ?s (suggestions db) \<rparr>"
    using suggested by (auto simp: create_suggestion_def split: if_splits)
  have part: "triage_jobs db' = t_update k (\<lambda>j. j \<lparr> tj_status := TSucceeded, tj_completed_at := Some (now env) \<rparr>) (triage_jobs db)"
    "suggestions db' = t_insert ?s (suggestions db)"
    using succeed_part [of env k "tj_report j" db1] suggested(1) by (simp_all add: triage_part_fields db1)
  have t: "t_ok (suggestions db)" and u: "unique_on (\<lambda>s. Some (ts_job s)) (suggestions db)" using assms(1) by (auto simp: triage_ok_def)
  have "suggestion_ok ?s" using suggestion_from_ok suggested st by blast
  moreover have "ts_job ?s = k" by (simp add: suggestion_from_def)
  moreover have "unique_on (\<lambda>s. Some (ts_job s)) (t_insert ?s (suggestions db))"
    by (rule unique_on_insert [OF t u]) (use new in simp)
  ultimately show ?thesis
    by (intro settle_job_ok [OF assms(1,2) part(1)]) (auto simp: part(2) t t_get_insert [OF t] split: if_splits)
qed (use raised_ok [OF assms(1,2)] in simp)

lemma triage_exec_ok: "triage_ok s \<Longrightarrow> triage_ok (triage_exec c s)"
proof (induction c s rule: triage_exec.induct)
  case (3 env te k db held attempted)
  then show ?case using process_ok [of db held attempted k env te] by (auto simp: prod_eq_iff)
qed (auto intro: jobs_grow_ok exec_jobs_grow claim_ok split: option.splits)

interpretation triage: service_machine triage_exec triage_ok
  by unfold_locales (rule triage_exec_ok)

end
