(* ===== verification/Triage.thy ===== *)
theory Triage
  imports Triage_Runs
begin

text \<open>
  What triage promises: a job is attempted once, an attempt ends in a sound suggestion or in manual triage unless an
  exception escapes, an outage of the provider sends every pending report to manual triage, and a job whose processing
  raised stays in processing for ever.
\<close>

section \<open>Settled and abandoned jobs\<close>

text \<open>A job nobody will touch again: settled, or in processing without a worker that holds it.\<close>

definition at_rest :: "'z triage_state \<Rightarrow> pk \<Rightarrow> bool" where
  "at_rest s k = (case s of (db, held, attempted) \<Rightarrow>
     job_status db k \<in> {Some TSucceeded, Some TNeedsManual, Some TProcessing} \<and> k \<notin> set held)"

definition triage_keeps :: "'z triage_state \<Rightarrow> 'z triage_state \<Rightarrow> bool" where
  "triage_keeps s s' = (case (s, s') of ((db, held, attempted), (db', held', attempted')) \<Rightarrow>
     (\<exists>new. attempted' = attempted @ new) \<and>
     (\<forall>k. at_rest s k \<longrightarrow> at_rest s' k \<and> t_get (triage_jobs db') k = t_get (triage_jobs db) k))"

lemma triage_keeps_refl: "triage_keeps s s"
  by (cases s) (simp add: triage_keeps_def)

lemma triage_keeps_trans: "triage_keeps a b \<Longrightarrow> triage_keeps b c \<Longrightarrow> triage_keeps a c"
  by (cases a; cases b; cases c) (auto simp: triage_keeps_def)

lemma at_rest_kept:
  assumes "t_get (triage_jobs db') k = t_get (triage_jobs db) k" "at_rest (db, held, attempted) k" "k \<notin> set held'"
  shows "at_rest (db', held', attempted') k"
  using assms by (auto simp: at_rest_def job_status_def)

lemma processed_others:
  assumes "processed env te k db db' res" "i \<noteq> k"
  shows "t_get (triage_jobs db') i = t_get (triage_jobs db) i"
  using assms(1)
proof cases
  case (to_manual j reason)
  then show ?thesis using manual_part [of env k "tj_report j" reason db] assms(2) by (simp add: triage_part_fields t_get_update)
next
  case (suggested j r ids triage p rid db1)
  then have "triage_jobs db1 = triage_jobs db" by (auto simp: create_suggestion_def split: if_splits)
  then show ?thesis using succeed_part [of env k "tj_report j" db1] assms(2) suggested(1)
    by (simp add: triage_part_fields t_get_update)
qed simp

lemma triage_exec_keeps: "triage_ok s \<Longrightarrow> triage_keeps s (triage_exec c s)"
proof (induction c s rule: triage_exec.induct)
  case (1 c db held attempted)
  have t: "t_ok (triage_jobs db)" using 1 by (simp add: triage_ok_def)
  have "t_get (triage_jobs (exec c db)) k = t_get (triage_jobs db) k" if "at_rest (db, held, attempted) k" for k
    using exec_jobs_grow [of db c] t_get_fresh [OF t, of "next_pk (triage_jobs db)"] that
    by (auto simp: jobs_grow_def triage_part_def t_get_insert [OF t] at_rest_def job_status_def)
  then show ?case using at_rest_kept [where db = db and db' = "exec c db" and held = held and held' = held]
    by (auto simp: triage_keeps_def at_rest_def)
next
  case (2 env jid db held attempted)
  show ?case
  proof (cases "claim_triage_job env jid db")
    case (Some kd)
    then obtain k db' where c: "claim_triage_job env jid db = Some (k, db')" by (cases kd) auto
    have t: "t_ok (triage_jobs db)" using 2 by (simp add: triage_ok_def)
    obtain j where j: "t_get (triage_jobs db) k = Some j" "tj_status j = TPending"
      and db': "db' = db \<lparr> triage_jobs := t_update k (\<lambda>j. j \<lparr> tj_status := TProcessing, tj_started_at := Some (now env),
        tj_failure_reason := [] \<rparr>) (triage_jobs db) \<rparr>" using claim_SomeD [OF c t] .
    have "i \<noteq> k \<and> t_get (triage_jobs db') i = t_get (triage_jobs db) i" if "at_rest (db, held, attempted) i" for i
      using that j by (auto simp: at_rest_def job_status_def db' t_get_update)
    then show ?thesis by (auto simp: c triage_keeps_def at_rest_def job_status_def)
  qed (simp add: triage_keeps_refl)
next
  case (3 env te k db held attempted)
  show ?case
  proof (cases "k \<in> set held")
    case True
    obtain db' res where p: "process_claimed_job env te k db = (db', res)" by fastforce
    have "i \<noteq> k \<and> t_get (triage_jobs db') i = t_get (triage_jobs db) i" if "at_rest (db, held, attempted) i" for i
      using that True processed_others [OF process_claimed_processed [OF p], of i] by (auto simp: at_rest_def)
    moreover have "set (remove1 k held) \<subseteq> set held" by (rule set_remove1_subset)
    ultimately show ?thesis using True by (auto simp: p triage_keeps_def at_rest_def job_status_def)
  qed (simp add: triage_keeps_refl)
qed

lemma triage_run_keeps: "triage_ok s \<Longrightarrow> triage_keeps s (fold triage_exec cs s)"
  by (rule triage.run_stepwise) (auto intro: triage_exec_keeps triage_keeps_refl triage_keeps_trans)

text \<open>
  C33.  Over any run of the services and of any number of triage workers, whatever the provider answers: a job is sent
  to the provider at most once, a job that succeeded or went to manual triage is never changed again, and every
  suggestion is the only one of a succeeded job and satisfies the contract (known category, queue and urgency,
  confidence from 0 to 100, a positive deadline that fits its column).
\<close>

theorem triage_attempted_once:
  assumes "triage_ok (db, held, attempted)" "fold triage_exec cs (db, held, attempted) = (db', held', attempted')"
  shows "distinct attempted' \<and> (\<exists>new. attempted' = attempted @ new)
    \<and> (\<forall>i s. t_get (suggestions db') i = Some s \<longrightarrow> suggestion_ok s \<and> job_status db' (ts_job s) = Some TSucceeded
         \<and> (\<forall>i' s'. t_get (suggestions db') i' = Some s' \<longrightarrow> ts_job s' = ts_job s \<longrightarrow> i' = i))
    \<and> (\<forall>k. job_status db k \<in> {Some TSucceeded, Some TNeedsManual} \<longrightarrow> t_get (triage_jobs db') k = t_get (triage_jobs db) k)"
proof -
  have ok: "triage_ok (db', held', attempted')" using triage.run_inv [OF assms(1), of cs] assms(2) by simp
  then have u: "unique_on (\<lambda>s. Some (ts_job s)) (suggestions db')" by (simp add: triage_ok_def)
  have keeps: "triage_keeps (db, held, attempted) (db', held', attempted')"
    using triage_run_keeps [OF assms(1), of cs] assms(2) by simp
  have "at_rest (db, held, attempted) k" if "job_status db k \<in> {Some TSucceeded, Some TNeedsManual}" for k
    using that assms(1) by (auto simp: at_rest_def triage_ok_def)
  then have "t_get (triage_jobs db') k = t_get (triage_jobs db) k" if "job_status db k \<in> {Some TSucceeded, Some TNeedsManual}" for k
    using that keeps by (auto simp: triage_keeps_def)
  moreover have "i' = i" if "t_get (suggestions db') i = Some s" "t_get (suggestions db') i' = Some s'" "ts_job s' = ts_job s" for i i' s s'
    using unique_onD [OF u that(1,2)] that(3) by simp
  ultimately show ?thesis using ok keeps by (auto simp: triage_ok_def triage_keeps_def)
qed

section \<open>One attempt\<close>

definition duplicates_ok :: "'z ddb \<Rightarrow> pk \<Rightarrow> report_row \<Rightarrow> suggestion_row \<Rightarrow> bool" where
  "duplicates_ok db report r s \<longleftrightarrow> (\<forall>d \<in> set (ts_duplicate_report_ids s). \<exists>i c. d = int i \<and> i \<noteq> report
     \<and> t_get (reports db) i = Some c \<and> \<not> rp_is_private c \<and> unit_building db (rp_unit c) = unit_building db (rp_unit r)
     \<and> rp_status c \<in> {RSubmitted, RInReview, RNeedsInfo})"

lemma suggestion_duplicates:
  assumes "t_ok (reports db)" "ids = map fst (find_duplicate_candidates te db report r 5)"
    "validate_response te triage (int ` set ids) = Inr p"
  shows "duplicates_ok db report r (suggestion_from env te k rid ids p)"
proof -
  have "\<exists>i c. d = int i \<and> (i, c) \<in> set (find_duplicate_candidates te db report r 5)"
    if "d \<in> int_value ` set (list_value (item p ''duplicate_report_ids''))" for d
    using that validate_response_facts(7) [OF assms(3)] assms(2) by fastforce
  then show ?thesis using candidates_open [OF assms(1)]
    by (fastforce simp: duplicates_ok_def suggestion_from_def candidate_for_def)
qed

lemma report_in_review_reports:
  "reports (report_in_review k db) =
     t_update_all (\<lambda>i r. i = k \<and> rp_status r = RSubmitted) (\<lambda>r. r \<lparr> rp_status := RInReview \<rparr>) (reports db)"
  by (simp add: report_in_review_def set_reports_def)

lemma processed_reports:
  assumes "processed env te k db db' (Inr y)" "t_get (triage_jobs db) k = Some j"
  shows "reports db' = reports (report_in_review (tj_report j) db)"
  using assms(1)
proof cases
  case (suggested j' r ids triage p rid db1)
  then have "reports db1 = reports db" by (auto simp: create_suggestion_def split: if_splits)
  then show ?thesis using suggested assms(2) by (simp add: succeed_def report_in_review_reports)
qed (use assms(2) in \<open>simp add: manual_def report_in_review_reports\<close>)

text \<open>
  C34.  An attempt at a claimed job either raises and leaves the database as the claim left it, or settles the job: it
  succeeds with one new suggestion, whose duplicates are open, public reports of the same building that were offered
  as candidates, or it goes to manual triage without a suggestion.  A settled job moves its report out of SUBMITTED
  and leaves every other report alone.
\<close>

theorem triage_outcome:
  assumes "triage_ok (db, held, attempted)" "k \<in> set held" "t_ok (reports db)"
    and "t_get (triage_jobs db) k = Some j" "t_get (reports db) (tj_report j) = Some r"
    and "process_claimed_job env te k db = (db', res)"
  shows "(case res of
      Inl x \<Rightarrow> db' = db
    | Inr _ \<Rightarrow>
        (job_status db' k = Some TSucceeded \<and> (\<exists>s. suggestions db' = t_insert s (suggestions db) \<and> ts_job s = k \<and> suggestion_ok s
           \<and> duplicates_ok db (tj_report j) r s)
         \<or> job_status db' k = Some TNeedsManual \<and> suggestions db' = suggestions db)
        \<and> t_get (reports db') (tj_report j) = Some (if rp_status r = RSubmitted then r \<lparr> rp_status := RInReview \<rparr> else r)
        \<and> (\<forall>i. i \<noteq> tj_report j \<longrightarrow> t_get (reports db') i = t_get (reports db) i))"
proof (cases res)
  case (Inl x)
  then show ?thesis using process_claimed_processed [OF assms(6)] by (auto elim: processed.cases)
next
  case (Inr y)
  have pr: "processed env te k db db' (Inr y)" using process_claimed_processed [OF assms(6)] Inr by simp
  have "t_get (reports db') i = map_option (\<lambda>x. if i = tj_report j \<and> rp_status x = RSubmitted then x \<lparr> rp_status := RInReview \<rparr> else x)
      (t_get (reports db) i)" for i
    using processed_reports [OF pr assms(4)] by (simp add: report_in_review_reports t_get_update_all)
  then have reports: "t_get (reports db') (tj_report j) = Some (if rp_status r = RSubmitted then r \<lparr> rp_status := RInReview \<rparr> else r)"
    "\<And>i. i \<noteq> tj_report j \<Longrightarrow> t_get (reports db') i = t_get (reports db) i"
    using assms(5) by (auto simp: option.map_ident)
  from pr have "job_status db' k = Some TSucceeded \<and> (\<exists>s. suggestions db' = t_insert s (suggestions db) \<and> ts_job s = k \<and> suggestion_ok s
           \<and> duplicates_ok db (tj_report j) r s)
         \<or> job_status db' k = Some TNeedsManual \<and> suggestions db' = suggestions db"
  proof cases
    case (to_manual j' reason)
    then show ?thesis using manual_part [of env k "tj_report j'" reason db] assms(4)
      by (simp add: triage_part_fields job_status_def t_get_update)
  next
    case (suggested j' r' ids triage p rid db1)
    let ?s = "suggestion_from env te k rid ids p"
    have st: "storable ?s (stored_texts rid p)" and db1: "db1 = db \<lparr> suggestions := t_insert ?s (suggestions db) \<rparr>"
      using suggested(8) by (auto simp: create_suggestion_def split: if_splits)
    have "j' = j" "r' = r" using suggested(3,4) assms(4,5) by auto
    then have "duplicates_ok db (tj_report j) r ?s" using suggestion_duplicates [OF assms(3)] suggested(5,6) by blast
    moreover have "suggestion_ok ?s" using suggestion_from_ok [OF suggested(6) st] .
    moreover have "ts_job ?s = k" by (simp add: suggestion_from_def)
    moreover have "suggestions db' = t_insert ?s (suggestions db)" "job_status db' k = Some TSucceeded"
      using succeed_part [of env k "tj_report j'" db1] suggested(1,3) assms(4)
      by (simp_all add: triage_part_fields db1 job_status_def t_get_update)
    ultimately show ?thesis by blast
  qed
  then show ?thesis using reports Inr by simp
qed

section \<open>An outage of the provider\<close>

lemma find_filter: "List.find P xs = (case filter P xs of [] \<Rightarrow> None | x # _ \<Rightarrow> Some x)"
  by (induction xs) auto

lemma claim_pending:
  "claim_triage_job env None db =
     (case pending_jobs db of
        [] \<Rightarrow> None
      | (k, _) # _ \<Rightarrow> Some (k, db \<lparr> triage_jobs := t_update k (\<lambda>j. j \<lparr> tj_status := TProcessing,
            tj_started_at := Some (now env), tj_failure_reason := [] \<rparr>) (triage_jobs db) \<rparr>))"
  by (simp add: claim_triage_job_def pending_jobs_def t_first_def t_filter_def find_filter split: list.splits)

lemma pending_step:
  assumes "t_ok (triage_jobs db)" "pending_jobs db = (k, j) # rest" "\<And>j. tj_status (f j) \<noteq> TPending"
    and "triage_jobs db' = t_update k f (triage_jobs db)"
  shows "pending_jobs db' = rest"
proof -
  have "filter (\<lambda>(i, j). tj_status j = TPending) (map (\<lambda>(i, r). (i, if i = k then f r else r)) xs)
      = filter (\<lambda>(i, _). i \<noteq> k) (filter (\<lambda>(i, j). tj_status j = TPending) xs)" for xs
    using assms(3) by (induction xs) auto
  then have "pending_jobs db' = filter (\<lambda>(i, _). i \<noteq> k) ((k, j) # rest)"
    using assms(2,4) by (simp add: pending_jobs_def t_filter_def t_update_def del: filter_filter)
  moreover have "distinct (map fst ((k, j) # rest))"
    using t_filter_distinct [OF assms(1)] assms(2) unfolding pending_jobs_def by metis
  then have "filter (\<lambda>(i, _). i \<noteq> k) rest = rest" by (intro filter_True) force
  ultimately show ?thesis by simp
qed

text \<open>A round of the loop takes its job out of the pending ones, whatever becomes of it.\<close>

lemma processed_job:
  assumes "processed env te k db db' res"
  shows "triage_jobs db' = triage_jobs db
    \<or> (\<exists>f. triage_jobs db' = t_update k f (triage_jobs db) \<and> (\<forall>j. tj_status (f j) \<noteq> TPending))"
  using assms
proof cases
  case (to_manual j reason)
  then show ?thesis using manual_part [of env k "tj_report j" reason db] by (auto simp: triage_part_fields)
next
  case (suggested j r ids triage p rid db1)
  then have "triage_jobs db1 = triage_jobs db" by (auto simp: create_suggestion_def split: if_splits)
  then show ?thesis using succeed_part [of env k "tj_report j" db1] suggested(1) by (auto simp: triage_part_fields)
qed simp

lemma round_pending:
  assumes "t_ok (triage_jobs db)" "claim_triage_job env None db = Some (k, db1)" "process_claimed_job env te k db1 = (db2, res)"
  shows "t_ok (triage_jobs db2) \<and> (\<exists>x. pending_jobs db = x # pending_jobs db2)"
proof -
  let ?f = "\<lambda>j. j \<lparr> tj_status := TProcessing, tj_started_at := Some (now env), tj_failure_reason := [] \<rparr>"
  obtain j rest where p: "pending_jobs db = (k, j) # rest" and db1: "triage_jobs db1 = t_update k ?f (triage_jobs db)"
    using assms(2) by (auto simp: claim_pending split: list.splits)
  obtain g where g: "triage_jobs db2 = t_update k g (triage_jobs db)" "\<And>j. tj_status (g j) \<noteq> TPending"
  proof (cases "triage_jobs db2 = triage_jobs db1")
    case True
    then show ?thesis using that [of ?f] db1 by simp
  next
    case False
    then obtain f where "triage_jobs db2 = t_update k f (triage_jobs db1)" "\<And>j. tj_status (f j) \<noteq> TPending"
      using processed_job [OF process_claimed_processed [OF assms(3)]] by blast
    then show ?thesis using that [of "f \<circ> ?f"] db1 by (simp add: t_update_update)
  qed
  then show ?thesis using pending_step [OF assms(1) p g(2) g(1)] p assms(1) by simp
qed

lemma loop_drains:
  assumes "t_ok (triage_jobs db)" "length (pending_jobs db) \<le> limit" "triage_loop env te limit n db = (db', Inr m)"
  shows "pending_jobs db' = []"
  using assms
proof (induction limit arbitrary: n db)
  case (Suc limit)
  show ?case
  proof (cases "claim_triage_job env None db")
    case None
    then show ?thesis using Suc.prems by (auto simp: claim_pending split: list.splits)
  next
    case (Some kd)
    then obtain k db1 where c: "claim_triage_job env None db = Some (k, db1)" by (cases kd) auto
    obtain db2 res where p: "process_claimed_job env te k db1 = (db2, res)" by fastforce
    then show ?thesis using Suc.IH [of db2 "Suc n"] Suc.prems round_pending [OF Suc.prems(1) c p] c by (cases res) auto
  qed
qed simp

lemma process_triage_drains:
  "t_ok (triage_jobs db) \<Longrightarrow> process_triage_command env te db = (db', Inr m) \<Longrightarrow> pending_jobs db' = []"
  unfolding process_triage_command_def by (rule loop_drains [OF _ le_SucI [OF le_refl]])

definition job_refs :: "'z ddb \<Rightarrow> bool" where
  "job_refs db \<longleftrightarrow> (\<forall>k j. t_get (triage_jobs db) k = Some j \<longrightarrow> t_get (reports db) (tj_report j) \<noteq> None)"

lemma outage_attempt:
  assumes "\<forall>url token body. \<exists>e. urlopen te url token body = Caught e"
    and "t_get (triage_jobs db) k = Some j" "t_get (reports db) (tj_report j) = Some r"
  shows "\<exists>reason. process_claimed_job env te k db = (manual env k (tj_report j) reason db, Inr k)"
proof (cases "endpoint_url te")
  case (Inr url)
  obtain e where "urlopen te url (AI_TRIAGE_TOKEN te) (dumps_json te (chat_body te (tj_report j) r
      (find_duplicate_candidates te db (tj_report j) r 5))) = Caught e" using assms(1) by blast
  then show ?thesis using assms(2,3) Inr by (auto simp: process_claimed_job_def Let_def)
qed (use assms(2,3) in \<open>auto simp: process_claimed_job_def\<close>)

text \<open>The pending jobs of a state are in manual triage in a later one, with their reports moved on.\<close>

definition handed_over :: "'z ddb \<Rightarrow> 'z ddb \<Rightarrow> bool" where
  "handed_over db db' \<longleftrightarrow> suggestions db' = suggestions db
     \<and> (\<forall>k j. t_get (triage_jobs db) k = Some j \<longrightarrow> (if tj_status j = TPending
         then job_status db' k = Some TNeedsManual \<and> (\<exists>r. t_get (reports db') (tj_report j) = Some r \<and> rp_status r \<noteq> RSubmitted)
         else t_get (triage_jobs db') k = Some j))
     \<and> (\<forall>i r. t_get (reports db) i = Some r \<longrightarrow> t_get (reports db') i \<in> {Some r, Some (r \<lparr> rp_status := RInReview \<rparr>)})"

lemma handed_over_step:
  assumes "t_ok (triage_jobs db)" "t_get (triage_jobs db) k = Some j" "tj_status j = TPending" "job_refs db"
    and "db1 = manual env k (tj_report j) reason (db \<lparr> triage_jobs := t_update k f (triage_jobs db) \<rparr>)"
    and "handed_over db1 db'"
  shows "handed_over db db'"
proof -
  have jobs: "triage_jobs db1 = t_update k (\<lambda>j. (f j) \<lparr> tj_status := TNeedsManual, tj_failure_reason := py_take 255 reason,
      tj_completed_at := Some (now env) \<rparr>) (triage_jobs db)" and sugg: "suggestions db1 = suggestions db"
    using manual_part [of env k "tj_report j" reason "db \<lparr> triage_jobs := t_update k f (triage_jobs db) \<rparr>"] assms(5)
    by (simp_all add: triage_part_fields t_update_update comp_def)
  have rep: "t_get (reports db1) i = map_option (\<lambda>r. if i = tj_report j \<and> rp_status r = RSubmitted
      then r \<lparr> rp_status := RInReview \<rparr> else r) (t_get (reports db) i)" for i
    by (simp add: assms(5) manual_def report_in_review_reports t_get_update_all)
  obtain r where r: "t_get (reports db) (tj_report j) = Some r" using assms(2,4) by (auto simp: job_refs_def)
  have reports: "t_get (reports db') i \<in> {Some r, Some (r \<lparr> rp_status := RInReview \<rparr>)}" if "t_get (reports db) i = Some r" for i r
    using assms(6) that rep [of i] by (fastforce simp: handed_over_def split: if_splits)
  have "t_get (triage_jobs db1) k = Some ((f j) \<lparr> tj_status := TNeedsManual, tj_failure_reason := py_take 255 reason,
      tj_completed_at := Some (now env) \<rparr>)" using assms(2) by (simp add: jobs t_get_update)
  then have "job_status db' k = Some TNeedsManual" using assms(6) by (auto simp: handed_over_def job_status_def)
  moreover have "\<exists>r. t_get (reports db') (tj_report j) = Some r \<and> rp_status r \<noteq> RSubmitted"
    using assms(6) rep [of "tj_report j"] r by (fastforce simp: handed_over_def split: if_splits)
  moreover have "t_get (triage_jobs db1) i = t_get (triage_jobs db) i" if "i \<noteq> k" for i
    using that by (simp add: jobs t_get_update)
  ultimately show ?thesis using assms(2,3,6) reports sugg unfolding handed_over_def by (metis option.inject)
qed

lemma handed_over_none: "t_ok (triage_jobs db) \<Longrightarrow> pending_jobs db = [] \<Longrightarrow> handed_over db db"
  using in_filter_get [of "triage_jobs db" _ _ "\<lambda>_ j. tj_status j = TPending"]
  by (fastforce simp: handed_over_def pending_jobs_def)

lemma outage_loop:
  assumes "\<forall>url token body. \<exists>e. urlopen te url token body = Caught e" "t_ok (triage_jobs db)" "job_refs db"
    and "length (pending_jobs db) \<le> limit"
  shows "\<exists>db'. triage_loop env te limit n db = (db', Inr (n + length (pending_jobs db))) \<and> handed_over db db'"
  using assms(2-)
proof (induction limit arbitrary: n db)
  case 0
  then show ?case using handed_over_none by auto
next
  case (Suc limit)
  show ?case
  proof (cases "pending_jobs db")
    case Nil
    then show ?thesis using Suc.prems handed_over_none by (auto simp: claim_pending)
  next
    case (Cons kj rest)
    obtain k j where kj: "kj = (k, j)" by fastforce
    let ?f = "\<lambda>j. j \<lparr> tj_status := TProcessing, tj_started_at := Some (now env), tj_failure_reason := [] \<rparr>"
    let ?db1 = "db \<lparr> triage_jobs := t_update k ?f (triage_jobs db) \<rparr>"
    have j: "t_get (triage_jobs db) k = Some j" "tj_status j = TPending"
      using in_filter_get [OF Suc.prems(1), of k j "\<lambda>_ j. tj_status j = TPending"] Cons kj by (auto simp: pending_jobs_def)
    obtain r where r: "t_get (reports db) (tj_report j) = Some r" using Suc.prems(2) j by (auto simp: job_refs_def)
    obtain reason where p: "process_claimed_job env te k ?db1 = (manual env k (tj_report j) reason ?db1, Inr k)"
      using outage_attempt [OF assms(1), of ?db1 k "?f j" r env] j r by (auto simp: t_get_update)
    let ?db2 = "manual env k (tj_report j) reason ?db1"
    have jobs: "triage_jobs ?db2 = t_update k (\<lambda>j. (?f j) \<lparr> tj_status := TNeedsManual, tj_failure_reason := py_take 255 reason,
        tj_completed_at := Some (now env) \<rparr>) (triage_jobs db)"
      using manual_part [of env k "tj_report j" reason ?db1] by (simp add: triage_part_fields t_update_update comp_def)
    have rest: "pending_jobs ?db2 = rest"
      by (rule pending_step [OF Suc.prems(1) _ _ jobs]) (use Cons kj in simp_all)
    have "t_ok (triage_jobs ?db2)" using Suc.prems(1) by (simp add: jobs)
    moreover have "t_get (reports ?db2) i = None \<longleftrightarrow> t_get (reports db) i = None" for i
      by (simp add: manual_def report_in_review_reports t_get_update_all)
    then have "job_refs ?db2" using Suc.prems(2) unfolding job_refs_def jobs by (auto simp: t_get_update split: if_splits)
    ultimately obtain db' where db': "triage_loop env te limit (Suc n) ?db2 = (db', Inr (Suc n + length rest))" "handed_over ?db2 db'"
      using Suc.IH [of ?db2 "Suc n"] Suc.prems(3) rest Cons by auto
    have "handed_over db db'" by (rule handed_over_step [OF Suc.prems(1) j Suc.prems(2) refl db'(2)])
    then show ?thesis using db'(1) p Cons kj by (simp add: claim_pending)
  qed
qed

text \<open>
  C35.  An outage never blocks a report: when every call of the provider fails (a refused connection, a timeout, a
  wrong configuration), one batch whose limit covers the pending jobs finishes, hands every pending job to manual
  triage, moves its report out of SUBMITTED, and makes no suggestion.
\<close>

theorem triage_outage:
  assumes "\<forall>url token body. \<exists>e. urlopen te url token body = Caught e" "t_ok (triage_jobs db)" "job_refs db"
    and "length (pending_jobs db) \<le> limit"
  shows "\<exists>db'. triage_loop env te limit 0 db = (db', Inr (length (pending_jobs db))) \<and> handed_over db db'"
  using outage_loop [OF assms, of env 0] by simp

section \<open>An exception that escapes\<close>

text \<open>
  An exception that escapes an attempt abandons the job: it stays in processing whatever the services and the
  workers do afterwards, no worker can claim it again and it never gets a suggestion.
\<close>

theorem triage_job_abandoned:
  assumes "triage_ok (db, held, attempted)" "k \<in> set held" "process_claimed_job env te k db = (db1, Inl x)"
    and "fold triage_exec (Process env te k # cs) (db, held, attempted) = (db', held', attempted')"
  shows "job_status db' k = Some TProcessing \<and> k \<notin> set held' \<and> claim_triage_job env' (Some k) db' = None
    \<and> (\<forall>i s. t_get (suggestions db') i = Some s \<longrightarrow> ts_job s \<noteq> k)"
proof -
  have "db1 = db" using process_claimed_processed [OF assms(3)] by (auto elim: processed.cases)
  then have step: "triage_exec (Process env te k) (db, held, attempted) = (db, remove1 k held, attempted @ [k])"
    using assms(2,3) by simp
  have ok1: "triage_ok (db, remove1 k held, attempted @ [k])" using raised_ok [OF assms(1,2)] .
  have run: "fold triage_exec cs (db, remove1 k held, attempted @ [k]) = (db', held', attempted')" using assms(4) step by simp
  have p: "job_status db k = Some TProcessing" using assms(1,2) by (simp add: triage_ok_def)
  have "at_rest (db, remove1 k held, attempted @ [k]) k" using p assms(1) by (auto simp: at_rest_def triage_ok_def)
  then have rest: "at_rest (db', held', attempted') k" "t_get (triage_jobs db') k = t_get (triage_jobs db) k"
    using triage_run_keeps [OF ok1, of cs] unfolding run triage_keeps_def by auto
  then have st: "job_status db' k = Some TProcessing" using p by (simp add: job_status_def)
  have ok: "triage_ok (db', held', attempted')" using triage.run_inv [OF ok1, of cs] run by simp
  then have t: "t_ok (triage_jobs db')" by (simp add: triage_ok_def)
  have "claim_triage_job env' (Some k) db' = None"
    using st by (auto simp: claim_triage_job_def job_status_def dest: t_first_Some_get [OF t] split: option.splits)
  then show ?thesis using st rest(1) ok by (auto simp: at_rest_def triage_ok_def)
qed

section \<open>A sample report under triage\<close>

text \<open>
  Two reports of one lobby, the second with a job a worker holds, and a provider whose answer gives the deadline it is
  asked for.
\<close>

definition sample_report :: "string \<Rightarrow> report_status \<Rightarrow> report_row" where
  "sample_report t st = \<lparr> rp_reporter = 2, rp_unit = 1, rp_building = 1, rp_text = t, rp_location = 1, rp_location_path = ''Lobby'',
     rp_status = st, rp_is_private = False, rp_declined_reason = [], rp_declined_by = None, rp_declined_at = None,
     rp_client_ref = None, rp_created_at = 0 \<rparr>"

definition sample_jobs :: "triage_status \<Rightarrow> domain_db" where
  "sample_jobs st = sample_site \<lparr> reports := Table 3 [(1, sample_report ''lamp'' RInReview), (2, sample_report ''lamp out'' RSubmitted)],
     triage_jobs := Table 3 [(1, (new_job 1) \<lparr> tj_status := TNeedsManual \<rparr>), (2, (new_job 2) \<lparr> tj_status := st \<rparr>)] \<rparr>"

definition sample_answer :: "int \<Rightarrow> pyval" where
  "sample_answer deadline = obj [(''category'', PyStr ''lighting''), (''interpreted_location'', PyStr ''Lobby''), (''urgency'', PyStr ''LOW''),
     (''confidence_percent'', PyInt 90), (''requires_manual_review'', PyBool False), (''duplicate_report_ids'', PyList [PyInt 1]),
     (''management_queue'', PyStr ''electrical''), (''deadline_minutes'', PyInt deadline), (''missing_information'', PyList [])]"

definition sample_triage :: "int \<Rightarrow> triage_env" where
  "sample_triage deadline = \<lparr> AI_TRIAGE_URL = ''https://ai'', AI_TRIAGE_TOKEN = ''t'', AI_TRIAGE_MODEL = ''m'', AI_TRIAGE_ALLOW_HTTP = False,
     netloc_error = (\<lambda>_. None), similarity = (\<lambda>_ _. 1), dumps_json = (\<lambda>_. []),
     loads_json = (\<lambda>s. if s = ''E'' then Done (obj [(''id'', PyStr ''r1''), (''choices'', PyList [obj [(''message'', obj [(''content'', PyStr ''A'')])]])])
        else if s = ''A'' then Done (sample_answer deadline) else Caught ''Expecting value''),
     urlopen = (\<lambda>_ _ _. Done ''E''), error_text = (\<lambda>_. []), elapsed_ms = (\<lambda>_. 7) \<rparr>"

lemma sample_endpoint: "endpoint_url (sample_triage d) = Inr ''https://ai''"
  by (simp add: sample_triage_def endpoint_url_def urlsplit_def Let_def) code_simp

lemma sample_candidates:
  "find_duplicate_candidates (sample_triage d) (sample_jobs st) 2 (sample_report ''lamp out'' RSubmitted) 5
     = [(1, sample_report ''lamp'' RInReview)]"
  by (simp add: find_duplicate_candidates_def candidate_for_def sample_jobs_def sample_report_def t_filter_def sample_triage_def)

lemma sample_validated: "validate_response (sample_triage d) (sample_answer d') {1} = (if d' \<le> 0 then Inl ''response deadline_minutes is invalid''
    else case sample_answer d' of PyDict p \<Rightarrow> Inr p)"
  by (simp add: validate_response_def sample_answer_def obj_def MODEL_KEYS_def item_def dict_get_def valid_string_def MODEL_STRING_LIMITS_def
      py_len_def is_continuation_def code_def unhashable_def URGENCIES_def is_py_int_def is_py_bool_def is_py_list_def insert_commute)

lemma sample_job_rows:
  "t_get (triage_jobs (sample_jobs st)) 2 = Some ((new_job 2) \<lparr> tj_status := st \<rparr>)"
  "t_get (reports (sample_jobs st)) 2 = Some (sample_report ''lamp out'' RSubmitted)"
  by (simp_all add: sample_jobs_def t_get_def)

lemma sample_extracted: "extract_triage (sample_triage d) (obj [(''id'', PyStr ''r1''),
    (''choices'', PyList [obj [(''message'', obj [(''content'', PyStr ''A'')])]])]) = Done (''r1'', sample_answer d)"
proof -
  have "strip_fence ''A'' = ''A''" "py_len ''r1'' = 2" by code_simp+
  then show ?thesis
    by (simp add: extract_triage_def obj_def dict_get_def message_content_def valid_string_def sample_triage_def
        MAX_PROVIDER_REQUEST_ID_CHARS_def)
qed

lemma sample_processed:
  assumes "0 < d"
  shows "process_claimed_job env (sample_triage d) 2 (sample_jobs TProcessing) =
    (if d \<le> MAX_INTEGER
     then (succeed env 2 2 (sample_jobs TProcessing \<lparr> suggestions := t_insert (suggestion_from env (sample_triage d) 2 ''r1'' [1]
             (case sample_answer d of PyDict p \<Rightarrow> p)) t_empty \<rparr>), Inr 2)
     else (sample_jobs TProcessing, Inl DataError))"
proof -
  have fields: "urlopen (sample_triage d) u t b = Done ''E''" "loads_json (sample_triage d) ''E'' = Done (obj [(''id'', PyStr ''r1''),
    (''choices'', PyList [obj [(''message'', obj [(''content'', PyStr ''A'')])]])])" for u t b
    by (simp_all add: sample_triage_def)
  have st: "storable (suggestion_from env (sample_triage d) 2 ''r1'' [1] p) (stored_texts ''r1'' p) \<longleftrightarrow> d \<le> MAX_INTEGER"
    and m: "item p ''requires_manual_review'' = PyBool False" if "sample_answer d = PyDict p" for p
    using that by (auto simp: storable_def suggestion_from_def stored_texts_def has_nul_def sample_answer_def obj_def item_def
        dict_get_def sample_triage_def MAX_INTEGER_def)
  obtain p where p: "sample_answer d = PyDict p" by (simp add: sample_answer_def obj_def)
  have v: "validate_response (sample_triage d) (PyDict p) {1} = Inr p" using sample_validated [of d d] assms p by simp
  have "suggestions (sample_jobs TProcessing) = t_empty" by (simp add: sample_jobs_def sample_site_def)
  then show ?thesis using assms st [OF p] m [OF p]
    by (simp add: process_claimed_job_def process_answer_def sample_job_rows sample_endpoint fields sample_extracted sample_candidates
        new_job_def v p create_suggestion_def t_exists_def t_empty_def)
qed

lemma sample_triage_ok: "triage_ok (sample_jobs TProcessing, [2], [1])"
proof -
  have "job_status (sample_jobs TProcessing) 2 = Some TProcessing" "job_status (sample_jobs TProcessing) 1 = Some TNeedsManual"
    by (simp_all add: job_status_def sample_jobs_def t_get_def)
  then show ?thesis by (auto simp: triage_ok_def sample_jobs_def sample_site_def t_ok_def unique_on_def t_empty_def t_get_def)
qed

theorem triage_attempted_once_witness:
  "\<exists>db' held' attempted'. fold triage_exec [Process sample_env (sample_triage 60) 2, Claim sample_env None]
      (sample_jobs TProcessing, [2], [1]) = (db', held', attempted')
    \<and> distinct attempted' \<and> t_get (triage_jobs db') 1 = Some ((new_job 1) \<lparr> tj_status := TNeedsManual \<rparr>)"
proof -
  obtain db' held' attempted' where run: "fold triage_exec [Process sample_env (sample_triage 60) 2, Claim sample_env None]
      (sample_jobs TProcessing, [2], [1]) = (db', held', attempted')" by (metis prod_cases3)
  have "job_status (sample_jobs TProcessing) 1 = Some TNeedsManual"
    "t_get (triage_jobs (sample_jobs TProcessing)) 1 = Some ((new_job 1) \<lparr> tj_status := TNeedsManual \<rparr>)"
    by (simp_all add: job_status_def sample_jobs_def t_get_def)
  then show ?thesis using triage_attempted_once [OF sample_triage_ok run] run by auto
qed

theorem triage_outcome_witness:
  "\<exists>db'. process_claimed_job sample_env (sample_triage 60) 2 (sample_jobs TProcessing) = (db', Inr 2)
    \<and> t_get (reports db') 2 = Some (sample_report ''lamp out'' RInReview) \<and> t_get (reports db') 1 = Some (sample_report ''lamp'' RInReview)"
proof -
  have "\<exists>db'. process_claimed_job sample_env (sample_triage 60) 2 (sample_jobs TProcessing) = (db', Inr 2)"
    by (simp add: sample_processed MAX_INTEGER_def)
  then obtain db' where p: "process_claimed_job sample_env (sample_triage 60) 2 (sample_jobs TProcessing) = (db', Inr 2)" by blast
  have r: "t_ok (reports (sample_jobs TProcessing))" "t_get (reports (sample_jobs TProcessing)) 1 = Some (sample_report ''lamp'' RInReview)"
    by (simp_all add: sample_jobs_def t_ok_def t_get_def)
  have j: "t_get (reports (sample_jobs TProcessing)) (tj_report ((new_job 2) \<lparr> tj_status := TProcessing \<rparr>)) = Some (sample_report ''lamp out'' RSubmitted)"
    by (simp add: sample_job_rows new_job_def)
  show ?thesis
    using triage_outcome [OF sample_triage_ok _ r(1) sample_job_rows(1) j p] p r(2)
    by (simp add: new_job_def) (simp add: sample_report_def)
qed

theorem triage_outage_witness:
  "\<exists>db'. triage_loop sample_env (sample_triage 60 \<lparr> urlopen := \<lambda>_ _ _. Caught ''refused'' \<rparr>) 20 0 (sample_jobs TPending) = (db', Inr 1)
    \<and> job_status db' 2 = Some TNeedsManual"
proof -
  let ?te = "sample_triage 60 \<lparr> urlopen := \<lambda>_ _ _. Caught ''refused'' \<rparr>" and ?db = "sample_jobs TPending"
  have "t_ok (triage_jobs ?db)" by (simp add: sample_jobs_def t_ok_def)
  moreover have "job_refs ?db" by (simp add: job_refs_def sample_jobs_def t_get_def new_job_def)
  moreover have p: "length (pending_jobs ?db) = 1" by (simp add: pending_jobs_def sample_jobs_def t_filter_def new_job_def)
  ultimately obtain db' where "triage_loop sample_env ?te 20 0 ?db = (db', Inr 1)" "handed_over ?db db'"
    using triage_outage [of ?te ?db 20 sample_env] by auto
  then show ?thesis using sample_job_rows(1) [of TPending] by (fastforce simp: handed_over_def)
qed

text \<open>A deadline of 2147483648 minutes passes the validation and does not fit the column.\<close>

theorem triage_job_abandoned_witness:
  "\<exists>db' held' attempted'. fold triage_exec [Process sample_env (sample_triage 2147483648) 2, Claim sample_env None, Claim sample_env (Some 2)]
      (sample_jobs TProcessing, [2], [1]) = (db', held', attempted') \<and> job_status db' 2 = Some TProcessing \<and> 2 \<notin> set held'"
proof -
  let ?cs = "[Claim sample_env None, Claim sample_env (Some 2)]"
  have p: "process_claimed_job sample_env (sample_triage 2147483648) 2 (sample_jobs TProcessing) = (sample_jobs TProcessing, Inl DataError)"
    by (simp add: sample_processed MAX_INTEGER_def)
  obtain db' held' attempted' where run: "fold triage_exec (Process sample_env (sample_triage 2147483648) 2 # ?cs)
      (sample_jobs TProcessing, [2], [1]) = (db', held', attempted')" by (metis prod_cases3)
  show ?thesis using triage_job_abandoned [OF sample_triage_ok _ p run] run by auto
qed

end
