(* ===== verification/Documents.thy ===== *)
theory Documents
  imports Reports
begin

text \<open>
  Documents (\<open>documents/services.py\<close>, \<open>documents/access.py\<close>) and the photo of a report
  (\<open>maintenance/reporting.py\<close>, \<open>attach_report_photo\<close>): an upload is checked, scanned and either stored as the next
  version of its document, rejected or quarantined; a download reads the stored bytes back and compares
  their hash.

  The private storage is a parameter: what an S3 client or a file storage answers, over a storage state of
  its own, an exception being its text.  The scanner and the image library are parameters too.  The upload
  services run outside a transaction, so a rejected upload leaves its row and its audit event behind: every
  operation returns the state together with its result.
\<close>

section \<open>State and parameters\<close>

record quarantined_row =
  qu_uploader :: pk
  qu_building :: "pk option"
  qu_filename :: string
  qu_content_type :: string
  qu_byte_size :: nat
  qu_sha256 :: string
  qu_reason :: string
  qu_storage_key :: "string option"
  qu_provider_version_id :: string
  qu_retention_expires_at :: time
  qu_created_at :: time

record 's documents_db = domain_db +
  quarantined :: "quarantined_row table"
  private_objects :: 's

type_synonym ('s, 'z) docdb = "('s, 'z) documents_db_scheme"

record 's storage =
  is_s3 :: bool  \<comment> \<open>the storage has a \<open>bucket_name\<close> and a \<open>connection\<close>\<close>
  get_bucket_versioning :: "'s \<Rightarrow> string + string option"
  put_object :: "'s \<Rightarrow> string \<Rightarrow> string \<Rightarrow> string \<Rightarrow> 's \<times> (string + pyval)"
  get_object :: "'s \<Rightarrow> string \<Rightarrow> string \<Rightarrow> string + string"
  delete_object :: "'s \<Rightarrow> string \<Rightarrow> string \<Rightarrow> 's \<times> (string + unit)"
  save_file :: "'s \<Rightarrow> string \<Rightarrow> string \<Rightarrow> 's \<times> (string + string)"
  open_file :: "'s \<Rightarrow> string \<Rightarrow> string + string"
  delete_file :: "'s \<Rightarrow> string \<Rightarrow> 's \<times> (string + unit)"

record upload_env =
  document_max_upload_bytes :: nat
  quarantine_retention_days :: int
  uuid_hex :: string
  image_verifies :: "string \<Rightarrow> bool"

record upload =
  uf_name :: "string option"
  uf_content_type :: "string option"
  uf_size :: "nat option"
  uf_chunks :: "string list"

definition uf_data :: "upload \<Rightarrow> string" where
  "uf_data uf = concat (uf_chunks uf)"

section \<open>Storage\<close>

definition immutable_id :: "pyval \<Rightarrow> bool" where
  "immutable_id v = (case v of PyStr s \<Rightarrow> s \<noteq> [] \<and> py_lower s \<noteq> ''null'' | _ \<Rightarrow> False)"

definition store :: "'s storage \<Rightarrow> 's \<Rightarrow> string \<Rightarrow> string \<Rightarrow> string \<Rightarrow> 's \<times> string result" where
  "store st s key data content_type =
     (if is_s3 st then
        (case get_bucket_versioning st s of
           Inl _ \<Rightarrow> (s, Inl DocumentStorageError)
         | Inr status \<Rightarrow>
             if status \<noteq> Some ''Enabled'' then (s, Inl DocumentStorageError)
             else (case put_object st s key data content_type of
                 (s', Inl err) \<Rightarrow> (s', Inl (StorageFailure err))
               | (s', Inr vid) \<Rightarrow> if immutable_id vid then (s', Inr (the_str vid)) else (s', Inl DocumentStorageError)))
      else (case save_file st s key data of
          (s', Inl err) \<Rightarrow> (s', Inl (StorageFailure err))
        | (s', Inr saved_key) \<Rightarrow> (s', Inr saved_key)))"

definition read_stored_version :: "'s storage \<Rightarrow> 's \<Rightarrow> document_version_row \<Rightarrow> string result" where
  "read_stored_version st s v =
     (if is_s3 st then
        if \<not> immutable_id (PyStr (dv_provider_version_id v)) then Inl ValueError
        else (case get_object st s (dv_storage_key v) (dv_provider_version_id v) of
            Inl err \<Rightarrow> Inl (StorageFailure err) | Inr data \<Rightarrow> Inr data)
      else (case open_file st s (dv_storage_key v) of Inl err \<Rightarrow> Inl (StorageFailure err) | Inr data \<Rightarrow> Inr data))"

section \<open>Checking an upload\<close>

definition MIME_SIGNATURES :: "string \<Rightarrow> string option" where
  "MIME_SIGNATURES t =
     (if t = ''application/pdf'' then Some ''%PDF-''
      else if t = ''image/jpeg'' then Some [CHR 0xFF, CHR 0xD8, CHR 0xFF]
      else if t = ''image/png'' then Some [CHR 0x89, CHR ''P'', CHR ''N'', CHR ''G'', CHR 0x0D, CHR 0x0A, CHR 0x1A, CHR 0x0A]
      else None)"

definition PHOTO_KINDS :: "document_kind set" where "PHOTO_KINDS = {ReportPhoto}"
definition BILL_KINDS :: "document_kind set" where "BILL_KINDS = {ResidentBill}"

definition allowed_content_types :: "document_kind \<Rightarrow> string set" where
  "allowed_content_types k =
     (if k \<in> PHOTO_KINDS then {''image/jpeg'', ''image/png''}
      else if k \<in> BILL_KINDS then {''application/pdf'', ''image/jpeg'', ''image/png''}
      else {''application/pdf''})"

record upload_meta =
  um_filename :: string
  um_content_type :: string
  um_byte_size :: nat

definition basename :: "string \<Rightarrow> string" where
  "basename s = rev (takeWhile (\<lambda>c. c \<noteq> CHR ''/'') (rev s))"

definition upload_metadata :: "upload \<Rightarrow> upload_meta" where
  "upload_metadata uf = \<lparr> um_filename = take 255 (basename (case uf_name uf of None \<Rightarrow> ''upload'' | Some n \<Rightarrow> n)),
     um_content_type = (case uf_content_type uf of None \<Rightarrow> [] | Some t \<Rightarrow> t),
     um_byte_size = (case uf_size uf of None \<Rightarrow> 0 | Some n \<Rightarrow> n) \<rparr>"

text \<open>The copy loop: the size reached when a chunk takes the copy over the limit.\<close>

fun spool_overflow :: "nat \<Rightarrow> nat \<Rightarrow> string list \<Rightarrow> nat option" where
  "spool_overflow limit n [] = None"
| "spool_overflow limit n (c # cs) =
     (if n + length c > limit then Some (n + length c) else spool_overflow limit (n + length c) cs)"

text \<open>Why an upload is rejected before it is scanned, with the size the rejection records.\<close>

definition rejection_of :: "upload_env \<Rightarrow> document_kind \<Rightarrow> upload \<Rightarrow> (string \<times> nat) option result" where
  "rejection_of ue kind uf =
     (let meta = upload_metadata uf; data = uf_data uf in
      if um_content_type meta \<notin> allowed_content_types kind then Inr (Some (''unsupported content type'', um_byte_size meta))
      else if um_byte_size meta > document_max_upload_bytes ue
      then Inr (Some (''upload exceeds size limit'', um_byte_size meta))
      else (case spool_overflow (document_max_upload_bytes ue) 0 (uf_chunks uf) of
          Some n \<Rightarrow> Inr (Some (''upload exceeds size limit'', n))
        | None \<Rightarrow> (case MIME_SIGNATURES (um_content_type meta) of
              None \<Rightarrow> Inl KeyError
            | Some sig \<Rightarrow>
                if \<not> starts_with sig (take 8 data)
                then Inr (Some (''file signature does not match content type'', length data))
                else if starts_with ''image/'' (um_content_type meta) \<and> \<not> image_verifies ue data
                then Inr (Some (''image verification failed'', length data))
                else Inr None)))"

section \<open>Uploading\<close>

text \<open>The standing of an uploader: a membership, or an occupancy where a resident may upload.\<close>

definition upload_standing ::
  "'z ddb \<Rightarrow> pk \<Rightarrow> document_row \<Rightarrow> bool \<Rightarrow> (pk option \<times> (pk \<times> occupancy_row) option) result" where
  "upload_standing db uploader doc allow_resident_occupancy =
     (case require_management db uploader (d_building doc) of
        Inr m \<Rightarrow> Inr (Some m, None)
      | Inl _ \<Rightarrow>
          if \<not> (allow_resident_occupancy \<and> d_kind doc = ReportPhoto) then Inl PermissionDenied
          else (case active_occupancy_in db uploader (d_building doc) of
              None \<Rightarrow> Inl PermissionDenied
            | Some oc \<Rightarrow> Inr (None, Some oc)))"

definition standing_building :: "'z ddb \<Rightarrow> pk option \<Rightarrow> (pk \<times> occupancy_row) option \<Rightarrow> pk option" where
  "standing_building db membership occupancy =
     (case membership of
        Some m \<Rightarrow> map_option mb_building (t_get (memberships db) m)
      | None \<Rightarrow> (case occupancy of None \<Rightarrow> None | Some (_, oc) \<Rightarrow> map_option un_building (t_get (units db) (oc_unit oc))))"

definition audit_upload ::
  "env \<Rightarrow> ('s, 'z) docdb \<Rightarrow> pk \<Rightarrow> pk option \<Rightarrow> (pk \<times> occupancy_row) option \<Rightarrow> string \<Rightarrow> pk \<Rightarrow> string
     \<Rightarrow> (string \<times> pyval) list \<Rightarrow> ('s, 'z) docdb result" where
  "audit_upload env db uploader membership occupancy action target res meta =
     (case (membership, occupancy) of
        (None, Some (oc, _)) \<Rightarrow>
          record_audit env db uploader None ''document.upload'' ''DocumentVersion'' (nat_str target) res
            ((''occupancy_id'', pint oc) # meta)
      | _ \<Rightarrow> record_audit env db uploader membership action ''DocumentUpload'' (nat_str target) res meta)"

definition retention_expires_at :: "env \<Rightarrow> upload_env \<Rightarrow> time" where
  "retention_expires_at env ue = now env + days (quarantine_retention_days ue)"

definition after :: "'d \<Rightarrow> 'd result \<Rightarrow> exn \<Rightarrow> 'd \<times> 'a result" where
  "after db audit e = (case audit of Inl e' \<Rightarrow> (db, Inl e') | Inr db' \<Rightarrow> (db', Inl e))"

definition create_rejection ::
  "env \<Rightarrow> upload_env \<Rightarrow> ('s, 'z) docdb \<Rightarrow> pk \<Rightarrow> pk option \<Rightarrow> (pk \<times> occupancy_row) option \<Rightarrow> upload_meta \<Rightarrow> string
     \<Rightarrow> ('s, 'z) docdb \<times> 'a result" where
  "create_rejection env ue db uploader membership occupancy meta reason =
     (let k = next_pk (quarantined db);
          db1 = db \<lparr> quarantined := t_insert \<lparr> qu_uploader = uploader,
            qu_building = standing_building db membership occupancy, qu_filename = um_filename meta,
            qu_content_type = um_content_type meta, qu_byte_size = um_byte_size meta, qu_sha256 = [], qu_reason = reason,
            qu_storage_key = None, qu_provider_version_id = [], qu_retention_expires_at = retention_expires_at env ue,
            qu_created_at = now env \<rparr> (quarantined db) \<rparr> in
      after db1 (audit_upload env db1 uploader membership occupancy ''document.upload_rejected'' k ''rejected''
        [(''reason'', PyStr reason)]) DocumentUploadRejected)"

definition quarantine_row ::
  "env \<Rightarrow> upload_env \<Rightarrow> pk \<Rightarrow> pk option \<Rightarrow> upload_meta \<Rightarrow> string \<Rightarrow> string \<Rightarrow> string \<Rightarrow> string \<Rightarrow> quarantined_row" where
  "quarantine_row env ue uploader building meta digest reason key provider_id =
     \<lparr> qu_uploader = uploader, qu_building = building, qu_filename = um_filename meta,
       qu_content_type = um_content_type meta, qu_byte_size = um_byte_size meta, qu_sha256 = digest, qu_reason = reason,
       qu_storage_key = Some key, qu_provider_version_id = provider_id,
       qu_retention_expires_at = retention_expires_at env ue, qu_created_at = now env \<rparr>"

text \<open>The branch of an upload that is not clean.\<close>

definition quarantine_unclean ::
  "env \<Rightarrow> upload_env \<Rightarrow> 's storage \<Rightarrow> ('s, 'z) docdb \<Rightarrow> pk \<Rightarrow> pk option \<Rightarrow> (pk \<times> occupancy_row) option
     \<Rightarrow> upload_meta \<Rightarrow> string \<Rightarrow> string \<Rightarrow> ('s, 'z) docdb \<times> 'a result" where
  "quarantine_unclean env ue st db uploader membership occupancy meta data reason =
     (let key = ''quarantine/'' @ uuid_hex ue in
      case store st (private_objects db) key data (um_content_type meta) of
        (s, Inl e) \<Rightarrow> (db \<lparr> private_objects := s \<rparr>, Inl e)
      | (s, Inr vid) \<Rightarrow>
          (let k = next_pk (quarantined db); db1 = db \<lparr> private_objects := s \<rparr> in
           if t_exists (\<lambda>_ q. qu_storage_key q = Some key) (quarantined db)
           then (db1, Inl (IntegrityError ''documents_quarantinedupload_storage_key_key''))
           else
             (let db2 = db1 \<lparr> quarantined := t_insert (quarantine_row env ue uploader
                    (standing_building db membership occupancy) meta (sha256_hex env data) reason key vid) (quarantined db) \<rparr> in
              after db2 (audit_upload env db2 uploader membership occupancy ''document.upload_quarantined'' k ''quarantined''
                [(''reason'', PyStr reason)]) DocumentUploadQuarantined)))"

definition doc_versions :: "'z ddb \<Rightarrow> pk \<Rightarrow> document_version_row list" where
  "doc_versions db d = map snd (t_filter (\<lambda>_ v. dv_document v = d) (document_versions db))"

definition next_version :: "'z ddb \<Rightarrow> pk \<Rightarrow> nat" where
  "next_version db d = foldr max (map dv_version (doc_versions db d)) 0 + 1"

definition document_key :: "upload_env \<Rightarrow> pk \<Rightarrow> string" where
  "document_key ue d = ''documents/'' @ nat_str d @ ''/'' @ uuid_hex ue"

text \<open>The transaction that stores a clean upload; the object put in the storage is not rolled back with it.\<close>

definition store_version ::
  "env \<Rightarrow> upload_env \<Rightarrow> 's storage \<Rightarrow> ('s, 'z) docdb \<Rightarrow> pk \<Rightarrow> pk \<Rightarrow> upload_meta \<Rightarrow> string \<Rightarrow> ('s, 'z) docdb \<times> pk result" where
  "store_version env ue st db d uploader meta data =
     (let key = document_key ue d in
      case store st (private_objects db) key data (um_content_type meta) of
        (s, Inl e) \<Rightarrow> (db \<lparr> private_objects := s \<rparr>, Inl e)
      | (s, Inr vid) \<Rightarrow>
          if t_exists (\<lambda>_ v. dv_storage_key v = key) (document_versions db)
          then (db \<lparr> private_objects := s \<rparr>, Inl (IntegrityError ''documents_documentversion_storage_key_key''))
          else (db \<lparr> private_objects := s, document_versions := t_insert \<lparr> dv_document = d,
              dv_version = next_version db d, dv_storage_key = key, dv_provider_version_id = vid,
              dv_filename = um_filename meta, dv_content_type = um_content_type meta, dv_byte_size = um_byte_size meta,
              dv_sha256 = sha256_hex env data, dv_scan_status = Clean, dv_uploader = uploader, dv_created_at = now env \<rparr>
              (document_versions db) \<rparr>, Inr (next_pk (document_versions db))))"

definition create_document_version ::
  "env \<Rightarrow> upload_env \<Rightarrow> 's storage \<Rightarrow> (string \<Rightarrow> string + bool) \<Rightarrow> ('s, 'z) docdb \<Rightarrow> pk \<Rightarrow> upload \<Rightarrow> pk \<Rightarrow> bool
     \<Rightarrow> ('s, 'z) docdb \<times> pk result" where
  "create_document_version env ue st scanner db d uf uploader allow_resident_occupancy =
     (case t_get (documents db) d of
        None \<Rightarrow> (db, Inl DoesNotExist)
      | Some doc \<Rightarrow> (case upload_standing db uploader doc allow_resident_occupancy of
            Inl e \<Rightarrow> (db, Inl e)
          | Inr (membership, occupancy) \<Rightarrow>
              (let meta = upload_metadata uf; data = uf_data uf in
               case rejection_of ue (d_kind doc) uf of
                 Inl e \<Rightarrow> (db, Inl e)
               | Inr (Some (reason, n)) \<Rightarrow>
                   create_rejection env ue db uploader membership occupancy (meta \<lparr> um_byte_size := n \<rparr>) reason
               | Inr None \<Rightarrow>
                   (let meta1 = meta \<lparr> um_byte_size := length data \<rparr> in
                    case scanner data of
                      Inl _ \<Rightarrow> quarantine_unclean env ue st db uploader membership occupancy meta1 data ''scanner unavailable''
                    | Inr False \<Rightarrow> quarantine_unclean env ue st db uploader membership occupancy meta1 data ''malware detected''
                    | Inr True \<Rightarrow> (case store_version env ue st db d uploader meta1 data of
                          (db1, Inl e) \<Rightarrow> (db1, Inl e)
                        | (db1, Inr k) \<Rightarrow>
                            (case audit_upload env db1 uploader membership occupancy ''document.upload'' k ''allowed'' [] of
                               Inl e \<Rightarrow> (db1, Inl e) | Inr db2 \<Rightarrow> (db2, Inr k)))))))"

definition create_resident_report_photo ::
  "env \<Rightarrow> upload_env \<Rightarrow> 's storage \<Rightarrow> (string \<Rightarrow> string + bool) \<Rightarrow> ('s, 'z) docdb \<Rightarrow> pk \<Rightarrow> pk \<Rightarrow> upload
     \<Rightarrow> ('s, 'z) docdb \<times> pk result" where
  "create_resident_report_photo env ue st scanner db resident building uf =
     (let d = next_pk (documents db);
          db1 = db \<lparr> documents := t_insert \<lparr> d_building = building, d_kind = ReportPhoto \<rparr> (documents db) \<rparr> in
      create_document_version env ue st scanner db1 d uf resident True)"

definition quarantine_upload ::
  "env \<Rightarrow> upload_env \<Rightarrow> 's storage \<Rightarrow> ('s, 'z) docdb \<Rightarrow> upload \<Rightarrow> pk \<Rightarrow> string \<Rightarrow> ('s, 'z) docdb \<times> pk result" where
  "quarantine_upload env ue st db uf uploader reason =
     (case t_filter (\<lambda>_ m. mb_user m = uploader \<and> mb_active m) (memberships db) of
        [] \<Rightarrow> (db, Inl PermissionDenied)
      | (m, row) # rest \<Rightarrow>
          if \<not> list_all (\<lambda>(_, r). mb_building r = mb_building row) rest then (db, Inl PermissionDenied)
          else
            (let data = uf_data uf; meta = upload_metadata uf \<lparr> um_byte_size := length data \<rparr>;
                 key = ''quarantine/'' @ uuid_hex ue in
             case store st (private_objects db) key data (um_content_type meta) of
               (s, Inl e) \<Rightarrow> (db \<lparr> private_objects := s \<rparr>, Inl e)
             | (s, Inr vid) \<Rightarrow>
                 (let k = next_pk (quarantined db); db1 = db \<lparr> private_objects := s \<rparr> in
                  if t_exists (\<lambda>_ q. qu_storage_key q = Some key) (quarantined db)
                  then (db1, Inl (IntegrityError ''documents_quarantinedupload_storage_key_key''))
                  else
                    (let db2 = db1 \<lparr> quarantined := t_insert (quarantine_row env ue uploader (Some (mb_building row)) meta
                           (sha256_hex env data) reason key vid) (quarantined db) \<rparr> in
                     case record_audit env db2 uploader (Some m) ''document.upload_quarantined'' ''DocumentUpload'' (nat_str k)
                            ''quarantined'' [(''reason'', PyStr reason)] of
                       Inl e \<Rightarrow> (db2, Inl e) | Inr db3 \<Rightarrow> (db3, Inr k)))))"

section \<open>The retention purge\<close>

definition purgeable :: "time \<Rightarrow> quarantined_row \<Rightarrow> bool" where
  "purgeable t q \<longleftrightarrow> (case qu_storage_key q of None \<Rightarrow> False | Some key \<Rightarrow> key \<noteq> []) \<and> qu_retention_expires_at q \<le> t"

fun purge_objects :: "'s storage \<Rightarrow> quarantined_row list \<Rightarrow> 's \<Rightarrow> 's \<times> unit result" where
  "purge_objects st [] s = (s, Inr ())"
| "purge_objects st (q # qs) s =
     (let key = (case qu_storage_key q of None \<Rightarrow> [] | Some k \<Rightarrow> k) in
      if is_s3 st \<and> \<not> immutable_id (PyStr (qu_provider_version_id q)) then (s, Inl DocumentStorageError)
      else (case (if is_s3 st then delete_object st s key (qu_provider_version_id q) else delete_file st s key) of
          (s', Inl err) \<Rightarrow> (s', Inl (StorageFailure err))
        | (s', Inr _) \<Rightarrow> purge_objects st qs s'))"

definition purge_expired_quarantine :: "'s storage \<Rightarrow> time \<Rightarrow> ('s, 'z) docdb \<Rightarrow> ('s, 'z) docdb \<times> nat result" where
  "purge_expired_quarantine st t db =
     (let expired = t_filter (\<lambda>_. purgeable t) (quarantined db) in
      case purge_objects st (map snd expired) (private_objects db) of
        (s, Inl e) \<Rightarrow> (db \<lparr> private_objects := s \<rparr>, Inl e)
      | (s, Inr _) \<Rightarrow> (db \<lparr> private_objects := s \<rparr>, Inr (length expired)))"

section \<open>Downloading\<close>

definition read_version_bytes :: "env \<Rightarrow> 's storage \<Rightarrow> ('s, 'z) docdb \<Rightarrow> document_version_row \<Rightarrow> string result" where
  "read_version_bytes env st db v =
     (case read_stored_version st (private_objects db) v of
        Inl _ \<Rightarrow> Inl DocumentIntegrityError
      | Inr data \<Rightarrow> if sha256_hex env data \<noteq> dv_sha256 v then Inl DocumentIntegrityError else Inr data)"

definition audit_download ::
  "env \<Rightarrow> ('s, 'z) docdb \<Rightarrow> pk \<Rightarrow> pk option \<Rightarrow> pk \<Rightarrow> string \<Rightarrow> (string \<times> pyval) list \<Rightarrow> 'a result \<Rightarrow> ('s, 'z) docdb \<times> 'a result" where
  "audit_download env db user membership k res meta r =
     (case record_audit env db user membership ''document.download'' ''DocumentVersion'' (nat_str k) res meta of
        Inl e \<Rightarrow> (db, Inl e) | Inr db' \<Rightarrow> (db', r))"

text \<open>The membership and the occupancy a download is decided on and audited with.\<close>

definition membership_in :: "'z adb \<Rightarrow> pk \<Rightarrow> pk \<Rightarrow> pk option" where
  "membership_in db user b = (case require_management db user b of Inl _ \<Rightarrow> None | Inr m \<Rightarrow> Some m)"

definition audit_membership :: "'z adb \<Rightarrow> pk \<Rightarrow> pk \<Rightarrow> pk option" where
  "audit_membership db user b =
     (case membership_in db user b of
        Some m \<Rightarrow> Some m
      | None \<Rightarrow> map_option fst (t_first (\<lambda>_ m. mb_user m = user \<and> mb_active m) (memberships db)))"

definition download_occupancy :: "'z adb \<Rightarrow> pk \<Rightarrow> pk \<Rightarrow> (pk \<times> occupancy_row) option" where
  "download_occupancy db user b =
     (let occupancy = (if membership_in db user b = None then active_occupancy_in db user b else None) in
      if audit_membership db user b = None \<and> occupancy = None
      then t_first (\<lambda>_ oc. oc_user oc = user \<and> oc_active oc) (occupancies db) else occupancy)"

definition download_metadata :: "'z adb \<Rightarrow> pk \<Rightarrow> pk \<Rightarrow> (string \<times> pyval) list" where
  "download_metadata db user b =
     (case download_occupancy db user b of None \<Rightarrow> [] | Some (oc, _) \<Rightarrow> [(''occupancy_id'', pint oc)])"

definition download_allowed :: "'z adb \<Rightarrow> pk \<Rightarrow> pk \<Rightarrow> bool" where
  "download_allowed db user b \<longleftrightarrow> membership_in db user b \<noteq> None \<or> download_occupancy db user b \<noteq> None"

definition authorize_download ::
  "env \<Rightarrow> 's storage \<Rightarrow> ('s, 'z) docdb \<Rightarrow> pk \<Rightarrow> pk \<Rightarrow> ('s, 'z) docdb \<times> string result" where
  "authorize_download env st db user k =
     (case t_get (document_versions db) k of
        None \<Rightarrow> (db, Inl DoesNotExist)
      | Some v \<Rightarrow> (case t_get (documents db) (dv_document v) of
            None \<Rightarrow> (db, Inl DoesNotExist)
          | Some doc \<Rightarrow>
              (let m = audit_membership db user (d_building doc);
                   meta = download_metadata db user (d_building doc);
                   meta_check = (''action_item'', PyStr ''document_integrity_check'') # meta in
               if \<not> download_allowed db user (d_building doc)
               then audit_download env db user m k ''denied'' meta (Inl PermissionDenied)
               else (case read_stored_version st (private_objects db) v of
                   Inl _ \<Rightarrow> audit_download env db user m k ''unavailable'' meta_check (Inl DocumentIntegrityError)
                 | Inr data \<Rightarrow>
                     if sha256_hex env data \<noteq> dv_sha256 v
                     then audit_download env db user m k ''integrity_mismatch'' meta_check (Inl DocumentIntegrityError)
                     else audit_download env db user m k ''allowed'' meta (Inr data)))))"

section \<open>The photo of a report\<close>

text \<open>
  An exception that leaves the transaction takes the rows written in it back, the rejection and its audit
  event included; what was put in the storage stays.
\<close>

definition rolled_back :: "('s, 'z) docdb \<Rightarrow> ('s, 'z) docdb \<Rightarrow> ('s, 'z) docdb" where
  "rolled_back db db' = db \<lparr> private_objects := private_objects db' \<rparr>"

definition photo_of :: "'z ddb \<Rightarrow> pk \<Rightarrow> string \<Rightarrow> pk option" where
  "photo_of db r sha = map_option (ph_version \<circ> snd) (t_first (\<lambda>_ p. ph_report p = r \<and> ph_content_sha p = sha) (report_photos db))"

definition attach_report_photo ::
  "env \<Rightarrow> upload_env \<Rightarrow> 's storage \<Rightarrow> (string \<Rightarrow> string + bool) \<Rightarrow> ('s, 'z) docdb \<Rightarrow> pk \<Rightarrow> pk \<Rightarrow> upload
     \<Rightarrow> ('s, 'z) docdb \<times> (pk \<times> bool) result" where
  "attach_report_photo env ue st scanner db resident r uf =
     (case t_get (reports db) r of
        None \<Rightarrow> (db, Inl DoesNotExist)
      | Some report \<Rightarrow>
          if active_occupancy_in db resident (rp_building report) = None then (db, Inl PermissionDenied)
          else
            (let content_sha = sha256_hex env (uf_data uf) in
             case photo_of db r content_sha of
               Some v \<Rightarrow> (db, Inr (v, False))
             | None \<Rightarrow>
                 (case create_resident_report_photo env ue st scanner db resident (rp_building report) uf of
                    (db1, Inl e) \<Rightarrow> (rolled_back db db1, Inl e)
                  | (db1, Inr v) \<Rightarrow>
                      (db1 \<lparr> report_photos := t_insert \<lparr> ph_report = r, ph_version = v, ph_content_sha = content_sha \<rparr>
                         (report_photos db1) \<rparr>, Inr (v, True)))))"

section \<open>Lemmas\<close>

lemma spool_overflow_None:
  "n \<le> limit \<Longrightarrow> spool_overflow limit n cs = None \<longleftrightarrow> n + length (concat cs) \<le> limit"
  by (induction limit n cs rule: spool_overflow.induct) auto

lemma rejection_of_None:
  assumes "rejection_of ue kind uf = Inr None"
  shows "um_content_type (upload_metadata uf) \<in> allowed_content_types kind"
    and "length (uf_data uf) \<le> document_max_upload_bytes ue"
    and "\<exists>sig. MIME_SIGNATURES (um_content_type (upload_metadata uf)) = Some sig \<and> starts_with sig (take 8 (uf_data uf))"
    and "starts_with ''image/'' (um_content_type (upload_metadata uf)) \<Longrightarrow> image_verifies ue (uf_data uf)"
  using assms spool_overflow_None [of 0 "document_max_upload_bytes ue" "uf_chunks uf"]
  by (auto simp: rejection_of_def Let_def uf_data_def split: if_splits option.splits)

lemma audit_upload_appends:
  "audit_upload env db up m oc a k res meta = Inr db' \<Longrightarrow> \<exists>row. db' = db \<lparr> audit_log := t_insert row (audit_log db) \<rparr>"
  by (auto simp: audit_upload_def dest: record_audit_appends split: option.splits prod.splits)

lemma after_cases: "after db r e = (db', r') \<Longrightarrow> (\<exists>e'. r' = Inl e') \<and> (db' = db \<or> r = Inr db')"
  by (auto simp: after_def split: sum.splits)

text \<open>What an upload that is not stored leaves of the other tables.\<close>

lemma create_rejection_frame:
  assumes "create_rejection env ue db up m oc meta reason = (db', r)"
  shows "document_versions db' = document_versions db \<and> documents db' = documents db \<and> report_photos db' = report_photos db
    \<and> private_objects db' = private_objects db \<and> (\<exists>e. r = Inl e)"
  using assms by (auto simp: create_rejection_def Let_def dest!: after_cases audit_upload_appends)

lemma quarantine_unclean_frame:
  assumes "quarantine_unclean env ue st db up m oc meta data reason = (db', r)"
  shows "document_versions db' = document_versions db \<and> documents db' = documents db \<and> report_photos db' = report_photos db
    \<and> (\<exists>e. r = Inl e)"
  using assms
  by (auto simp: quarantine_unclean_def Let_def split: prod.splits sum.splits if_splits dest!: after_cases audit_upload_appends)

text \<open>An upload changes the versions only by storing one, after every check has passed.\<close>

lemma store_version_cases:
  assumes "store_version env ue st db d up meta data = (db', r)"
  obtains (failed) e s where "r = Inl e" "db' = db \<lparr> private_objects := s \<rparr>"
  | (kept) key s vid where "key = document_key ue d"
      "store st (private_objects db) key data (um_content_type meta) = (s, Inr vid)"
      "\<not> t_exists (\<lambda>_ v. dv_storage_key v = key) (document_versions db)"
      "db' = db \<lparr> private_objects := s, document_versions := t_insert \<lparr> dv_document = d, dv_version = next_version db d,
         dv_storage_key = key, dv_provider_version_id = vid, dv_filename = um_filename meta,
         dv_content_type = um_content_type meta, dv_byte_size = um_byte_size meta, dv_sha256 = sha256_hex env data,
         dv_scan_status = Clean, dv_uploader = up, dv_created_at = now env \<rparr> (document_versions db) \<rparr>"
      "r = Inr (next_pk (document_versions db))"
  using assms by (auto simp: store_version_def Let_def split: prod.splits sum.splits if_splits)

lemma audited_cases:
  assumes "(case audit_upload env db up m oc a n res meta of Inl e \<Rightarrow> (db, Inl e) | Inr db2 \<Rightarrow> (db2, Inr k)) = (db', r)"
  shows "(\<exists>row. db' = db \<lparr> audit_log := row \<rparr>) \<and> (\<forall>k'. r = Inr k' \<longrightarrow> k' = k)"
proof (cases "audit_upload env db up m oc a n res meta")
  case (Inl e)
  have "\<exists>row. db = db \<lparr> audit_log := row \<rparr>" by (rule exI [where x = "audit_log db"]) simp
  then show ?thesis using assms Inl by auto
qed (use assms audit_upload_appends in fastforce)

definition checks_passed ::
  "upload_env \<Rightarrow> (string \<Rightarrow> string + bool) \<Rightarrow> 'z ddb \<Rightarrow> pk \<Rightarrow> upload \<Rightarrow> pk \<Rightarrow> bool \<Rightarrow> bool" where
  "checks_passed ue scanner db d uf up allow \<longleftrightarrow>
     (case t_get (documents db) d of
        None \<Rightarrow> False
      | Some doc \<Rightarrow> (\<exists>st. upload_standing db up doc allow = Inr st) \<and> rejection_of ue (d_kind doc) uf = Inr None)
     \<and> scanner (uf_data uf) = Inr True"

lemma upload_unchecked:
  assumes "create_document_version env ue st scanner db d uf up allow = (db', r)"
    and "\<not> checks_passed ue scanner db d uf up allow"
  shows "(\<exists>e. r = Inl e) \<and> document_versions db' = document_versions db \<and> documents db' = documents db
      \<and> report_photos db' = report_photos db"
proof (cases "t_get (documents db) d")
  case (Some doc)
  show ?thesis
  proof (cases "upload_standing db up doc allow")
    case (Inr mo)
    obtain m oc where mo: "mo = (m, oc)" by (cases mo)
    show ?thesis
    proof (cases "rejection_of ue (d_kind doc) uf = Inr None")
      case True
      then have "scanner (uf_data uf) \<noteq> Inr True" using assms(2) Some Inr by (auto simp: checks_passed_def)
      then show ?thesis using assms(1) Some Inr mo True
        by (auto simp: create_document_version_def Let_def dest!: quarantine_unclean_frame split: sum.splits bool.splits)
    next
      case False
      then show ?thesis using assms(1) Some Inr mo
        by (auto simp: create_document_version_def Let_def dest!: create_rejection_frame split: sum.splits option.splits)
    qed
  qed (use assms Some in \<open>auto simp: create_document_version_def\<close>)
qed (use assms in \<open>auto simp: create_document_version_def\<close>)

lemma upload_outcome:
  assumes "create_document_version env ue st scanner db d uf up allow = (db', r)"
  obtains (refused) e where "r = Inl e" "document_versions db' = document_versions db" "documents db' = documents db"
      "report_photos db' = report_photos db"
  | (stored) doc m oc s vid key v row where
      "t_get (documents db) d = Some doc" "upload_standing db up doc allow = Inr (m, oc)"
      "rejection_of ue (d_kind doc) uf = Inr None" "scanner (uf_data uf) = Inr True"
      "key = document_key ue d"
      "store st (private_objects db) key (uf_data uf) (um_content_type (upload_metadata uf)) = (s, Inr vid)"
      "\<not> t_exists (\<lambda>_ v. dv_storage_key v = key) (document_versions db)"
      "v = \<lparr> dv_document = d, dv_version = next_version db d, dv_storage_key = key, dv_provider_version_id = vid,
         dv_filename = um_filename (upload_metadata uf), dv_content_type = um_content_type (upload_metadata uf),
         dv_byte_size = length (uf_data uf), dv_sha256 = sha256_hex env (uf_data uf), dv_scan_status = Clean,
         dv_uploader = up, dv_created_at = now env \<rparr>"
      "db' = db \<lparr> private_objects := s, document_versions := t_insert v (document_versions db), audit_log := row \<rparr>"
      "\<And>k. r = Inr k \<Longrightarrow> k = next_pk (document_versions db)"
proof (cases "checks_passed ue scanner db d uf up allow")
  case False
  then show ?thesis using upload_unchecked [OF assms] refused by blast
next
  case True
  then obtain doc m oc where pre: "t_get (documents db) d = Some doc" "upload_standing db up doc allow = Inr (m, oc)"
      "rejection_of ue (d_kind doc) uf = Inr None" "scanner (uf_data uf) = Inr True"
    by (auto simp: checks_passed_def split: option.splits)
  obtain db1 r1 where sv: "store_version env ue st db d up (upload_metadata uf \<lparr> um_byte_size := length (uf_data uf) \<rparr>) (uf_data uf)
      = (db1, r1)" by fastforce
  from sv show ?thesis
  proof (cases rule: store_version_cases)
    case failed then show ?thesis using assms pre sv refused by (auto simp: create_document_version_def Let_def)
  next
    case (kept key s vid)
    have audited: "(case audit_upload env db1 up m oc ''document.upload'' (next_pk (document_versions db)) ''allowed'' [] of
        Inl e \<Rightarrow> (db1, Inl e) | Inr db2 \<Rightarrow> (db2, Inr (next_pk (document_versions db)))) = (db', r)"
      using assms by (simp add: create_document_version_def Let_def pre sv kept(5))
    obtain row where "db' = db1 \<lparr> audit_log := row \<rparr>" and "\<And>k. r = Inr k \<Longrightarrow> k = next_pk (document_versions db)"
      using audited_cases [OF audited] by blast
    then show ?thesis using kept by (intro stored [OF pre kept(1) _ kept(3) refl, where row = row]) auto
  qed
qed

text \<open>The versions of a document are numbered from one without gaps, and no two rows name one object.\<close>

definition docs_ok :: "'z ddb \<Rightarrow> bool" where
  "docs_ok db \<longleftrightarrow> t_ok (document_versions db)
     \<and> (\<forall>d. map dv_version (doc_versions db d) = [1..<Suc (length (doc_versions db d))])
     \<and> distinct (map (dv_storage_key \<circ> snd) (table_rows (document_versions db)))"

lemma max_upt: "foldr max [1..<Suc n] m = max n m"
  by (induction n arbitrary: m) auto

lemma next_version_numbered:
  assumes "docs_ok db"
  shows "next_version db d = Suc (length (doc_versions db d))"
proof -
  have "map dv_version (doc_versions db d) = [1..<Suc (length (doc_versions db d))]" using assms by (simp add: docs_ok_def)
  then show ?thesis unfolding next_version_def by (simp add: max_upt del: upt_Suc One_nat_def)
qed

lemma doc_versions_same: "document_versions db' = document_versions db \<Longrightarrow> doc_versions db' d = doc_versions db d"
  by (simp add: doc_versions_def)

lemma docs_ok_same: "document_versions db' = document_versions db \<Longrightarrow> docs_ok db' \<longleftrightarrow> docs_ok db"
  by (simp add: docs_ok_def doc_versions_def)

lemma docs_ok_insert:
  assumes "docs_ok db" "document_versions db' = t_insert v (document_versions db)"
    and "dv_version v = next_version db (dv_document v)"
    and "\<not> t_exists (\<lambda>_ w. dv_storage_key w = dv_storage_key v) (document_versions db)"
  shows "docs_ok db'"
proof -
  have "doc_versions db' d = doc_versions db d @ (if dv_document v = d then [v] else [])" for d
    by (simp add: doc_versions_def assms(2) t_filter_def t_insert_def)
  then have "map dv_version (doc_versions db' d) = [1..<Suc (length (doc_versions db' d))]" for d
    using assms(1,3) next_version_numbered [OF assms(1)] by (simp add: docs_ok_def)
  moreover have "distinct (map (dv_storage_key \<circ> snd) (table_rows (document_versions db')))"
    using assms(1,2,4) by (auto simp: docs_ok_def t_insert_def t_exists_def list_ex_iff)
  moreover have "t_ok (document_versions db')" using assms(1,2) by (simp add: docs_ok_def)
  ultimately show ?thesis unfolding docs_ok_def by blast
qed

lemma upload_docs_ok:
  assumes "create_document_version env ue st scanner db d uf up allow = (db', r)" "docs_ok db"
  shows "docs_ok db' \<and> (\<exists>new. table_rows (document_versions db') = table_rows (document_versions db) @ new)"
  using assms(1)
proof (cases rule: upload_outcome)
  case refused then show ?thesis using docs_ok_same assms(2) by auto
next
  case (stored doc m oc s vid key v row)
  have "docs_ok db'" by (rule docs_ok_insert [OF assms(2), of db' v]) (use stored(7-9) in simp_all)
  then show ?thesis using stored(9) by (simp add: t_insert_def)
qed

section \<open>The document machine\<close>

datatype doc_op =
    Upload pk upload pk bool
  | QuarantineUpload upload pk string
  | AttachPhoto pk pk upload
  | Download pk pk
  | PurgeQuarantine

fun doc_exec ::
  "env \<times> upload_env \<times> 's storage \<times> (string \<Rightarrow> string + bool) \<times> doc_op \<Rightarrow> ('s, 'z) docdb \<Rightarrow> ('s, 'z) docdb" where
  "doc_exec (env, ue, st, scanner, Upload d uf up allow) db = fst (create_document_version env ue st scanner db d uf up allow)"
| "doc_exec (env, ue, st, scanner, QuarantineUpload uf up reason) db = fst (quarantine_upload env ue st db uf up reason)"
| "doc_exec (env, ue, st, scanner, AttachPhoto resident r uf) db = fst (attach_report_photo env ue st scanner db resident r uf)"
| "doc_exec (env, ue, st, scanner, Download user k) db = fst (authorize_download env st db user k)"
| "doc_exec (env, ue, st, scanner, PurgeQuarantine) db = fst (purge_expired_quarantine st (now env) db)"

lemma quarantine_upload_versions: "document_versions (fst (quarantine_upload env ue st db uf up reason)) = document_versions db"
  by (auto simp: quarantine_upload_def Let_def dest: record_audit_appends split: list.splits prod.splits sum.splits)

lemma audit_download_versions: "document_versions (fst (audit_download env db u m k res meta r)) = document_versions db"
  by (auto simp: audit_download_def dest: record_audit_appends split: sum.splits)

lemma authorize_download_versions: "document_versions (fst (authorize_download env st db u k)) = document_versions db"
  by (simp add: authorize_download_def audit_download_versions Let_def split: option.splits sum.splits)

lemma purge_versions: "document_versions (fst (purge_expired_quarantine st t db)) = document_versions db"
  by (auto simp: purge_expired_quarantine_def Let_def split: prod.splits sum.splits)

lemma attach_photo_docs_ok:
  assumes "attach_report_photo env ue st scanner db resident r uf = (db', res)" "docs_ok db"
  shows "docs_ok db' \<and> (\<exists>new. table_rows (document_versions db') = table_rows (document_versions db) @ new)"
proof -
  let ?db1 = "\<lambda>b. db \<lparr> documents := t_insert \<lparr> d_building = b, d_kind = ReportPhoto \<rparr> (documents db) \<rparr>"
  consider (same) "document_versions db' = document_versions db"
  | (photo) b db1 v where "create_document_version env ue st scanner (?db1 b) (next_pk (documents db)) uf resident True = (db1, Inr v)"
      "document_versions db' = document_versions db1"
    using assms(1)
    by (auto simp: attach_report_photo_def create_resident_report_photo_def rolled_back_def Let_def
        split: option.splits if_splits prod.splits sum.splits)
  then show ?thesis
  proof cases
    case same then show ?thesis using assms(2) docs_ok_same by auto
  next
    case photo
    have "docs_ok (?db1 b)" using assms(2) by (subst docs_ok_same [of _ db]) simp_all
    then show ?thesis using upload_docs_ok [OF photo(1)] docs_ok_same [of db' db1] photo(2) by simp
  qed
qed

lemma doc_exec_ok: "docs_ok db \<Longrightarrow>
  docs_ok (doc_exec c db) \<and> (\<exists>new. table_rows (document_versions (doc_exec c db)) = table_rows (document_versions db) @ new)"
proof -
  assume ok: "docs_ok db"
  have same: "docs_ok db' \<and> (\<exists>new. table_rows (document_versions db') = table_rows (document_versions db) @ new)"
    if "document_versions db' = document_versions db" for db' :: "('a, 'b) docdb"
    using that ok docs_ok_same by auto
  obtain env ue st scanner op where c: "c = (env, ue, st, scanner, op)" by (cases c)
  show ?thesis
  proof (cases op)
    case (Upload d uf up allow) then show ?thesis using upload_docs_ok [OF prod.collapse [symmetric] ok] c by simp
  next
    case (AttachPhoto resident r uf)
    then show ?thesis using attach_photo_docs_ok [OF prod.collapse [symmetric] ok] c by simp
  qed (use same in \<open>simp_all add: c quarantine_upload_versions authorize_download_versions purge_versions\<close>)
qed

interpretation docs: append_only doc_exec docs_ok "\<lambda>db. table_rows (document_versions db)"
  by unfold_locales (use doc_exec_ok in blast)+

end
