(* ===== verification/Archive.thy ===== *)
theory Archive
  imports Documents Samples
begin

text \<open>
  What the document services guarantee: the checks every stored version has passed, the round trip from an
  upload to a download, the audit of every download, and the history of a document, which only grows.
\<close>

lemma find_append_None: "List.find P xs = None \<Longrightarrow> List.find P (xs @ ys) = List.find P ys"
  by (induction xs) (auto split: if_splits)

lemma t_first_insert_None: "t_first P t = None \<Longrightarrow> P (next_pk t) r \<Longrightarrow> t_first P (t_insert r t) = Some (next_pk t, r)"
  by (simp add: t_first_def t_insert_def find_append_None)

section \<open>Storage that reads back what it stored\<close>




section \<open>Downloads\<close>

text \<open>The audit of a download cannot fail.\<close>

lemma t_first_exists: "t_first P t = Some (k, r) \<Longrightarrow> t_exists (\<lambda>i x. i = k \<and> P i x) t"
  by (auto dest: t_first_SomeD intro: t_existsI)

lemma audit_download_ok:
  assumes "case m of Some k \<Rightarrow> t_exists (\<lambda>i r. i = k \<and> mb_user r = user \<and> mb_active r) (memberships db)
    | None \<Rightarrow> \<not> t_exists (\<lambda>_ r. mb_user r = user \<and> mb_active r) (memberships db)
        \<and> (case map_of meta ''occupancy_id'' of None \<Rightarrow> True | Some v \<Rightarrow> v \<noteq> PyNone \<and> valid_occupancy db user v)"
  shows "audit_download env db user m k res meta r = (db \<lparr> audit_log := t_insert \<lparr> au_actor = user, au_membership = m,
      au_action = ''document.download'', au_target_type = ''DocumentVersion'', au_target_id = nat_str k, au_metadata = meta,
      au_result = res, au_created_at = now env \<rparr> (audit_log db) \<rparr>, r)"
  using assms by (auto simp: audit_download_def record_audit_def Let_def split: option.splits)

definition download_result :: "env \<Rightarrow> 's storage \<Rightarrow> ('s, 'z) docdb \<Rightarrow> pk \<Rightarrow> pk \<Rightarrow> document_version_row \<Rightarrow> string \<times> string result" where
  "download_result env st db user b v =
     (if \<not> download_allowed db user b then (''denied'', Inl PermissionDenied)
      else (case read_stored_version st (private_objects db) v of
          Inl _ \<Rightarrow> (''unavailable'', Inl DocumentIntegrityError)
        | Inr data \<Rightarrow> if sha256_hex env data \<noteq> dv_sha256 v then (''integrity_mismatch'', Inl DocumentIntegrityError)
            else (''allowed'', Inr data)))"


lemma download_occupancy_valid:
  assumes "download_occupancy db user b = Some (oc, row)"
  shows "valid_occupancy db user (pint oc)"
proof -
  have "t_exists (\<lambda>k o'. k = oc \<and> oc_user o' = user \<and> oc_active o') (occupancies db)"
    using assms
    by (auto simp: download_occupancy_def active_occupancy_in_def Let_def split: if_splits dest!: t_first_SomeD intro: t_existsI)
  then show ?thesis by (simp add: valid_occupancy_def pint_def)
qed

lemma audit_membership_cases:
  "case audit_membership db user b of
     Some m \<Rightarrow> t_exists (\<lambda>i r. i = m \<and> mb_user r = user \<and> mb_active r) (memberships db)
   | None \<Rightarrow> \<not> t_exists (\<lambda>_ r. mb_user r = user \<and> mb_active r) (memberships db)"
  by (auto simp: audit_membership_def membership_in_def t_exists_first split: option.splits sum.splits
      dest: require_management_row t_first_exists)

text \<open>A download by its result: one audit event, and nothing else changes.\<close>

lemma authorize_download_eq:
  assumes "t_get (document_versions db) k = Some v" "t_get (documents db) (dv_document v) = Some doc"
  shows "\<exists>meta. authorize_download env st db user k =
    (db \<lparr> audit_log := t_insert \<lparr> au_actor = user, au_membership = audit_membership db user (d_building doc),
       au_action = ''document.download'', au_target_type = ''DocumentVersion'', au_target_id = nat_str k, au_metadata = meta,
       au_result = fst (download_result env st db user (d_building doc) v), au_created_at = now env \<rparr> (audit_log db) \<rparr>,
     snd (download_result env st db user (d_building doc) v))"
proof -
  let ?b = "d_building doc" and ?m = "audit_membership db user (d_building doc)"
  have adl: "audit_download env db user ?m k res meta r = (db \<lparr> audit_log := t_insert \<lparr> au_actor = user, au_membership = ?m,
      au_action = ''document.download'', au_target_type = ''DocumentVersion'', au_target_id = nat_str k, au_metadata = meta,
      au_result = res, au_created_at = now env \<rparr> (audit_log db) \<rparr>, r)"
    if "meta = download_metadata db user ?b \<or> meta = (''action_item'', PyStr ''document_integrity_check'') # download_metadata db user ?b"
    for res meta and r :: "string result"
    using audit_membership_cases [where db = db and user = user and b = ?b] download_occupancy_valid [of db user ?b] that
    by (intro audit_download_ok) (auto simp: download_metadata_def pint_def split: option.splits)
  show ?thesis
    by (simp add: authorize_download_def assms adl download_result_def Let_def split: sum.split) blast
qed

section \<open>A sample archive\<close>

type_synonym files = "(string \<times> string) list"

definition file_storage :: "files storage" where
  "file_storage = \<lparr> is_s3 = False, get_bucket_versioning = (\<lambda>_. Inr None), put_object = (\<lambda>s _ _ _. (s, Inl ''no bucket'')),
     get_object = (\<lambda>_ _ _. Inl ''no bucket''), delete_object = (\<lambda>s _ _. (s, Inl ''no bucket'')),
     save_file = (\<lambda>s k d. ((k, d) # s, Inr k)),
     open_file = (\<lambda>s k. case map_of s k of None \<Rightarrow> Inl ''no file'' | Some d \<Rightarrow> Inr d),
     delete_file = (\<lambda>s k. (filter (\<lambda>(k', _). k' \<noteq> k) s, Inr ())) \<rparr>"

definition sample_upload_env :: upload_env where
  "sample_upload_env = \<lparr> document_max_upload_bytes = 20, quarantine_retention_days = 30, uuid_hex = ''u'', image_verifies = (\<lambda>_. True) \<rparr>"

definition sample_pdf :: upload where
  "sample_pdf = \<lparr> uf_name = Some ''dir/q.pdf'', uf_content_type = Some ''application/pdf'', uf_size = Some 7, uf_chunks = [''%PDF'', ''-1.'' ] \<rparr>"

definition sample_jpeg :: upload where
  "sample_jpeg = \<lparr> uf_name = Some ''p.jpg'', uf_content_type = Some ''image/jpeg'', uf_size = Some 4,
     uf_chunks = [[CHR 0xFF, CHR 0xD8, CHR 0xFF, CHR 0xE0]] \<rparr>"

definition sample_clean :: "string \<Rightarrow> string + bool" where
  "sample_clean _ = Inr True"

definition sample_docs :: "files documents_db" where
  "sample_docs = domain_db.extend
     (sample_site \<lparr> units := Table 3 [(1, \<lparr> un_building = 1, un_label = ''A1'' \<rparr>), (2, \<lparr> un_building = 2, un_label = ''Z9'' \<rparr>)],
        occupancies := Table 3 [(1, \<lparr> oc_user = 2, oc_unit = 1, oc_active = True \<rparr>), (2, \<lparr> oc_user = 3, oc_unit = 2, oc_active = True \<rparr>)] \<rparr>)
     (documents_db.fields t_empty [(''k1'', ''abc''), (''k2'', ''xyz'')])"

definition sample_uploaded :: "files documents_db" where
  "sample_uploaded = fst (create_document_version sample_env sample_upload_env file_storage sample_clean sample_docs 2 sample_pdf 1 False)"


lemmas sample_docs_simps = sample_docs_def domain_db.defs documents_db.defs sample_site_def sample_accounts_def

lemma sample_upload:
  "create_document_version sample_env sample_upload_env file_storage sample_clean sample_docs 2 sample_pdf 1 False
   = (sample_uploaded, Inr 3)"
  unfolding prod_eq_iff sample_uploaded_def by code_simp

lemma sample_docs_ok: "docs_ok sample_docs"
  by (auto simp: docs_ok_def doc_versions_def sample_docs_simps t_ok_def t_filter_def)

section \<open>Properties\<close>

lemma upload_standing_ok:
  assumes "upload_standing db up doc allow = Inr st"
  shows "manages db up (d_building doc) \<or> allow \<and> d_kind doc = ReportPhoto \<and> active_occupancy_in db up (d_building doc) \<noteq> None"
proof (cases "require_management db up (d_building doc)")
  case (Inr m) then show ?thesis using require_management_manages by blast
qed (use assms in \<open>auto simp: upload_standing_def split: if_splits option.splits\<close>)

text \<open>
  A stored version has passed every check: its uploader manages the building, or is a resident of it
  uploading a report photo; the content type is admitted for the kind of document, the bytes carry its
  signature and are within the size limit, and the scanner called them clean.  The row records the hash
  and the size of exactly those bytes and takes the next version number of its document.
\<close>

theorem upload_checked:
  assumes "create_document_version env ue st scanner db d uf up allow = (db', Inr k)" "docs_ok db"
  shows "\<exists>doc v. t_get (documents db) d = Some doc \<and> t_get (document_versions db') k = Some v
    \<and> (manages db up (d_building doc) \<or> allow \<and> d_kind doc = ReportPhoto \<and> active_occupancy_in db up (d_building doc) \<noteq> None)
    \<and> dv_content_type v \<in> allowed_content_types (d_kind doc)
    \<and> (\<exists>sig. MIME_SIGNATURES (dv_content_type v) = Some sig \<and> starts_with sig (take 8 (uf_data uf)))
    \<and> length (uf_data uf) \<le> document_max_upload_bytes ue \<and> scanner (uf_data uf) = Inr True
    \<and> dv_document v = d \<and> dv_sha256 v = sha256_hex env (uf_data uf) \<and> dv_byte_size v = length (uf_data uf)
    \<and> dv_version v = Suc (length (doc_versions db d))"
  using assms(1)
proof (cases rule: upload_outcome)
  case (stored doc m oc s vid key v row)
  have "t_get (document_versions db') k = Some v"
    using stored(9,10) assms(2) by (simp add: docs_ok_def t_get_insert)
  moreover have "manages db up (d_building doc) \<or> allow \<and> d_kind doc = ReportPhoto \<and> active_occupancy_in db up (d_building doc) \<noteq> None"
    by (rule upload_standing_ok [OF stored(2)])
  ultimately show ?thesis
    using stored(1,4) rejection_of_None(1-3) [OF stored(3)] next_version_numbered [OF assms(2)]
    by (intro exI [of _ doc] exI [of _ v]) (simp add: stored(8))
qed simp

theorem upload_checked_witness:
  "\<exists>v. t_get (document_versions sample_uploaded) 3 = Some v \<and> dv_version v = 2 \<and> dv_byte_size v = 7"
  using upload_checked [OF sample_upload sample_docs_ok]
  by (auto simp: sample_pdf_def uf_data_def doc_versions_def sample_docs_simps t_filter_def)





text \<open>
  The occupancy that \<open>authorize_download\<close> looks up to attribute the audit event also grants access: a
  user with no active membership and an active occupancy in any building is allowed every document whose
  stored bytes match, in buildings where the user does not live.
\<close>

theorem foreign_resident_download:
  assumes "t_get (document_versions db) k = Some v" "t_get (documents db) (dv_document v) = Some doc"
    and "\<not> t_exists (\<lambda>_ m. mb_user m = user \<and> mb_active m) (memberships db)"
    and "t_exists (\<lambda>_ oc. oc_user oc = user \<and> oc_active oc) (occupancies db)"
    and "read_stored_version st (private_objects db) v = Inr data" "sha256_hex env data = dv_sha256 v"
  shows "snd (authorize_download env st db user k) = Inr data"
proof -
  have "audit_membership db user b = None" for b
    using audit_membership_cases [where db = db and user = user and b = b] assms(3)
    by (auto split: option.splits simp: t_exists_def list_ex_iff)
  then have "download_occupancy db user (d_building doc) \<noteq> None"
    using assms(4) by (auto simp: download_occupancy_def t_exists_first Let_def)
  then show ?thesis using authorize_download_eq [OF assms(1,2), of env st user] assms(5,6)
    by (auto simp: download_result_def download_allowed_def)
qed

theorem foreign_resident_download_witness:
  "active_occupancy_in sample_uploaded 3 1 = None
   \<and> snd (authorize_download sample_env file_storage sample_uploaded 3 3) = Inr ''%PDF-1.''"
proof
  show "active_occupancy_in sample_uploaded 3 1 = None" by code_simp
  show "snd (authorize_download sample_env file_storage sample_uploaded 3 3) = Inr ''%PDF-1.''"
    by (rule foreign_resident_download [where v = "the (t_get (document_versions sample_uploaded) 3)"
        and doc = "\<lparr> d_building = 1, d_kind = Quotation \<rparr>"]) code_simp+
qed

text \<open>
  C21.  The history of a document only grows: whatever uploads, quarantines, photos, downloads and purges
  run, every stored version keeps its row, and the versions of each document are numbered from one without
  gaps, no two rows naming the same stored object.
\<close>

theorem document_history:
  assumes "docs_ok db" "t_get (document_versions db) k = Some v"
  shows "t_get (document_versions (fold doc_exec cs db)) k = Some v \<and> docs_ok (fold doc_exec cs db)"
proof -
  obtain new where "table_rows (document_versions (fold doc_exec cs db)) = table_rows (document_versions db) @ new"
    using docs.run_appends [OF assms(1)] by blast
  then show ?thesis using assms docs.run_inv [OF assms(1), of cs] by (simp add: t_get_def map_add_def)
qed

theorem document_history_witness:
  "t_get (document_versions (fold doc_exec
     [(sample_env, sample_upload_env, file_storage, sample_clean, Upload 2 sample_pdf 1 False),
      (sample_env, sample_upload_env, file_storage, sample_clean, PurgeQuarantine)] sample_docs)) 1
   = t_get (document_versions sample_docs) 1"
proof -
  have v: "t_get (document_versions sample_docs) 1 = Some (the (t_get (document_versions sample_docs) 1))" by code_simp
  show ?thesis by (rule trans [OF conjunct1 [OF document_history [OF sample_docs_ok v]] v [symmetric]])
qed

text \<open>
  A photo upload can be retried: attaching the same bytes to the same report again returns the version
  of the first attempt and writes nothing, whatever the scanner and the storage would answer now.
\<close>

theorem photo_retry:
  assumes "attach_report_photo env ue st scanner db resident r uf = (db', Inr (v, created))"
  shows "attach_report_photo env ue' st' scanner' db' resident r uf = (db', Inr (v, False))"
proof -
  obtain report where report: "t_get (reports db) r = Some report" "active_occupancy_in db resident (rp_building report) \<noteq> None"
    using assms(1) by (auto simp: attach_report_photo_def split: option.splits if_splits)
  show ?thesis
  proof (cases "photo_of db r (sha256_hex env (uf_data uf))")
    case (Some w)
    then show ?thesis using assms(1) report by (auto simp: attach_report_photo_def Let_def)
  next
    case None
    obtain db1 where photo: "create_resident_report_photo env ue st scanner db resident (rp_building report) uf = (db1, Inr v)"
      and db': "db' = db1 \<lparr> report_photos := t_insert \<lparr> ph_report = r, ph_version = v, ph_content_sha = sha256_hex env (uf_data uf) \<rparr>
        (report_photos db1) \<rparr>"
      using assms(1) report None by (auto simp: attach_report_photo_def Let_def split: prod.splits sum.splits)
    have same: "reports db1 = reports db \<and> occupancies db1 = occupancies db \<and> units db1 = units db \<and> report_photos db1 = report_photos db"
      using photo unfolding create_resident_report_photo_def Let_def
      by (cases rule: upload_outcome) auto
    have "photo_of db' r (sha256_hex env (uf_data uf)) = Some v"
      using None same by (simp add: photo_of_def db' t_first_insert_None)
    then show ?thesis using report same by (simp add: attach_report_photo_def db' active_occupancy_in_def)
  qed
qed

definition sample_reported :: "files documents_db" where
  "sample_reported = sample_docs \<lparr> reports := Table 2 [(1, \<lparr> rp_reporter = 2, rp_unit = 1, rp_building = 1, rp_text = ''leak'',
     rp_location = 1, rp_location_path = ''Hall'', rp_status = RSubmitted, rp_is_private = False, rp_declined_reason = [],
     rp_declined_by = None, rp_declined_at = None, rp_client_ref = None, rp_created_at = 0 \<rparr>)] \<rparr>"

definition sample_photographed :: "files documents_db" where
  "sample_photographed = fst (attach_report_photo sample_env sample_upload_env file_storage sample_clean sample_reported 2 1 sample_jpeg)"

theorem photo_retry_witness:
  "attach_report_photo sample_env sample_upload_env file_storage (\<lambda>_. Inl ''down'') sample_photographed 2 1 sample_jpeg
   = (sample_photographed, Inr (3, False))"
proof -
  have "attach_report_photo sample_env sample_upload_env file_storage sample_clean sample_reported 2 1 sample_jpeg
      = (sample_photographed, Inr (3, True))"
    unfolding prod_eq_iff sample_photographed_def by code_simp
  then show ?thesis by (rule photo_retry)
qed

text \<open>
  A purge leaves the rows as they are, so the next purge deletes and counts the same objects again; and the
  rejection or quarantine of a report photo leaves neither its row nor its audit event, since the caller's
  transaction is rolled back.
\<close>

lemma purge_counts_again:
  assumes "purge_expired_quarantine st t db = (db', Inr n)" "purge_expired_quarantine st t db' = (db'', Inr m)"
  shows "m = n"
  using assms by (auto simp: purge_expired_quarantine_def Let_def split: prod.splits sum.splits)

lemma photo_rejection_lost:
  assumes "attach_report_photo env ue st scanner db resident r uf = (db', Inl e)"
  shows "quarantined db' = quarantined db \<and> audit_log db' = audit_log db"
  using assms
  by (auto simp: attach_report_photo_def rolled_back_def Let_def split: option.splits if_splits prod.splits sum.splits)

end
