(* ===== verification/Integrity.thy ===== *)
theory Integrity
  imports Archive Worker Settlements
begin

text \<open>
  The integrity check of a published entry (\<open>finance/integrity.py\<close>): the stored bytes of its documents are
  hashed again, the payload of every evidence event is rebuilt from the rows residents are shown and hashed
  against the stored digest, and the chain is asked for its record of each event.  The outcome is appended
  as a verification observation.

  Parameters: the private storage, the registry client (an error text when it cannot be constructed), and
  \<open>str_exc\<close>, the text of an exception, which only goes into the details of the observation.
\<close>

section \<open>Rebuilding a payload\<close>

definition CASE_PAYLOAD_FIELDS :: "string list" where
  "CASE_PAYLOAD_FIELDS = [''case_id'', ''case_snapshot_hash'', ''report_id'', ''report_snapshot_hash'', ''estimated_amount_vnd'',
     ''photo_hash'', ''photo_hashes'']"

definition removeprefix_0x :: "string \<Rightarrow> string" where
  "removeprefix_0x s = (if starts_with ''0x'' s then drop 2 s else s)"

definition stored_items :: "json \<Rightarrow> (pyval \<times> pyval) list" where
  "stored_items j = (case of_json j of PyDict kvs \<Rightarrow> kvs | _ \<Rightarrow> [])"

definition linked_quotations :: "'z ddb \<Rightarrow> pk \<Rightarrow> (pk \<times> document_version_row) list result" where
  "linked_quotations db vk =
     seq_results (map (\<lambda>(_, l). case t_get (document_versions db) (pd_document_version l) of
         None \<Rightarrow> Inl DoesNotExist | Some d \<Rightarrow> Inr (pd_document_version l, d))
       (t_filter (\<lambda>_ l. pd_version l = vk) (proposal_documents db)))"

definition proposal_version_payload ::
  "env \<Rightarrow> 'z ddb \<Rightarrow> pk \<Rightarrow> proposal_version_row \<Rightarrow> (pyval \<times> pyval) list \<Rightarrow> (pyval \<times> pyval) list result" where
  "proposal_version_payload env db vk v stored =
     (case linked_quotations db vk of
        Inl e \<Rightarrow> Inl e
      | Inr quotations \<Rightarrow> (case t_get (proposals db) (pv_proposal v) of
            None \<Rightarrow> Inl DoesNotExist
          | Some pr \<Rightarrow> (case submission_snapshot env db (pv_proposal v) pr (pv_amount_vnd v) (pv_contractor_name v) (pv_purpose v)
                  (pv_proposed_action v) (pv_expected_schedule v) quotations (pv_number v) (pv_expected_start v) (pv_expected_end v) of
                Inl e \<Rightarrow> Inl e
              | Inr (_, rebuilt) \<Rightarrow>
                  Inr (filter (\<lambda>(k, _). the_str k \<notin> set CASE_PAYLOAD_FIELDS) rebuilt
                    @ filter (\<lambda>(k, _). the_str k \<in> set CASE_PAYLOAD_FIELDS) stored))))"

definition settlement_payload :: "'z ddb \<Rightarrow> pk \<Rightarrow> settlement_row \<Rightarrow> (pyval \<times> pyval) list result" where
  "settlement_payload db sk s =
     (case t_get (proposals db) (se_proposal s) of
        None \<Rightarrow> Inl DoesNotExist
      | Some pr \<Rightarrow> (case pr_current_version pr of
            None \<Rightarrow> Inl AttributeError
          | Some vk \<Rightarrow> (case (t_get (proposal_versions db) vk, t_get (document_versions db) (se_transfer s)) of
                (Some v, Some t) \<Rightarrow> Inr (build_settlement_evidence_payload sk s v (dv_sha256 t))
              | _ \<Rightarrow> Inl DoesNotExist)))"

definition published_payload :: "env \<Rightarrow> 'z ddb \<Rightarrow> pk \<Rightarrow> outbox_row \<Rightarrow> (pyval \<times> pyval) list option result" where
  "published_payload env db k event =
     (case t_first (\<lambda>_ v. pv_outbox_event v = k) (proposal_versions db) of
        Some (vk, v) \<Rightarrow> map_sum id Some (proposal_version_payload env db vk v (stored_items (ob_payload event)))
      | None \<Rightarrow> (case t_first (\<lambda>_ s. se_outbox_event s = Some k) (settlements db) of
            Some (sk, s) \<Rightarrow> map_sum id Some (settlement_payload db sk s)
          | None \<Rightarrow> Inr None))"

section \<open>The local check\<close>

record local_check =
  lc_event_id :: string
  lc_local_payload_hash :: string
  lc_stored_payload_rehash :: "exn + string"
  lc_published_rows_rehash :: "string option"
  lc_verified :: bool

definition check_local_evidence :: "env \<Rightarrow> 'z ddb \<Rightarrow> pk \<Rightarrow> outbox_row \<Rightarrow> local_check result" where
  "check_local_evidence env db k event =
     (let stored_hash = py_lower (removeprefix_0x (ob_payload_hash event));
          rehash = hash_of env (of_json (ob_payload event)) in
      if (case rehash of Inl e \<Rightarrow> e \<noteq> TypeError \<and> e \<noteq> ValueError | Inr _ \<Rightarrow> False) then Inl (projl rehash)
      else (case published_payload env db k event of
          Inl e \<Rightarrow> Inl e
        | Inr rebuilt \<Rightarrow>
            (case (case rebuilt of None \<Rightarrow> Inr None | Some p \<Rightarrow> map_sum id Some (hash_of env (PyDict p))) of
               Inl e \<Rightarrow> Inl e
             | Inr rows \<Rightarrow> Inr \<lparr> lc_event_id = ob_event_id event, lc_local_payload_hash = stored_hash,
                 lc_stored_payload_rehash = rehash, lc_published_rows_rehash = rows,
                 lc_verified = (rehash = Inr stored_hash \<and> (rebuilt = None \<or> rows = Some stored_hash)) \<rparr>)))"

definition check_local_records :: "env \<Rightarrow> 'z ddb \<Rightarrow> (pk \<times> outbox_row) list \<Rightarrow> (bool \<times> local_check list) result" where
  "check_local_records env db events =
     (case seq_results (map (\<lambda>(k, e). check_local_evidence env db k e) events) of
        Inl e \<Rightarrow> Inl e | Inr cs \<Rightarrow> Inr (list_all lc_verified cs, cs))"

definition event_row :: "'z edb \<Rightarrow> pk \<Rightarrow> (pk \<times> outbox_row) result" where
  "event_row db k = (case t_get (outbox db) k of None \<Rightarrow> Inl DoesNotExist | Some r \<Rightarrow> Inr (k, r))"

definition load_execution_chain :: "'z ddb \<Rightarrow> pk \<Rightarrow> (pk \<times> settlement_row \<times> pk) result" where
  "load_execution_chain db p =
     (case t_first (\<lambda>_ s. se_proposal s = p) (settlements db) of
        None \<Rightarrow> Inl ValidationError
      | Some (sk, s) \<Rightarrow> (case se_outbox_event s of None \<Rightarrow> Inl ValidationError | Some ev \<Rightarrow> Inr (sk, s, ev)))"

definition related_outbox_events :: "'z ddb \<Rightarrow> pk \<Rightarrow> (pk \<times> outbox_row) list result" where
  "related_outbox_events db p =
     (case load_execution_chain db p of
        Inl e \<Rightarrow> Inl e
      | Inr (_, _, ev) \<Rightarrow>
          seq_results (map (event_row db)
            (map (\<lambda>(_, v). pv_outbox_event v) (sort_key (\<lambda>(_, v). pv_number v) (versions_of db p)) @ [ev])))"

section \<open>The chain check\<close>

datatype chain_verdict = SkippedDisabled | SkippedLocal | ChainUnavailable | ChainMismatch | ChainVerified

record chain_check =
  cc_event_id :: string
  cc_local_payload_hash :: "string option"
  cc_local_status :: outbox_status
  cc_verdict :: chain_verdict
  cc_error :: "string option"
  cc_chain_payload_hash :: "string option"

definition check_chain_record :: "env \<Rightarrow> provider \<Rightarrow> outbox_row \<Rightarrow> chain_check" where
  "check_chain_record env client event =
     (let base = \<lparr> cc_event_id = ob_event_id event, cc_local_payload_hash = Some (ob_payload_hash event), cc_local_status = ob_status event, cc_verdict = ChainUnavailable,
            cc_error = None, cc_chain_payload_hash = None \<rparr> in
      case find_record env client event of
        Inl err \<Rightarrow> base \<lparr> cc_error := Some err \<rparr>
      | Inr None \<Rightarrow> if ob_status event = Confirmed then base \<lparr> cc_error := Some ''chain record missing'' \<rparr> else base
      | Inr (Some rec) \<Rightarrow>
          (let on_chain = removeprefix_0x (cr_payload_hash rec) in
           base \<lparr> cc_chain_payload_hash := Some on_chain,
             cc_verdict := (if on_chain \<noteq> removeprefix_0x (ob_payload_hash event) then ChainMismatch else ChainVerified) \<rparr>))"

definition skipped :: "chain_verdict \<Rightarrow> outbox_row \<Rightarrow> chain_check" where
  "skipped verdict event = \<lparr> cc_event_id = ob_event_id event, cc_local_payload_hash = None, cc_local_status = ob_status event, cc_verdict = verdict,
     cc_error = None, cc_chain_payload_hash = None \<rparr>"

text \<open>The result is \<open>chain_ok\<close>, \<open>chain_unavailable\<close>, the error of the client and the checks.\<close>

definition check_chain_records ::
  "env \<Rightarrow> string + provider \<Rightarrow> outbox_row list \<Rightarrow> bool option \<times> bool \<times> string option \<times> chain_check list" where
  "check_chain_records env client events =
     (if anchoring_disabled env then (None, True, None, map (skipped SkippedDisabled) events)
      else
        (let local_checks = map (skipped SkippedLocal) (filter (\<lambda>e. ob_status e = Local) events);
             chain_events = filter (\<lambda>e. ob_status e \<noteq> Local) events in
         if chain_events = [] then (None, True, None, local_checks)
         else (case client of
             Inl err \<Rightarrow> (None, True, Some err, local_checks)
           | Inr p \<Rightarrow>
               (let checks = map (check_chain_record env p) chain_events; all_checks = local_checks @ checks in
                if list_ex (\<lambda>c. cc_verdict c = ChainMismatch) checks then (Some False, False, None, all_checks)
                else if list_ex (\<lambda>c. cc_verdict c = ChainUnavailable) checks then (None, True, None, all_checks)
                else (Some True, False, None, all_checks)))))"

section \<open>The documents\<close>

record document_check =
  dc_version :: pk
  dc_gate :: gate
  dc_expected_hash :: string
  dc_stored_sha256 :: string
  dc_actual :: "exn + string"
  dc_result :: observation_result

definition expected_or_stored :: "string \<Rightarrow> document_version_row \<Rightarrow> string" where
  "expected_or_stored expected d = (if expected = [] then dv_sha256 d else expected)"

definition stream_sha256 :: "env \<Rightarrow> 's storage \<Rightarrow> 's \<Rightarrow> document_version_row \<Rightarrow> string result" where
  "stream_sha256 env st s d = map_sum id (sha256_hex env) (read_stored_version st s d)"

definition check_document :: "env \<Rightarrow> 's storage \<Rightarrow> 's \<Rightarrow> pk \<times> document_version_row \<times> string \<times> gate \<Rightarrow> document_check" where
  "check_document env st s = (\<lambda>(k, d, expected, g).
     let actual = stream_sha256 env st s d in
     \<lparr> dc_version = k, dc_gate = g, dc_expected_hash = expected_or_stored expected d, dc_stored_sha256 = dv_sha256 d,
       dc_actual = actual,
       dc_result = (case actual of
           Inl _ \<Rightarrow> ObUnavailable
         | Inr h \<Rightarrow> if h \<noteq> dv_sha256 d \<or> h \<noteq> expected_or_stored expected d then ObMismatch else ObVerified) \<rparr>)"

text \<open>The result of the loop: every document that is not verified overwrites what the loop had found.\<close>

definition document_result :: "document_check list \<Rightarrow> observation_result" where
  "document_result cs = fold (\<lambda>c r. if dc_result c = ObVerified then r else dc_result c) cs ObVerified"

definition checked_hashes :: "document_check list \<Rightarrow> string list" where
  "checked_hashes cs = concat (map (\<lambda>c. case dc_actual c of Inl _ \<Rightarrow> [] | Inr h \<Rightarrow> [h]) cs)"

section \<open>The observation\<close>

definition overall_result :: "observation_result \<Rightarrow> bool \<Rightarrow> bool option \<Rightarrow> bool \<Rightarrow> bool \<Rightarrow> observation_result" where
  "overall_result doc_result local_ok chain_ok chain_unavailable all_settled =
     (if doc_result = ObMismatch then ObMismatch
      else if doc_result = ObUnavailable then ObUnavailable
      else if \<not> local_ok \<or> chain_ok = Some False then ObMismatch
      else if chain_unavailable then (if all_settled then ObVerified else ObUnavailable)
      else ObVerified)"

definition chain_consulted :: "chain_check list \<Rightarrow> bool" where
  "chain_consulted cs \<longleftrightarrow> cs \<noteq> [] \<and> list_all (\<lambda>c. cc_verdict c = ChainVerified \<or> cc_verdict c = ChainMismatch) cs"

text \<open>The details of the observation as a JSON value.\<close>

definition result_str :: "observation_result \<Rightarrow> string" where
  "result_str r = (case r of ObVerified \<Rightarrow> ''VERIFIED'' | ObMismatch \<Rightarrow> ''MISMATCH'' | ObUnavailable \<Rightarrow> ''UNAVAILABLE'')"

definition verdict_str :: "chain_verdict \<Rightarrow> string" where
  "verdict_str v = (case v of SkippedDisabled \<Rightarrow> ''SKIPPED_ANCHORING_DISABLED'' | SkippedLocal \<Rightarrow> ''SKIPPED_LOCAL''
     | ChainUnavailable \<Rightarrow> ''UNAVAILABLE'' | ChainMismatch \<Rightarrow> ''MISMATCH'' | ChainVerified \<Rightarrow> ''VERIFIED'')"

definition gate_str :: "gate \<Rightarrow> string" where
  "gate_str g = (case g of GateQuotation \<Rightarrow> ''QUOTATION'' | GateTransfer \<Rightarrow> ''SETTLEMENT_TRANSFER'')"

definition opt_field :: "string \<Rightarrow> string option \<Rightarrow> (pyval \<times> pyval) list" where
  "opt_field key v = (case v of None \<Rightarrow> [] | Some s \<Rightarrow> [(PyStr key, PyStr s)])"

definition document_details :: "(exn \<Rightarrow> string) \<Rightarrow> document_check \<Rightarrow> pyval" where
  "document_details str_exc c =
     PyDict ([(PyStr ''document_version_id'', pint (dc_version c)), (PyStr ''gate'', PyStr (gate_str (dc_gate c))),
        (PyStr ''expected_hash'', PyStr (dc_expected_hash c)), (PyStr ''stored_sha256'', PyStr (dc_stored_sha256 c)),
        (PyStr ''result'', PyStr (result_str (dc_result c)))]
       @ (case dc_actual c of Inl e \<Rightarrow> [(PyStr ''error'', PyStr (str_exc e))] | Inr h \<Rightarrow> [(PyStr ''actual_hash'', PyStr h)]))"

definition local_details :: "(exn \<Rightarrow> string) \<Rightarrow> local_check \<Rightarrow> pyval" where
  "local_details str_exc c =
     PyDict ([(PyStr ''event_id'', PyStr (lc_event_id c)), (PyStr ''local_payload_hash'', PyStr (lc_local_payload_hash c)),
        (PyStr ''stored_payload_rehash'', case lc_stored_payload_rehash c of Inl _ \<Rightarrow> PyNone | Inr h \<Rightarrow> PyStr h),
        (PyStr ''published_rows_rehash'', case lc_published_rows_rehash c of None \<Rightarrow> PyNone | Some h \<Rightarrow> PyStr h),
        (PyStr ''result'', PyStr (if lc_verified c then ''VERIFIED'' else ''MISMATCH''))]
       @ (case lc_stored_payload_rehash c of Inl e \<Rightarrow> [(PyStr ''error'', PyStr (str_exc e))] | Inr _ \<Rightarrow> []))"

definition status_str :: "outbox_status \<Rightarrow> string" where
  "status_str st = (case st of Pending \<Rightarrow> ''PENDING'' | Submitted \<Rightarrow> ''SUBMITTED'' | Confirmed \<Rightarrow> ''CONFIRMED'' | Local \<Rightarrow> ''LOCAL''
     | Failed \<Rightarrow> ''FAILED'' | Mismatch \<Rightarrow> ''MISMATCH'')"

definition chain_details :: "chain_check \<Rightarrow> pyval" where
  "chain_details c =
     PyDict ([(PyStr ''event_id'', PyStr (cc_event_id c)), (PyStr ''local_status'', PyStr (status_str (cc_local_status c))),
        (PyStr ''result'', PyStr (verdict_str (cc_verdict c)))]
       @ opt_field ''local_payload_hash'' (cc_local_payload_hash c) @ opt_field ''error'' (cc_error c)
       @ opt_field ''chain_payload_hash'' (cc_chain_payload_hash c))"

definition observation_details ::
  "env \<Rightarrow> (exn \<Rightarrow> string) \<Rightarrow> document_check list \<Rightarrow> local_check list \<Rightarrow> string option \<Rightarrow> chain_check list \<Rightarrow> pyval" where
  "observation_details env str_exc docs locals chain_error chain =
     PyDict ([(PyStr ''documents'', PyList (map (document_details str_exc) docs)),
        (PyStr ''local_checks'', PyList (map (local_details str_exc) locals)),
        (PyStr ''chain_checks'', PyList (map chain_details chain)),
        (PyStr ''document_result'', PyStr (result_str (document_result docs)))]
       @ (if anchoring_disabled env then [(PyStr ''anchoring_backend'', PyStr ''disabled'')] else [])
       @ opt_field ''chain_error'' chain_error)"

text \<open>What the check reads of the rows before it hashes anything: the documents and the events of the entry.\<close>

definition entry_inputs ::
  "'z ddb \<Rightarrow> pk \<Rightarrow> ((pk \<times> document_version_row \<times> string \<times> gate) list \<times> (pk \<times> outbox_row) list) result" where
  "entry_inputs db p =
     (case t_get (proposals db) p of
        None \<Rightarrow> Inl DoesNotExist
      | Some pr \<Rightarrow> (case load_execution_chain db p of
            Inl e \<Rightarrow> Inl e
          | Inr (_, s, _) \<Rightarrow> (case pr_current_version pr of
                None \<Rightarrow> Inl AttributeError
              | Some vk \<Rightarrow> (case t_get (proposal_versions db) vk of
                    None \<Rightarrow> Inl DoesNotExist
                  | Some v \<Rightarrow> (case collect_document_checks db v s of
                        Inl e \<Rightarrow> Inl e
                      | Inr docs \<Rightarrow> (case related_outbox_events db p of Inl e \<Rightarrow> Inl e | Inr events \<Rightarrow> Inr (docs, events)))))))"

text \<open>The row of the observation, and the audit of a mismatch, which is attributed to the settling manager.\<close>

definition observation_of ::
  "env \<Rightarrow> (exn \<Rightarrow> string) \<Rightarrow> string + provider \<Rightarrow> pk \<Rightarrow> document_check list \<Rightarrow> (pk \<times> outbox_row) list \<Rightarrow> bool \<Rightarrow> local_check list
     \<Rightarrow> observation_row" where
  "observation_of env str_exc client entry_id docs events local_ok locals =
     (let (chain_ok, chain_unavailable, chain_error, chain) = check_chain_records env client (map snd events) in
      \<lparr> vo_entry = entry_id,
        vo_result = overall_result (document_result docs) local_ok chain_ok chain_unavailable
          (list_all (\<lambda>(_, e). is_settled (ob_status e)) events),
        vo_checked_hashes = checked_hashes docs, vo_chain_event_ids = map (ob_event_id \<circ> snd) events,
        vo_chain_consulted = chain_consulted chain,
        vo_details = observation_details env str_exc docs locals chain_error chain, vo_observed_at = now env \<rparr>)"

definition report_mismatch :: "env \<Rightarrow> 'z ddb \<Rightarrow> pk \<Rightarrow> ledger_entry_row \<Rightarrow> pk \<Rightarrow> pyval \<Rightarrow> 'z ddb result" where
  "report_mismatch env db entry_id entry o' details =
     (case t_get (settlements db) (le_settlement entry) of
        None \<Rightarrow> Inl DoesNotExist
      | Some s \<Rightarrow> (case member_user db (se_settled_by s) of
            Inl e \<Rightarrow> Inl e
          | Inr user \<Rightarrow>
              record_audit env db user (Some (se_settled_by s)) ''integrity.mismatch'' ''PublishedLedgerEntry'' (nat_str entry_id)
                ''mismatch'' [(''observation_id'', pint o'), (''action_item'', PyStr ''integrity_mismatch''), (''details'', details)]))"

definition verify_published_entry ::
  "env \<Rightarrow> (exn \<Rightarrow> string) \<Rightarrow> 's storage \<Rightarrow> string + provider \<Rightarrow> ('s, 'z) docdb \<Rightarrow> pk \<Rightarrow> (pk \<times> ('s, 'z) docdb) result" where
  "verify_published_entry env str_exc st client db entry_id =
     (case t_get (ledger db) entry_id of
        None \<Rightarrow> Inl ValidationError
      | Some entry \<Rightarrow> (case entry_inputs db (le_proposal entry) of
            Inl e \<Rightarrow> Inl e
          | Inr (inputs, events) \<Rightarrow>
              (let docs = map (check_document env st (private_objects db)) inputs in
               case check_local_records env db events of
                 Inl e \<Rightarrow> Inl e
               | Inr (local_ok, locals) \<Rightarrow>
                   (let row = observation_of env str_exc client entry_id docs events local_ok locals;
                        o' = next_pk (observations db);
                        db1 = db \<lparr> observations := t_insert row (observations db) \<rparr> in
                    if vo_result row \<noteq> ObMismatch then Inr (o', db1)
                    else map_sum id (Pair o') (report_mismatch env db1 entry_id entry o' (vo_details row))))))"

end
