(* ===== verification/Tamper.thy ===== *)
theory Tamper
  imports Integrity
begin

text \<open>
  What an integrity observation means: a verified entry has been compared document by document and event by
  event, altered rows are detected, and an observation counts as independent only when the chain itself
  answered for every event.
\<close>

section \<open>The parts of an observation\<close>

lemma document_fold: "fold (\<lambda>c r. if dc_result c = ObVerified then r else dc_result c) cs r = ObVerified \<longleftrightarrow>
    r = ObVerified \<and> list_all (\<lambda>c. dc_result c = ObVerified) cs"
  by (induction cs arbitrary: r) auto

lemma document_result_verified: "document_result cs = ObVerified \<longleftrightarrow> list_all (\<lambda>c. dc_result c = ObVerified) cs"
  by (simp add: document_result_def document_fold)

text \<open>A document that cannot be read hides every mismatch the loop had found before it.\<close>

lemma later_unavailable_hides_mismatch:
  "dc_result c = ObUnavailable \<Longrightarrow> document_result (cs @ [c]) = ObUnavailable"
  by (simp add: document_result_def)

lemma overall_verified:
  "overall_result d l c u a = ObVerified \<longleftrightarrow> d = ObVerified \<and> l \<and> c \<noteq> Some False \<and> (u \<longrightarrow> a)"
  by (cases d) (auto simp: overall_result_def)

lemma check_document_verified:
  "dc_result (check_document env st s (k, d, expected, g)) = ObVerified \<longleftrightarrow>
   (\<exists>data. read_stored_version st s d = Inr data \<and> sha256_hex env data = dv_sha256 d \<and> sha256_hex env data = expected_or_stored expected d)"
  by (cases "read_stored_version st s d") (auto simp: check_document_def stream_sha256_def Let_def)

definition stored_hash :: "outbox_row \<Rightarrow> string" where
  "stored_hash ev = py_lower (removeprefix_0x (ob_payload_hash ev))"




lemma check_chain_verdict:
  "cc_verdict (check_chain_record env p ev) =
     (case find_record env p ev of
        Inr (Some rec) \<Rightarrow> if removeprefix_0x (cr_payload_hash rec) \<noteq> removeprefix_0x (ob_payload_hash ev) then ChainMismatch else ChainVerified
      | _ \<Rightarrow> ChainUnavailable)"
  by (auto simp: check_chain_record_def Let_def split: sum.splits option.splits)

lemma skipped_verdict [simp]: "cc_verdict (skipped v ev) = v"
  by (simp add: skipped_def)


lemma chain_consulted_all:
  assumes "check_chain_records env client events = (ok, unavailable, err, checks)" "chain_consulted checks" "ev \<in> set events"
  shows "\<not> anchoring_disabled env \<and> ob_status ev \<noteq> Local \<and> (\<exists>p rec. client = Inr p \<and> find_record env p ev = Inr (Some rec))"
proof -
  have enabled: "\<not> anchoring_disabled env"
    using assms by (auto simp: check_chain_records_def chain_consulted_def list_all_iff split: if_splits)
  have "\<exists>more. checks = map (skipped SkippedLocal) (filter (\<lambda>e. ob_status e = Local) events) @ more"
    using assms(1) enabled by (auto simp: check_chain_records_def Let_def split: if_splits sum.splits)
  then have "skipped SkippedLocal e \<in> set checks" if "e \<in> set events" "ob_status e = Local" for e using that by auto
  then have local: "\<forall>e\<in>set events. ob_status e \<noteq> Local"
    using assms(2) unfolding chain_consulted_def list_all_iff by (metis skipped_verdict chain_verdict.distinct)
  then have filters: "filter (\<lambda>e. ob_status e = Local) events = []" "filter (\<lambda>e. ob_status e \<noteq> Local) events = events"
    by (simp_all add: filter_empty_conv filter_id_conv)
  obtain p where p: "client = Inr p" "checks = map (check_chain_record env p) events"
  proof (cases client)
    case (Inl e)
    then show ?thesis using assms(1,2) enabled filters
      by (auto simp: check_chain_records_def chain_consulted_def Let_def split: if_splits)
  next
    case (Inr p)
    then show ?thesis using assms(1,2) enabled filters that
      by (auto simp: check_chain_records_def chain_consulted_def Let_def split: if_splits)
  qed
  then have "cc_verdict (check_chain_record env p ev) = ChainVerified \<or> cc_verdict (check_chain_record env p ev) = ChainMismatch"
    using assms(2,3) by (auto simp: chain_consulted_def list_all_iff)
  then show ?thesis using enabled local assms(3) p(1)
    by (auto simp: check_chain_verdict split: sum.splits option.splits)
qed

section \<open>What was observed\<close>

lemma observation_local_bad:
  "vo_result (observation_of env str_exc client e (map (check_document env st s) docs) events False locals) \<noteq> ObVerified"
  "list_all (\<lambda>x. dc_result (check_document env st s x) = ObVerified) docs \<Longrightarrow>
   vo_result (observation_of env str_exc client e (map (check_document env st s) docs) events False locals) = ObMismatch"
proof -
  have "list_all (\<lambda>x. dc_result (check_document env st s x) = ObVerified) docs \<Longrightarrow>
      document_result (map (check_document env st s) docs) = ObVerified"
    by (simp add: document_result_verified list_all_iff)
  then show "list_all (\<lambda>x. dc_result (check_document env st s x) = ObVerified) docs \<Longrightarrow>
      vo_result (observation_of env str_exc client e (map (check_document env st s) docs) events False locals) = ObMismatch"
    by (simp add: observation_of_def overall_result_def split: prod.split)
qed (simp add: observation_of_def overall_verified split: prod.split)

lemma report_mismatch_appends:
  "report_mismatch env db e entry o' details = Inr db' \<Longrightarrow> \<exists>row. db' = db \<lparr> audit_log := t_insert row (audit_log db) \<rparr>"
  by (auto simp: report_mismatch_def dest: record_audit_appends split: option.splits sum.splits)

text \<open>The checks behind an observation, and the row that records them.\<close>

lemma verify_observed:
  assumes "verify_published_entry env str_exc st client db e = Inr (o', db')" "t_ok (observations db)"
    and "t_get (ledger db) e = Some entry" "entry_inputs db (le_proposal entry) = Inr (docs, events)"
  obtains local_ok locals where "check_local_records env db events = Inr (local_ok, locals)"
    "t_get (observations db') o' = Some (observation_of env str_exc client e (map (check_document env st (private_objects db)) docs)
       events local_ok locals)"
proof (cases "check_local_records env db events")
  case (Inl x) then show ?thesis using assms by (simp add: verify_published_entry_def)
next
  case (Inr ll)
  obtain local_ok locals where ll: "ll = (local_ok, locals)" by (cases ll)
  define row where "row = observation_of env str_exc client e (map (check_document env st (private_objects db)) docs) events local_ok locals"
  have "o' = next_pk (observations db) \<and> observations db' = t_insert row (observations db)"
    using assms(1) unfolding verify_published_entry_def
    by (auto simp: assms(3,4) Inr ll row_def [symmetric] Let_def map_sum_Inr dest!: report_mismatch_appends split: if_splits)
  then show ?thesis using that Inr ll assms(2) row_def by (simp add: t_get_insert)
qed

section \<open>Properties\<close>



text \<open>
  An observation is presented as independent only when the chain answered: \<open>chain_consulted\<close> means that
  anchoring is enabled and that the chain returned a record for every event of the entry, none of them
  settled locally.
\<close>

theorem chain_consulted_independent:
  assumes "verify_published_entry env str_exc st client db e = Inr (o', db')" "t_ok (observations db)"
    and "t_get (ledger db) e = Some entry" "entry_inputs db (le_proposal entry) = Inr (docs, events)"
    and "t_get (observations db') o' = Some row" "vo_chain_consulted row" "(k, ev) \<in> set events"
  shows "\<not> anchoring_disabled env \<and> ob_status ev \<noteq> Local
    \<and> (\<exists>p rec. client = Inr p \<and> find_record env p ev = Inr (Some rec))"
proof -
  obtain chain_ok un err checks where ch: "check_chain_records env client (map snd events) = (chain_ok, un, err, checks)"
    by (cases "check_chain_records env client (map snd events)") auto
  obtain local_ok locals where "t_get (observations db') o' = Some (observation_of env str_exc client e
       (map (check_document env st (private_objects db)) docs) events local_ok locals)"
    using verify_observed [OF assms(1-4)] .
  then have "chain_consulted checks" using assms(5,6) by (simp add: observation_of_def ch)
  moreover have "ev \<in> set (map snd events)" using assms(7) by force
  ultimately show ?thesis using chain_consulted_all [OF ch] by blast
qed

text \<open>
  A mismatch is recorded only while the manager who settled the entry is still active: the audit event is
  attributed to that membership, so once it is inactive the check raises instead and the transaction takes the
  observation back.
\<close>

theorem mismatch_needs_settler:
  assumes "t_get (ledger db) e = Some entry" "entry_inputs db (le_proposal entry) = Inr (docs, events)"
    and "check_local_records env db events = Inr (False, locals)"
    and "list_all (\<lambda>x. dc_result (check_document env st (private_objects db) x) = ObVerified) docs"
    and "t_get (settlements db) (le_settlement entry) = Some s" "t_get (memberships db) (se_settled_by s) = Some m"
    and "\<not> mb_active m" "t_ok (memberships db)"
  shows "verify_published_entry env str_exc st client db e = Inl PermissionDenied"
proof -
  define row where "row = observation_of env str_exc client e (map (check_document env st (private_objects db)) docs) events False locals"
  have "vo_result row = ObMismatch"
    unfolding row_def by (rule observation_local_bad(2) [OF assms(4)])
  moreover have "\<not> t_exists (\<lambda>k r. k = se_settled_by s \<and> mb_user r = mb_user m \<and> mb_active r) (memberships db)"
    using assms(6-8) by (auto simp: t_exists_iff)
  then have "report_mismatch env (db \<lparr> observations := t \<rparr>) e entry o' det = Inl PermissionDenied" for t o' det
    using assms(5,6) by (simp add: report_mismatch_def member_user_def record_audit_def)
  ultimately show ?thesis
    unfolding verify_published_entry_def by (simp add: assms(1-3) row_def [symmetric])
qed

section \<open>A sample entry\<close>

text \<open>
  The settled proposal of the sample site, its two evidence events settled locally, and its documents in store,
  with a digest that tells the empty object from every other text.
\<close>

definition check_env :: "string \<Rightarrow> env" where
  "check_env b = sample_env \<lparr> anchoring_backend := b, sha256_hex := (\<lambda>s. if s = ''{}'' then ''empty'' else sample_hash) \<rparr>"

definition sample_event :: "outbox_status \<Rightarrow> string \<Rightarrow> int \<Rightarrow> json \<Rightarrow> outbox_row" where
  "sample_event s i t j = (new_outbox_row sample_env i t j sample_hash ZERO_HASH ''sig'' ''0xAb'' 1) \<lparr> ob_status := s \<rparr>"

definition sample_paid :: settlement_row where
  "sample_paid = \<lparr> se_proposal = 1, se_amount_vnd = 500, se_transfer = 1, se_settled_by = 1, se_settled_at = 42, se_outbox_event = Some 2 \<rparr>"

definition sample_members :: "bool \<Rightarrow> membership_row table" where
  "sample_members active = Table 2 [(1, \<lparr> mb_user = 1, mb_building = 1, mb_active = active \<rparr>)]"

definition sample_ledger :: "bool \<Rightarrow> outbox_status \<Rightarrow> json \<Rightarrow> files documents_db" where
  "sample_ledger active s j = domain_db.extend
     (sample_done \<lparr> memberships := sample_members active, settlements := Table 2 [(1, sample_paid)],
        proposal_documents := Table 2 [(1, \<lparr> pd_version = 1, pd_document_version = 2 \<rparr>)],
        ledger := Table 2 [(1, \<lparr> le_payload = PyNone, le_case = None, le_proposal = 1, le_settlement = 1, le_actual_cost_vnd = 500,
          le_contractor_name = ''C'', le_published_at = 42 \<rparr>)],
        outbox := Table 3 [(1, sample_event s ''0x1'' 1 (JObj [(''amount_vnd'', JInt 500)])), (2, sample_event s ''0x2'' 10 j)] \<rparr>)
     (documents_db.fields t_empty [(''k1'', ''abc''), (''k2'', ''xyz'')])"

lemma check_env_simps [simp]: "nfc (check_env b) = id" "anchoring_backend (check_env b) = b" "now (check_env b) = 42"
  by (simp_all add: check_env_def sample_env_def)

lemma json_dumps_empty: "json_dumps j = ''{}'' \<longleftrightarrow> sort_keys j = JObj []"
  using json_dumps_inject [of j "JObj []"] by (simp add: json_dumps_def)

lemma hash_dict:
  assumes "normalize id (PyDict kvs) = Inr (JObj (x # xs))"
  shows "hash_of (check_env b) (PyDict kvs) = Inr sample_hash"
proof -
  have "json_dumps (JObj (x # xs)) \<noteq> ''{}''" unfolding json_dumps_empty by (metis json.inject(5) length_map length_sort list.size(3) list.distinct(1) sort_keys.simps(6) length_0_conv)
  then show ?thesis using assms by (simp add: hash_of_def payload_hash_def canonical_bytes_def) (simp add: check_env_def)
qed

lemma hash_list:
  assumes "normalize id (PyList ys) = Inr j"
  shows "hash_of (check_env b) (PyList ys) = Inr sample_hash"
proof -
  have "json_dumps j \<noteq> ''{}''" using assms unfolding json_dumps_empty by (auto simp: map_sum_Inr)
  then show ?thesis using assms by (simp add: hash_of_def payload_hash_def canonical_bytes_def) (simp add: check_env_def)
qed

declare One_nat_def [simp del]

lemma sample_ledger_rows:
  "t_get (ledger (sample_ledger active s j)) 1 = Some \<lparr> le_payload = PyNone, le_case = None, le_proposal = 1, le_settlement = 1,
     le_actual_cost_vnd = 500, le_contractor_name = ''C'', le_published_at = 42 \<rparr>"
  "observations (sample_ledger active s j) = t_empty" "private_objects (sample_ledger active s j) = [(''k1'', ''abc''), (''k2'', ''xyz'')]"
  "t_get (proposals (sample_ledger active s j)) 1 = Some sample_proposal" "t_get (proposal_versions (sample_ledger active s j)) 1 = Some sample_version_row"
  "table_rows (proposal_versions (sample_ledger active s j)) = [(1, sample_version_row)]"
  "table_rows (settlements (sample_ledger active s j)) = [(1, sample_paid)]"
  "t_get (document_versions (sample_ledger active s j)) 1 = Some sample_transfer"
  "\<exists>d. t_get (document_versions (sample_ledger active s j)) 2 = Some d"
  "t_get (outbox (sample_ledger active s j)) 1 = Some (sample_event s ''0x1'' 1 (JObj [(''amount_vnd'', JInt 500)]))"
  "t_get (outbox (sample_ledger active s j)) 2 = Some (sample_event s ''0x2'' 10 j)"
  "table_rows (proposal_documents (sample_ledger active s j)) = [(1, \<lparr> pd_version = 1, pd_document_version = 2 \<rparr>)]"
  "memberships (sample_ledger active s j) = sample_members active"
  by (simp_all add: sample_ledger_def sample_done_def sample_site_def sample_accounts_def domain_db.defs documents_db.defs t_get_def sample_transfer_def)

definition sample_events :: "outbox_status \<Rightarrow> json \<Rightarrow> (pk \<times> outbox_row) list" where
  "sample_events s j = [(1, sample_event s ''0x1'' 1 (JObj [(''amount_vnd'', JInt 500)])), (2, sample_event s ''0x2'' 10 j)]"

lemma sample_inputs: "entry_inputs (sample_ledger active s j) 1 = Inr ([(1, sample_transfer, sample_hash, GateTransfer)], sample_events s j)"
proof -
  have "load_execution_chain (sample_ledger active s j) 1 = Inr (1, sample_paid, 2)"
    by (simp add: load_execution_chain_def t_first_def sample_ledger_rows sample_paid_def)
  moreover have "collect_document_checks (sample_ledger active s j) sample_version_row sample_paid = Inr [(1, sample_transfer, sample_hash, GateTransfer)]"
    by (simp add: collect_document_checks_def sample_version_row_def sample_paid_def sample_ledger_rows sample_transfer_def)
  moreover have "versions_of (sample_ledger active s j) 1 = [(1, sample_version_row)]"
    by (simp add: versions_of_def t_filter_def sample_ledger_rows) (simp add: sample_version_row_def)
  moreover have "pr_current_version sample_proposal = Some 1" "pv_outbox_event sample_version_row = 1"
    by (simp_all add: sample_proposal_def sample_version_row_def)
  ultimately show ?thesis
    unfolding entry_inputs_def related_outbox_events_def sample_events_def
    by (simp add: sample_ledger_rows event_row_def)
qed

lemma sample_settlement_shown:
  "published_payload (check_env b) (sample_ledger active s j) 2 ev = Inr (Some (build_settlement_evidence_payload 1 sample_paid sample_version_row sample_hash))"
  by (simp add: published_payload_def t_first_def sample_ledger_rows settlement_payload_def)
    (simp add: sample_version_row_def sample_paid_def sample_ledger_rows sample_proposal_def sample_transfer_def)

lemma sample_settlement_json:
  "\<exists>x xs. normalize id (PyDict (build_settlement_evidence_payload 1 sample_paid sample_version_row sample_hash)) = Inr (JObj (x # xs))"
  by (simp add: build_settlement_evidence_payload_def pint_def)

lemma sample_version_shown:
  "\<exists>p x xs. published_payload (check_env b) (sample_ledger active s j) 1 (sample_event s i t (JObj [(''amount_vnd'', JInt 500)])) = Inr (Some p) \<and> normalize id (PyDict p) = Inr (JObj (x # xs))"
proof -
  obtain d where d: "t_get (document_versions (sample_ledger active s j)) 2 = Some d" using sample_ledger_rows(9) by blast
  have q: "linked_quotations (sample_ledger active s j) 1 = Inr [(2, d)]"
    by (simp add: linked_quotations_def t_filter_def sample_ledger_rows d)
  have h1: "hash_of (check_env b) (build_snapshot 1 sample_proposal 500 ''C'' ''p'' ''a'' ''soon'' [(2, d)] 1 None None) = Inr sample_hash"
    unfolding build_snapshot_def
    by (rule hash_dict) (simp add: quotation_snapshot_def pint_def opt_int_def opt_date_def sample_proposal_def new_proposal_def)
  have h2: "hash_of (check_env b) (PyList [PyStr (dv_sha256 d)]) = Inr sample_hash" by (rule hash_list) simp
  have "submission_snapshot (check_env b) (sample_ledger active s j) 1 sample_proposal 500 ''C'' ''p'' ''a'' ''soon'' [(2, d)] 1 None None
      = Inr (build_snapshot 1 sample_proposal 500 ''C'' ''p'' ''a'' ''soon'' [(2, d)] 1 None None,
         [(PyStr ''proposal_id'', pint 1), (PyStr ''proposal_version'', pint 1), (PyStr ''record_id'', pint 1),
          (PyStr ''building_id'', pint (pr_building sample_proposal)), (PyStr ''amount_vnd'', PyInt 500),
          (PyStr ''proposal_snapshot_hash'', PyStr sample_hash), (PyStr ''quotation_hash'', PyStr sample_hash)])"
    unfolding submission_snapshot_def Let_def h1 by (simp add: h2) (simp add: sample_proposal_def new_proposal_def)
  moreover have "pv_outbox_event sample_version_row = 1" "pv_proposal sample_version_row = 1" by (simp_all add: sample_version_row_def)
  ultimately show ?thesis
    by (simp add: published_payload_def t_first_def sample_ledger_rows proposal_version_payload_def q)
      (simp add: sample_version_row_def stored_items_def CASE_PAYLOAD_FIELDS_def sample_event_def new_outbox_row_def pint_def)
qed

lemma sample_event_fields: "ob_payload (sample_event s i t j) = j" "ob_payload_hash (sample_event s i t j) = sample_hash"
  "ob_status (sample_event s i t j) = s" "ob_event_id (sample_event s i t j) = i" "stored_hash (sample_event s i t j) = sample_hash"
  "py_lower (removeprefix_0x sample_hash) = sample_hash"
proof -
  have "removeprefix_0x sample_hash = sample_hash" by (simp add: removeprefix_0x_def starts_with_def sample_hash_def)
  moreover have "py_lower sample_hash = sample_hash" using sample_hash_bytes(2) by (simp add: py_lower_def)
  ultimately show "py_lower (removeprefix_0x sample_hash) = sample_hash" by simp
  then show "stored_hash (sample_event s i t j) = sample_hash" by (simp add: stored_hash_def sample_event_def new_outbox_row_def)
qed (simp_all add: sample_event_def new_outbox_row_def)

lemma sample_hashes:
  "hash_of (check_env b) (of_json (JObj [(''amount_vnd'', JInt 500)])) = Inr sample_hash"
  "hash_of (check_env b) (of_json (JObj [])) = Inr ''empty''"
  "hash_of (check_env b) (PyDict (build_settlement_evidence_payload 1 sample_paid sample_version_row sample_hash)) = Inr sample_hash"
proof -
  show "hash_of (check_env b) (of_json (JObj [(''amount_vnd'', JInt 500)])) = Inr sample_hash"
    unfolding of_json.simps by (rule hash_dict) simp
  show "hash_of (check_env b) (of_json (JObj [])) = Inr ''empty''"
    by (simp add: hash_of_def payload_hash_def canonical_bytes_def json_dumps_def) (simp add: check_env_def)
  obtain x xs where "normalize id (PyDict (build_settlement_evidence_payload 1 sample_paid sample_version_row sample_hash)) = Inr (JObj (x # xs))"
    using sample_settlement_json by blast
  then show "hash_of (check_env b) (PyDict (build_settlement_evidence_payload 1 sample_paid sample_version_row sample_hash)) = Inr sample_hash"
    by (rule hash_dict)
qed

text \<open>The local checks of the sample: the settlement's event is verified exactly when its stored payload still hashes to the digest.\<close>

lemma sample_local:
  assumes "hash_of (check_env b) (of_json j) = Inr h"
  shows "\<exists>cs. check_local_records (check_env b) (sample_ledger active s j) (sample_events s j) = Inr (h = sample_hash, cs)"
proof -
  obtain p x xs where p: "published_payload (check_env b) (sample_ledger active s j) 1 (sample_event s ''0x1'' 1 (JObj [(''amount_vnd'', JInt 500)])) = Inr (Some p)"
    "normalize id (PyDict p) = Inr (JObj (x # xs))" using sample_version_shown by blast
  show ?thesis using assms hash_dict [OF p(2)] sample_hashes
    by (simp add: check_local_records_def sample_events_def check_local_evidence_def p(1) sample_settlement_shown sample_event_fields Let_def)
qed

lemma sample_document: "dc_result (check_document (check_env b) file_storage [(''k1'', ''abc''), (''k2'', ''xyz'')] (1, sample_transfer, sample_hash, g)) = ObVerified"
  unfolding check_document_verified
  by (simp add: read_stored_version_def file_storage_def sample_transfer_def expected_or_stored_def check_env_def)

lemma sample_observed:
  assumes "hash_of (check_env b) (of_json j) = Inr h"
  shows "\<exists>db' cs. verify_published_entry (check_env b) str_exc file_storage client (sample_ledger True s j) 1 = Inr (1, db')
    \<and> t_get (observations db') 1 = Some (observation_of (check_env b) str_exc client 1
        (map (check_document (check_env b) file_storage (private_objects (sample_ledger True s j))) [(1, sample_transfer, sample_hash, GateTransfer)])
        (sample_events s j) (h = sample_hash) cs)"
proof -
  let ?docs = "map (check_document (check_env b) file_storage (private_objects (sample_ledger True s j))) [(1, sample_transfer, sample_hash, GateTransfer)]"
  obtain cs where local: "check_local_records (check_env b) (sample_ledger True s j) (sample_events s j) = Inr (h = sample_hash, cs)"
    using sample_local [OF assms] by blast
  define row where "row = observation_of (check_env b) str_exc client 1 ?docs (sample_events s j) (h = sample_hash) cs"
  let ?db1 = "sample_ledger True s j \<lparr> observations := t_insert row (observations (sample_ledger True s j)) \<rparr>"
  have "\<exists>db2. report_mismatch (check_env b) ?db1 1 entry 1 det = Inr db2" if "le_settlement entry = 1" for entry det
    by (simp add: report_mismatch_def that t_get_def sample_ledger_rows)
      (simp add: sample_paid_def member_user_def record_audit_def sample_ledger_rows sample_members_def t_get_def t_exists_def)
  then obtain db2 where db2: "report_mismatch (check_env b) ?db1 1 \<lparr> le_payload = PyNone, le_case = None, le_proposal = 1, le_settlement = 1,
     le_actual_cost_vnd = 500, le_contractor_name = ''C'', le_published_at = 42 \<rparr> 1 (vo_details row) = Inr db2" by force
  have n: "next_pk (observations (sample_ledger True s j)) = 1" by (simp add: sample_ledger_rows t_empty_def)
  have "verify_published_entry (check_env b) str_exc file_storage client (sample_ledger True s j) 1 = Inr (1, if vo_result row \<noteq> ObMismatch then ?db1 else db2)"
    unfolding verify_published_entry_def sample_ledger_rows(1) option.case ledger_entry_row.simps sample_inputs sum.case prod.case Let_def local n
    using db2 by (simp add: row_def)
  moreover have "t_get (observations db2) 1 = Some row" "t_get (observations ?db1) 1 = Some row"
    using report_mismatch_appends [OF db2] by (auto simp: t_get_insert sample_ledger_rows t_empty_def t_ok_def)
  ultimately show ?thesis unfolding row_def by (cases "vo_result row \<noteq> ObMismatch") auto
qed


definition sample_node :: provider where
  "sample_node = sample_provider \<lparr> call_records := (\<lambda>_. Inr (ChText sample_hash, ChNone, 1, ''0xAb'', 7)) \<rparr>"

lemma sample_consulted:
  "vo_chain_consulted (observation_of (check_env ''besu'') str_exc (Inr sample_node) 1 docs (sample_events Confirmed j) ok cs)"
  by (simp add: observation_of_def check_chain_records_def anchoring_disabled_def sample_events_def sample_event_fields chain_consulted_def
      check_chain_verdict find_record_def sample_node_def Let_def)



theorem chain_consulted_independent_witness:
  "ob_status (sample_event Confirmed ''0x1'' 1 (JObj [(''amount_vnd'', JInt 500)])) \<noteq> Local"
proof -
  obtain db' cs where v: "verify_published_entry (check_env ''besu'') (\<lambda>_. []) file_storage (Inr sample_node)
        (sample_ledger True Confirmed (JObj [(''amount_vnd'', JInt 500)])) 1 = Inr (1, db')"
    and row: "t_get (observations db') 1 = Some (observation_of (check_env ''besu'') (\<lambda>_. []) (Inr sample_node) 1
        (map (check_document (check_env ''besu'') file_storage (private_objects (sample_ledger True Confirmed (JObj [(''amount_vnd'', JInt 500)]))))
           [(1, sample_transfer, sample_hash, GateTransfer)]) (sample_events Confirmed (JObj [(''amount_vnd'', JInt 500)])) True cs)"
    using sample_observed [where b = "''besu''" and s = Confirmed and str_exc = "\<lambda>_. []" and client = "Inr sample_node", OF sample_hashes(1)] by auto
  from chain_consulted_independent [OF v _ sample_ledger_rows(1) _ row sample_consulted, unfolded ledger_entry_row.simps, OF _ sample_inputs, of 1]
  show ?thesis by (auto simp: sample_ledger_rows sample_events_def)
qed

theorem mismatch_needs_settler_witness:
  "verify_published_entry (check_env ''disabled'') (\<lambda>_. []) file_storage (Inl ''no node'') (sample_ledger False Local (JObj [])) 1
   = Inl PermissionDenied"
proof -
  have ne: "''empty'' \<noteq> sample_hash" by (auto simp: sample_hash_def dest: arg_cong [of _ _ length])
  obtain cs where local: "check_local_records (check_env ''disabled'') (sample_ledger False Local (JObj [])) (sample_events Local (JObj [])) = Inr (False, cs)"
    using sample_local [where b = "''disabled''" and s = Local and active = False, OF sample_hashes(2)] ne by auto
  show ?thesis
    by (rule mismatch_needs_settler [OF sample_ledger_rows(1), unfolded ledger_entry_row.simps, OF sample_inputs local, where s = sample_paid
          and m = "\<lparr> mb_user = 1, mb_building = 1, mb_active = False \<rparr>"])
      (use sample_document in \<open>simp_all add: sample_ledger_rows t_get_def\<close>, simp_all add: sample_members_def sample_paid_def t_ok_def)
qed

declare One_nat_def [simp]

end
