(* ===== verification/Calendar.thy ===== *)
theory Calendar
  imports Proposals
begin

text \<open>
  The calendar behind the fund's charts: a date is its number of days after 0001-01-01, and the months of
  the proleptic Gregorian calendar follow each other without gaps.  The conversions between the number, the
  fields and the ISO text are shown to be inverse to each other.
\<close>

section \<open>Fields and numbers\<close>

lemma year_of_sum: "year_of y0 n = (y, doy) \<Longrightarrow> y0 \<le> y \<and> n = sum_list (map year_len [y0..<y]) + doy"
proof (induction y0 n rule: year_of.induct)
  case (1 y0 n)
  show ?case
  proof (cases "n < year_len y0")
    case True then show ?thesis using 1(2) year_of.simps [of y0 n] by simp
  next
    case False
    then have "year_of (Suc y0) (n - year_len y0) = (y, doy)" using 1(2) year_of.simps [of y0 n] by simp
    then have "Suc y0 \<le> y" "n - year_len y0 = sum_list (map year_len [Suc y0..<y]) + doy" using 1(1) [OF False] by auto
    then show ?thesis using False by (simp add: upt_conv_Cons)
  qed
qed

lemma sum_year_of: "doy < year_len y \<Longrightarrow> y0 \<le> y \<Longrightarrow> year_of y0 (sum_list (map year_len [y0..<y]) + doy) = (y, doy)"
proof (induction "y - y0" arbitrary: y0)
  case 0 then show ?case by (simp add: year_of.simps)
next
  case (Suc k)
  then have "y0 < y" by simp
  then have "sum_list (map year_len [y0..<y]) = year_len y0 + sum_list (map year_len [Suc y0..<y])" by (simp add: upt_conv_Cons)
  moreover have "year_of (Suc y0) (sum_list (map year_len [Suc y0..<y]) + doy) = (y, doy)" by (rule Suc(1)) (use Suc in simp_all)
  ultimately show ?case by (simp add: year_of.simps [of y0])
qed

lemma month_of_sum: "month_of m0 ls n = (m, d) \<Longrightarrow> n < sum_list ls \<Longrightarrow> n = sum_list (take (m - m0) ls) + d"
proof (induction m0 ls n rule: month_of.induct)
  case (2 m0 l ls n)
  show ?case
  proof (cases "n < l")
    case False
    then have "n - l = sum_list (take (m - Suc m0) ls) + d" "Suc m0 \<le> m"
      using 2 month_of_props [of "Suc m0" ls "n - l" m d] by auto
    then show ?thesis using False by (simp add: take_Cons' Suc_diff_le)
  qed (use 2 in simp)
qed simp

lemma sum_month_of: "i < length ls \<Longrightarrow> d < ls ! i \<Longrightarrow> month_of m0 ls (sum_list (take i ls) + d) = (m0 + i, d)"
proof (induction ls arbitrary: i m0)
  case (Cons l ls) then show ?case by (cases i) auto
qed simp

lemma length_month_lens [simp]: "length (month_lens y) = 12"
  by (simp add: month_lens_def)

lemma take_month_lens: "i < 12 \<Longrightarrow> sum_list (take i (month_lens y)) + month_lens y ! i \<le> year_len y"
  unfolding sum_month_lens [symmetric]
  by (metis append_take_drop_id length_month_lens add_le_cancel_left id_take_nth_drop le_add1 sum_list.Cons sum_list_append)

lemma ordinal_fields:
  assumes "date_fields n = (y, m, d)"
  shows "ordinal y m d = n"
proof -
  obtain doy where y: "year_of 1 n = (y, doy)" using assms by (auto simp: date_fields_def Let_def split: prod.splits)
  obtain d' where m: "month_of 1 (month_lens y) doy = (m, d')" "d = Suc d'" using assms y by (auto simp: date_fields_def Let_def split: prod.splits)
  have "doy < sum_list (month_lens y)" using year_of_props [OF y] by (simp add: sum_month_lens)
  then show ?thesis using year_of_sum [OF y] month_of_sum [OF m(1)] by (simp add: ordinal_def m(2))
qed

lemma date_fields_ok: "date_fields n = (y, m, d) \<Longrightarrow> 1 \<le> y \<and> 1 \<le> m \<and> m \<le> 12 \<and> 1 \<le> d \<and> d \<le> days_in_month y m"
  using calendar_fields [of n] by (fastforce simp: date_fields_def Let_def split: prod.splits)

lemma fields_ordinal:
  assumes "1 \<le> y" "1 \<le> m" "m \<le> 12" "1 \<le> d" "d \<le> days_in_month y m"
  shows "date_fields (ordinal y m d) = (y, m, d)"
proof -
  let ?doy = "sum_list (take (m - 1) (month_lens y)) + (d - 1)"
  have d: "d - 1 < month_lens y ! (m - 1)" "m - 1 < 12" using assms by (auto simp: days_in_month_def)
  have "?doy < year_len y" using take_month_lens [OF d(2), of y] d(1) by simp
  then have "year_of 1 (ordinal y m d) = (y, ?doy)" using sum_year_of [of ?doy y 1] assms(1) by (simp add: ordinal_def add.assoc)
  moreover have "month_of 1 (month_lens y) ?doy = (m, d - 1)" using sum_month_of [of "m - 1" "month_lens y" "d - 1" 1] d assms(2) by simp
  ultimately show ?thesis using assms(4) by (simp add: date_fields_def)
qed

section \<open>Months in sequence\<close>

text \<open>Months counted from year 0: month \<open>i\<close> is month \<open>i mod 12 + 1\<close> of year \<open>i div 12\<close>.\<close>

definition month_first :: "nat \<Rightarrow> nat" where
  "month_first i = ordinal (i div 12) (i mod 12 + 1) 1"

definition month_index :: "nat \<Rightarrow> nat" where
  "month_index n = (let (y, m, _) = date_fields n in 12 * y + (m - 1))"

definition month_days :: "nat \<Rightarrow> nat" where
  "month_days i = days_in_month (i div 12) (i mod 12 + 1)"

lemma month_lens_ge: "m < 12 \<Longrightarrow> 28 \<le> month_lens y ! m"
  by (auto simp: month_lens_def nth_Cons' less_Suc_eq_le)

lemma month_days_range: "28 \<le> month_days i \<and> month_days i \<le> 31"
  using month_lens_ge [of "i mod 12" "i div 12"] month_lens_le [of "i mod 12" "i div 12"]
  by (simp add: month_days_def days_in_month_def Suc_le_eq)

lemma december: "sum_list (take 11 (month_lens y)) + days_in_month y 12 = year_len y"
  by (simp add: month_lens_def days_in_month_def year_len_def)

lemma month_first_Suc:
  assumes "12 \<le> i"
  shows "month_first (Suc i) = month_first i + month_days i"
proof (cases "i mod 12 = 11")
  case True
  then have s: "Suc i div 12 = Suc (i div 12)" "Suc i mod 12 = 0" by (simp_all add: div_Suc mod_Suc)
  have "1 \<le> i div 12" using assms by simp
  then show ?thesis unfolding month_first_def ordinal_def month_days_def s True
    using december [of "i div 12"] by simp
next
  case False
  then have s: "Suc i div 12 = i div 12" "Suc i mod 12 = Suc (i mod 12)" by (simp_all add: div_Suc mod_Suc)
  have m: "i mod 12 < 12" by simp
  show ?thesis unfolding month_first_def ordinal_def month_days_def days_in_month_def s
    using m by (simp add: take_Suc_conv_app_nth Suc_le_eq)
qed

lemma month_first_mono: "12 \<le> i \<Longrightarrow> i \<le> j \<Longrightarrow> month_first i \<le> month_first j"
proof (induction j)
  case (Suc j) then show ?case using month_first_Suc [of j] by (cases "i = Suc j") auto
qed simp

lemma month_index_bounds:
  "12 \<le> month_index n" "month_first (month_index n) \<le> n" "n < month_first (Suc (month_index n))"
proof -
  obtain y m d where f: "date_fields n = (y, m, d)" by (cases "date_fields n")
  note ok = date_fields_ok [OF f]
  then obtain k where k: "m = Suc k" "k < 12" by (cases m) auto
  then have i: "month_index n div 12 = y" "month_index n mod 12 + 1 = m" by (simp_all add: month_index_def f)
  show "12 \<le> month_index n" using ok k by (auto simp: month_index_def f)
  then have s: "month_first (Suc (month_index n)) = month_first (month_index n) + month_days (month_index n)" by (rule month_first_Suc)
  have n: "n = month_first (month_index n) + (d - 1)" using ordinal_fields [OF f] i by (simp add: month_first_def ordinal_def)
  then show "month_first (month_index n) \<le> n" by simp
  have "d - 1 < month_days (month_index n)" using ok i by (auto simp: month_days_def)
  then show "n < month_first (Suc (month_index n))" using s n by simp
qed

lemma month_index_unique:
  assumes "12 \<le> i" "month_first i \<le> n" "n < month_first (Suc i)"
  shows "month_index n = i"
proof (rule ccontr)
  assume "month_index n \<noteq> i"
  then consider "Suc (month_index n) \<le> i" | "Suc i \<le> month_index n" by linarith
  then show False
  proof cases
    case 1 then show False using month_first_mono [OF _ 1] month_index_bounds [of n] assms by simp
  next
    case 2 then show False using month_first_mono [OF _ 2] month_index_bounds [of n] assms by simp
  qed
qed

lemma month_index_first: "12 \<le> i \<Longrightarrow> month_index (month_first i) = i"
  using month_first_Suc [of i] month_days_range [of i] by (intro month_index_unique) simp_all

lemma month_index_mono: "n \<le> k \<Longrightarrow> month_index n \<le> month_index k"
proof (rule ccontr)
  assume "n \<le> k" "\<not> month_index n \<le> month_index k"
  then have "month_first (Suc (month_index k)) \<le> month_first (month_index n)"
    using month_index_bounds(1) [of k] by (intro month_first_mono) simp_all
  then show False using \<open>n \<le> k\<close> month_index_bounds(2) [of n] month_index_bounds(3) [of k] by simp
qed

lemma date_fields_first: "12 \<le> i \<Longrightarrow> date_fields (month_first i) = (i div 12, i mod 12 + 1, 1)"
  using month_days_range [of i] unfolding month_first_def month_days_def by (intro fields_ordinal) auto

section \<open>ISO text\<close>

text \<open>
  The date of a proposal survives its text: the ISO form of a date up to the year 9999 is read back as
  that date.
\<close>

theorem isoformat_read_back:
  assumes "fst (date_fields n) \<le> 9999"
  shows "date_fromisoformat (isoformat n) = Inr n"
proof -
  obtain y m d where f: "date_fields n = (y, m, d)" by (cases "date_fields n")
  note ok = date_fields_ok [OF f]
  have "m - 1 < 12" using ok by linarith
  then have "d \<le> 31" using ok month_lens_le [of "m - 1" y] by (auto simp: days_in_month_def)
  then have r: "y < 10000" "m < 100" "d < 100" using ok assms f by auto
  have iso: "isoformat n = pad4 y @ ''-'' @ pad2 m @ ''-'' @ pad2 d" by (simp add: isoformat_def f)
  have "matches ''dddd-dd-dd'' (isoformat n)" unfolding iso by (simp add: pad2_def pad4_def)
  moreover have "read_nat (take 4 (isoformat n)) = y" "read_nat (take 2 (drop 5 (isoformat n))) = m" "read_nat (take 2 (drop 8 (isoformat n))) = d"
    unfolding iso using r by simp_all
  ultimately show ?thesis using ok ordinal_fields [OF f] by (simp add: date_fromisoformat_def)
qed

theorem isoformat_read_back_witness: "date_fromisoformat ''0001-02-03'' = Inr 33"
proof -
  have f: "date_fields 33 = (1, 2, 3)" using fields_ordinal [of 1 2 3] by (simp add: ordinal_def days_in_month_def month_lens_def is_leap_def)
  have "isoformat 33 = ''0001-02-03''" by (simp add: isoformat_def f pad2_def pad4_def digit_chars del: One_nat_def)
  then show ?thesis using isoformat_read_back [of 33] f by simp
qed

end
