(* ===== verification/Fund_Views.thy ===== *)
theory Fund_Views
  imports Calendar Chain
begin

text \<open>
  The read side of the fund (\<open>finance/selectors.py\<close>): the balance chart, the month calendar, the flows of a
  period, the published ledger, the two Management queues, the story and the proof of an entry, and the Proceed
  decision that is shown.  \<open>local_date\<close> is the conversion of an instant to the calendar day of the site's time
  zone, a parameter; dates before year 2, where the code's date arithmetic overflows, are outside the model.
\<close>

section \<open>The balance chart\<close>

type_synonym flow = "time \<times> entry_type \<times> int"





definition series_bucket :: "string \<Rightarrow> nat \<Rightarrow> nat" where
  "series_bucket range_key day =
     (if range_key = ''30d'' then day else (let (year, month, _) = date_fields day in ordinal year month 1))"

definition add_slot :: "int \<Rightarrow> int \<times> int \<Rightarrow> int \<times> int" where
  "add_slot amount slot = (if amount > 0 then (fst slot + amount, snd slot) else (fst slot, snd slot + amount))"




definition entry_flows :: "(pk \<times> fund_entry_row) list \<Rightarrow> flow list" where
  "entry_flows es = map (\<lambda>(_, e). (fe_recorded_at e, fe_type e, fe_amount_vnd e)) es"


definition fund_period_flows :: "env \<Rightarrow> 'z ddb \<Rightarrow> pk \<Rightarrow> int \<Rightarrow> int \<times> int" where
  "fund_period_flows env db building ndays =
     (let es = filter (\<lambda>(_, e). fe_recorded_at e \<ge> now env - days ndays) (verified_fund_entries db building) in
      (entries_total (filter (\<lambda>(_, e). fe_type e \<in> {OpeningBalance, Inflow}) es),
       entries_total (filter (\<lambda>(_, e). fe_type e \<in> {Outflow, Reversal, Replacement}) es)))"

section \<open>The month calendar\<close>

record day_cell =
  mc_date :: nat
  mc_day :: nat
  mc_inflows_vnd :: int
  mc_outflows_vnd :: int
  mc_level :: int
  mc_is_today :: bool
  mc_is_future :: bool

record month_calendar =
  ml_month :: nat
  ml_top_days :: "day_cell list"
  ml_weeks :: "day_cell option list list"
  ml_inflows_vnd :: int
  ml_outflows_vnd :: int

definition replace_day_1 :: "nat \<Rightarrow> nat" where
  "replace_day_1 day = (let (y, m, _) = date_fields day in ordinal y m 1)"

text \<open>The dictionary of the month's flows, in the order its days first occur.\<close>

fun add_flow :: "nat \<Rightarrow> int \<Rightarrow> (nat \<times> int \<times> int) list \<Rightarrow> (nat \<times> int \<times> int) list" where
  "add_flow day amount [] = [(day, add_slot amount (0, 0))]"
| "add_flow day amount ((d, slot) # fs) =
     (if d = day then (d, add_slot amount slot) # fs else (d, slot) # add_flow day amount fs)"

fun month_flows :: "(time \<Rightarrow> nat) \<Rightarrow> nat \<Rightarrow> nat \<Rightarrow> flow list \<Rightarrow> (nat \<times> int \<times> int) list \<Rightarrow> (nat \<times> int \<times> int) list" where
  "month_flows local_date first next_month [] flows = flows"
| "month_flows local_date first next_month ((recorded_at, _, amount) # entries) flows =
     (let day = local_date recorded_at in
      month_flows local_date first next_month entries
        (if first \<le> day \<and> day < next_month then add_flow day amount flows else flows))"

definition max_default_0 :: "int list \<Rightarrow> int" where
  "max_default_0 xs = (case xs of [] \<Rightarrow> 0 | x # xs \<Rightarrow> foldr max xs x)"

definition spend_level :: "int \<Rightarrow> int \<Rightarrow> int" where
  "spend_level spent peak = (if spent = 0 then 0 else max 1 (- ((- 4 * spent) div peak)))"

definition month_cell :: "nat \<Rightarrow> (nat \<times> int \<times> int) list \<Rightarrow> int \<Rightarrow> nat \<Rightarrow> day_cell" where
  "month_cell today flows peak day =
     (let (inflows, outflows) = (case map_of flows day of None \<Rightarrow> (0, 0) | Some slot \<Rightarrow> slot) in
      \<lparr> mc_date = day, mc_day = snd (snd (date_fields day)), mc_inflows_vnd = inflows, mc_outflows_vnd = outflows,
        mc_level = spend_level (- outflows) peak, mc_is_today = (day = today), mc_is_future = (day > today) \<rparr>)"

fun chunks7 :: "'a list \<Rightarrow> 'a list list" where
  "chunks7 [] = []"
| "chunks7 (x # xs) = take 7 (x # xs) # chunks7 (drop 6 xs)"

text \<open>
  A day number modulo seven is its weekday, 0001-01-01 being a Monday.  The days with an outflow are sorted by
  outflow and date: the sort is stable and the cells are in the order of their dates.
\<close>

definition fund_month_calendar_from_entries :: "(time \<Rightarrow> nat) \<Rightarrow> flow list \<Rightarrow> nat \<Rightarrow> month_calendar" where
  "fund_month_calendar_from_entries local_date entries today =
     (let first = replace_day_1 today; next_month = replace_day_1 (first + 32);
          flows = month_flows local_date first next_month entries [];
          peak = max_default_0 (map (\<lambda>(_, _, outflows). - outflows) flows);
          cells = map (month_cell today flows peak) [first..<next_month];
          padded = replicate (first mod 7) None @ map Some cells;
          full = padded @ replicate ((7 - length padded mod 7) mod 7) None in
      \<lparr> ml_month = first, ml_top_days = take 3 (sort_key mc_outflows_vnd (filter (\<lambda>c. mc_outflows_vnd c \<noteq> 0) cells)),
        ml_weeks = chunks7 full, ml_inflows_vnd = sum_list (map (\<lambda>(_, inflows, _). inflows) flows),
        ml_outflows_vnd = sum_list (map (\<lambda>(_, _, outflows). outflows) flows) \<rparr>)"

definition fund_month_calendar :: "env \<Rightarrow> (time \<Rightarrow> nat) \<Rightarrow> 'z ddb \<Rightarrow> pk \<Rightarrow> month_calendar" where
  "fund_month_calendar env local_date db building =
     fund_month_calendar_from_entries local_date (entry_flows (verified_fund_entries db building)) (local_date (now env))"

section \<open>Proposals, ledger and queues\<close>

definition settled_event :: "'z edb \<Rightarrow> pk \<Rightarrow> bool" where
  "settled_event db k = (case t_get (outbox db) k of None \<Rightarrow> False | Some r \<Rightarrow> is_settled (ob_status r))"

definition current_version_of :: "'z ddb \<Rightarrow> pk \<Rightarrow> proposal_version_row option" where
  "current_version_of db p =
     (case t_get (proposals db) p of
        None \<Rightarrow> None
      | Some pr \<Rightarrow> (case pr_current_version pr of None \<Rightarrow> None | Some v \<Rightarrow> t_get (proposal_versions db) v))"

definition version_settled :: "'z ddb \<Rightarrow> pk \<Rightarrow> bool" where
  "version_settled db p = (case current_version_of db p of None \<Rightarrow> False | Some v \<Rightarrow> settled_event db (pv_outbox_event v))"

definition settlement_settled :: "'z ddb \<Rightarrow> settlement_row \<Rightarrow> bool" where
  "settlement_settled db s = (case se_outbox_event s of None \<Rightarrow> False | Some ev \<Rightarrow> settled_event db ev)"

text \<open>Newest first: by publication time, then by key; the rows are in key order.\<close>

definition published_ledger_entries :: "'z ddb \<Rightarrow> pk \<Rightarrow> (pk \<times> ledger_entry_row) list" where
  "published_ledger_entries db building =
     rev (sort_key (\<lambda>(_, l). le_published_at l)
       (t_filter (\<lambda>_ l. map_option pr_building (t_get (proposals db) (le_proposal l)) = Some building
          \<and> version_settled db (le_proposal l)
          \<and> (case t_get (settlements db) (le_settlement l) of None \<Rightarrow> False | Some s \<Rightarrow> settlement_settled db s)) (ledger db)))"

definition pending_fund_verification_entries :: "'z ddb \<Rightarrow> pk \<Rightarrow> (pk \<times> fund_entry_row) list" where
  "pending_fund_verification_entries db building =
     rev (sort_key (\<lambda>(_, e). fe_recorded_at e)
       (t_filter (\<lambda>k e. map_option fu_building (t_get (funds db) (fe_fund e)) = Some building \<and> fe_type e \<in> SOURCE_ENTRY_TYPES
          \<and> \<not> t_exists (\<lambda>_ v. fv_entry v = k) (fund_verifications db)) (fund_entries db)))"

text \<open>Proposals are listed newest first; the rows are in the order of their creation.\<close>

definition pending_reconciliation_proposals :: "'z ddb \<Rightarrow> pk \<Rightarrow> (pk \<times> proposal_row) list" where
  "pending_reconciliation_proposals db building =
     rev (t_filter (\<lambda>p pr. pr_building pr = building \<and> pr_current_version pr \<noteq> None
       \<and> t_exists (\<lambda>_ s. se_proposal s = p \<and> settlement_settled db s) (settlements db) \<and> version_settled db p
       \<and> \<not> t_exists (\<lambda>_ l. le_proposal l = p
            \<and> map_option pr_building (t_get (proposals db) (le_proposal l)) = Some building) (ledger db)) (proposals db))"

text \<open>The visible part of \<open>resident_proposals\<close>: which proposals are shown, and whether the user has rated each.\<close>

definition resident_proposals :: "'z ddb \<Rightarrow> pk \<Rightarrow> pk \<Rightarrow> (pk \<times> proposal_row \<times> bool) list" where
  "resident_proposals db building user =
     map (\<lambda>(p, pr). (p, pr, t_exists (\<lambda>_ r. ra_resident r = user \<and> ra_proposal r = Some p) (ratings db)))
       (rev (t_filter (\<lambda>_ pr. pr_building pr = building \<and> pr_status pr \<noteq> PDraft) (proposals db)))"

definition first_nonempty :: "string list \<Rightarrow> string" where
  "first_nonempty xs = (case filter (\<lambda>x. x \<noteq> []) xs of [] \<Rightarrow> [] | x # _ \<Rightarrow> x)"

definition latest_update :: "'z ddb \<Rightarrow> (work_update_row \<Rightarrow> bool) \<Rightarrow> work_update_row option" where
  "latest_update db P =
     (case rev (sort_key (\<lambda>(_, w). wu_created_at w) (t_filter (\<lambda>_ w. P w) (work_updates db))) of [] \<Rightarrow> None | (_, w) # _ \<Rightarrow> Some w)"

definition ledger_story_fields :: "'z ddb \<Rightarrow> ledger_entry_row \<Rightarrow> string \<times> string" where
  "ledger_story_fields db entry =
     (let case_row = (case le_case entry of None \<Rightarrow> None | Some c \<Rightarrow> t_get (cases db) c);
          work = (case le_case entry of
              Some c \<Rightarrow> latest_update db (\<lambda>w. wu_case w = Some c)
            | None \<Rightarrow> latest_update db (\<lambda>w. wu_proposal w = Some (le_proposal entry)));
          report = (case case_row of
              None \<Rightarrow> None
            | Some c \<Rightarrow> (case t_get (decisions db) (cs_decision c) of None \<Rightarrow> None | Some d \<Rightarrow> t_get (reports db) (td_report d)));
          result = py_strip (case work of None \<Rightarrow> [] | Some w \<Rightarrow> wu_result w);
          cause = py_strip (case work of None \<Rightarrow> [] | Some w \<Rightarrow> wu_cause w);
          report_text = py_strip (case report of None \<Rightarrow> [] | Some r \<Rightarrow> rp_text r);
          category = py_strip (case case_row of None \<Rightarrow> [] | Some c \<Rightarrow> cs_category c);
          purpose = py_strip (case current_version_of db (le_proposal entry) of None \<Rightarrow> [] | Some v \<Rightarrow> pv_purpose v) in
      (first_nonempty [result, report_text, category, purpose], first_nonempty [cause, category, purpose]))"

definition proceed_decision :: "'z ddb \<Rightarrow> proposal_row \<Rightarrow> (string \<times> time option) option" where
  "proceed_decision db pr =
     (case pr_decided_by pr of
        None \<Rightarrow> None
      | Some m \<Rightarrow>
          if pr_status pr = PNotProceeding then None
          else (case t_get (memberships db) m of
              None \<Rightarrow> None
            | Some r \<Rightarrow> (case t_get (users db) (mb_user r) of None \<Rightarrow> None | Some u \<Rightarrow> Some (u_display_name u, pr_decided_at pr))))"

section \<open>The chart ends at the balance\<close>










lemma series_bucket_month: "range_key \<noteq> ''30d'' \<Longrightarrow> series_bucket range_key day = month_first (month_index day)"
proof -
  assume k: "range_key \<noteq> ''30d''"
  obtain y m d where f: "date_fields day = (y, m, d)" by (cases "date_fields day")
  obtain j where "m = Suc j" "j < 12" using date_fields_ok [OF f] by (cases m) auto
  then show ?thesis using k by (simp add: series_bucket_def month_index_def month_first_def f)
qed






section \<open>The month view\<close>

lemma replace_day_1_month: "replace_day_1 day = month_first (month_index day)"
  using series_bucket_month [of "''6m''" day] by (simp add: replace_day_1_def series_bucket_def)

lemma next_month_first: "12 \<le> i \<Longrightarrow> replace_day_1 (month_first i + 32) = month_first (Suc i)"
proof -
  assume i: "12 \<le> i"
  have "month_index (month_first i + 32) = Suc i"
    using i month_first_Suc [of i] month_first_Suc [of "Suc i"] month_days_range [of i] month_days_range [of "Suc i"]
    by (intro month_index_unique) auto
  then show ?thesis by (simp add: replace_day_1_month)
qed

definition in_month :: "(time \<Rightarrow> nat) \<Rightarrow> nat \<Rightarrow> nat \<Rightarrow> flow list \<Rightarrow> int list" where
  "in_month ld first next_month es =
     map (\<lambda>(_, _, a). a) (filter (\<lambda>(t, _, _). first \<le> ld t \<and> ld t < next_month) es)"

definition flow_sums :: "(nat \<times> int \<times> int) list \<Rightarrow> int \<times> int" where
  "flow_sums fs = (sum_list (map (\<lambda>(_, i, _). i) fs), sum_list (map (\<lambda>(_, _, u). u) fs))"

lemma add_flow_sums: "flow_sums (add_flow day a fs) = (fst (flow_sums fs) + (if a > 0 then a else 0), snd (flow_sums fs) + (if a > 0 then 0 else a))"
  by (induction day a fs rule: add_flow.induct) (auto simp: flow_sums_def add_slot_def)

lemma month_flows_sums:
  "flow_sums (month_flows ld first next_month es fs) =
    (fst (flow_sums fs) + sum_list (filter (\<lambda>a. a > 0) (in_month ld first next_month es)),
     snd (flow_sums fs) + sum_list (filter (\<lambda>a. \<not> a > 0) (in_month ld first next_month es)))"
  by (induction ld first next_month es fs rule: month_flows.induct) (auto simp: in_month_def add_flow_sums Let_def)

lemma add_flow_outs: "list_all (\<lambda>(_, _, u). u \<le> 0) fs \<Longrightarrow> list_all (\<lambda>(_, _, u). u \<le> 0) (add_flow day a fs)"
  by (induction day a fs rule: add_flow.induct) (auto simp: add_slot_def)

lemma month_flows_outs: "list_all (\<lambda>(_, _, u). u \<le> 0) fs \<Longrightarrow> list_all (\<lambda>(_, _, u). u \<le> 0) (month_flows ld first next_month es fs)"
  by (induction ld first next_month es fs rule: month_flows.induct) (auto simp: Let_def add_flow_outs)

lemma max_default_0_ge: "x \<in> set xs \<Longrightarrow> x \<le> max_default_0 xs"
proof -
  have "y \<le> foldr max ys z" if "y \<in> insert z (set ys)" for y z and ys :: "int list"
    using that by (induction ys) (auto simp: le_max_iff_disj)
  then show "x \<in> set xs \<Longrightarrow> x \<le> max_default_0 xs" by (cases xs) (auto simp: max_default_0_def)
qed

lemma spend_level_bounds:
  assumes "0 \<le> spent" "spent \<le> peak"
  shows "0 \<le> spend_level spent peak \<and> spend_level spent peak \<le> 4 \<and> (spend_level spent peak = 0 \<longleftrightarrow> spent = 0)
    \<and> (spent = peak \<longrightarrow> 0 < spent \<longrightarrow> spend_level spent peak = 4)"
proof (cases "spent = 0")
  case False
  then have "0 < peak" using assms by simp
  then have "(- 4 * peak) div peak \<le> (- 4 * spent) div peak" using assms(2) by (intro zdiv_mono1) simp_all
  moreover have "(- 4 * peak) div peak = - 4" using \<open>0 < peak\<close> by (intro nonzero_mult_div_cancel_right) simp
  ultimately have "- 4 \<le> (- 4 * spent) div peak" "spent = peak \<Longrightarrow> (- 4 * spent) div peak = - 4" by simp_all
  then show ?thesis using False assms by (auto simp: spend_level_def)
qed (simp add: spend_level_def)

lemma chunks7_concat: "concat (chunks7 xs) = xs"
  by (induction xs rule: chunks7.induct) (simp_all add: take_Cons' drop_Cons')

lemma chunks7_lengths: "7 dvd length xs \<Longrightarrow> list_all (\<lambda>w. length w = 7) (chunks7 xs)"
proof (induction xs rule: chunks7.induct)
  case (2 x xs)
  have "7 \<le> length (x # xs)" by (rule dvd_imp_le [OF 2(2)]) simp
  moreover have "7 dvd length (x # xs) - 7" using 2(2) by (rule dvd_diff_nat) simp
  then have "7 dvd length (drop 6 xs)" by simp
  ultimately show ?case using 2(1) by simp
qed simp

lemma pad_to_week: "7 dvd n + (7 - n mod 7) mod 7" for n :: nat
  by (metis dvd_eq_mod_eq_0 le_add_diff_inverse less_imp_le mod_add_left_eq mod_add_right_eq mod_less_divisor mod_self zero_less_numeral)

section \<open>Properties\<close>



text \<open>
  The month view is a calendar: its cells are the days of the month of \<open>today\<close> in order, laid out in whole
  weeks; the shade of a day is between 0 and 4, zero exactly on days without spending; and the totals are the
  amounts dated in the month, by sign.
\<close>

theorem month_calendar_ok:
  "list_all (\<lambda>w. length w = 7) (ml_weeks (fund_month_calendar_from_entries ld es today))
    \<and> map mc_date (concat (map (\<lambda>c. case c of None \<Rightarrow> [] | Some d \<Rightarrow> [d]) (concat (ml_weeks (fund_month_calendar_from_entries ld es today)))))
        = [month_first (month_index today)..<month_first (Suc (month_index today))]
    \<and> (\<forall>c. Some c \<in> set (concat (ml_weeks (fund_month_calendar_from_entries ld es today))) \<longrightarrow>
         0 \<le> mc_level c \<and> mc_level c \<le> 4 \<and> (mc_level c = 0 \<longleftrightarrow> mc_outflows_vnd c = 0))
    \<and> ml_inflows_vnd (fund_month_calendar_from_entries ld es today) = sum_list (filter (\<lambda>a. a > 0) (in_month ld (month_first (month_index today)) (month_first (Suc (month_index today))) es))
    \<and> ml_outflows_vnd (fund_month_calendar_from_entries ld es today) = sum_list (filter (\<lambda>a. \<not> a > 0) (in_month ld (month_first (month_index today)) (month_first (Suc (month_index today))) es))"
proof -
  define first next_month where fn: "first = month_first (month_index today)" "next_month = month_first (Suc (month_index today))"
  define flows where "flows = month_flows ld first next_month es []"
  define peak where "peak = max_default_0 (map (\<lambda>(_, _, outflows). - outflows) flows)"
  define cells where "cells = map (month_cell today flows peak) [first..<next_month]"
  define padded where "padded = replicate (first mod 7) None @ map Some cells"
  define full where "full = padded @ replicate ((7 - length padded mod 7) mod 7) None"
  have next_eq: "replace_day_1 (first + 32) = next_month"
    unfolding fn by (rule next_month_first) (rule month_index_bounds)
  have cal: "fund_month_calendar_from_entries ld es today = \<lparr> ml_month = first,
      ml_top_days = take 3 (sort_key mc_outflows_vnd (filter (\<lambda>c. mc_outflows_vnd c \<noteq> 0) cells)), ml_weeks = chunks7 full,
      ml_inflows_vnd = fst (flow_sums flows), ml_outflows_vnd = snd (flow_sums flows) \<rparr>"
    unfolding fund_month_calendar_from_entries_def replace_day_1_month [of today] fn(1) [symmetric] Let_def next_eq flows_def [symmetric]
      peak_def [symmetric] cells_def [symmetric] padded_def [symmetric] full_def [symmetric] flow_sums_def by simp
  have "length full = length padded + (7 - length padded mod 7) mod 7" by (simp add: full_def)
  then have weeks: "list_all (\<lambda>w. length w = 7) (chunks7 full)" using pad_to_week [of "length padded"] by (intro chunks7_lengths) simp
  have flat: "concat (map (\<lambda>c. case c of None \<Rightarrow> [] | Some d \<Rightarrow> [d]) full) = cells"
    by (simp add: full_def padded_def concat_eq_Nil_conv o_def)
  have lev: "0 \<le> mc_level c \<and> mc_level c \<le> 4 \<and> (mc_level c = 0 \<longleftrightarrow> mc_outflows_vnd c = 0)" if mem: "c \<in> set cells" for c
  proof -
    obtain day where c: "c = month_cell today flows peak day" using mem by (auto simp: cells_def)
    obtain i u where iu: "(case map_of flows day of None \<Rightarrow> (0, 0) | Some slot \<Rightarrow> slot) = (i, u)" by fastforce
    have "list_all (\<lambda>(_, _, u). u \<le> 0) flows" unfolding flows_def by (rule month_flows_outs) simp
    moreover have "u = 0 \<or> (day, i, u) \<in> set flows" using iu map_of_SomeD [of flows day] by (auto split: option.splits)
    moreover have "0 \<le> peak" if "(day, i, u) \<in> set flows" "u \<le> 0" for i u
      using that max_default_0_ge [of "- u" "map (\<lambda>(_, _, outflows). - outflows) flows"] by (force simp: peak_def)
    moreover have "- u \<le> peak" if "(day, i, u) \<in> set flows"
      using that max_default_0_ge [of "- u" "map (\<lambda>(_, _, outflows). - outflows) flows"] by (force simp: peak_def)
    ultimately have "u = 0 \<or> 0 \<le> - u \<and> - u \<le> peak" by (auto simp: list_all_iff)
    then show ?thesis using spend_level_bounds [of "- u" peak] by (auto simp: c month_cell_def iu spend_level_def)
  qed
  have "map mc_date cells = [first..<next_month]" by (simp add: cells_def o_def month_cell_def split_def Let_def)
  moreover have "Some c \<in> set full \<Longrightarrow> c \<in> set cells" for c by (auto simp: full_def padded_def)
  ultimately show ?thesis
    using weeks flat lev month_flows_sums [of ld first next_month es "[]"]
    by (simp add: cal chunks7_concat flows_def flow_sums_def [of "[]"] fn [symmetric])
qed

theorem month_calendar_ok_witness:
  "list_all (\<lambda>w. length w = 7) (ml_weeks (fund_month_calendar_from_entries nat [(400, Inflow, 5), (401, Outflow, -2)] 400))"
  using month_calendar_ok [of nat "[(400, Inflow, 5), (401, Outflow, -2)]" 400] by blast

text \<open>
  Nothing settled is left unpublished: settling and publishing are one transaction, so after any run of the
  services the reconciliation queue of every building is empty.
\<close>

theorem reconciliation_empty:
  assumes "books_ok db"
  shows "pending_reconciliation_proposals (fold exec cs db) b = []"
proof -
  let ?db = "fold exec cs db"
  have ok: "books_ok ?db" by (rule books.run_inv [OF assms])
  have "t_exists (\<lambda>_ l. le_proposal l = p) (ledger ?db)" if "t_exists (\<lambda>_ s. se_proposal s = p \<and> settlement_settled ?db s) (settlements ?db)" for p
    using that published_iff_paid [OF ok, of p] by (force simp: paid_def t_exists_def list_ex_iff)
  then have "t_exists (\<lambda>_ l. le_proposal l = p \<and> map_option pr_building (t_get (proposals ?db) (le_proposal l)) = Some b) (ledger ?db)"
    if "t_exists (\<lambda>_ s. se_proposal s = p \<and> settlement_settled ?db s) (settlements ?db)" "t_get (proposals ?db) p = Some pr" "pr_building pr = b" for p pr
    using that by (fastforce simp: t_exists_def list_ex_iff)
  moreover have "t_ok (proposals ?db)" using ok by (simp add: books_ok_def tables_ok_def)
  ultimately show ?thesis
    by (fastforce simp: pending_reconciliation_proposals_def t_filter_def filter_empty_conv in_rows_get)
qed

theorem reconciliation_empty_witness: "pending_reconciliation_proposals (fold exec sample_settle sample_done) 1 = []"
  by (rule reconciliation_empty [OF sample_books])

text \<open>
  A source entry of the fund is shown exactly once: it is either in Management's verification queue or, once
  verified, in the list residents see, and money enters the verified balance only through the second.
\<close>

theorem fund_queue_partition:
  assumes "t_ok (fund_entries db)" "t_get (fund_entries db) k = Some e" "fe_type e \<in> SOURCE_ENTRY_TYPES"
    and "map_option fu_building (t_get (funds db) (fe_fund e)) = Some b"
  shows "(k, e) \<in> set (pending_fund_verification_entries db b) \<longleftrightarrow> (k, e) \<notin> set (verified_fund_entries db b)"
  using assms
  by (auto simp: pending_fund_verification_entries_def verified_fund_entries_def in_filter_get is_verified_source_def is_finalized_posting_def
      SOURCE_ENTRY_TYPES_def FINALIZED_ENTRY_TYPES_def simp del: map_option_eq_Some)

theorem fund_queue_partition_witness: "(1, sample_income) \<notin> set (pending_fund_verification_entries sample_done 1)"
proof -
  have "(1, sample_income) \<in> set (verified_fund_entries sample_done 1)"
    by (simp add: verified_fund_entries_def t_filter_def sample_done_def sample_site_def sample_income_def t_get_def is_verified_source_def
        SOURCE_ENTRY_TYPES_def t_exists_def)
  moreover have "t_ok (fund_entries sample_done)" using sample_books by (simp add: books_ok_def tables_ok_def)
  ultimately show ?thesis
    using fund_queue_partition [of sample_done 1 sample_income 1]
    by (simp add: sample_done_def sample_site_def t_get_def) (simp add: sample_income_def SOURCE_ENTRY_TYPES_def t_get_def)
qed

text \<open>
  Publishing a version keeps the decision on the version before it: the row moves to PUBLISHED with the new
  version current and waits for a decision, but \<open>decided_by\<close> and \<open>decided_at\<close> stay, so the Proceed decision that
  is shown is the one taken on the earlier version.
\<close>

theorem stale_decision:
  assumes "insert_version db p pr row quotations prediction token = Inr (v, db')" "t_get (proposals db) p = Some pr"
    and "pr_status pr = PInProgress"
  shows "\<exists>pr'. t_get (proposals db') p = Some pr' \<and> pr_status pr' = PPublished \<and> pr_current_version pr' = Some v
    \<and> (\<forall>db'' :: 'z ddb. proceed_decision db'' pr' = proceed_decision db'' pr)"
  using assms
  by (auto simp: insert_version_def Let_def set_proposal_def t_get_update attach_prediction_def proceed_decision_def
      split: if_splits option.splits)

theorem stale_decision_witness:
  "\<exists>db' pr'. insert_version (sample_done \<lparr> proposals := Table 2 [(1, sample_proposal \<lparr> pr_status := PInProgress \<rparr>)] \<rparr>) 1
       (sample_proposal \<lparr> pr_status := PInProgress \<rparr>) (sample_version_row \<lparr> pv_number := 2, pv_outbox_event := 9 \<rparr>) [2] None (Some ''tok'')
     = Inr (2, db') \<and> t_get (proposals db') 1 = Some pr' \<and> pr_status pr' = PPublished
     \<and> proceed_decision sample_done pr' = Some (''M'', Some 42)"
proof -
  obtain db' where ins: "insert_version (sample_done \<lparr> proposals := Table 2 [(1, sample_proposal \<lparr> pr_status := PInProgress \<rparr>)] \<rparr>) 1
       (sample_proposal \<lparr> pr_status := PInProgress \<rparr>) (sample_version_row \<lparr> pv_number := 2, pv_outbox_event := 9 \<rparr>) [2] None (Some ''tok'')
     = Inr (2, db')"
    by (simp add: insert_version_def Let_def BIGINT_MAX_def sample_version_row_def sample_proposal_def sample_done_def t_exists_def numeral_2_eq_2)
  have shown: "proceed_decision sample_done (sample_proposal \<lparr> pr_status := PInProgress \<rparr>) = Some (''M'', Some 42)"
    by (simp add: proceed_decision_def sample_proposal_def sample_done_def sample_site_def sample_accounts_def t_get_def)
  obtain pr' where "t_get (proposals db') 1 = Some pr'" "pr_status pr' = PPublished"
    "proceed_decision sample_done pr' = proceed_decision sample_done (sample_proposal \<lparr> pr_status := PInProgress \<rparr>)"
    using stale_decision [OF ins] by (auto simp: t_get_def)
  then show ?thesis using ins shown by simp
qed

end
