(* ===== verification/Notice_Views.thy ===== *)
theory Notice_Views
  imports Notices
begin

text \<open>
  What residents see: the in-app notices of announcements and of bills follow the announcements and the bills.
  A view of the delivery table keeps, of the in-app rows of one family of event keys, the recipient, the building, the
  key, the status and the text; an operation that does not belong to the family leaves the view as it is.
\<close>

section \<open>What delivery leaves alone\<close>

text \<open>
  A part of the state that writing deliveries, devices and the two logs does not change is not changed by queueing and
  delivery either.  The interface is interpreted on the announcements, the bills and the audit log.
\<close>

locale notice_frame =
  fixes part :: "'z ndb \<Rightarrow> 'a"
  assumes part_deliveries: "part (db \<lparr> deliveries := x \<rparr>) = part db"
    and part_devices: "part (db \<lparr> devices := y \<rparr>) = part db"
    and part_mails: "part (db \<lparr> mails := m \<rparr>) = part db"
    and part_pushes: "part (db \<lparr> pushes := p \<rparr>) = part db"
begin

lemmas part_simps = part_deliveries part_devices part_mails part_pushes

lemma get_or_create_part: "get_or_create_delivery r db = Inr (k, db') \<Longrightarrow> part db' = part db"
  by (auto simp: get_or_create_delivery_def part_simps split: option.splits if_splits)

lemma queue_channels_part: "part (fst (queue_channels env ne db u key s b chs c bl)) = part db"
proof (induction chs arbitrary: db)
  case (Cons ch chs)
  then show ?case by (auto split: prod.splits sum.splits dest!: arg_cong [of _ _ fst] get_or_create_part)
qed simp

lemma queue_notification_part: "part (fst (queue_notification env ne db u key s b chs c bl)) = part db"
  by (simp add: queue_notification_def queue_channels_part)

lemma queue_part: "queue_notification env ne db u key s b chs c bl = (db', x) \<Longrightarrow> part db' = part db"
  using queue_notification_part [of env ne db u key s b chs c bl] by simp

lemma notify_unseen_part: "part (notify_unseen env ne us seen key s b c bl db) = part db"
  by (induction us arbitrary: seen db)
     (auto simp: enqueue_after_commit_def queue_notification_part split: option.splits)

lemma push_devices_part: "push_devices send k devs p db = (p', db') \<Longrightarrow> part db' = part db"
  by (induction send k devs p db arbitrary: p' db' rule: push_devices.induct)
     (auto simp: part_simps split: if_splits option.splits)

lemma process_delivery_part: "part (process_delivery env ne db k) = part db"
proof -
  have "part (process_push_delivery env ne db k r) = part db" for r
    using push_devices_part by (auto simp: process_push_delivery_def put_delivery_def part_simps Let_def split: prod.splits)
  moreover have "part (process_email_delivery env ne db k r) = part db" for r
    by (simp add: process_email_delivery_def put_delivery_def part_simps Let_def split: option.splits)
  ultimately show ?thesis by (simp add: process_delivery_def put_delivery_def part_simps split: option.splits channel.splits)
qed

lemma process_due_part: "part (fst (process_due_notifications env ne n db)) = part db"
proof -
  have "part (fold (\<lambda>k db. process_delivery env ne db k) ks db) = part db" for ks
    by (induction ks arbitrary: db) (auto simp: process_delivery_part)
  then show ?thesis by (simp add: process_due_notifications_def Let_def)
qed

lemma mark_read_part: "part (fst (mark_notification_read env db u k)) = part db"
  by (simp add: mark_notification_read_def Let_def part_simps)

lemma register_device_part: "register_device env db u i tok pf av = Inr (k, db') \<Longrightarrow> part db' = part db"
  by (auto simp: register_device_def upsert_device_def deactivate_other_holders_def part_simps Let_def
      split: if_splits option.splits sum.splits exn.splits prod.splits)

lemma deactivate_part: "part (fst (deactivate_where P db)) = part db"
  by (simp add: deactivate_where_def part_simps)

lemma queue_announcement_part:
  "queue_announcement_push env ne a row act u db = Inr db' \<Longrightarrow> part db' = part db"
  "queue_announcement env ne a row act u db = Inr db' \<Longrightarrow> part db' = part db"
  by (auto simp: queue_announcement_def queue_announcement_push_def queue_part split: prod.splits sum.splits)

lemma queue_bill_part: "queue_bill_notice env ne b bill db = Inr db' \<Longrightarrow> part db' = part db"
  by (auto simp: queue_bill_notice_def part_simps split: prod.splits sum.splits dest!: queue_part)

lemma each_recipient_part:
  assumes "\<And>u db db'. f u db = Inr db' \<Longrightarrow> part db' = part db"
  shows "each_recipient f us db = Inr db' \<Longrightarrow> part db' = part db"
  using assms by (induction us arbitrary: db) (auto split: sum.splits)

end

interpretation ann_frame: notice_frame "announcements :: 'z ndb \<Rightarrow> announcement_row table"
  by unfold_locales simp_all

interpretation bill_frame: notice_frame "bills :: 'z bdb \<Rightarrow> bill_row table"
  by unfold_locales simp_all

interpretation audit_frame: notice_frame "audit_log :: 'z ndb \<Rightarrow> audit_row table"
  by unfold_locales simp_all

section \<open>Views\<close>

record notice_core =
  nc_recipient :: pk
  nc_building :: "pk option"
  nc_key :: string
  nc_status :: delivery_status
  nc_subject :: string
  nc_body :: string

definition core :: "delivery_row \<Rightarrow> notice_core" where
  "core r = \<lparr> nc_recipient = nd_recipient r, nc_building = nd_building r, nc_key = nd_event_key r, nc_status = nd_status r,
     nc_subject = nd_subject r, nc_body = nd_body r \<rparr>"

definition shown :: "(string \<Rightarrow> bool) \<Rightarrow> delivery_row \<Rightarrow> bool" where
  "shown fam r \<longleftrightarrow> nd_channel r = InApp \<and> fam (nd_event_key r)"

definition view :: "(string \<Rightarrow> bool) \<Rightarrow> delivery_row table \<Rightarrow> (pk \<times> notice_core) set" where
  "view fam t = {(k, core r) | k r. t_get t k = Some r \<and> shown fam r}"

definition all_available :: "(pk \<times> notice_core) set \<Rightarrow> bool" where
  "all_available V \<longleftrightarrow> (\<forall>(k, c) \<in> V. nc_status c = NAvailable)"

lemma in_view: "(k, c) \<in> view fam t \<longleftrightarrow> (\<exists>r. t_get t k = Some r \<and> shown fam r \<and> core r = c)"
  by (auto simp: view_def)

lemma view_insert: "t_ok t \<Longrightarrow> view fam (t_insert r t) = (if shown fam r then {(next_pk t, core r)} else {}) \<union> view fam t"
proof -
  assume t: "t_ok t"
  have "(k, c) \<in> view fam (t_insert r t) \<longleftrightarrow>
      (k, c) \<in> (if shown fam r then {(next_pk t, core r)} else {}) \<union> view fam t" for k c
    using t_get_fresh [OF t, of "next_pk t"] by (cases "k = next_pk t") (auto simp: in_view t_get_insert [OF t])
  then show ?thesis by (intro equalityI subrelI) blast+
qed

lemma view_update_all_same:
  assumes "\<And>k r. t_get t k = Some r \<Longrightarrow> P k r \<Longrightarrow> (shown fam (f r) \<longleftrightarrow> shown fam r) \<and> (shown fam r \<longrightarrow> core (f r) = core r)"
  shows "view fam (t_update_all P f t) = view fam t"
proof -
  have "(k, c) \<in> view fam (t_update_all P f t) \<longleftrightarrow> (k, c) \<in> view fam t" for k c
  proof (cases "t_get t k")
    case (Some r)
    then show ?thesis using assms [of k r] by (cases "P k r") (auto simp: in_view t_get_update_all)
  qed (simp add: in_view t_get_update_all)
  then show ?thesis by auto
qed

lemma view_put_same:
  assumes "t_get t k = Some r" "(shown fam r' \<longleftrightarrow> shown fam r) \<and> (shown fam r \<longrightarrow> core r' = core r)"
  shows "view fam (t_update k (\<lambda>_. r') t) = view fam t"
  unfolding t_update_as_all using assms by (intro view_update_all_same) auto

lemma view_delete: "t_ok t \<Longrightarrow> view fam (t_delete P t) = {(k, c) \<in> view fam t. \<forall>r. t_get t k = Some r \<longrightarrow> \<not> P k r}"
  by (auto simp: view_def dtbl.delete_keeps)

lemma view_delete_other:
  assumes "t_ok t" "\<And>k r. P k r \<Longrightarrow> \<not> shown fam r"
  shows "view fam (t_delete P t) = view fam t"
  using assms(2) by (fastforce simp: view_delete [OF assms(1)] in_view)

section \<open>Operations outside the family\<close>

lemma notices_t_ok: "notices_ok db \<Longrightarrow> t_ok (deliveries db)"
  by (simp add: notices_ok_def deliveries_ok_def)

lemma view_get_or_create:
  assumes "notices_ok db" "get_or_create_delivery r db = Inr (k, db')" "\<not> shown fam r"
  shows "view fam (deliveries db') = view fam (deliveries db)"
  using assms notices_t_ok [OF assms(1)]
  by (auto simp: get_or_create_delivery_def view_insert split: option.splits if_splits)

lemma view_queue_channels:
  assumes "\<not> fam key \<or> InApp \<notin> set chs" "notices_ok db"
  shows "view fam (deliveries (fst (queue_channels env ne db u key s b chs c bl))) = view fam (deliveries db)"
  using assms
proof (induction chs arbitrary: db)
  case (Cons ch chs)
  note IH = Cons.IH and prems = Cons.prems
  have hid: "\<not> shown fam (new_delivery env u key s b ch c bl)" using prems(1) by (auto simp: shown_def new_delivery_def)
  show ?case
  proof (cases "get_or_create_delivery (new_delivery env u key s b ch c bl) db")
    case (Inl e) then show ?thesis using IH [OF _ prems(2)] prems(1) by auto
  next
    case (Inr a)
    obtain k db1 where a: "a = (k, db1)" by (cases a)
    have ok: "notices_ok db1" using get_or_create_ok [OF prems(2)] Inr a by blast
    have "view fam (deliveries db1) = view fam (deliveries db)" using view_get_or_create [OF prems(2) _ hid] Inr a by blast
    moreover have chs: "\<not> fam key \<or> InApp \<notin> set chs" using prems(1) by auto
    ultimately show ?thesis using IH [OF chs prems(2)] IH [OF chs ok]
      by (simp add: Inr a case_prod_beta split: sum.split)
  qed
qed simp

lemma view_queue:
  assumes "queue_notification env ne db u key s b (Some chs) c bl = (db', x)" "notices_ok db" "\<not> fam key \<or> InApp \<notin> set chs"
  shows "view fam (deliveries db') = view fam (deliveries db)"
  using view_queue_channels [of fam key chs db env ne u s b c bl] assms by (simp add: queue_notification_def)

lemma view_queue_any:
  "\<not> fam key \<Longrightarrow> notices_ok db \<Longrightarrow>
   view fam (deliveries (fst (queue_notification env ne db u key s b chs c bl))) = view fam (deliveries db)"
  by (simp add: queue_notification_def view_queue_channels)

lemma view_notify_unseen:
  "\<not> fam key \<Longrightarrow> notices_ok db \<Longrightarrow> view fam (deliveries (notify_unseen env ne us seen key s b c bl db)) = view fam (deliveries db)"
proof (induction us arbitrary: seen db)
  case (Cons u us)
  have "notices_ok (enqueue_after_commit env ne db uid key s b None c bl)
    \<and> view fam (deliveries (enqueue_after_commit env ne db uid key s b None c bl)) = view fam (deliveries db)" for uid
    using Cons.prems by (auto simp: enqueue_after_commit_def queue_notification_ok view_queue_any split: option.splits)
  then show ?case using Cons by (auto split: option.splits)
qed simp

lemma view_put:
  assumes "t_get (deliveries db) k = Some r" "nd_channel r \<noteq> InApp" "nd_channel r' = nd_channel r"
  shows "view fam (deliveries (put_delivery k r' db)) = view fam (deliveries db)"
  using view_put_same [OF assms(1), of fam r'] assms(2,3) by (simp add: put_delivery_def shown_def)

lemma view_process_push:
  assumes "t_get (deliveries db) k = Some r" "nd_channel r = PushChannel"
  shows "view fam (deliveries (process_push_delivery env ne db k r)) = view fam (deliveries db)"
proof -
  have sup: "view fam (deliveries (put_delivery k (suppress_push env why r) db)) = view fam (deliveries db)" for why
    by (rule view_put [OF assms(1)]) (use assms(2) in \<open>simp_all add: suppress_push_def\<close>)
  have sent: "view fam (deliveries (put_delivery k (push_outcome env p r) db1)) = view fam (deliveries db)"
    if "push_devices send k devs q db = (p, db1)" for send devs q p db1
  proof -
    have d: "deliveries db1 = deliveries db" using push_devices_frame [OF that] by simp
    show ?thesis using view_put [of db1 k r "push_outcome env p r" fam] assms d by simp
  qed
  show ?thesis using sup sent by (simp add: process_push_delivery_def Let_def split: prod.splits)
qed

lemma view_process_email:
  assumes "t_get (deliveries db) k = Some r" "nd_channel r = Email"
  shows "view fam (deliveries (process_email_delivery env ne db k r)) = view fam (deliveries db)"
proof -
  have "view fam (t_update k (\<lambda>_. r') (deliveries db)) = view fam (deliveries db)" if "nd_channel r' = Email" for r'
    using view_put_same [OF assms(1), of fam r'] assms(2) that by (simp add: shown_def)
  then show ?thesis by (simp add: process_email_delivery_def Let_def put_delivery_def assms(2) split: option.splits)
qed

text \<open>A notice that is available is not touched by a delivery.\<close>

lemma view_process_delivery:
  assumes "all_available (view fam (deliveries db))"
  shows "view fam (deliveries (process_delivery env ne db k)) = view fam (deliveries db)"
proof (cases "t_get (deliveries db) k")
  case (Some r)
  have "view fam (deliveries (put_delivery k r' db)) = view fam (deliveries db)"
    if "nd_channel r = InApp" "nd_status r \<noteq> NAvailable" "nd_channel r' = InApp" "nd_event_key r' = nd_event_key r" for r'
  proof -
    have "\<not> shown fam r" using assms that(2) Some by (force simp: all_available_def view_def core_def)
    then show ?thesis using view_put_same [OF Some, of fam r'] that by (simp add: put_delivery_def shown_def)
  qed
  then show ?thesis using Some view_process_push [OF Some] view_process_email [OF Some]
    by (auto simp: process_delivery_def split: channel.splits)
qed (simp add: process_delivery_def)

lemma view_process_due:
  "all_available (view fam (deliveries db)) \<Longrightarrow>
   view fam (deliveries (fst (process_due_notifications env ne n db))) = view fam (deliveries db)"
proof -
  have "all_available (view fam (deliveries db)) \<Longrightarrow>
    view fam (deliveries (fold (\<lambda>k db. process_delivery env ne db k) ks db)) = view fam (deliveries db)" for ks
    by (induction ks arbitrary: db) (auto simp: view_process_delivery)
  then show "all_available (view fam (deliveries db)) \<Longrightarrow> ?thesis" by (simp add: process_due_notifications_def Let_def)
qed

lemma view_mark_read: "view fam (deliveries (fst (mark_notification_read env db u k))) = view fam (deliveries db)"
  by (auto simp: mark_notification_read_def Let_def shown_def core_def intro!: view_update_all_same)

lemma register_device_deliveries: "register_device env db u i tok pf av = Inr (k, db') \<Longrightarrow> deliveries db' = deliveries db"
  by (auto simp: register_device_def upsert_device_def deactivate_other_holders_def Let_def
      split: if_splits option.splits sum.splits exn.splits prod.splits)

lemma view_audit: "record_audit env db u m a ty tid res meta = Inr db' \<Longrightarrow> deliveries db' = deliveries db"
  by (auto dest!: record_audit_appends)

section \<open>Families of keys\<close>

definition announcement_fam :: "string \<Rightarrow> bool" where
  "announcement_fam key \<longleftrightarrow> (\<exists>a. key = announcement_key a)"

definition bill_fam :: "string \<Rightarrow> bool" where
  "bill_fam key \<longleftrightarrow> (\<exists>b. key = bill_key b)"

lemma announcement_key_inject [simp]: "announcement_key a = announcement_key b \<longleftrightarrow> a = b"
  by (simp add: announcement_key_def)

lemma bill_key_inject [simp]: "bill_key a = bill_key b \<longleftrightarrow> a = b"
  by (simp add: bill_key_def)

lemma event_code_of_keys:
  "event_code_from_key (announcement_key a) = EVENT_ANNOUNCEMENT" "event_code_from_key (bill_key b) = EVENT_BILL_ISSUED"
  by (simp_all add: event_code_from_key_def announcement_key_def bill_key_def EVENT_ANNOUNCEMENT_def EVENT_BILL_ISSUED_def)

lemma fam_code:
  "announcement_fam key \<Longrightarrow> event_code_from_key key = EVENT_ANNOUNCEMENT"
  "bill_fam key \<Longrightarrow> event_code_from_key key = EVENT_BILL_ISSUED"
  using event_code_of_keys by (auto simp: announcement_fam_def bill_fam_def)

lemma fams_disjoint: "\<not> bill_fam (announcement_key a)" "\<not> announcement_fam (bill_key b)"
  using fam_code(2) [of "announcement_key a"] fam_code(1) [of "bill_key b"]
  by (auto simp: event_code_of_keys EVENT_ANNOUNCEMENT_def EVENT_BILL_ISSUED_def)

lemma fam_keys [simp]: "announcement_fam (announcement_key a)" "bill_fam (bill_key b)"
  by (auto simp: announcement_fam_def bill_fam_def)

section \<open>Announcements\<close>

lemma queue_announcement_push_view:
  "queue_announcement_push env ne a row act u db = Inr db' \<Longrightarrow> notices_ok db \<Longrightarrow>
   view fam (deliveries db') = view fam (deliveries db)"
proof -
  assume h: "queue_announcement_push env ne a row act u db = Inr db'" "notices_ok db"
  then obtain x where "queue_notification env ne db u (announcement_push_key a (an_revision row) act) (an_title row)
      (an_body row) (Some [PushChannel]) EVENT_ANNOUNCEMENT (Some (an_building row)) = (db', x)"
    by (auto simp: queue_announcement_push_def split: prod.splits sum.splits)
  from view_queue [OF this h(2), of fam] show ?thesis by simp
qed

lemma queue_announcementE:
  assumes "queue_announcement env ne a row act u db = Inr db'" "notices_ok db"
  obtains k db1 where
    "get_or_create_delivery (new_delivery env u (announcement_key a) (an_title row) (an_body row) InApp
       EVENT_ANNOUNCEMENT (Some (an_building row))) db = Inr (k, db1)"
    "notices_ok db1" "queue_announcement_push env ne a row act u db1 = Inr db'"
proof -
  obtain k db1 where h: "get_or_create_delivery (new_delivery env u (announcement_key a) (an_title row) (an_body row) InApp
       EVENT_ANNOUNCEMENT (Some (an_building row))) db = Inr (k, db1)" "queue_announcement_push env ne a row act u db1 = Inr db'"
    using assms(1) by (auto simp: queue_announcement_def queue_notification_def channel_admitted_def split: sum.splits)
  show thesis using that [OF h(1) get_or_create_ok [OF assms(2) h(1)] h(2)] .
qed

lemma queue_announcement_other_view:
  assumes "queue_announcement env ne a row act u db = Inr db'" "notices_ok db" "\<not> fam (announcement_key a)"
  shows "view fam (deliveries db') = view fam (deliveries db)"
  using assms(1,2)
proof (rule queue_announcementE)
  fix k db1
  assume h: "get_or_create_delivery (new_delivery env u (announcement_key a) (an_title row) (an_body row) InApp
       EVENT_ANNOUNCEMENT (Some (an_building row))) db = Inr (k, db1)"
    "notices_ok db1" "queue_announcement_push env ne a row act u db1 = Inr db'"
  have "view fam (deliveries db1) = view fam (deliveries db)"
    by (rule view_get_or_create [OF assms(2) h(1)]) (use assms(3) in \<open>simp add: shown_def new_delivery_def\<close>)
  then show ?thesis using queue_announcement_push_view [OF h(3,2)] by simp
qed

lemma each_recipient_view:
  assumes "\<And>u db db'. f u db = Inr db' \<Longrightarrow> notices_ok db \<Longrightarrow> notices_ok db' \<and> view fam (deliveries db') = view fam (deliveries db)"
  shows "each_recipient f us db = Inr db' \<Longrightarrow> notices_ok db \<Longrightarrow> view fam (deliveries db') = view fam (deliveries db)"
proof (induction us arbitrary: db)
  case (Cons u us)
  then obtain db1 where "f u db = Inr db1" "each_recipient f us db1 = Inr db'" by (auto split: sum.splits)
  then show ?case using assms [of u db db1] Cons by auto
qed simp

text \<open>The notices a queued announcement adds, and that every recipient has one.\<close>

definition queued_core :: "pk \<Rightarrow> announcement_row \<Rightarrow> pk \<Rightarrow> notice_core" where
  "queued_core a row u = \<lparr> nc_recipient = u, nc_building = Some (an_building row), nc_key = announcement_key a,
     nc_status = NPending, nc_subject = an_title row, nc_body = an_body row \<rparr>"

definition has_notice :: "pk \<Rightarrow> pk \<Rightarrow> (pk \<times> notice_core) set \<Rightarrow> bool" where
  "has_notice a u V \<longleftrightarrow> (\<exists>k c. (k, c) \<in> V \<and> nc_recipient c = u \<and> nc_key c = announcement_key a)"

lemma queue_announcement_view:
  assumes "queue_announcement env ne a row act u db = Inr db'" "notices_ok db"
  shows "view announcement_fam (deliveries db) \<subseteq> view announcement_fam (deliveries db')"
    and "\<And>k c. (k, c) \<in> view announcement_fam (deliveries db') \<Longrightarrow>
           (k, c) \<in> view announcement_fam (deliveries db) \<or> c = queued_core a row u"
    and "has_notice a u (view announcement_fam (deliveries db'))"
proof -
  let ?new = "new_delivery env u (announcement_key a) (an_title row) (an_body row) InApp EVENT_ANNOUNCEMENT (Some (an_building row))"
  obtain k db1 where h: "get_or_create_delivery ?new db = Inr (k, db1)" "notices_ok db1"
      "queue_announcement_push env ne a row act u db1 = Inr db'"
    using queue_announcementE [OF assms] by blast
  have v: "view announcement_fam (deliveries db') = view announcement_fam (deliveries db1)"
    using queue_announcement_push_view [OF h(3,2)] .
  have new: "core ?new = queued_core a row u" "shown announcement_fam ?new"
    by (simp_all add: core_def new_delivery_def queued_core_def shown_def)
  have t: "t_ok (deliveries db)" using notices_t_ok [OF assms(2)] .
  have "view announcement_fam (deliveries db) \<subseteq> view announcement_fam (deliveries db1) \<and>
    (\<forall>k c. (k, c) \<in> view announcement_fam (deliveries db1) \<longrightarrow> (k, c) \<in> view announcement_fam (deliveries db) \<or> c = queued_core a row u)
    \<and> has_notice a u (view announcement_fam (deliveries db1))"
  proof (cases "t_first (\<lambda>_ d. delivery_key d = delivery_key ?new) (deliveries db)")
    case None
    then have db1: "deliveries db1 = t_insert ?new (deliveries db)"
      using h(1) by (auto simp: get_or_create_delivery_def split: if_splits)
    then have "(next_pk (deliveries db), queued_core a row u) \<in> view announcement_fam (deliveries db1)"
      using new t by (simp add: view_insert)
    then have "has_notice a u (view announcement_fam (deliveries db1))"
      unfolding has_notice_def queued_core_def by fastforce
    then show ?thesis using db1 new by (auto simp: view_insert [OF t])
  next
    case (Some x)
    obtain i r where x: "x = (i, r)" by (cases x)
    then have r: "t_get (deliveries db) i = Some r" "delivery_key r = delivery_key ?new"
      using t_first_Some_get [OF t] Some by blast+
    then have "(i, core r) \<in> view announcement_fam (deliveries db)" "nc_recipient (core r) = u" "nc_key (core r) = announcement_key a"
      by (auto simp: in_view shown_def delivery_key_def new_delivery_def core_def)
    then have "has_notice a u (view announcement_fam (deliveries db))" unfolding has_notice_def by blast
    then show ?thesis using h(1) Some x by (simp add: get_or_create_delivery_def)
  qed
  then show "view announcement_fam (deliveries db) \<subseteq> view announcement_fam (deliveries db')"
    and "\<And>k c. (k, c) \<in> view announcement_fam (deliveries db') \<Longrightarrow>
           (k, c) \<in> view announcement_fam (deliveries db) \<or> c = queued_core a row u"
    and "has_notice a u (view announcement_fam (deliveries db'))"
    using v by auto
qed

lemma has_notice_mono: "V \<subseteq> W \<Longrightarrow> has_notice a u V \<Longrightarrow> has_notice a u W"
  unfolding has_notice_def by blast

lemma queue_announcements_view:
  assumes "each_recipient (queue_announcement env ne a row act) us db = Inr db'" "notices_ok db"
  shows "view announcement_fam (deliveries db) \<subseteq> view announcement_fam (deliveries db')
    \<and> (\<forall>k c. (k, c) \<in> view announcement_fam (deliveries db') \<longrightarrow>
          (k, c) \<in> view announcement_fam (deliveries db) \<or> (\<exists>u. c = queued_core a row u))
    \<and> (\<forall>u\<in>set us. has_notice a u (view announcement_fam (deliveries db')))"
  using assms
proof (induction us arbitrary: db)
  case (Cons u us)
  then obtain db1 where s: "queue_announcement env ne a row act u db = Inr db1"
      "each_recipient (queue_announcement env ne a row act) us db1 = Inr db'" by (auto split: sum.splits)
  have "notices_ok db1" using queue_announcement_ok [OF s(1) Cons.prems(2)] .
  note IH = Cons.IH [OF s(2) this]
  note one = queue_announcement_view [OF s(1) Cons.prems(2)]
  have "has_notice a u (view announcement_fam (deliveries db'))" using has_notice_mono [OF conjunct1 [OF IH] one(3)] .
  moreover have "(k, c) \<in> view announcement_fam (deliveries db) \<or> (\<exists>u. c = queued_core a row u)"
    if "(k, c) \<in> view announcement_fam (deliveries db')" for k c
    using that IH one(2) by blast
  ultimately show ?case using IH one(1) by auto
qed simp

text \<open>Every notice of an announcement is on show with the announcement's present text, in its building.\<close>

definition notice_of :: "'z ndb \<Rightarrow> notice_core \<Rightarrow> bool" where
  "notice_of db c \<longleftrightarrow> nc_status c = NAvailable \<and>
     (\<exists>a row. nc_key c = announcement_key a \<and> t_get (announcements db) a = Some row \<and> an_state row = Published
        \<and> nc_building c = Some (an_building row) \<and> nc_subject c = an_title row \<and> nc_body c = an_body row)"

definition announcements_shown :: "'z ndb \<Rightarrow> bool" where
  "announcements_shown db \<longleftrightarrow> t_ok (announcements db) \<and> (\<forall>(k, c) \<in> view announcement_fam (deliveries db). notice_of db c)"

lemma announcements_shownD: "announcements_shown db \<Longrightarrow> (k, c) \<in> view announcement_fam (deliveries db) \<Longrightarrow> notice_of db c"
  by (auto simp: announcements_shown_def)

lemma announcements_shown_available: "announcements_shown db \<Longrightarrow> all_available (view announcement_fam (deliveries db))"
  by (auto simp: announcements_shown_def all_available_def notice_of_def)

lemma announcements_shown_same:
  "view announcement_fam (deliveries db') = view announcement_fam (deliveries db) \<Longrightarrow> announcements db' = announcements db \<Longrightarrow>
   announcements_shown db \<Longrightarrow> announcements_shown db'"
  by (auto simp: announcements_shown_def notice_of_def)

text \<open>The bulk update that ends a publication or an edit.\<close>

lemma view_update_notices:
  assumes "(k, c) \<in> view announcement_fam (t_update_all (\<lambda>_. announcement_notice bl a) f t)"
    "\<And>r. nd_channel (f r) = nd_channel r \<and> nd_event_key (f r) = nd_event_key r"
  shows "\<exists>r. t_get t k = Some r \<and> shown announcement_fam r \<and> c = (if announcement_notice bl a r then core (f r) else core r)"
  using assms by (auto simp: in_view t_get_update_all shown_def split: if_splits)

lemma announcement_notice_core:
  "shown announcement_fam r \<Longrightarrow> announcement_notice bl a r \<longleftrightarrow> nc_building (core r) = Some bl \<and> nc_key (core r) = announcement_key a"
  by (auto simp: announcement_notice_def core_def shown_def)

lemma audit_announcementD:
  "audit_announcement env actor m act a row db = Inr (k, db') \<Longrightarrow> deliveries db' = deliveries db \<and> announcements db' = announcements db"
  by (auto simp: audit_announcement_def split: sum.splits dest!: record_audit_appends)

lemma refresh_notices:
  assumes "t_ok (announcements db')" "t_get (announcements db') a = Some row" "an_state row = Published"
    and others: "\<And>b x. b \<noteq> a \<Longrightarrow> t_get (announcements db) b = Some x \<Longrightarrow> t_get (announcements db') b = Some x"
    and home: "\<And>x. t_get (announcements db) a = Some x \<Longrightarrow> an_building x = an_building row"
    and dl: "deliveries db' = t_update_all (\<lambda>_. announcement_notice (an_building row) a) f t"
    and mem: "\<And>k c. (k, c) \<in> view announcement_fam t \<Longrightarrow> notice_of db c \<or> (\<exists>u. c = queued_core a row u)"
    and f: "\<And>r. nd_channel (f r) = nd_channel r \<and> nd_event_key (f r) = nd_event_key r \<and> nd_building (f r) = nd_building r
        \<and> nd_recipient (f r) = nd_recipient r \<and> nd_status (f r) = NAvailable"
    and words: "\<And>r. (\<exists>u. core r = queued_core a row u) \<or> t_get (announcements db) a \<noteq> None \<Longrightarrow>
        nd_subject (f r) = an_title row \<and> nd_body (f r) = an_body row"
  shows "announcements_shown db'"
proof -
  have "notice_of db' c" if kc: "(k, c) \<in> view announcement_fam (deliveries db')" for k c
  proof -
    obtain r where r: "t_get t k = Some r" "shown announcement_fam r"
        "c = (if announcement_notice (an_building row) a r then core (f r) else core r)"
      using view_update_notices [OF kc [unfolded dl]] f by auto
    have hit: "notice_of db' c" if "announcement_notice (an_building row) a r" "(\<exists>u. core r = queued_core a row u) \<or> t_get (announcements db) a \<noteq> None"
      using that r(3) f [of r] words [of r] assms(2,3) by (auto simp: notice_of_def core_def announcement_notice_def)
    have "(k, core r) \<in> view announcement_fam t" using r by (auto simp: in_view)
    then consider "notice_of db (core r)" | u where "core r = queued_core a row u" using mem by blast
    then show ?thesis
    proof cases
      case 1
      then obtain b old where o: "nc_key (core r) = announcement_key b" "t_get (announcements db) b = Some old"
          "nc_building (core r) = Some (an_building old)" by (auto simp: notice_of_def)
      show ?thesis
      proof (cases "b = a")
        case True
        then have "announcement_notice (an_building row) a r" using announcement_notice_core [OF r(2)] o home [of old] by simp
        then show ?thesis using hit o(2) True by simp
      next
        case False
        then have "c = core r" using r(3) announcement_notice_core [OF r(2)] o(1) by simp
        then show ?thesis using 1 o(1) others False by (auto simp: notice_of_def)
      qed
    next
      case 2
      then have "announcement_notice (an_building row) a r" using announcement_notice_core [OF r(2)] by (simp add: queued_core_def)
      then show ?thesis using hit 2 by blast
    qed
  qed
  then show ?thesis using assms(1) by (auto simp: announcements_shown_def)
qed

lemma has_notice_refresh:
  assumes "has_notice a u (view announcement_fam t)" "\<And>r. nd_channel (f r) = nd_channel r \<and> nd_event_key (f r) = nd_event_key r
    \<and> nd_recipient (f r) = nd_recipient r"
  shows "has_notice a u (view announcement_fam (t_update_all P f t))"
proof -
  obtain k r where r: "t_get t k = Some r" "shown announcement_fam r" "nd_recipient r = u" "nd_event_key r = announcement_key a"
    using assms(1) by (auto simp: has_notice_def in_view core_def)
  have "(k, core (if P k r then f r else r)) \<in> view announcement_fam (t_update_all P f t)"
    using r(1,2) assms(2) [of r] by (auto simp: in_view t_get_update_all shown_def)
  moreover have "nc_recipient (core (if P k r then f r else r)) = u \<and> nc_key (core (if P k r then f r else r)) = announcement_key a"
    using r(3,4) assms(2) [of r] by (simp add: core_def)
  ultimately show ?thesis unfolding has_notice_def by blast
qed

lemma publish_shown:
  assumes "publish_announcement env ne db actor bl title body = Inr (a, db')" "notices_ok db" "announcements_shown db"
  shows "announcements_shown db' \<and> t_get (announcements db') a = Some (new_announcement env actor bl title body)
    \<and> (\<forall>u \<in> set (active_residents db bl). has_notice a u (view announcement_fam (deliveries db')))"
  using assms(1)
proof (rule publish_announcementE)
  fix m db2
  let ?row = "new_announcement env actor bl title body"
  assume a: "a = next_pk (announcements db)"
    and h: "each_recipient (queue_announcement env ne a ?row ''published'') (active_residents db bl)
       (db \<lparr> announcements := t_insert ?row (announcements db) \<rparr>) = Inr db2"
    and au: "audit_announcement env actor m ''announcement.published'' a ?row
       (db2 \<lparr> deliveries := t_update_all (\<lambda>_. announcement_notice bl a) (\<lambda>r. r \<lparr> nd_status := NAvailable \<rparr>)
          (deliveries db2) \<rparr>) = Inr (a, db')"
  have ta: "t_ok (announcements db)" using assms(3) by (simp add: announcements_shown_def)
  have ok1: "notices_ok (db \<lparr> announcements := x \<rparr>)" for x using assms(2) by (simp add: notices_ok_frame)
  note q = queue_announcements_view [OF h ok1]
  have mem: "notice_of db c \<or> (\<exists>u. c = queued_core a ?row u)" if kc: "(k, c) \<in> view announcement_fam (deliveries db2)" for k c
  proof -
    have "(k, c) \<in> view announcement_fam (deliveries db) \<or> (\<exists>u. c = queued_core a ?row u)"
      using conjunct1 [OF conjunct2 [OF q]] kc by simp
    then show ?thesis using announcements_shownD [OF assms(3)] by blast
  qed
  have an: "announcements db' = t_insert ?row (announcements db)"
    using audit_announcementD [OF au] ann_frame.each_recipient_part [OF ann_frame.queue_announcement_part(2) h] by simp
  have dl: "deliveries db' = t_update_all (\<lambda>_. announcement_notice bl a) (\<lambda>r. r \<lparr> nd_status := NAvailable \<rparr>) (deliveries db2)"
    using audit_announcementD [OF au] by simp
  have none: "t_get (announcements db) a = None" using a t_get_fresh [OF ta, of a] by simp
  have "announcements_shown db'"
  proof (rule refresh_notices [where db = db and a = a and row = ?row])
    show "deliveries db' = t_update_all (\<lambda>_. announcement_notice (an_building ?row) a) (\<lambda>r. r \<lparr> nd_status := NAvailable \<rparr>) (deliveries db2)"
      using dl by (simp add: new_announcement_def)
    show "\<And>k c. (k, c) \<in> view announcement_fam (deliveries db2) \<Longrightarrow> notice_of db c \<or> (\<exists>u. c = queued_core a ?row u)"
      by (rule mem)
    show "nd_subject (r \<lparr> nd_status := NAvailable \<rparr>) = an_title ?row \<and> nd_body (r \<lparr> nd_status := NAvailable \<rparr>) = an_body ?row"
      if "(\<exists>u. core r = queued_core a ?row u) \<or> t_get (announcements db) a \<noteq> None" for r
      using that none by (auto simp: core_def queued_core_def)
  qed (use an ta a none in \<open>auto simp: t_get_insert new_announcement_def\<close>)
  moreover have "has_notice a u (view announcement_fam (deliveries db'))" if "u \<in> set (active_residents db bl)" for u
    unfolding dl by (rule has_notice_refresh) (use q that in auto)
  ultimately show ?thesis using an ta a by (simp add: t_get_insert)
qed

lemma edit_shown:
  assumes "edit_announcement env ne db actor a n title body = Inr (k', db')" "notices_ok db" "announcements_shown db"
  shows "\<exists>old. t_get (announcements db) a = Some old \<and> announcements_shown db'
    \<and> t_get (announcements db') a = Some (edited env actor title body old)
    \<and> (\<forall>u \<in> set (active_residents db (an_building old)). has_notice a u (view announcement_fam (deliveries db')))"
  using assms(1)
proof (rule edit_announcementE)
  fix old m db2
  let ?row = "edited env actor title body old"
  let ?f = "\<lambda>r. r \<lparr> nd_subject := title, nd_body := body, nd_read_at := None, nd_status := NAvailable \<rparr>"
  assume a: "t_get (announcements db) a = Some old" and st: "an_state old = Published"
    and h: "each_recipient (queue_announcement env ne a ?row ''updated'') (active_residents db (an_building old))
       (db \<lparr> announcements := t_update a (\<lambda>_. ?row) (announcements db) \<rparr>) = Inr db2"
    and au: "audit_announcement env actor m ''announcement.updated'' a ?row
       (db2 \<lparr> deliveries := t_update_all (\<lambda>_. announcement_notice (an_building old) a) ?f (deliveries db2) \<rparr>) = Inr (a, db')"
  have ta: "t_ok (announcements db)" using assms(3) by (simp add: announcements_shown_def)
  have ok1: "notices_ok (db \<lparr> announcements := x \<rparr>)" for x using assms(2) by (simp add: notices_ok_frame)
  note q = queue_announcements_view [OF h ok1]
  have mem: "notice_of db c \<or> (\<exists>u. c = queued_core a ?row u)" if kc: "(k, c) \<in> view announcement_fam (deliveries db2)" for k c
  proof -
    have "(k, c) \<in> view announcement_fam (deliveries db) \<or> (\<exists>u. c = queued_core a ?row u)"
      using conjunct1 [OF conjunct2 [OF q]] kc by simp
    then show ?thesis using announcements_shownD [OF assms(3)] by blast
  qed
  have an: "announcements db' = t_update a (\<lambda>_. ?row) (announcements db)"
    using audit_announcementD [OF au] ann_frame.each_recipient_part [OF ann_frame.queue_announcement_part(2) h] by simp
  have dl: "deliveries db' = t_update_all (\<lambda>_. announcement_notice (an_building old) a) ?f (deliveries db2)"
    using audit_announcementD [OF au] by simp
  have "announcements_shown db'"
  proof (rule refresh_notices [where db = db and a = a and row = ?row])
    show "deliveries db' = t_update_all (\<lambda>_. announcement_notice (an_building ?row) a) ?f (deliveries db2)"
      using dl by (simp add: edited_def)
    show "\<And>k c. (k, c) \<in> view announcement_fam (deliveries db2) \<Longrightarrow> notice_of db c \<or> (\<exists>u. c = queued_core a ?row u)"
      by (rule mem)
  qed (use an ta a st in \<open>auto simp: t_get_update edited_def\<close>)
  moreover have "has_notice a u (view announcement_fam (deliveries db'))" if "u \<in> set (active_residents db (an_building old))" for u
    unfolding dl by (rule has_notice_refresh) (use q that in auto)
  ultimately show ?thesis using an a by (simp add: t_get_update)
qed

lemma withdraw_shown:
  assumes "withdraw_announcement env ne db actor a n = Inr (k', db')" "notices_ok db" "announcements_shown db"
  shows "\<exists>old. t_get (announcements db) a = Some old \<and> announcements_shown db'
    \<and> t_get (announcements db') a = Some (withdrawn env actor old)"
  using assms(1)
proof (rule withdraw_announcementE)
  fix old m db2
  let ?db1 = "db \<lparr> announcements := t_update a (\<lambda>_. withdrawn env actor old) (announcements db),
             deliveries := t_delete (\<lambda>_. announcement_notice (an_building old) a) (deliveries db) \<rparr>"
  assume a: "t_get (announcements db) a = Some old"
    and h: "each_recipient (queue_announcement_push env ne a (withdrawn env actor old) ''withdrawn'')
       (active_residents db (an_building old)) ?db1 = Inr db2"
    and au: "audit_announcement env actor m ''announcement.withdrawn'' a (withdrawn env actor old) db2 = Inr (a, db')"
  have ok1: "notices_ok ?db1" using assms(2) by (simp add: notices_ok_def deliveries_ok_delete)
  have an: "announcements db' = t_update a (\<lambda>_. withdrawn env actor old) (announcements db)"
    using audit_announcementD [OF au] ann_frame.each_recipient_part [OF ann_frame.queue_announcement_part(1) h] by simp
  have "view announcement_fam (deliveries db2) = view announcement_fam (deliveries ?db1)"
    by (rule each_recipient_view [OF _ h ok1]) (auto simp: queue_announcement_push_ok queue_announcement_push_view)
  then have v: "view announcement_fam (deliveries db') =
      {(k, c) \<in> view announcement_fam (deliveries db). \<forall>r. t_get (deliveries db) k = Some r \<longrightarrow> \<not> announcement_notice (an_building old) a r}"
    using audit_announcementD [OF au] view_delete [OF notices_t_ok [OF assms(2)]] by simp
  have "notice_of db' c" if kc: "(k, c) \<in> view announcement_fam (deliveries db')" for k c
  proof -
    have kc': "(k, c) \<in> view announcement_fam (deliveries db)"
        "\<forall>r. t_get (deliveries db) k = Some r \<longrightarrow> \<not> announcement_notice (an_building old) a r" using kc v by auto
    then obtain r where r: "t_get (deliveries db) k = Some r" "shown announcement_fam r" "c = core r" "notice_of db c"
        "\<not> announcement_notice (an_building old) a r"
      using announcements_shownD [OF assms(3) kc'(1)] by (auto simp: in_view)
    then obtain b x where b: "nc_key c = announcement_key b" "t_get (announcements db) b = Some x" "nc_building c = Some (an_building x)"
      by (auto simp: notice_of_def)
    have "b \<noteq> a" using r(5) announcement_notice_core [OF r(2)] b r(3) a by auto
    then show ?thesis using r(4) b(1) an by (auto simp: notice_of_def t_get_update)
  qed
  then show ?thesis using an a assms(3) by (auto simp: announcements_shown_def t_get_update)
qed

end
