(* ===== verification/Hooks.thy ===== *)
theory Hooks
  imports Notice_Views Timestamps
begin

text \<open>
  The notifications the services ask for (\<open>notifications/hooks.py\<close>): who is told of an event, under which key and with
  which text.  A hook runs inside the transaction of its service and queues on commit, so it is a function on the
  committed state; a service that calls a hook ignores an exception it raises.
\<close>

section \<open>Event codes and recipients\<close>

definition EVENT_REPORT_RECEIPT :: string where "EVENT_REPORT_RECEIPT = ''report.receipt''"
definition EVENT_TRIAGE_STATUS :: string where "EVENT_TRIAGE_STATUS = ''triage.status''"
definition EVENT_CASE_STATUS :: string where "EVENT_CASE_STATUS = ''case.status''"
definition EVENT_DEADLINE_RISK :: string where "EVENT_DEADLINE_RISK = ''work.deadline_risk''"
definition EVENT_WORK_COMPLETED :: string where "EVENT_WORK_COMPLETED = ''work.completed''"
definition EVENT_SETTLEMENT_RECORDED :: string where "EVENT_SETTLEMENT_RECORDED = ''settlement.recorded''"
definition EVENT_INTEGRITY_MISMATCH :: string where "EVENT_INTEGRITY_MISMATCH = ''integrity.mismatch''"
definition EVENT_QUARANTINED_UPLOAD :: string where "EVENT_QUARANTINED_UPLOAD = ''document.quarantined''"

definition management_users :: "'z adb \<Rightarrow> pk \<Rightarrow> pk option list" where
  "management_users db building =
     map (\<lambda>(_, m). Some (mb_user m)) (t_filter (\<lambda>_ m. mb_building m = building \<and> mb_active m) (memberships db))"

definition case_reporters :: "'z ddb \<Rightarrow> pk \<Rightarrow> pk option list" where
  "case_reporters db c =
     map (\<lambda>(_, l). map_option rp_reporter (t_get (reports db) (cr_report l)))
       (t_filter (\<lambda>_ l. cr_case l = c) (case_reports db))"

definition building_residents :: "'z adb \<Rightarrow> pk \<Rightarrow> pk option list" where
  "building_residents db building =
     map (\<lambda>(_, oc). Some (oc_user oc))
       (t_filter (\<lambda>_ oc. oc_active oc \<and> unit_building db (oc_unit oc) = building) (occupancies db))"

section \<open>Reports\<close>

definition notify_report_receipt :: "env \<Rightarrow> notify_env \<Rightarrow> 'z ndb \<Rightarrow> pk \<Rightarrow> report_row \<Rightarrow> 'z ndb" where
  "notify_report_receipt env ne db k r =
     (let building = unit_building db (rp_unit r) in
      notify_users env ne db (Some (rp_reporter r) # management_users db building)
        (EVENT_REPORT_RECEIPT @ '':report:'' @ nat_str k) ''Report received''
        (''Report #'' @ nat_str k @ '' was submitted: '' @ py_take 200 (rp_text r)) EVENT_REPORT_RECEIPT (Some building))"

definition notify_info_requested :: "env \<Rightarrow> notify_env \<Rightarrow> 'z ndb \<Rightarrow> pk \<Rightarrow> info_request_row \<Rightarrow> report_row \<Rightarrow> 'z ndb" where
  "notify_info_requested env ne db k info r =
     notify_users env ne db [Some (rp_reporter r)]
       (''info_requested:report:'' @ nat_str (ir_report info) @ '':info:'' @ nat_str k) ''More information requested''
       (ir_message info) ''info_requested'' (Some (unit_building db (rp_unit r)))"

definition notify_report_declined :: "env \<Rightarrow> notify_env \<Rightarrow> 'z ndb \<Rightarrow> pk \<Rightarrow> report_row \<Rightarrow> 'z ndb" where
  "notify_report_declined env ne db k r =
     notify_users env ne db [Some (rp_reporter r)] (''report_declined:report:'' @ nat_str k) ''Request declined''
       (rp_declined_reason r) ''report_declined'' (Some (unit_building db (rp_unit r)))"

section \<open>Cases\<close>

definition notify_triage_confirmed ::
  "env \<Rightarrow> notify_env \<Rightarrow> 'z ndb \<Rightarrow> pk \<Rightarrow> case_row \<Rightarrow> pk \<Rightarrow> report_row \<Rightarrow> 'z ndb" where
  "notify_triage_confirmed env ne db c cs k r =
     notify_users env ne db (Some (rp_reporter r) # management_users db (cs_building cs))
       (EVENT_TRIAGE_STATUS @ '':case:'' @ nat_str c) ''Triage confirmed''
       (''Case #'' @ nat_str c @ '' opened for report #'' @ nat_str k @ '' ('' @ cs_category cs @ '').'')
       EVENT_TRIAGE_STATUS (Some (cs_building cs))"

text \<open>\<open>datetime.date().isoformat()\<close> and \<open>str(datetime)\<close> of an instant in UTC.\<close>

definition utc_day :: "time \<Rightarrow> string" where
  "utc_day t = take 10 (utc_rfc3339 t)"

definition utc_str :: "time \<Rightarrow> string" where
  "utc_str t =
     (let s = utc_rfc3339 t in
      take 10 s @ '' '' @ take 8 (drop 11 s) @ (if nat t mod 1000000 = 0 then [] else take 7 (drop 19 s)) @ ''+00:00'')"

definition notify_deadline_risk :: "env \<Rightarrow> notify_env \<Rightarrow> 'z ndb \<Rightarrow> pk \<Rightarrow> case_row \<Rightarrow> 'z ndb" where
  "notify_deadline_risk env ne db c cs =
     notify_users env ne db (management_users db (cs_building cs))
       (EVENT_DEADLINE_RISK @ '':case:'' @ nat_str c @ '':day:'' @ utc_day (cs_deadline_at cs)) ''Deadline risk''
       (''Case #'' @ nat_str c @ '' approaches deadline '' @ utc_str (cs_deadline_at cs) @ ''.'')
       EVENT_DEADLINE_RISK (Some (cs_building cs))"

definition notify_progress_update :: "env \<Rightarrow> notify_env \<Rightarrow> 'z ndb \<Rightarrow> pk \<Rightarrow> work_update_row \<Rightarrow> 'z ndb result" where
  "notify_progress_update env ne db k u =
     (case wu_case u of
        None \<Rightarrow> Inl AttributeError
      | Some c \<Rightarrow> (case t_get (cases db) c of
            None \<Rightarrow> Inl DoesNotExist
          | Some cs \<Rightarrow> Inr (notify_users env ne db (case_reporters db c) (''case_progress:update:'' @ nat_str k)
              ''Case progress update'' (wu_cause u @ '': '' @ wu_result u) EVENT_CASE_STATUS (Some (cs_building cs)))))"

definition notify_case_completed :: "env \<Rightarrow> notify_env \<Rightarrow> 'z ndb \<Rightarrow> pk \<Rightarrow> case_row \<Rightarrow> 'z ndb" where
  "notify_case_completed env ne db c cs =
     notify_users env ne db (case_reporters db c) (EVENT_WORK_COMPLETED @ '':case:'' @ nat_str c) ''Work completed''
       (''Case #'' @ nat_str c @ '' is complete '' @ [CHR 0xE2, CHR 0x80, CHR 0x94] @ '' please rate it.'')
       EVENT_WORK_COMPLETED (Some (cs_building cs))"

section \<open>Money\<close>

definition notify_settled :: "env \<Rightarrow> notify_env \<Rightarrow> 'z ndb \<Rightarrow> pk \<Rightarrow> settlement_row \<Rightarrow> proposal_row \<Rightarrow> 'z ndb" where
  "notify_settled env ne db k s pr =
     (let reporters = (case pr_case pr of None \<Rightarrow> [] | Some c \<Rightarrow> case_reporters db c) in
      notify_users env ne db (reporters @ management_users db (pr_building pr))
        (''settlement:settled:'' @ nat_str k) ''Settlement recorded''
        (''Proposal #'' @ nat_str (se_proposal s) @ '' settled for '' @ int_str (se_amount_vnd s) @ '' VND.'')
        EVENT_SETTLEMENT_RECORDED (Some (pr_building pr)))"

text \<open>The building of an entry is looked up through its case; an entry of a standalone proposal has none.\<close>

definition entry_building :: "'z ddb \<Rightarrow> ledger_entry_row \<Rightarrow> pk result" where
  "entry_building db entry =
     (case le_case entry of
        None \<Rightarrow> Inl AttributeError
      | Some c \<Rightarrow> (case t_get (cases db) c of None \<Rightarrow> Inl DoesNotExist | Some cs \<Rightarrow> Inr (cs_building cs)))"

definition notify_publication :: "env \<Rightarrow> notify_env \<Rightarrow> 'z ndb \<Rightarrow> pk \<Rightarrow> ledger_entry_row \<Rightarrow> 'z ndb result" where
  "notify_publication env ne db k entry =
     (case entry_building db entry of
        Inl e \<Rightarrow> Inl e
      | Inr building \<Rightarrow> Inr (notify_users env ne db (building_residents db building @ management_users db building)
          (EVENT_PUBLICATION @ '':entry:'' @ nat_str k) ''Ledger publication''
          (''Spending of '' @ int_str (le_actual_cost_vnd entry) @ '' VND published to the resident ledger.'')
          EVENT_PUBLICATION (Some building)))"

definition notify_integrity_mismatch :: "env \<Rightarrow> notify_env \<Rightarrow> 'z ndb \<Rightarrow> pk \<Rightarrow> ledger_entry_row \<Rightarrow> pk \<Rightarrow> 'z ndb result" where
  "notify_integrity_mismatch env ne db k entry obs =
     (case entry_building db entry of
        Inl e \<Rightarrow> Inl e
      | Inr building \<Rightarrow> Inr (notify_users env ne db (management_users db building)
          (EVENT_INTEGRITY_MISMATCH @ '':entry:'' @ nat_str k @ '':obs:'' @ nat_str obs) ''Integrity mismatch detected''
          (''Published ledger entry #'' @ nat_str k @ '' failed integrity verification.'')
          EVENT_INTEGRITY_MISMATCH (Some building)))"

definition notify_quarantined_upload ::
  "env \<Rightarrow> notify_env \<Rightarrow> 'z ndb \<Rightarrow> pk \<Rightarrow> pk \<Rightarrow> pk option \<Rightarrow> string \<Rightarrow> string \<Rightarrow> 'z ndb" where
  "notify_quarantined_upload env ne db k uploader building filename reason =
     notify_users env ne db (Some uploader # (case building of None \<Rightarrow> [] | Some b \<Rightarrow> management_users db b))
       (EVENT_QUARANTINED_UPLOAD @ '':upload:'' @ nat_str k) ''Upload quarantined''
       (''File '' @ filename @ '' was quarantined: '' @ reason) EVENT_QUARANTINED_UPLOAD building"

section \<open>What the hooks keep\<close>

lemma notify_users_ok: "notices_ok db \<Longrightarrow> notices_ok (notify_users env ne db us key s b c bl)"
  by (simp add: notify_users_def notify_unseen_ok)

lemmas hook_defs = notify_report_receipt_def notify_info_requested_def notify_report_declined_def notify_triage_confirmed_def
  notify_deadline_risk_def notify_progress_update_def notify_case_completed_def notify_settled_def notify_publication_def
  notify_integrity_mismatch_def notify_quarantined_upload_def

lemma hooks_ok:
  assumes "notices_ok db"
  shows "notices_ok (notify_report_receipt env ne db k r)" "notices_ok (notify_info_requested env ne db k info r)"
    "notices_ok (notify_report_declined env ne db k r)" "notices_ok (notify_triage_confirmed env ne db c cs k r)"
    "notices_ok (notify_deadline_risk env ne db c cs)" "notices_ok (notify_case_completed env ne db c cs)"
    "notices_ok (notify_settled env ne db k s pr)" "notices_ok (notify_quarantined_upload env ne db k u bl f why)"
    "notify_progress_update env ne db k w = Inr db' \<Longrightarrow> notices_ok db'"
    "notify_publication env ne db k e = Inr db' \<Longrightarrow> notices_ok db'"
    "notify_integrity_mismatch env ne db k e obs = Inr db' \<Longrightarrow> notices_ok db'"
  using assms by (auto simp: hook_defs Let_def notify_users_ok split: option.splits sum.splits)

text \<open>
  Nobody is told of a mismatch in an entry of a standalone proposal: the hook raises, and its caller ignores it.
\<close>

lemma standalone_mismatch_silent:
  "le_case entry = None \<Longrightarrow> notify_integrity_mismatch env ne db k entry obs = Inl AttributeError"
  "le_case entry = None \<Longrightarrow> notify_publication env ne db k entry = Inl AttributeError"
  by (simp_all add: notify_integrity_mismatch_def notify_publication_def entry_building_def)

end
