(* ===== verification/Worker_Cycle.thy ===== *)
theory Worker_Cycle
  imports Hooks Triage_Jobs Integrity Registration
begin

text \<open>
  One cycle of the unified worker (\<open>config/worker.py\<close>): seven processors, each on its own queue, run one after the
  other on the same database.  A processor that raises reports a failure and the next one runs.

  The integrity check reads the private storage, which the other processors do not touch: the cycle takes the stored
  objects as a parameter and sees the database as the documents component does (\<open>as_documents\<close>).
\<close>

section \<open>Parameters and results\<close>

record 's worker_env =
  w_env :: env
  w_triage :: triage_env
  w_provider :: provider
  w_notify :: notify_env
  w_storage :: "'s storage"
  w_objects :: 's
  w_client :: "string + provider"
  w_str_exc :: "exn \<Rightarrow> string"

record processor_result =
  pr_name :: string
  pr_ok :: bool
  pr_detail :: string
  pr_count :: nat

definition succeeded :: "string \<Rightarrow> string \<Rightarrow> nat \<Rightarrow> processor_result" where
  "succeeded name label n = \<lparr> pr_name = name, pr_ok = True, pr_detail = label @ ''='' @ nat_str n, pr_count = n \<rparr>"

definition failed :: "string \<Rightarrow> string \<Rightarrow> processor_result" where
  "failed name detail = \<lparr> pr_name = name, pr_ok = False, pr_detail = detail, pr_count = 0 \<rparr>"

section \<open>Processors\<close>

definition process_triage_batch :: "'s worker_env \<Rightarrow> nat \<Rightarrow> 'z ddb \<Rightarrow> processor_result \<times> 'z ddb" where
  "process_triage_batch w limit db =
     (case triage_loop (w_env w) (w_triage w) limit 0 db of
        (db', Inl x) \<Rightarrow> (failed ''triage'' (w_str_exc w x), db')
      | (db', Inr n) \<Rightarrow> (succeeded ''triage'' ''processed'' n, db'))"

definition process_blockchain_outbox_batch :: "'s worker_env \<Rightarrow> nat \<Rightarrow> 'z edb \<Rightarrow> processor_result \<times> 'z edb" where
  "process_blockchain_outbox_batch w limit db =
     (let (ks, db') = process_due_outbox_events (w_env w) (w_provider w) limit db in
      (succeeded ''blockchain_outbox'' ''processed'' (length ks), db'))"

text \<open>The database as the documents component sees it, and the rows an integrity check writes.\<close>

definition as_documents :: "'s \<Rightarrow> 'z ddb \<Rightarrow> 's documents_db" where
  "as_documents objects db = domain_db.extend (domain_db.truncate db) \<lparr> quarantined = t_empty, private_objects = objects \<rparr>"

definition with_observations :: "'s documents_db \<Rightarrow> 'z ddb \<Rightarrow> 'z ddb" where
  "with_observations d db = db \<lparr> observations := observations d, audit_log := audit_log d \<rparr>"

definition verify_entry :: "'s worker_env \<Rightarrow> pk \<Rightarrow> 'z ddb \<Rightarrow> (pk \<times> 'z ddb) result" where
  "verify_entry w k db =
     map_sum id (\<lambda>(o', d). (o', with_observations d db))
       (verify_published_entry (w_env w) (w_str_exc w) (w_storage w) (w_client w) (as_documents (w_objects w) db) k)"

definition unobserved_entries :: "'z ddb \<Rightarrow> (pk \<times> ledger_entry_row) list" where
  "unobserved_entries db =
     sort_key (\<lambda>(_, e). le_published_at e)
       (t_filter (\<lambda>k _. \<not> t_exists (\<lambda>_ o'. vo_entry o' = k) (observations db)) (ledger db))"

definition verify_one :: "'s worker_env \<Rightarrow> pk \<Rightarrow> nat \<times> 'z ddb \<Rightarrow> nat \<times> 'z ddb" where
  "verify_one w k nd =
     (case verify_entry w k (snd nd) of Inl _ \<Rightarrow> nd | Inr (_, db') \<Rightarrow> (Suc (fst nd), db'))"

definition process_integrity_batch :: "'s worker_env \<Rightarrow> nat \<Rightarrow> 'z ddb \<Rightarrow> processor_result \<times> 'z ddb" where
  "process_integrity_batch w limit db =
     (let (n, db') = fold (verify_one w) (map fst (take limit (unobserved_entries db))) (0, db) in
      (succeeded ''integrity'' ''checked'' n, db'))"

definition near_deadline :: "time \<Rightarrow> case_row \<Rightarrow> bool" where
  "near_deadline t cs \<longleftrightarrow> cs_deadline_at cs \<le> t + hours 24 \<and> t - hours 24 \<le> cs_deadline_at cs
     \<and> cs_active cs \<and> cs_completed_at cs = None"

definition risky_cases :: "time \<Rightarrow> nat \<Rightarrow> 'z ddb \<Rightarrow> (pk \<times> case_row) list" where
  "risky_cases t limit db = take limit (sort_key (\<lambda>(_, cs). cs_deadline_at cs) (t_filter (\<lambda>_. near_deadline t) (cases db)))"

definition process_deadline_risk_batch :: "'s worker_env \<Rightarrow> nat \<Rightarrow> 'z ndb \<Rightarrow> processor_result \<times> 'z ndb" where
  "process_deadline_risk_batch w limit db =
     (let risky = risky_cases (now (w_env w)) limit db in
      (succeeded ''deadline_risk'' ''queued'' (length risky),
       fold (\<lambda>(c, cs) db. notify_deadline_risk (w_env w) (w_notify w) db c cs) risky db))"

definition process_notifications_batch :: "'s worker_env \<Rightarrow> nat \<Rightarrow> 'z ndb \<Rightarrow> processor_result \<times> 'z ndb" where
  "process_notifications_batch w limit db =
     (let (db', ks) = process_due_notifications (w_env w) (w_notify w) limit db in
      (succeeded ''notifications'' ''processed'' (length ks), db'))"

definition process_stale_devices_batch :: "'s worker_env \<Rightarrow> nat \<Rightarrow> 'z ndb \<Rightarrow> processor_result \<times> 'z ndb" where
  "process_stale_devices_batch w n db =
     (let (db', k) = deactivate_stale_devices (w_env w) db (int n) in
      (succeeded ''stale_devices'' ''deactivated'' k, db'))"

definition process_registration_expiry_batch :: "'s worker_env \<Rightarrow> nat \<Rightarrow> 'z adb \<Rightarrow> processor_result \<times> 'z adb" where
  "process_registration_expiry_batch w limit db =
     (let (n, db') = expire_registration_requests limit (now (w_env w)) db in
      (succeeded ''registration_expiry'' ''expired'' n, db'))"

section \<open>The cycle\<close>

text \<open>
  \<open>_kwargs_for\<close>: the limit of a processor is its own keyword argument, else the common one, else the default of its
  signature; the processor of stale devices takes days instead.
\<close>

definition kwarg :: "(string \<times> nat) list \<Rightarrow> string \<Rightarrow> nat \<Rightarrow> nat" where
  "kwarg kwargs key d = (case map_of kwargs key of None \<Rightarrow> d | Some n \<Rightarrow> n)"

definition kwargs_for :: "string \<Rightarrow> (string \<times> nat) list \<Rightarrow> nat \<Rightarrow> nat" where
  "kwargs_for name kwargs d =
     (if name = ''process_stale_devices_batch'' then kwarg kwargs ''days'' d
      else kwarg kwargs (name @ ''_limit'') (kwarg kwargs ''limit'' d))"

definition PROCESSORS :: "'s worker_env \<Rightarrow> (string \<times> nat) list \<Rightarrow> ('z ndb \<Rightarrow> processor_result \<times> 'z ndb) list" where
  "PROCESSORS w kwargs =
     [process_triage_batch w (kwargs_for ''process_triage_batch'' kwargs 20),
      process_blockchain_outbox_batch w (kwargs_for ''process_blockchain_outbox_batch'' kwargs 50),
      process_integrity_batch w (kwargs_for ''process_integrity_batch'' kwargs 20),
      process_deadline_risk_batch w (kwargs_for ''process_deadline_risk_batch'' kwargs 50),
      process_notifications_batch w (kwargs_for ''process_notifications_batch'' kwargs 50),
      process_stale_devices_batch w (kwargs_for ''process_stale_devices_batch'' kwargs 180),
      process_registration_expiry_batch w (kwargs_for ''process_registration_expiry_batch'' kwargs 100)]"

fun run_processors :: "('d \<Rightarrow> processor_result \<times> 'd) list \<Rightarrow> 'd \<Rightarrow> processor_result list \<times> 'd" where
  "run_processors [] db = ([], db)"
| "run_processors (p # ps) db = (let (r, db1) = p db; (rs, db2) = run_processors ps db1 in (r # rs, db2))"

definition run_worker_cycle :: "'s worker_env \<Rightarrow> (string \<times> nat) list \<Rightarrow> 'z ndb \<Rightarrow> processor_result list \<times> 'z ndb" where
  "run_worker_cycle w kwargs db = run_processors (PROCESSORS w kwargs) db"

definition all_ok :: "processor_result list \<Rightarrow> bool" where
  "all_ok rs \<longleftrightarrow> list_all pr_ok rs"

text \<open>
  The loop of \<open>run_worker\<close>: one environment per cycle, with the clock and the answers of the providers at that time.  The
  loop passes no keyword arguments, and with a cap on the cycles it runs at least one.
\<close>

definition run_worker_loop :: "(nat \<Rightarrow> 's worker_env) \<Rightarrow> nat \<Rightarrow> 'z ndb \<Rightarrow> 'z ndb" where
  "run_worker_loop ws max_cycles db = fold (\<lambda>i db. snd (run_worker_cycle (ws i) [] db)) [0..<max 1 max_cycles] db"

end
