(* ===== verification/Worker_Site.thy ===== *)
theory Worker_Site
  imports Worker_Cycle Triage_Runs
begin

text \<open>
  What a worker cycle keeps, whatever its queues hold and its providers answer.  Each of the seven processors satisfies
  the contract \<open>worker_processor\<close>: it reports under its own name and takes a \<open>worker_step\<close>, which leaves the money, the
  proposals and the cases alone, keeps the identity of evidence, only appends to the audit log and to the integrity
  observations, and keeps the notification queue well formed.
\<close>

section \<open>Steps of a worker\<close>

definition worker_part where
  "worker_part db = (money db, (proposals db, proposal_versions db, proposal_documents db, predictions db),
     (cases db, case_reports db, decisions db, info_requests db, work_updates db, ratings db),
     (documents db, document_versions db, locations db),
     (users db, buildings db, units db, occupancies db, memberships db))"

definition observed :: "'z ddb \<Rightarrow> pk \<Rightarrow> bool" where
  "observed db e \<longleftrightarrow> t_exists (\<lambda>_ o'. vo_entry o' = e) (observations db)"

definition worker_step :: "'z ndb \<Rightarrow> 'z ndb \<Rightarrow> bool" where
  "worker_step db db' \<longleftrightarrow> worker_part db' = worker_part db \<and> outbox_log db' = outbox_log db
     \<and> (\<exists>new. table_rows (audit_log db') = table_rows (audit_log db) @ new)
     \<and> (\<exists>new. table_rows (observations db') = table_rows (observations db) @ new \<and> (\<forall>o' \<in> snd ` set new. \<not> observed db (vo_entry o')))
     \<and> (notices_ok db \<longrightarrow> notices_ok db')"

lemma worker_step_refl: "worker_step db db"
  by (simp add: worker_step_def)

lemma observed_rows: "observed db e \<longleftrightarrow> e \<in> vo_entry ` snd ` set (table_rows (observations db))"
  by (force simp: observed_def t_exists_def list_ex_iff)

lemma worker_step_trans:
  assumes "worker_step a b" "worker_step b c"
  shows "worker_step a c"
proof -
  obtain n1 where n1: "table_rows (observations b) = table_rows (observations a) @ n1" "\<forall>o' \<in> snd ` set n1. \<not> observed a (vo_entry o')"
    using assms(1) by (auto simp: worker_step_def)
  obtain n2 where n2: "table_rows (observations c) = table_rows (observations b) @ n2" "\<forall>o' \<in> snd ` set n2. \<not> observed b (vo_entry o')"
    using assms(2) by (auto simp: worker_step_def)
  have "\<forall>o' \<in> snd ` set (n1 @ n2). \<not> observed a (vo_entry o')" using n1 n2(2) by (auto simp: observed_rows)
  moreover have "table_rows (observations c) = table_rows (observations a) @ n1 @ n2" using n1(1) n2(1) by simp
  ultimately show ?thesis using assms unfolding worker_step_def by (metis append.assoc)
qed

lemma worker_step_ledger: "worker_step db db' \<Longrightarrow> ledger db' = ledger db"
  by (simp add: worker_step_def worker_part_def money_def)

lemma worker_step_fold:
  "(\<And>x db. worker_step db (f x db)) \<Longrightarrow> worker_step db (fold f xs db)"
  by (induction xs arbitrary: db) (auto intro: worker_step_refl worker_step_trans)

lemma worker_step_same:
  assumes "worker_part db' = worker_part db" "outbox_log db' = outbox_log db" "audit_log db' = audit_log db"
    "observations db' = observations db" "notices_ok db \<Longrightarrow> notices_ok db'"
  shows "worker_step db db'"
  using assms by (simp add: worker_step_def)

section \<open>The contract of a processor\<close>

locale worker_processor =
  fixes name :: string
    and run :: "'z ndb \<Rightarrow> processor_result \<times> 'z ndb"
  assumes run_name: "pr_name (fst (run db)) = name"
    and run_step: "t_ok (ledger db) \<Longrightarrow> worker_step db (snd (run db))"
begin

lemma run_result: "run db = (r, db') \<Longrightarrow> t_ok (ledger db) \<Longrightarrow> pr_name r = name \<and> worker_step db db'"
  using run_name [of db] run_step [of db] by simp

end

lemma run_processors_contract:
  assumes "list_all2 worker_processor names ps" "t_ok (ledger db)"
  shows "map pr_name (fst (run_processors ps db)) = names \<and> worker_step db (snd (run_processors ps db))"
  using assms
proof (induction names ps arbitrary: db rule: list_all2_induct)
  case (Cons name names p ps)
  obtain r db1 where p: "p db = (r, db1)" by fastforce
  have r: "pr_name r = name" "worker_step db db1" using worker_processor.run_result [OF Cons.hyps(1) p] Cons.prems by simp_all
  then have "t_ok (ledger db1)" using Cons.prems worker_step_ledger by metis
  then show ?case using Cons.IH [of db1] worker_step_trans r p by (auto simp: Let_def split: prod.splits)
qed (simp add: worker_step_refl)

section \<open>The seven processors\<close>

lemma notices_cong:
  "deliveries db' = deliveries db \<Longrightarrow> mails db' = mails db \<Longrightarrow> pushes db' = pushes db \<Longrightarrow> devices db' = devices db \<Longrightarrow>
   notices_ok db' = notices_ok db"
  by (simp add: notices_ok_def)

text \<open>Everything beside the three tables triage writes.\<close>

definition beside_triage_tables :: "'z ddb \<Rightarrow> 'z ddb" where
  "beside_triage_tables db = db \<lparr> triage_jobs := t_empty, suggestions := t_empty, reports := t_empty \<rparr>"

lemma beside_triage_updates [simp]:
  "beside_triage_tables (db \<lparr> triage_jobs := x \<rparr>) = beside_triage_tables db"
  "beside_triage_tables (db \<lparr> suggestions := y \<rparr>) = beside_triage_tables db"
  "beside_triage_tables (set_reports P s db) = beside_triage_tables db"
  by (simp_all add: beside_triage_tables_def set_reports_def)

lemma process_claimed_beside:
  assumes "process_claimed_job env te k db = (db', res)"
  shows "beside_triage_tables db' = beside_triage_tables db"
  using process_claimed_processed [OF assms]
proof cases
  case (suggested j r ids triage p rid db1)
  then have "beside_triage_tables db1 = beside_triage_tables db" by (auto simp: create_suggestion_def split: if_splits)
  then show ?thesis using suggested(1) by (simp add: succeed_def report_in_review_def)
qed (simp_all add: manual_def report_in_review_def)

lemma triage_loop_beside: "beside_triage_tables (fst (triage_loop env te n m db)) = beside_triage_tables db"
proof (induction n arbitrary: m db)
  case (Suc n)
  show ?case
  proof (cases "claim_triage_job env None db")
    case (Some kd)
    then obtain k db1 where c: "claim_triage_job env None db = Some (k, db1)" by (cases kd) auto
    obtain db2 res where p: "process_claimed_job env te k db1 = (db2, res)" by fastforce
    have "beside_triage_tables db1 = beside_triage_tables db" using c by (auto simp: claim_triage_job_def split: option.splits)
    then have "beside_triage_tables db2 = beside_triage_tables db" using process_claimed_beside [OF p] by simp
    then show ?thesis using Suc.IH [of "Suc m" db2] c p by (cases res) simp_all
  qed simp
qed simp

lemma beside_triage_step:
  assumes "beside_triage_tables db' = beside_triage_tables db"
  shows "worker_step db (db' :: 'z ndb)"
proof -
  have eq: "f db' = f db" if "\<And>d :: 'z ndb. f (beside_triage_tables d) = f d" for f :: "'z ndb \<Rightarrow> 'b"
    using that assms by metis
  show ?thesis
  proof (rule worker_step_same)
    show "worker_part db' = worker_part db" by (rule eq) (simp add: worker_part_def beside_triage_tables_def money_def)
    show "outbox_log db' = outbox_log db" by (rule eq) (simp add: outbox_log_def beside_triage_tables_def)
    show "audit_log db' = audit_log db" by (rule eq) (simp add: beside_triage_tables_def)
    show "observations db' = observations db" by (rule eq) (simp add: beside_triage_tables_def)
    have "notices_ok db' = notices_ok db" by (rule eq) (simp add: notices_ok_def beside_triage_tables_def)
    then show "notices_ok db \<Longrightarrow> notices_ok db'" by simp
  qed
qed

lemma triage_batch_result:
  "process_triage_batch w limit db = (r, db') \<Longrightarrow> pr_name r = ''triage'' \<and> beside_triage_tables db' = beside_triage_tables db"
  using triage_loop_beside [of "w_env w" "w_triage w" limit 0 db]
  by (auto simp: process_triage_batch_def succeeded_def failed_def split: prod.splits sum.splits)

interpretation triage_processor: worker_processor "''triage''" "process_triage_batch w limit" for w limit
proof unfold_locales
  fix db :: "'z ndb"
  obtain r db' where p: "process_triage_batch w limit db = (r, db')" by fastforce
  note res = triage_batch_result [OF p]
  show "pr_name (fst (process_triage_batch w limit db)) = ''triage''" using res p by simp
  show "worker_step db (snd (process_triage_batch w limit db))" using beside_triage_step [of db' db] res p by simp
qed

lemma beside_outbox_step:
  assumes "beside_outbox db' = beside_outbox db" "outbox_log db' = outbox_log db"
  shows "worker_step db (db' :: 'z ndb)"
proof -
  have eq: "f db' = f db" if "\<And>d :: 'z ndb. f (beside_outbox d) = f d" for f :: "'z ndb \<Rightarrow> 'b"
    using that assms(1) by metis
  show ?thesis
  proof (rule worker_step_same)
    show "worker_part db' = worker_part db" by (rule eq) (simp add: worker_part_def beside_outbox_def money_def)
    show "audit_log db' = audit_log db" by (rule eq) (simp add: beside_outbox_def)
    show "observations db' = observations db" by (rule eq) (simp add: beside_outbox_def)
    have "notices_ok db' = notices_ok db" by (rule eq) (simp add: notices_ok_def beside_outbox_def)
    then show "notices_ok db \<Longrightarrow> notices_ok db'" by simp
  qed (rule assms(2))
qed

interpretation outbox_processor: worker_processor "''blockchain_outbox''" "process_blockchain_outbox_batch w limit" for w limit
proof unfold_locales
  fix db :: "'z ndb"
  show "pr_name (fst (process_blockchain_outbox_batch w limit db)) = ''blockchain_outbox''"
    by (simp add: process_blockchain_outbox_batch_def succeeded_def split: prod.splits)
  have "worker_step db (snd (process_due_outbox_events (w_env w) (w_provider w) limit db))"
    by (intro beside_outbox_step beside_due process_due_log)
  then show "worker_step db (snd (process_blockchain_outbox_batch w limit db))"
    by (simp add: process_blockchain_outbox_batch_def split_def Let_def)
qed

text \<open>The integrity check.\<close>

lemma as_documents_tables:
  "observations (as_documents objects db) = observations db" "audit_log (as_documents objects db) = audit_log db"
  by (simp_all add: as_documents_def domain_db.extend_def domain_db.truncate_def)

lemma verify_effect:
  assumes "verify_published_entry env str_exc st client d k = Inr (o', d')"
  shows "\<exists>row new. vo_entry row = k \<and> observations d' = t_insert row (observations d)
    \<and> table_rows (audit_log d') = table_rows (audit_log d) @ new"
proof -
  obtain entry docs events local_ok locals where
    eq: "(let row = observation_of env str_exc client k docs events local_ok locals;
            d1 = d \<lparr> observations := t_insert row (observations d) \<rparr> in
          if vo_result row \<noteq> ObMismatch then Inr (next_pk (observations d), d1)
          else map_sum id (Pair (next_pk (observations d)))
            (report_mismatch env d1 k entry (next_pk (observations d)) (vo_details row))) = Inr (o', d')"
    using assms unfolding verify_published_entry_def Let_def by (auto split: option.splits sum.splits prod.splits)
  define row where "row = observation_of env str_exc client k docs events local_ok locals"
  have d': "d' = d \<lparr> observations := t_insert row (observations d) \<rparr>
      \<or> report_mismatch env (d \<lparr> observations := t_insert row (observations d) \<rparr>) k entry (next_pk (observations d)) (vo_details row) = Inr d'"
    using eq unfolding row_def [symmetric] by (auto simp: Let_def map_sum_def split: if_splits sum.splits)
  have "vo_entry row = k" by (simp add: row_def observation_of_def split: prod.splits)
  moreover have "observations d' = t_insert row (observations d) \<and> (\<exists>new. table_rows (audit_log d') = table_rows (audit_log d) @ new)"
    using d'
  proof
    assume "report_mismatch env (d \<lparr> observations := t_insert row (observations d) \<rparr>) k entry (next_pk (observations d)) (vo_details row) = Inr d'"
    then obtain user m action ty tid res meta where
      "record_audit env (d \<lparr> observations := t_insert row (observations d) \<rparr>) user m action ty tid res meta = Inr d'"
      by (auto simp: report_mismatch_def split: option.splits sum.splits)
    from record_audit_appends [OF this] show ?thesis by (simp add: t_insert_def)
  qed simp
  ultimately show ?thesis by blast
qed

lemma verify_entry_step:
  assumes "verify_entry w k db = Inr (o', db')" "\<not> observed db k"
  shows "worker_step db db' \<and> (\<forall>e. e \<noteq> k \<longrightarrow> observed db' e = observed db e)"
proof -
  obtain d' where v: "verify_published_entry (w_env w) (w_str_exc w) (w_storage w) (w_client w) (as_documents (w_objects w) db) k
      = Inr (o', d')" and db': "db' = with_observations d' db"
    using assms(1) by (auto simp: verify_entry_def map_sum_def split: sum.splits)
  obtain row new where row: "vo_entry row = k" "observations db' = t_insert row (observations db)"
    "table_rows (audit_log db') = table_rows (audit_log db) @ new"
    using verify_effect [OF v] by (auto simp: as_documents_tables db' with_observations_def)
  have same: "worker_part db' = worker_part db" "outbox_log db' = outbox_log db" "notices_ok db' = notices_ok db"
    by (simp_all add: db' with_observations_def worker_part_def money_def outbox_log_def notices_ok_def)
  have "\<exists>new. table_rows (observations db') = table_rows (observations db) @ new \<and> (\<forall>o' \<in> snd ` set new. \<not> observed db (vo_entry o'))"
    using assms(2) row(1,2) by (intro exI [of _ "[(next_pk (observations db), row)]"]) (simp add: t_insert_def)
  then show ?thesis using row same by (auto simp: worker_step_def observed_rows t_insert_def)
qed

lemma verify_one_fold:
  assumes "distinct ks" "\<forall>k \<in> set ks. \<not> observed db k"
  shows "worker_step db (snd (fold (verify_one w) ks (n, db)))"
  using assms
proof (induction ks arbitrary: n db)
  case (Cons k ks)
  show ?case
  proof (cases "verify_entry w k db")
    case (Inr od)
    then obtain o' db' where v: "verify_entry w k db = Inr (o', db')" by (cases od) auto
    have step: "worker_step db db'" "\<And>e. e \<noteq> k \<Longrightarrow> observed db' e = observed db e"
      using verify_entry_step [OF v] Cons.prems(2) by simp_all
    have "\<forall>e \<in> set ks. \<not> observed db' e" using Cons.prems step(2) by (metis distinct.simps(2) list.set_intros(2))
    then have "worker_step db' (snd (fold (verify_one w) ks (Suc n, db')))" by (intro Cons.IH) (use Cons.prems in simp_all)
    moreover have "verify_one w k (n, db) = (Suc n, db')" using v by (simp add: verify_one_def)
    ultimately show ?thesis using worker_step_trans [OF step(1)] by simp
  next
    case (Inl e)
    then have "verify_one w k (n, db) = (n, db)" by (simp add: verify_one_def)
    then show ?thesis using Cons by simp
  qed
qed (simp add: worker_step_refl)

lemma unobserved_keys:
  assumes "t_ok (ledger db)"
  shows "distinct (map fst (take limit (unobserved_entries db)))"
    "\<forall>k \<in> set (map fst (take limit (unobserved_entries db))). \<not> observed db k"
proof -
  have "distinct (map fst (unobserved_entries db))"
    using t_filter_distinct [OF assms] unfolding unobserved_entries_def by (simp add: distinct_map inj_on_def)
  then show "distinct (map fst (take limit (unobserved_entries db)))" by (simp add: take_map [symmetric])
  show "\<forall>k \<in> set (map fst (take limit (unobserved_entries db))). \<not> observed db k"
    using set_take_subset by (fastforce simp: unobserved_entries_def t_filter_def observed_def)
qed

interpretation integrity_processor: worker_processor "''integrity''" "process_integrity_batch w limit" for w limit
proof unfold_locales
  fix db :: "'z ndb"
  show "pr_name (fst (process_integrity_batch w limit db)) = ''integrity''"
    by (simp add: process_integrity_batch_def succeeded_def split: prod.splits)
  assume "t_ok (ledger db)"
  note verify_one_fold [OF unobserved_keys [OF this, of limit], of w 0]
  then show "worker_step db (snd (process_integrity_batch w limit db))"
    by (simp add: process_integrity_batch_def split_def Let_def)
qed

text \<open>The processors of the notification queue leave everything else alone.\<close>

definition queue_frame where
  "queue_frame db = (worker_part db, outbox_log db, audit_log db, observations db)"

interpretation queue_frame: notice_frame "queue_frame :: 'z ndb \<Rightarrow> _"
  by unfold_locales (simp_all add: queue_frame_def worker_part_def money_def outbox_log_def)

lemma queue_frame_step: "queue_frame db' = queue_frame db \<Longrightarrow> (notices_ok db \<Longrightarrow> notices_ok db') \<Longrightarrow> worker_step db db'"
  by (rule worker_step_same) (simp_all add: queue_frame_def)

lemma deadline_risk_step: "worker_step db (notify_deadline_risk env ne db c cs)"
  by (rule queue_frame_step) (simp_all add: notify_deadline_risk_def notify_users_def queue_frame.notify_unseen_part notify_unseen_ok)

interpretation deadline_processor: worker_processor "''deadline_risk''" "process_deadline_risk_batch w limit" for w limit
proof unfold_locales
  fix db :: "'z ndb"
  show "pr_name (fst (process_deadline_risk_batch w limit db)) = ''deadline_risk''"
    by (simp add: process_deadline_risk_batch_def succeeded_def Let_def)
  have "worker_step db (fold (\<lambda>(c, cs) db. notify_deadline_risk (w_env w) (w_notify w) db c cs) xs db)" for xs
    by (rule worker_step_fold) (auto intro: deadline_risk_step split: prod.splits)
  then show "worker_step db (snd (process_deadline_risk_batch w limit db))"
    by (simp add: process_deadline_risk_batch_def Let_def)
qed

interpretation notifications_processor: worker_processor "''notifications''" "process_notifications_batch w limit" for w limit
proof unfold_locales
  fix db :: "'z ndb"
  show "pr_name (fst (process_notifications_batch w limit db)) = ''notifications''"
    by (simp add: process_notifications_batch_def succeeded_def split: prod.splits)
  have "worker_step db (fst (process_due_notifications (w_env w) (w_notify w) limit db))"
    by (rule queue_frame_step) (simp_all add: queue_frame.process_due_part process_due_ok)
  then show "worker_step db (snd (process_notifications_batch w limit db))"
    by (simp add: process_notifications_batch_def split_def Let_def)
qed

interpretation stale_processor: worker_processor "''stale_devices''" "process_stale_devices_batch w n" for w n
proof unfold_locales
  fix db :: "'z ndb"
  show "pr_name (fst (process_stale_devices_batch w n db)) = ''stale_devices''"
    by (simp add: process_stale_devices_batch_def succeeded_def split: prod.splits)
  have "worker_step db (fst (deactivate_stale_devices (w_env w) db (int n)))"
    by (rule queue_frame_step) (simp_all add: deactivate_stale_devices_def queue_frame.deactivate_part deactivate_where_ok)
  then show "worker_step db (snd (process_stale_devices_batch w n db))"
    by (simp add: process_stale_devices_batch_def split_def Let_def)
qed

interpretation expiry_processor: worker_processor "''registration_expiry''" "process_registration_expiry_batch w limit" for w limit
proof unfold_locales
  fix db :: "'z ndb"
  show "pr_name (fst (process_registration_expiry_batch w limit db)) = ''registration_expiry''"
    by (simp add: process_registration_expiry_batch_def succeeded_def split: prod.splits)
  show "worker_step db (snd (process_registration_expiry_batch w limit db))"
    by (rule worker_step_same) (simp_all add: process_registration_expiry_batch_def expire_registration_requests_def Let_def
        expire_requests_def worker_part_def money_def outbox_log_def notices_ok_def)
qed

section \<open>Cycles\<close>

definition processor_names :: "string list" where
  "processor_names = [''triage'', ''blockchain_outbox'', ''integrity'', ''deadline_risk'', ''notifications'', ''stale_devices'',
     ''registration_expiry'']"

lemma processors_contract: "list_all2 worker_processor processor_names (PROCESSORS w kwargs)"
  by (simp add: processor_names_def PROCESSORS_def triage_processor.worker_processor_axioms outbox_processor.worker_processor_axioms
      integrity_processor.worker_processor_axioms deadline_processor.worker_processor_axioms
      notifications_processor.worker_processor_axioms stale_processor.worker_processor_axioms expiry_processor.worker_processor_axioms)

lemma cycle_contract:
  assumes "t_ok (ledger db)"
  shows "map pr_name (fst (run_worker_cycle w kwargs db)) = processor_names \<and> worker_step db (snd (run_worker_cycle w kwargs db))"
  unfolding run_worker_cycle_def by (rule run_processors_contract [OF processors_contract assms])

lemma loop_step:
  assumes "t_ok (ledger db)"
  shows "worker_step db (run_worker_loop ws n db)"
proof -
  have "worker_step db (fold (\<lambda>i db. snd (run_worker_cycle (ws i) [] db)) is db)" for "is"
    using assms
  proof (induction "is" arbitrary: db)
    case (Cons i "is")
    let ?db1 = "snd (run_worker_cycle (ws i) [] db)"
    have first: "worker_step db ?db1" using cycle_contract [OF Cons.prems] by blast
    then have "t_ok (ledger ?db1)" using Cons.prems worker_step_ledger [OF first] by simp
    from worker_step_trans [OF first Cons.IH [OF this]] show ?case by simp
  qed (simp add: worker_step_refl)
  then show ?thesis by (simp add: run_worker_loop_def)
qed

end
