(* ===== verification/Bill_Views.thy ===== *)
theory Bill_Views
  imports Notice_Views
begin

text \<open>
  Bills and the notices residents see of them, and the properties of announcements and bills over any run of the
  notification services: who sees an announcement, and that a resident sees a notice of exactly the bills that are
  not void.
\<close>

section \<open>Notices of bills\<close>

definition bill_notice_of :: "'z bdb \<Rightarrow> notice_core \<Rightarrow> bool" where
  "bill_notice_of db c \<longleftrightarrow> nc_status c = NAvailable \<and>
     (\<exists>b bill. nc_key c = bill_key b \<and> t_get (bills db) b = Some bill \<and> bi_status bill \<noteq> Void
        \<and> nc_recipient c = bi_resident bill \<and> nc_building c = Some (bi_building bill))"

definition has_bill_notice :: "pk \<Rightarrow> pk \<Rightarrow> (pk \<times> notice_core) set \<Rightarrow> bool" where
  "has_bill_notice b u V \<longleftrightarrow> (\<exists>k c. (k, c) \<in> V \<and> nc_recipient c = u \<and> nc_key c = bill_key b)"

definition bills_shown :: "'z bdb \<Rightarrow> bool" where
  "bills_shown db \<longleftrightarrow> t_ok (bills db) \<and> (\<forall>(k, c) \<in> view bill_fam (deliveries db). bill_notice_of db c) \<and>
     (\<forall>b bill. t_get (bills db) b = Some bill \<longrightarrow> bi_status bill \<noteq> Void \<longrightarrow>
        has_bill_notice b (bi_resident bill) (view bill_fam (deliveries db)))"

lemma bills_shownD:
  "bills_shown db \<Longrightarrow> (k, c) \<in> view bill_fam (deliveries db) \<Longrightarrow> bill_notice_of db c"
  "bills_shown db \<Longrightarrow> t_get (bills db) b = Some bill \<Longrightarrow> bi_status bill \<noteq> Void \<Longrightarrow>
     has_bill_notice b (bi_resident bill) (view bill_fam (deliveries db))"
  by (auto simp: bills_shown_def)

lemma bills_shown_available: "bills_shown db \<Longrightarrow> all_available (view bill_fam (deliveries db))"
  by (auto simp: bills_shown_def all_available_def bill_notice_of_def)

lemma bills_shown_same:
  "view bill_fam (deliveries db') = view bill_fam (deliveries db) \<Longrightarrow> bills db' = bills db \<Longrightarrow> bills_shown db \<Longrightarrow> bills_shown db'"
  by (auto simp: bills_shown_def bill_notice_of_def)

lemma bill_notice_core: "shown bill_fam r \<Longrightarrow> bill_notice b r \<longleftrightarrow> nc_key (core r) = bill_key b"
  by (auto simp: bill_notice_def core_def shown_def)

text \<open>Queueing the notice of a fresh bill adds one available notice of that bill.\<close>

lemma queue_bill_noticeE:
  assumes "queue_bill_notice env ne b bill db = Inr db'" "notices_ok db"
  obtains k db1 db2 where "get_or_create_delivery (new_delivery env (bi_resident bill) (bill_key b)
      (bill_subject (bi_title bill) (bi_amount_vnd bill)) (bi_note bill) InApp EVENT_BILL_ISSUED (Some (bi_building bill))) db = Inr (k, db1)"
    "notices_ok db1" "view bill_fam (deliveries db2) = view bill_fam (deliveries db1)" "t_ok (deliveries db2)"
    "db' = db2 \<lparr> deliveries := t_update_all (\<lambda>_. bill_notice b) (\<lambda>r. r \<lparr> nd_status := NAvailable \<rparr>) (deliveries db2) \<rparr>"
proof -
  obtain k db1 db2 x where h: "get_or_create_delivery (new_delivery env (bi_resident bill) (bill_key b)
      (bill_subject (bi_title bill) (bi_amount_vnd bill)) (bi_note bill) InApp EVENT_BILL_ISSUED (Some (bi_building bill))) db = Inr (k, db1)"
      "queue_notification env ne db1 (bi_resident bill) (bill_push_key b)
             (bill_subject (bi_title bill) (bi_amount_vnd bill)) (bi_note bill) (Some [PushChannel])
             EVENT_BILL_ISSUED (Some (bi_building bill)) = (db2, x)"
      "db' = db2 \<lparr> deliveries := t_update_all (\<lambda>_. bill_notice b) (\<lambda>r. r \<lparr> nd_status := NAvailable \<rparr>) (deliveries db2) \<rparr>"
    using assms(1) by (auto simp: queue_bill_notice_def queue_notification_def [of _ _ db] channel_admitted_def
        split: sum.splits prod.splits)
  have ok: "notices_ok db1" using get_or_create_ok [OF assms(2) h(1)] .
  show thesis using that [OF h(1) ok view_queue [OF h(2) ok] _ h(3)] notices_t_ok [OF queue_notification_okD [OF h(2) ok]] by simp
qed

lemma queue_bill_view:
  assumes "queue_bill_notice env ne b bill db = Inr db'" "notices_ok db"
    and fresh: "\<And>k c. (k, c) \<in> view bill_fam (deliveries db) \<Longrightarrow> nc_key c \<noteq> bill_key b"
  shows "\<exists>k c. view bill_fam (deliveries db') = insert (k, c) (view bill_fam (deliveries db))
    \<and> nc_key c = bill_key b \<and> nc_recipient c = bi_resident bill \<and> nc_building c = Some (bi_building bill)
    \<and> nc_status c = NAvailable"
  using assms(1,2)
proof (rule queue_bill_noticeE)
  let ?new = "new_delivery env (bi_resident bill) (bill_key b) (bill_subject (bi_title bill) (bi_amount_vnd bill)) (bi_note bill)
    InApp EVENT_BILL_ISSUED (Some (bi_building bill))"
  fix k db1 db2
  assume h: "get_or_create_delivery ?new db = Inr (k, db1)" "notices_ok db1"
    "view bill_fam (deliveries db2) = view bill_fam (deliveries db1)" "t_ok (deliveries db2)"
    "db' = db2 \<lparr> deliveries := t_update_all (\<lambda>_. bill_notice b) (\<lambda>r. r \<lparr> nd_status := NAvailable \<rparr>) (deliveries db2) \<rparr>"
  have t: "t_ok (deliveries db)" using notices_t_ok [OF assms(2)] .
  have new: "shown bill_fam ?new" "nc_key (core ?new) = bill_key b" "nc_recipient (core ?new) = bi_resident bill"
      "nc_building (core ?new) = Some (bi_building bill)"
    by (simp_all add: shown_def new_delivery_def core_def)
  have "t_first (\<lambda>_ d. delivery_key d = delivery_key ?new) (deliveries db) = None"
  proof (rule ccontr)
    assume "t_first (\<lambda>_ d. delivery_key d = delivery_key ?new) (deliveries db) \<noteq> None"
    then obtain i r where "t_first (\<lambda>_ d. delivery_key d = delivery_key ?new) (deliveries db) = Some (i, r)"
      by (metis not_Some_eq surj_pair)
    then have r: "t_get (deliveries db) i = Some r" "delivery_key r = delivery_key ?new"
      using t_first_Some_get [OF t] by blast+
    then have "shown bill_fam r" "nc_key (core r) = bill_key b"
      by (simp_all add: shown_def delivery_key_def new_delivery_def core_def)
    then show False using fresh [of i "core r"] r(1) by (auto simp: in_view)
  qed
  then have db1: "k = next_pk (deliveries db)" "deliveries db1 = t_insert ?new (deliveries db)"
    using h(1) by (auto simp: get_or_create_delivery_def split: if_splits)
  have v2: "view bill_fam (deliveries db2) = insert (k, core ?new) (view bill_fam (deliveries db))"
    using h(3) db1 new(1) by (simp add: view_insert [OF t])
  let ?c = "core ?new \<lparr> nc_status := NAvailable \<rparr>"
  have fresh_k: "(k, c) \<notin> view bill_fam (deliveries db)" for c
    using db1(1) t_get_fresh [OF t, of k] by (simp add: in_view)
  have "(i, c) \<in> view bill_fam (deliveries db') \<longleftrightarrow> (i, c) \<in> insert (k, ?c) (view bill_fam (deliveries db))" for i c
  proof -
    have "(i, c) \<in> view bill_fam (deliveries db') \<longleftrightarrow> (\<exists>r. t_get (deliveries db2) i = Some r \<and> shown bill_fam r
        \<and> c = (if bill_notice b r then core r \<lparr> nc_status := NAvailable \<rparr> else core r))"
    proof (cases "t_get (deliveries db2) i")
      case (Some r)
      then show ?thesis by (cases "bill_notice b r") (auto simp: h(5) in_view t_get_update_all shown_def core_def)
    qed (simp add: h(5) in_view t_get_update_all)
    also have "\<dots> \<longleftrightarrow> (\<exists>d. (i, d) \<in> view bill_fam (deliveries db2)
        \<and> c = (if nc_key d = bill_key b then d \<lparr> nc_status := NAvailable \<rparr> else d))"
      using bill_notice_core by (auto simp: in_view)
    also have "\<dots> \<longleftrightarrow> (i, c) \<in> insert (k, ?c) (view bill_fam (deliveries db))"
      using fresh fresh_k new(2) by (auto simp: v2)
    finally show ?thesis .
  qed
  then have "view bill_fam (deliveries db') = insert (k, ?c) (view bill_fam (deliveries db))"
    by (intro equalityI subrelI) blast+
  then show ?thesis using new by (intro exI [of _ k] exI [of _ ?c]) simp
qed

lemma queue_bill_announcements:
  assumes "queue_bill_notice env ne b bill db = Inr db'" "notices_ok db"
  shows "view announcement_fam (deliveries db') = view announcement_fam (deliveries db)"
proof -
  obtain db1 x db2 y where h: "queue_notification env ne db (bi_resident bill) (bill_key b)
      (bill_subject (bi_title bill) (bi_amount_vnd bill)) (bi_note bill) (Some [InApp]) EVENT_BILL_ISSUED (Some (bi_building bill)) = (db1, x)"
      "queue_notification env ne db1 (bi_resident bill) (bill_push_key b) (bill_subject (bi_title bill) (bi_amount_vnd bill))
         (bi_note bill) (Some [PushChannel]) EVENT_BILL_ISSUED (Some (bi_building bill)) = (db2, y)"
      "db' = db2 \<lparr> deliveries := t_update_all (\<lambda>_. bill_notice b) (\<lambda>r. r \<lparr> nd_status := NAvailable \<rparr>) (deliveries db2) \<rparr>"
    using assms(1) by (auto simp: queue_bill_notice_def split: sum.splits prod.splits)
  have ok: "notices_ok db1" using queue_notification_okD [OF h(1) assms(2)] .
  have "view announcement_fam (deliveries db') = view announcement_fam (deliveries db2)"
    using fams_disjoint(2) by (auto simp: h(3) bill_notice_def shown_def intro!: view_update_all_same)
  then show ?thesis using view_queue [OF h(1) assms(2)] view_queue [OF h(2) ok] fams_disjoint(2) by simp
qed

lemma issue_bill_shown:
  assumes "issue_bill env ne db actor bl res title amount doc note period due = Inr (b, db')" "notices_ok db" "bills_shown db"
  shows "bills_shown db' \<and> t_get (bills db') b = Some (new_bill env actor bl res title amount doc note period due)
    \<and> announcements db' = announcements db \<and> view announcement_fam (deliveries db') = view announcement_fam (deliveries db)"
  using assms(1)
proof (rule issue_billE)
  fix m db1
  let ?bill = "new_bill env actor bl res title amount doc note period due"
  assume b: "b = next_pk (bills db)"
    and q: "queue_bill_notice env ne b ?bill (db \<lparr> bills := t_insert ?bill (bills db) \<rparr>) = Inr db1"
    and au: "record_audit env db1 actor (Some m) ''bill.issued'' ''Bill'' (nat_str b) ''accepted''
       [(''bill_id'', pint b), (''amount_vnd'', PyInt amount)] = Inr db'"
  have tb: "t_ok (bills db)" using assms(3) by (simp add: bills_shown_def)
  have ok1: "notices_ok (db \<lparr> bills := x \<rparr>)" for x using assms(2) by (simp add: notices_ok_bills)
  have old: "nc_key c \<noteq> bill_key b" if "(k, c) \<in> view bill_fam (deliveries db)" for k c
    using bills_shownD(1) [OF assms(3) that] t_get_fresh [OF tb, of b] b by (auto simp: bill_notice_of_def)
  obtain k c where v: "view bill_fam (deliveries db1) = insert (k, c) (view bill_fam (deliveries db))"
      "nc_key c = bill_key b" "nc_recipient c = bi_resident ?bill" "nc_building c = Some (bi_building ?bill)"
      "nc_status c = NAvailable"
    using queue_bill_view [OF q ok1] old by auto
  have parts: "bills db1 = t_insert ?bill (bills db)" "announcements db1 = announcements db"
    using bill_frame.queue_bill_part [OF q] ann_frame.queue_bill_part [OF q] by simp_all
  have res: "bi_resident ?bill = res" "bi_status ?bill = Issued" "bi_building ?bill = bl" by (simp_all add: new_bill_def)
  have "view announcement_fam (deliveries db1) = view announcement_fam (deliveries db)"
    using queue_bill_announcements [OF q ok1] by simp
  moreover have "bills_shown db1"
    unfolding bills_shown_def
  proof (intro conjI ballI allI impI)
    show "t_ok (bills db1)" using parts tb by simp
    show "case x of (k, c) \<Rightarrow> bill_notice_of db1 c" if x: "x \<in> view bill_fam (deliveries db1)" for x
      using x v bills_shownD(1) [OF assms(3)] parts tb res b
      by (fastforce simp: bill_notice_of_def t_get_insert dest: t_get_less [OF tb])
    show "has_bill_notice i (bi_resident x) (view bill_fam (deliveries db1))"
      if x: "t_get (bills db1) i = Some x" "bi_status x \<noteq> Void" for i x
      using x v bills_shownD(2) [OF assms(3), of i x] parts tb b
      by (auto simp: t_get_insert has_bill_notice_def split: if_splits)
  qed
  ultimately show ?thesis using record_audit_appends [OF au] parts b tb
    by (auto simp: t_get_insert intro: bills_shown_same)
qed

lemma confirm_payment_shown:
  assumes "confirm_payment env db b src actor ref = Inr (k, db')" "bills_shown db"
  shows "bills_shown db' \<and> announcements db' = announcements db \<and> deliveries db' = deliveries db"
  using assms(1)
proof (rule confirm_paymentE)
  fix bill
  let ?pay = "\<lambda>x. x \<lparr> bi_status := Paid, bi_payment_source := Some src, bi_paid_at := Some (now env), bi_paid_confirmed_by := Some actor \<rparr>"
  assume b: "t_get (bills db) b = Some bill" "bi_status bill = Issued"
    and au: "record_audit env (db \<lparr> bills := t_update b ?pay (bills db) \<rparr>) actor None ''bill.payment_recorded'' ''Bill''
       (nat_str b) ''accepted'' [(''bill_id'', pint b), (''source'', PyStr (payment_source_str src))] = Inr db'"
  have "bill_notice_of db' c" if "(i, c) \<in> view bill_fam (deliveries db)" for i c
    using bills_shownD(1) [OF assms(2) that] record_audit_appends [OF au] b
    by (auto simp: bill_notice_of_def t_get_update)
  moreover have "has_bill_notice i (bi_resident x) (view bill_fam (deliveries db))"
    if "t_get (bills db') i = Some x" "bi_status x \<noteq> Void" for i x
    using that record_audit_appends [OF au] b bills_shownD(2) [OF assms(2), of i]
    by (cases "i = b") (auto simp: t_get_update)
  ultimately show ?thesis using record_audit_appends [OF au] assms(2) by (auto simp: bills_shown_def)
qed (use assms(2) in auto)

lemma void_bill_shown:
  assumes "void_bill env db actor b reason = Inr (k, db')" "notices_ok db" "bills_shown db"
  shows "bills_shown db' \<and> announcements db' = announcements db
    \<and> view announcement_fam (deliveries db') = view announcement_fam (deliveries db)"
  using assms(1)
proof (rule void_billE)
  fix bill m why
  let ?void = "\<lambda>x. x \<lparr> bi_status := Void, bi_void_by := Some actor, bi_void_at := Some (now env), bi_void_reason := why \<rparr>"
  assume b: "t_get (bills db) b = Some bill"
    and au: "record_audit env (db \<lparr> bills := t_update b ?void (bills db), deliveries := t_delete (\<lambda>_. bill_notice b) (deliveries db) \<rparr>)
       actor (Some m) ''bill.voided'' ''Bill'' (nat_str b) ''accepted'' [(''bill_id'', pint b)] = Inr db'"
  note db' = record_audit_appends [OF au]
  have t: "t_ok (deliveries db)" using notices_t_ok [OF assms(2)] .
  have v: "(i, c) \<in> view bill_fam (deliveries db') \<longleftrightarrow> (i, c) \<in> view bill_fam (deliveries db) \<and> nc_key c \<noteq> bill_key b" for i c
    using bill_notice_core by (auto simp: db' view_delete [OF t] in_view)
  have "bill_notice_of db' c" if "(i, c) \<in> view bill_fam (deliveries db')" for i c
    using that v bills_shownD(1) [OF assms(3), of i c] by (auto simp: bill_notice_of_def db' t_get_update)
  moreover have "has_bill_notice i (bi_resident x) (view bill_fam (deliveries db'))"
    if x: "t_get (bills db') i = Some x" "bi_status x \<noteq> Void" for i x
  proof -
    have "i \<noteq> b" "t_get (bills db) i = Some x" using x b by (auto simp: db' t_get_update split: if_splits)
    then obtain j c where "(j, c) \<in> view bill_fam (deliveries db)" "nc_recipient c = bi_resident x" "nc_key c = bill_key i"
      using bills_shownD(2) [OF assms(3), of i x] x(2) by (auto simp: has_bill_notice_def)
    moreover from this \<open>i \<noteq> b\<close> have "(j, c) \<in> view bill_fam (deliveries db')" using v by simp
    ultimately show ?thesis unfolding has_bill_notice_def by blast
  qed
  moreover have "view announcement_fam (deliveries db') = view announcement_fam (deliveries db)"
    using view_delete_other [OF t, of "\<lambda>_. bill_notice b" announcement_fam] fams_disjoint(2)
    by (auto simp: db' bill_notice_def shown_def)
  ultimately show ?thesis using assms(3) by (auto simp: bills_shown_def db')
qed

section \<open>Any run\<close>

text \<open>
  The state of the notification services.  The events of the other services carry keys of their own: no hook queues
  under the codes of announcements or bills.
\<close>

definition notice_site_ok :: "'z bdb \<Rightarrow> bool" where
  "notice_site_ok db \<longleftrightarrow> notices_ok db \<and> announcements_shown db \<and> bills_shown db"

fun own_keys :: "env \<times> notify_env \<times> notice_op \<Rightarrow> bool" where
  "own_keys (env, ne, Notify us key subject body c bl) = (event_code_from_key key \<notin> {EVENT_ANNOUNCEMENT, EVENT_BILL_ISSUED})"
| "own_keys (env, ne, Queue u key subject body chs c bl) = (event_code_from_key key \<notin> {EVENT_ANNOUNCEMENT, EVENT_BILL_ISSUED})"
| "own_keys (env, ne, op) = True"

definition guarded_exec :: "env \<times> notify_env \<times> notice_op \<Rightarrow> 'z bdb \<Rightarrow> 'z bdb" where
  "guarded_exec c db = (if own_keys c then notice_exec c db else db)"

lemma notice_site_same:
  assumes "notices_ok db'" "view announcement_fam (deliveries db') = view announcement_fam (deliveries db)"
    "announcements db' = announcements db" "view bill_fam (deliveries db') = view bill_fam (deliveries db)" "bills db' = bills db"
    "notice_site_ok db"
  shows "notice_site_ok db'"
  using assms announcements_shown_same bills_shown_same unfolding notice_site_ok_def by blast

text \<open>Announcements do not touch bills.\<close>

lemma each_announcement_bills:
  assumes "each_recipient (queue_announcement env ne a row act) us db = Inr db2" "notices_ok db"
  shows "view bill_fam (deliveries db2) = view bill_fam (deliveries db) \<and> bills db2 = bills db"
proof
  show "view bill_fam (deliveries db2) = view bill_fam (deliveries db)"
    by (rule each_recipient_view [OF _ assms])
       (auto simp: queue_announcement_ok queue_announcement_other_view fams_disjoint)
  show "bills db2 = bills db" using bill_frame.each_recipient_part [OF bill_frame.queue_announcement_part(2) assms(1)] .
qed

lemma audit_announcement_bills: "audit_announcement env actor m act a row db = Inr (k, db') \<Longrightarrow> bills db' = bills db"
  by (auto simp: audit_announcement_def split: sum.splits dest!: record_audit_appends)

lemma announcement_update_bills:
  assumes "\<And>r. nd_channel (f r) = nd_channel r \<and> nd_event_key (f r) = nd_event_key r"
  shows "view bill_fam (t_update_all (\<lambda>_. announcement_notice bl a) f t) = view bill_fam t"
  using fams_disjoint(1) assms by (auto simp: announcement_notice_def shown_def intro!: view_update_all_same)

lemma publish_bills:
  assumes "publish_announcement env ne db actor bl title body = Inr (a, db')" "notices_ok db"
  shows "view bill_fam (deliveries db') = view bill_fam (deliveries db) \<and> bills db' = bills db"
  using assms(1)
proof (rule publish_announcementE)
  fix m db2
  let ?row = "new_announcement env actor bl title body"
  assume h: "each_recipient (queue_announcement env ne a ?row ''published'') (active_residents db bl)
       (db \<lparr> announcements := t_insert ?row (announcements db) \<rparr>) = Inr db2"
    and au: "audit_announcement env actor m ''announcement.published'' a ?row
       (db2 \<lparr> deliveries := t_update_all (\<lambda>_. announcement_notice bl a) (\<lambda>r. r \<lparr> nd_status := NAvailable \<rparr>)
          (deliveries db2) \<rparr>) = Inr (a, db')"
  show ?thesis using each_announcement_bills [OF h] assms(2) audit_announcementD [OF au] audit_announcement_bills [OF au]
    by (simp add: notices_ok_frame announcement_update_bills)
qed

lemma edit_bills:
  assumes "edit_announcement env ne db actor a n title body = Inr (k', db')" "notices_ok db"
  shows "view bill_fam (deliveries db') = view bill_fam (deliveries db) \<and> bills db' = bills db"
  using assms(1)
proof (rule edit_announcementE)
  fix old m db2
  let ?row = "edited env actor title body old"
  assume h: "each_recipient (queue_announcement env ne a ?row ''updated'') (active_residents db (an_building old))
       (db \<lparr> announcements := t_update a (\<lambda>_. ?row) (announcements db) \<rparr>) = Inr db2"
    and au: "audit_announcement env actor m ''announcement.updated'' a ?row
       (db2 \<lparr> deliveries := t_update_all (\<lambda>_. announcement_notice (an_building old) a)
          (\<lambda>r. r \<lparr> nd_subject := title, nd_body := body, nd_read_at := None, nd_status := NAvailable \<rparr>)
          (deliveries db2) \<rparr>) = Inr (a, db')"
  show ?thesis using each_announcement_bills [OF h] assms(2) audit_announcementD [OF au] audit_announcement_bills [OF au]
    by (simp add: notices_ok_frame announcement_update_bills)
qed

lemma withdraw_bills:
  assumes "withdraw_announcement env ne db actor a n = Inr (k', db')" "notices_ok db"
  shows "view bill_fam (deliveries db') = view bill_fam (deliveries db) \<and> bills db' = bills db"
  using assms(1)
proof (rule withdraw_announcementE)
  fix old m db2
  let ?db1 = "db \<lparr> announcements := t_update a (\<lambda>_. withdrawn env actor old) (announcements db),
             deliveries := t_delete (\<lambda>_. announcement_notice (an_building old) a) (deliveries db) \<rparr>"
  assume h: "each_recipient (queue_announcement_push env ne a (withdrawn env actor old) ''withdrawn'')
       (active_residents db (an_building old)) ?db1 = Inr db2"
    and au: "audit_announcement env actor m ''announcement.withdrawn'' a (withdrawn env actor old) db2 = Inr (a, db')"
  have ok1: "notices_ok ?db1" using assms(2) by (simp add: notices_ok_def deliveries_ok_delete)
  have "view bill_fam (deliveries db2) = view bill_fam (deliveries ?db1)"
    by (rule each_recipient_view [OF _ h ok1]) (auto simp: queue_announcement_push_ok queue_announcement_push_view)
  moreover have "view bill_fam (deliveries ?db1) = view bill_fam (deliveries db)"
    using view_delete_other [OF notices_t_ok [OF assms(2)], of "\<lambda>_. announcement_notice (an_building old) a" bill_fam] fams_disjoint(1)
    by (auto simp: announcement_notice_def shown_def)
  moreover have "bills db2 = bills db"
    using bill_frame.each_recipient_part [OF bill_frame.queue_announcement_part(1) h] by simp
  ultimately show ?thesis using audit_announcementD [OF au] audit_announcement_bills [OF au] by simp
qed

lemma announcement_site:
  assumes "notice_site_ok db" "notices_ok db'" "announcements_shown db'"
    "view bill_fam (deliveries db') = view bill_fam (deliveries db) \<and> bills db' = bills db"
  shows "notice_site_ok db'"
  using assms bills_shown_same [of db' db] by (simp add: notice_site_ok_def)

lemma publish_site:
  assumes "publish_announcement env ne db u bl title body = Inr (k, db')" "notice_site_ok db"
  shows "notice_site_ok db'"
  using assms(2) publish_announcement_ok [OF assms(1)] publish_shown [OF assms(1)] publish_bills [OF assms(1)]
  by (intro announcement_site [OF assms(2)]) (auto simp: notice_site_ok_def)

lemma edit_site:
  assumes "edit_announcement env ne db u a n title body = Inr (k, db')" "notice_site_ok db"
  shows "notice_site_ok db'"
  using assms(2) edit_announcement_ok [OF assms(1)] edit_shown [OF assms(1)] edit_bills [OF assms(1)]
  by (intro announcement_site [OF assms(2)]) (auto simp: notice_site_ok_def)

lemma withdraw_site:
  assumes "withdraw_announcement env ne db u a n = Inr (k, db')" "notice_site_ok db"
  shows "notice_site_ok db'"
  using assms(2) withdraw_announcement_ok [OF assms(1)] withdraw_shown [OF assms(1)] withdraw_bills [OF assms(1)]
  by (intro announcement_site [OF assms(2)]) (auto simp: notice_site_ok_def)

lemma billing_site:
  assumes "notice_site_ok db" "notices_ok db'" "bills_shown db' \<and> announcements db' = announcements db
    \<and> view announcement_fam (deliveries db') = view announcement_fam (deliveries db)"
  shows "notice_site_ok db'"
  using assms announcements_shown_same [of db' db] by (simp add: notice_site_ok_def)

lemma issue_site:
  assumes "issue_bill env ne db u bl res title amount doc note period due = Inr (k, db')" "notice_site_ok db"
  shows "notice_site_ok db'"
  using assms(2) issue_bill_ok [OF assms(1)] issue_bill_shown [OF assms(1)]
  by (intro billing_site [OF assms(2)]) (auto simp: notice_site_ok_def)

lemma confirm_site:
  assumes "confirm_payment env db b src u ref = Inr (k, db')" "notice_site_ok db"
  shows "notice_site_ok db'"
  using assms(2) confirm_payment_ok [OF assms(1)] confirm_payment_shown [OF assms(1)]
  by (intro billing_site [OF assms(2)]) (auto simp: notice_site_ok_def)

lemma void_site:
  assumes "void_bill env db u b reason = Inr (k, db')" "notice_site_ok db"
  shows "notice_site_ok db'"
  using assms(2) void_bill_ok [OF assms(1)] void_bill_shown [OF assms(1)]
  by (intro billing_site [OF assms(2)]) (auto simp: notice_site_ok_def)

lemmas site_steps = publish_site edit_site withdraw_site issue_site confirm_site void_site

lemma guarded_exec_ok:
  assumes "notice_site_ok db"
  shows "notice_site_ok (guarded_exec c db)"
proof (cases "own_keys c")
  case True
  obtain env ne op where c: "c = (env, ne, op)" by (cases c)
  note ok = assms [unfolded notice_site_ok_def]
  have ok': "notices_ok (notice_exec c db)" using ok notice_exec_ok by blast
  have av: "all_available (view announcement_fam (deliveries db))" "all_available (view bill_fam (deliveries db))"
    using ok announcements_shown_available bills_shown_available by auto
  have "notice_site_ok (notice_exec c db)"
  proof (cases op)
    case (Notify us key subject body cd bl)
    then have "\<not> announcement_fam key" "\<not> bill_fam key" using True c fam_code [of key] by auto
    then show ?thesis using ok ok' c Notify
      by (intro notice_site_same [OF ok' _ _ _ _ assms])
         (simp_all add: notify_users_def view_notify_unseen ann_frame.notify_unseen_part bill_frame.notify_unseen_part)
  next
    case (Queue u key subject body chs cd bl)
    then have "\<not> announcement_fam key" "\<not> bill_fam key" using True c fam_code [of key] by auto
    then show ?thesis using ok ok' c Queue
      by (intro notice_site_same [OF ok' _ _ _ _ assms])
         (simp_all add: view_queue_any ann_frame.queue_notification_part bill_frame.queue_notification_part)
  next
    case (Deliver k)
    then show ?thesis using c av
      by (intro notice_site_same [OF ok' _ _ _ _ assms])
         (simp_all add: view_process_delivery ann_frame.process_delivery_part bill_frame.process_delivery_part)
  next
    case (DeliverDue n)
    then show ?thesis using c av
      by (intro notice_site_same [OF ok' _ _ _ _ assms])
         (simp_all add: view_process_due ann_frame.process_due_part bill_frame.process_due_part)
  next
    case (MarkRead u k)
    then show ?thesis using c
      by (intro notice_site_same [OF ok' _ _ _ _ assms])
         (simp_all add: view_mark_read ann_frame.mark_read_part bill_frame.mark_read_part)
  next
    case (Register u i tok pf av)
    obtain k db' where r: "register_device env db u i tok pf av = Inr (k, db')" using register_device_upsert ok by blast
    then show ?thesis using c Register ok'
      by (intro notice_site_same [OF ok' _ _ _ _ assms])
         (simp_all add: keep_def register_device_deliveries [OF r] ann_frame.register_device_part [OF r]
           bill_frame.register_device_part [OF r])
  next
    case (DropDevice u i)
    then show ?thesis using c
      by (intro notice_site_same [OF ok' _ _ _ _ assms]) (simp_all add: deactivate_device_def deactivate_where_def)
  next
    case (DropUserDevices u)
    then show ?thesis using c
      by (intro notice_site_same [OF ok' _ _ _ _ assms]) (simp_all add: deactivate_user_devices_def deactivate_where_def)
  next
    case (DropStale n)
    then show ?thesis using c
      by (intro notice_site_same [OF ok' _ _ _ _ assms]) (simp_all add: deactivate_stale_devices_def deactivate_where_def)
  qed (use c assms site_steps in \<open>auto intro!: keep_ok [where P = notice_site_ok]\<close>)
  then show ?thesis using True by (simp add: guarded_exec_def)
qed (simp add: guarded_exec_def assms)

interpretation notice_site: service_machine guarded_exec notice_site_ok
  by unfold_locales (rule guarded_exec_ok)

end
