(* ===== verification/Delivery.thy ===== *)
theory Delivery
  imports Bill_Views Samples
begin

text \<open>
  The properties of the notification services: delivery at most once, bounded retries, a queue that drains,
  idempotent queueing, exclusive push tokens, and the feeds of announcements and bills.
\<close>

section \<open>Retries\<close>

text \<open>The attempts a delivery has left.\<close>

definition left :: "'z ndb \<Rightarrow> pk \<Rightarrow> nat" where
  "left db k = (case t_get (deliveries db) k of
     None \<Rightarrow> 0 | Some r \<Rightarrow> if live r then budget (nd_channel r) - nd_attempts r else 0)"

lemma claimable_live: "claimable_delivery t r \<Longrightarrow> live r"
  by (auto simp: claimable_delivery_def live_def split: option.splits)

lemma put_other: "i \<noteq> k \<Longrightarrow> t_get (deliveries (put_delivery k r db)) i = t_get (deliveries db) i"
  by (simp add: put_delivery_def t_get_update)

lemma put_own: "t_get (deliveries db) k \<noteq> None \<Longrightarrow> t_get (deliveries (put_delivery k r db)) k = Some r"
  by (auto simp: put_delivery_def t_get_update)

lemma push_devices_deliveries: "push_devices send k devs p db = (p', db1) \<Longrightarrow> deliveries db1 = deliveries db"
  using push_devices_frame by blast

lemma process_push_row:
  assumes "t_get (deliveries db) k = Some r"
  shows "\<exists>r'. t_get (deliveries (process_push_delivery env ne db k r)) k = Some r' \<and>
      ((\<exists>why. r' = suppress_push env why r) \<or> (\<exists>p. r' = push_outcome env p r))"
  unfolding process_push_delivery_def Let_def
  using assms by (auto simp: put_own push_devices_deliveries split: prod.splits)

lemma process_push_other:
  "i \<noteq> k \<Longrightarrow> t_get (deliveries (process_push_delivery env ne db k r)) i = t_get (deliveries db) i"
  unfolding process_push_delivery_def Let_def by (auto simp: put_other push_devices_deliveries split: prod.splits)

lemma process_email_other:
  "i \<noteq> k \<Longrightarrow> t_get (deliveries (process_email_delivery env ne db k r)) i = t_get (deliveries db) i"
  by (simp add: process_email_delivery_def put_delivery_def t_get_update Let_def split: option.splits)

lemma process_other: "i \<noteq> k \<Longrightarrow> t_get (deliveries (process_delivery env ne db k)) i = t_get (deliveries db) i"
  by (simp add: process_delivery_def put_other process_push_other process_email_other split: option.splits channel.splits)

text \<open>A delivery of a live row uses up an attempt, and leaves nothing to claim at the same instant.\<close>

lemma backoff_pos: "0 < backoff n"
  by (simp add: backoff_def BASE_BACKOFF_SECONDS_def seconds_def)

lemma process_live:
  assumes "notices_ok db" "t_get (deliveries db) k = Some r" "live r"
  shows "left (process_delivery env ne db k) k < left db k"
    and "\<exists>r'. t_get (deliveries (process_delivery env ne db k)) k = Some r' \<and> \<not> claimable_delivery (now env) r'"
proof -
  have bud: "nd_attempts r < budget (nd_channel r)" using notices_ok_row [OF assms(1,2)] assms(3) by (simp add: delivery_ok_def)
  have st: "nd_status r \<notin> {NSent, NAvailable, NDead}" using assms(3) by (auto simp: live_def)
  have "\<exists>r'. t_get (deliveries (process_delivery env ne db k)) k = Some r' \<and> \<not> claimable_delivery (now env) r'
      \<and> (live r' \<longrightarrow> nd_attempts r' = Suc (nd_attempts r) \<and> nd_channel r' = nd_channel r)"
  proof (cases "nd_channel r")
    case InApp
    then show ?thesis using assms(2) st
      by (auto simp: process_delivery_def put_own claimable_delivery_def live_def)
  next
    case Email
    then show ?thesis using assms(2) st backoff_pos
      by (auto simp: process_delivery_def process_email_delivery_def put_delivery_def t_get_update Let_def claimable_delivery_def
          live_def not_le split: option.splits)
  next
    case PushChannel
    have "\<not> claimable_delivery (now env) (suppress_push env why r) \<and> \<not> live (suppress_push env why r)" for why
      by (simp add: claimable_delivery_def suppress_push_def live_def)
    moreover have "\<not> claimable_delivery (now env) (push_outcome env p r)
        \<and> (live (push_outcome env p r) \<longrightarrow> nd_attempts (push_outcome env p r) = Suc (nd_attempts r))" for p
      using backoff_pos by (auto simp: claimable_delivery_def push_outcome_def live_def Let_def not_le)
    ultimately show ?thesis using process_push_row [OF assms(2), of env ne] assms(2) st PushChannel
      by (fastforce simp: process_delivery_def)
  qed
  then show "left (process_delivery env ne db k) k < left db k"
    and "\<exists>r'. t_get (deliveries (process_delivery env ne db k)) k = Some r' \<and> \<not> claimable_delivery (now env) r'"
    using bud assms(2,3) by (auto simp: left_def)
qed

lemma left_row: "t_get (deliveries db') k = t_get (deliveries db) k \<Longrightarrow> left db' k = left db k"
  by (simp add: left_def)

text \<open>One worker cycle over distinct live rows.\<close>

lemma process_batch:
  assumes "distinct ks" "notices_ok db" "\<And>i. i \<in> set ks \<Longrightarrow> \<exists>r. t_get (deliveries db) i = Some r \<and> live r"
  shows "if k \<in> set ks
    then left (fold (\<lambda>k db. process_delivery env ne db k) ks db) k < left db k \<and>
      (\<exists>r'. t_get (deliveries (fold (\<lambda>k db. process_delivery env ne db k) ks db)) k = Some r' \<and> \<not> claimable_delivery (now env) r')
    else t_get (deliveries (fold (\<lambda>k db. process_delivery env ne db k) ks db)) k = t_get (deliveries db) k"
  using assms
proof (induction ks arbitrary: db)
  case (Cons a ks)
  let ?db1 = "process_delivery env ne db a"
  obtain r where r: "t_get (deliveries db) a = Some r" "live r" using Cons.prems(3) [of a] by auto
  have rows: "t_get (deliveries ?db1) i = t_get (deliveries db) i" if "i \<noteq> a" for i using process_other [OF that] .
  have "\<exists>r. t_get (deliveries ?db1) i = Some r \<and> live r" if "i \<in> set ks" for i
  proof -
    have "i \<noteq> a" using Cons.prems(1) that by auto
    then show ?thesis using rows [of i] Cons.prems(3) [of i] that by simp
  qed
  note IH = Cons.IH [OF _ process_delivery_ok [OF Cons.prems(2)] this]
  show ?case
  proof (cases "k = a")
    case True
    then have "k \<notin> set ks" using Cons.prems(1) by auto
    then show ?thesis using IH Cons.prems(1) process_live [OF Cons.prems(2) r, of env ne] True by (simp add: left_def)
  next
    case False
    then show ?thesis using IH Cons.prems(1) rows [OF False] left_row [OF rows [OF False]] by (auto split: if_splits)
  qed
qed simp

lemma claimed_rows:
  assumes "notices_ok db"
  shows "distinct (claim_pending_deliveries env n db)"
    and "i \<in> set (claim_pending_deliveries env n db) \<Longrightarrow> \<exists>r. t_get (deliveries db) i = Some r \<and> claimable_delivery (now env) r"
proof -
  let ?due = "t_filter (\<lambda>_ r. claimable_delivery (now env) r) (deliveries db)"
  have t: "t_ok (deliveries db)" using notices_t_ok [OF assms] .
  have "distinct (map fst ?due)"
    using t by (auto simp: t_ok_def t_filter_def strict_sorted_iff distinct_map_filter)
  then have "distinct (map fst (sort_key (\<lambda>(_, r). nd_created_at r) ?due))" by (simp add: distinct_map)
  then have "distinct (take n (map fst (sort_key (\<lambda>(_, r). nd_created_at r) ?due)))" by (rule distinct_take)
  then show "distinct (claim_pending_deliveries env n db)" by (simp add: claim_pending_deliveries_def take_map)
  show "i \<in> set (claim_pending_deliveries env n db) \<Longrightarrow> \<exists>r. t_get (deliveries db) i = Some r \<and> claimable_delivery (now env) r"
    using in_filter_get [OF t] by (auto simp: claim_pending_deliveries_def dest!: in_set_takeD)
qed

lemma claimed_live: "notices_ok db \<Longrightarrow> i \<in> set (claim_pending_deliveries env n db) \<Longrightarrow> \<exists>r. t_get (deliveries db) i = Some r \<and> live r"
  using claimed_rows(2) claimable_live by blast

lemma no_pairs_nil: "(\<And>k r. (k, r) \<notin> set xs) \<Longrightarrow> xs = []"
  by (metis list.set_intros(1) neq_Nil_conv surj_pair)

lemma process_cycle:
  assumes "notices_ok db"
  shows "k \<in> set (claim_pending_deliveries env n db) \<Longrightarrow> left (fst (process_due_notifications env ne n db)) k < left db k"
    and "k \<in> set (claim_pending_deliveries env n db) \<Longrightarrow>
      \<exists>r'. t_get (deliveries (fst (process_due_notifications env ne n db))) k = Some r' \<and> \<not> claimable_delivery (now env) r'"
    and "k \<notin> set (claim_pending_deliveries env n db) \<Longrightarrow>
      t_get (deliveries (fst (process_due_notifications env ne n db))) k = t_get (deliveries db) k"
  using process_batch [where ks = "claim_pending_deliveries env n db" and k = k and env = env and ne = ne and db = db,
      OF claimed_rows(1) [OF assms] assms claimed_live [OF assms]]
  by (simp_all add: process_due_notifications_def Let_def)

text \<open>How often a delivery is claimed by a sequence of worker cycles, each with its own clock, providers and limit.\<close>

fun claims :: "(env \<times> notify_env \<times> nat) list \<Rightarrow> pk \<Rightarrow> 'z ndb \<Rightarrow> nat" where
  "claims [] k db = 0"
| "claims ((env, ne, n) # cycles) k db =
     (if k \<in> set (claim_pending_deliveries env n db) then 1 else 0)
       + claims cycles k (fst (process_due_notifications env ne n db))"

lemma claims_bound: "notices_ok db \<Longrightarrow> claims cycles k db \<le> left db k"
proof (induction cycles arbitrary: db)
  case (Cons c cycles)
  obtain env ne n where c: "c = (env, ne, n)" by (cases c)
  let ?db1 = "fst (process_due_notifications env ne n db)"
  have "if k \<in> set (claim_pending_deliveries env n db) then left ?db1 k < left db k else left ?db1 k = left db k"
    using process_cycle(1,3) [OF Cons.prems, of k env n ne] left_row by auto
  then show ?case using Cons.IH [OF process_due_ok [OF Cons.prems, of env ne n]] c by (auto split: if_splits)
qed simp

text \<open>
  C24.  The worker gives up on every delivery: whatever the mail and push providers answer, and however many cycles
  the worker runs, a delivery is claimed at most once in the app, at most 8 times by mail and at most 5 times by
  push.
\<close>

theorem delivery_gives_up:
  assumes "notices_ok db" "t_get (deliveries db) k = Some r"
  shows "claims cycles k db \<le> (case nd_channel r of InApp \<Rightarrow> 1 | Email \<Rightarrow> 8 | PushChannel \<Rightarrow> 5)"
  using claims_bound [OF assms(1), of cycles k] assms(2)
  by (auto simp: left_def attempt_limits split: channel.splits if_splits)

text \<open>
  The queue drains: a worker cycle whose limit covers the due deliveries leaves nothing that is due at that
  instant, whatever the providers answer; a failed send is retried later, never in the same cycle.
\<close>

theorem due_queue_drains:
  assumes "notices_ok db" "length (t_filter (\<lambda>_ r. claimable_delivery (now env) r) (deliveries db)) \<le> limit"
  shows "claim_pending_deliveries env n (fst (process_due_notifications env ne limit db)) = []"
proof -
  let ?ks = "claim_pending_deliveries env limit db" and ?db1 = "fst (process_due_notifications env ne limit db)"
  have t: "t_ok (deliveries db)" using notices_t_ok [OF assms(1)] .
  have all: "set ?ks = fst ` set (t_filter (\<lambda>_ r. claimable_delivery (now env) r) (deliveries db))"
    using assms(2) by (simp add: claim_pending_deliveries_def)
  have "\<not> claimable_delivery (now env) r" if r: "t_get (deliveries ?db1) k = Some r" for k r
  proof (cases "k \<in> set ?ks")
    case True
    then show ?thesis using process_cycle(2) [OF assms(1) True, of ne] r by auto
  next
    case False
    then have "t_get (deliveries db) k = Some r" using process_cycle(3) [OF assms(1) False, of ne] r by simp
    then have "claimable_delivery (now env) r \<Longrightarrow> k \<in> set ?ks" unfolding all
      using in_filter_get [OF t, of k r "\<lambda>_ r. claimable_delivery (now env) r"] by (metis fst_conv image_eqI)
    then show ?thesis using False by blast
  qed
  then have "(k, r) \<notin> set (t_filter (\<lambda>_ r. claimable_delivery (now env) r) (deliveries ?db1))" for k r
    using in_filter_get [OF notices_t_ok [OF process_due_ok [OF assms(1)]]] by auto
  then have "t_filter (\<lambda>_ r. claimable_delivery (now env) r) (deliveries ?db1) = []"
    by (rule no_pairs_nil)
  then show ?thesis by (simp add: claim_pending_deliveries_def)
qed

section \<open>Once\<close>

text \<open>
  C23.  Nothing is delivered twice: after any run of queueing, worker cycles, device changes, announcements and bills,
  two delivery rows never share recipient, event key and channel, no device was sent the same delivery twice, no
  delivery was mailed twice, and a mail is attempted at most 8 times.
\<close>

theorem notices_once:
  assumes "notices_ok db" "db' = fold notice_exec cs db"
  shows "(\<forall>i j a b. t_get (deliveries db') i = Some a \<longrightarrow> t_get (deliveries db') j = Some b \<longrightarrow>
            nd_recipient a = nd_recipient b \<longrightarrow> nd_event_key a = nd_event_key b \<longrightarrow> nd_channel a = nd_channel b \<longrightarrow> i = j)
    \<and> distinct (pushes db') \<and> distinct (map fst (mails db'))
    \<and> (\<forall>k r. t_get (deliveries db') k = Some r \<longrightarrow> nd_channel r = Email \<longrightarrow> nd_attempts r \<le> 8)"
proof -
  have ok: "notices_ok db'" using notices.run_inv [OF assms(1)] assms(2) by simp
  then have u: "unique_on (\<lambda>r. Some (delivery_key r)) (deliveries db')" by (simp add: notices_ok_def deliveries_ok_def)
  have "nd_attempts r \<le> 8" if "t_get (deliveries db') k = Some r" "nd_channel r = Email" for k r
    using notices_ok_row [OF ok that(1)] that(2) by (simp add: delivery_ok_def MAX_EMAIL_ATTEMPTS_def)
  then show ?thesis using ok unique_onD [OF u] by (auto simp: notices_ok_def deliveries_ok_def delivery_key_def)
qed

text \<open>Queueing as repeated \<open>get_or_create\<close>: the interface of an idempotent queue.\<close>

definition keeps_deliveries :: "'z ndb \<Rightarrow> 'z ndb \<Rightarrow> bool" where
  "keeps_deliveries db db' \<longleftrightarrow> (\<forall>k r. t_get (deliveries db) k = Some r \<longrightarrow> t_get (deliveries db') k = Some r)"

definition queue_ok :: "'z ndb \<Rightarrow> bool" where
  "queue_ok db \<longleftrightarrow> t_ok (deliveries db) \<and> unique_on (\<lambda>r. Some (delivery_key r)) (deliveries db)"

lemma get_or_create_found:
  assumes "queue_ok db" "t_get (deliveries db) k = Some r'" "delivery_key r' = delivery_key r"
  shows "get_or_create_delivery r db = Inr (k, db)"
proof -
  have t: "t_ok (deliveries db)" using assms(1) by (simp add: queue_ok_def)
  have "t_exists (\<lambda>_ d. delivery_key d = delivery_key r) (deliveries db)" using assms(2,3) by (auto simp: t_exists_iff [OF t])
  then obtain i x where ix: "t_first (\<lambda>_ d. delivery_key d = delivery_key r) (deliveries db) = Some (i, x)"
    by (auto simp: t_exists_first)
  then have "t_get (deliveries db) i = Some x" "delivery_key x = delivery_key r" using t_first_Some_get [OF t] by blast+
  then have "i = k" using unique_onD [of "\<lambda>r. Some (delivery_key r)" "deliveries db" i x k r'] assms by (simp add: queue_ok_def)
  then show ?thesis using ix by (simp add: get_or_create_delivery_def)
qed

lemma get_or_create_puts:
  assumes "queue_ok db" "get_or_create_delivery r db = Inr (k, db')"
  shows "queue_ok db' \<and> keeps_deliveries db db' \<and> (\<exists>r'. t_get (deliveries db') k = Some r' \<and> delivery_key r' = delivery_key r)"
proof (cases "t_first (\<lambda>_ d. delivery_key d = delivery_key r) (deliveries db)")
  case None
  have t: "t_ok (deliveries db)" using assms(1) by (simp add: queue_ok_def)
  have "k = next_pk (deliveries db)" "db' = db \<lparr> deliveries := t_insert r (deliveries db) \<rparr>"
    using assms(2) None by (auto simp: get_or_create_delivery_def split: if_splits)
  then show ?thesis using assms(1) None t t_get_fresh [OF t, of "next_pk (deliveries db)"]
    by (auto simp: queue_ok_def keeps_deliveries_def t_get_insert t_exists_first t_get_insert_old intro!: unique_on_insert)
next
  case (Some x)
  then show ?thesis using assms t_first_Some_get [of "deliveries db"]
    by (cases x) (auto simp: get_or_create_delivery_def queue_ok_def keeps_deliveries_def)
qed

interpretation notice_queue: keyed_queue get_or_create_delivery queue_ok keeps_deliveries
proof unfold_locales
  fix r :: delivery_row and s s' s'' :: "'z ndb" and k
  assume h: "queue_ok s" "get_or_create_delivery r s = Inr (k, s')" "queue_ok s''" "keeps_deliveries s' s''"
  obtain r' where "t_get (deliveries s') k = Some r'" "delivery_key r' = delivery_key r" using get_or_create_puts [OF h(1,2)] by blast
  then show "get_or_create_delivery r s'' = Inr (k, s'')" using get_or_create_found [OF h(3)] h(4) by (auto simp: keeps_deliveries_def)
qed (use get_or_create_puts in \<open>auto simp: keeps_deliveries_def\<close>)

lemma channel_admitted_same:
  "preferences db' = preferences db \<Longrightarrow> devices db' = devices db \<Longrightarrow> channel_admitted ne db' u c ch = channel_admitted ne db u c ch"
  by (simp add: channel_admitted_def email_enabled_for_def push_enabled_for_def preference_of_def split: channel.splits)

lemma get_or_create_frame: "get_or_create_delivery r db = Inr (k, db') \<Longrightarrow> preferences db' = preferences db \<and> devices db' = devices db"
  by (auto simp: get_or_create_delivery_def split: option.splits if_splits)

lemma queue_channels_puts:
  assumes "queue_channels env ne db u key s b chs c bl = (db', Inr ks)"
  shows "puts get_or_create_delivery
    (map (\<lambda>ch. new_delivery env u key s b ch c bl) (filter (channel_admitted ne db u (event_code_of c key)) chs)) db = Inr (ks, db')
    \<and> preferences db' = preferences db \<and> devices db' = devices db"
  using assms
proof (induction chs arbitrary: db ks)
  case (Cons ch chs)
  show ?case
  proof (cases "channel_admitted ne db u (event_code_of c key) ch")
    case True
    then obtain k db1 ks' where h: "get_or_create_delivery (new_delivery env u key s b ch c bl) db = Inr (k, db1)"
        "queue_channels env ne db1 u key s b chs c bl = (db', Inr ks')" "ks = k # ks'"
      using Cons.prems by (auto split: sum.splits prod.splits)
    note f = get_or_create_frame [OF h(1)]
    have "channel_admitted ne db1 u (event_code_of c key) = channel_admitted ne db u (event_code_of c key)"
      by (intro ext channel_admitted_same) (use f in simp_all)
    then show ?thesis using Cons.IH [OF h(2)] True h f by simp
  qed (use Cons in simp)
qed simp

text \<open>Two batches of rows with the same keys find the same rows.\<close>

lemma puts_same_keys:
  assumes "puts get_or_create_delivery rs db = Inr (ks, db)" "map delivery_key rs' = map delivery_key rs"
    "\<And>r. r \<in> set rs \<Longrightarrow> t_exists (\<lambda>_ d. delivery_key d = delivery_key r) (deliveries db)"
  shows "puts get_or_create_delivery rs' db = Inr (ks, db)"
  using assms
proof (induction rs arbitrary: rs' ks)
  case (Cons r rs)
  obtain r' rest where rs': "rs' = r' # rest" "delivery_key r' = delivery_key r" "map delivery_key rest = map delivery_key rs"
    using Cons.prems(2) by (cases rs') auto
  obtain k x where k: "t_first (\<lambda>_ d. delivery_key d = delivery_key r) (deliveries db) = Some (k, x)"
    using Cons.prems(3) [of r] by (auto simp: t_exists_first)
  then have both: "get_or_create_delivery r db = Inr (k, db)" "get_or_create_delivery r' db = Inr (k, db)"
    using rs'(2) by (simp_all add: get_or_create_delivery_def)
  then obtain ks' where "puts get_or_create_delivery rs db = Inr (ks', db)" "ks = k # ks'"
    using Cons.prems(1) by (auto split: sum.splits prod.splits)
  then show ?case using Cons.IH [OF _ rs'(3)] Cons.prems(3) both rs'(1) by simp
qed simp

lemma puts_queue_channels:
  assumes "puts get_or_create_delivery
    (map (\<lambda>ch. new_delivery env u key s b ch c bl) (filter (channel_admitted ne db u (event_code_of c key)) chs)) db = Inr (ks, db')"
  shows "queue_channels env ne db u key s b chs c bl = (db', Inr ks)"
  using assms
proof (induction chs arbitrary: db ks)
  case (Cons ch chs)
  show ?case
  proof (cases "channel_admitted ne db u (event_code_of c key) ch")
    case True
    then obtain k db1 ks' where h: "get_or_create_delivery (new_delivery env u key s b ch c bl) db = Inr (k, db1)"
        "puts get_or_create_delivery (map (\<lambda>ch. new_delivery env u key s b ch c bl)
           (filter (channel_admitted ne db u (event_code_of c key)) chs)) db1 = Inr (ks', db')" "ks = k # ks'"
      using Cons.prems by (auto split: sum.splits prod.splits)
    note f = get_or_create_frame [OF h(1)]
    have "channel_admitted ne db1 u (event_code_of c key) = channel_admitted ne db u (event_code_of c key)"
      by (intro ext channel_admitted_same) (use f in simp_all)
    then show ?thesis using Cons.IH [of db1 ks'] True h by simp
  qed (use Cons in simp)
qed simp

lemma puts_exist:
  assumes "queue_ok db" "puts get_or_create_delivery rs db = Inr (ks, db')" "r \<in> set rs"
  shows "t_exists (\<lambda>_ d. delivery_key d = delivery_key r) (deliveries db')"
  using assms
proof (induction rs arbitrary: db ks)
  case (Cons x rs)
  then obtain k db1 ks' where h: "get_or_create_delivery x db = Inr (k, db1)" "puts get_or_create_delivery rs db1 = Inr (ks', db')"
    by (auto split: sum.splits prod.splits)
  note p = get_or_create_puts [OF Cons.prems(1) h(1)]
  note q = notice_queue.puts_ok [OF conjunct1 [OF p] h(2)]
  show ?case
  proof (cases "r = x")
    case True
    then obtain r' where "t_get (deliveries db') k = Some r'" "delivery_key r' = delivery_key r" using p q by (auto simp: keeps_deliveries_def)
    then show ?thesis using q by (auto simp: queue_ok_def t_exists_iff)
  next
    case False then show ?thesis using Cons.IH [OF conjunct1 [OF p] h(2)] Cons.prems(3) by simp
  qed
qed simp

text \<open>
  Queueing is idempotent: queueing an event again, at any later time and even with another subject, body or
  building, returns the rows of the first call and writes nothing, so a hook that runs twice notifies once and does
  not change what was queued.
\<close>

theorem requeue_same_rows:
  assumes "notices_ok db" "queue_notification env ne db u key s b chs c bl = (db', Inr ks)"
  shows "queue_notification env2 ne db' u key s2 b2 chs c bl2 = (db', Inr ks)"
proof -
  let ?chs = "case chs of None \<Rightarrow> DEFAULT_CHANNELS | Some cs \<Rightarrow> cs"
  let ?adm = "filter (channel_admitted ne db u (event_code_of c key)) ?chs"
  let ?rows = "map (\<lambda>ch. new_delivery env u key s b ch c bl) ?adm"
  let ?again = "map (\<lambda>ch. new_delivery env2 u key s2 b2 ch c bl2) ?adm"
  have ok: "queue_ok db" using assms(1) by (simp add: notices_ok_def deliveries_ok_def queue_ok_def)
  have q: "puts get_or_create_delivery ?rows db = Inr (ks, db')" "preferences db' = preferences db" "devices db' = devices db"
    using queue_channels_puts [of env ne db u key s b ?chs c bl db' ks] assms(2) by (simp_all add: queue_notification_def)
  have adm: "channel_admitted ne db' u (event_code_of c key) = channel_admitted ne db u (event_code_of c key)"
    by (intro ext channel_admitted_same) (use q in simp_all)
  have "puts get_or_create_delivery ?rows db' = Inr (ks, db')" using notice_queue.replay [OF ok q(1)] .
  moreover have "map delivery_key ?again = map delivery_key ?rows" by (simp add: delivery_key_def new_delivery_def)
  ultimately have "puts get_or_create_delivery ?again db' = Inr (ks, db')"
    using puts_same_keys puts_exist [OF ok q(1)] by blast
  then show ?thesis unfolding queue_notification_def by (intro puts_queue_channels) (simp add: adm)
qed

section \<open>Devices\<close>

text \<open>
  A push token follows the phone: registering always succeeds, makes the caller's install the only active
  device with that token, and so the notifications of the previous holder no longer reach it.
\<close>

theorem register_device_exclusive:
  assumes "notices_ok db"
  shows "\<exists>k db' d. register_device env db u i tok pf av = Inr (k, db') \<and> t_get (devices db') k = Some d
    \<and> dev_user d = u \<and> dev_install_id d = i \<and> dev_fcm_token d = tok \<and> dev_active d
    \<and> (\<forall>j e. t_get (devices db') j = Some e \<longrightarrow> dev_active e \<longrightarrow> dev_fcm_token e = tok \<longrightarrow> j = k)"
proof -
  obtain k db' where h: "register_device env db u i tok pf av = Inr (k, db')" "notices_ok db'" "t_get (devices db') k =
    Some \<lparr> dev_user = u, dev_install_id = i, dev_fcm_token = tok, dev_platform = pf, dev_app_version = av,
      dev_active = True, dev_last_seen_at = now env \<rparr>"
    using register_device_upsert [OF assms, of env u i tok pf av] by blast
  have uq: "unique_on active_token (devices db')" using h(2) by (simp add: notices_ok_def devices_ok_def)
  have "j = k" if "t_get (devices db') j = Some e" "dev_active e" "dev_fcm_token e = tok" for j e
    by (rule unique_onD [OF uq that(1) h(3)]) (use that in \<open>simp_all add: active_token_def\<close>)
  then have only: "\<forall>j e. t_get (devices db') j = Some e \<longrightarrow> dev_active e \<longrightarrow> dev_fcm_token e = tok \<longrightarrow> j = k" by blast
  show ?thesis
  proof (intro exI conjI)
    show "register_device env db u i tok pf av = Inr (k, db')" by (rule h(1))
    show "t_get (devices db') k = Some \<lparr> dev_user = u, dev_install_id = i, dev_fcm_token = tok, dev_platform = pf,
        dev_app_version = av, dev_active = True, dev_last_seen_at = now env \<rparr>" by (rule h(3))
    show "\<forall>j e. t_get (devices db') j = Some e \<longrightarrow> dev_active e \<longrightarrow> dev_fcm_token e = tok \<longrightarrow> j = k" by (rule only)
  qed simp_all
qed

section \<open>Feeds\<close>

lemma guarded_run:
  assumes "\<forall>c \<in> set cs. own_keys c"
  shows "fold notice_exec cs db = fold guarded_exec cs db"
  using assms by (induction cs arbitrary: db) (auto simp: guarded_exec_def)

lemma site_run:
  assumes "notice_site_ok db" "\<forall>c \<in> set cs. own_keys c"
  shows "notice_site_ok (fold notice_exec cs db)"
  unfolding guarded_run [OF assms(2)] by (rule notice_site.run_inv [OF assms(1)])

lemma in_feed: "(k, r) \<in> set (resident_feed db u bl) \<longleftrightarrow> (k, r) \<in> set (table_rows (deliveries db)) \<and> nd_recipient r = u
    \<and> nd_channel r = InApp \<and> nd_status r = NAvailable \<and> (nd_building r = Some bl \<or> nd_building r = None)"
  by (auto simp: resident_feed_def t_filter_def)

text \<open>
  C25.  The bills in a resident's feed are exactly the bills that count: after any run of the services in which the
  other services use keys of their own, the bills with a notice in the feed of a resident for a building are the bills
  of that resident in that building that are not void.
\<close>

theorem bill_feed_exact:
  assumes "notice_site_ok db" "\<forall>c \<in> set cs. own_keys c" "db' = fold notice_exec cs db"
  shows "{b. \<exists>k r. (k, r) \<in> set (resident_feed db' u bl) \<and> nd_event_key r = bill_key b}
    = {b. \<exists>bill. t_get (bills db') b = Some bill \<and> bi_resident bill = u \<and> bi_building bill = bl \<and> bi_status bill \<noteq> Void}"
    (is "?L = ?R")
proof -
  have ok: "notices_ok db'" "bills_shown db'"
    using site_run [OF assms(1,2)] assms(3) by (auto simp: notice_site_ok_def)
  have rows: "(k, r) \<in> set (table_rows (deliveries db')) \<longleftrightarrow> t_get (deliveries db') k = Some r" for k r
    using in_rows_get [OF notices_t_ok [OF ok(1)]] .
  show ?thesis
  proof (intro equalityI subsetI)
    fix b assume "b \<in> ?L"
    then obtain k r where r: "t_get (deliveries db') k = Some r" "nd_recipient r = u" "nd_channel r = InApp"
        "nd_building r = Some bl \<or> nd_building r = None" "nd_event_key r = bill_key b" by (auto simp: in_feed rows)
    then have "(k, core r) \<in> view bill_fam (deliveries db')" by (auto simp: in_view shown_def)
    from bills_shownD(1) [OF ok(2) this] show "b \<in> ?R" using r by (auto simp: bill_notice_of_def core_def)
  next
    fix b assume "b \<in> ?R"
    then obtain bill where bill: "t_get (bills db') b = Some bill" "bi_resident bill = u" "bi_building bill = bl" "bi_status bill \<noteq> Void"
      by auto
    then obtain k r where r: "t_get (deliveries db') k = Some r" "shown bill_fam r" "nd_recipient r = u" "nd_event_key r = bill_key b"
      using bills_shownD(2) [OF ok(2) bill(1,4)] by (auto simp: has_bill_notice_def in_view core_def)
    then have "bill_notice_of db' (core r)" using bills_shownD(1) [OF ok(2), of k "core r"] by (auto simp: in_view)
    then have "nd_status r = NAvailable" "nd_building r = Some bl" using r(4) bill by (auto simp: bill_notice_of_def core_def)
    then show "b \<in> ?L" using r by (auto simp: in_feed rows shown_def)
  qed
qed

text \<open>
  An announcement reaches the residents and then follows its edits: publishing puts a notice with the title and
  the text into the feed of every active resident of the building; and after any later run, an announcement in any
  feed is published and shown with its present title and text, so that a withdrawn announcement is in no feed.
\<close>

theorem announcement_feed:
  assumes "notice_site_ok db" "publish_announcement env ne db actor bl title body = Inr (a, db1)"
    "\<forall>c \<in> set cs. own_keys c" "db' = fold notice_exec cs db1"
  shows "(\<forall>u \<in> set (active_residents db bl). \<exists>k r. (k, r) \<in> set (resident_feed db1 u bl)
      \<and> nd_event_key r = announcement_key a \<and> nd_subject r = title \<and> nd_body r = body)
    \<and> (\<forall>u b k r x. (k, r) \<in> set (resident_feed db' u b) \<longrightarrow> nd_event_key r = announcement_key x \<longrightarrow>
        (\<exists>row. t_get (announcements db') x = Some row \<and> an_state row = Published
          \<and> nd_subject r = an_title row \<and> nd_body r = an_body row \<and> an_building row = b))"
proof -
  have ok1: "notice_site_ok db1" using publish_site [OF assms(2,1)] .
  have ok': "notice_site_ok db'" using site_run [OF ok1 assms(3)] assms(4) by simp
  have pub: "t_get (announcements db1) a = Some (new_announcement env actor bl title body)"
      "\<forall>u \<in> set (active_residents db bl). has_notice a u (view announcement_fam (deliveries db1))"
    using publish_shown [OF assms(2)] assms(1) by (auto simp: notice_site_ok_def)
  have shown_core: "notice_of d (core r)"
    if "notice_site_ok d" "t_get (deliveries d) k = Some r" "shown announcement_fam r" for d :: "'a bdb" and k r
    using that announcements_shownD [of d k "core r"] by (auto simp: notice_site_ok_def in_view)
  have rows: "(k, r) \<in> set (table_rows (deliveries d)) \<longleftrightarrow> t_get (deliveries d) k = Some r"
    if "notice_site_ok d" for d :: "'a bdb" and k r
    using in_rows_get [OF notices_t_ok] that by (auto simp: notice_site_ok_def)
  have "\<exists>k r. (k, r) \<in> set (resident_feed db1 u bl) \<and> nd_event_key r = announcement_key a \<and> nd_subject r = title \<and> nd_body r = body"
    if u: "u \<in> set (active_residents db bl)" for u
  proof -
    obtain k r where r: "t_get (deliveries db1) k = Some r" "shown announcement_fam r" "nd_recipient r = u" "nd_event_key r = announcement_key a"
      using pub(2) u by (auto simp: has_notice_def in_view core_def)
    then have "nd_status r = NAvailable" "nd_building r = Some bl" "nd_subject r = title" "nd_body r = body"
      using shown_core [OF ok1 r(1,2)] pub(1) by (auto simp: notice_of_def core_def new_announcement_def)
    then show ?thesis using r rows [OF ok1] by (auto simp: in_feed shown_def)
  qed
  moreover have "\<exists>row. t_get (announcements db') x = Some row \<and> an_state row = Published
          \<and> nd_subject r = an_title row \<and> nd_body r = an_body row \<and> an_building row = b"
    if "(k, r) \<in> set (resident_feed db' u b)" "nd_event_key r = announcement_key x" for u b k r x
    using that rows [OF ok'] shown_core [OF ok', of k r] by (auto simp: in_feed shown_def notice_of_def core_def)
  ultimately show ?thesis by blast
qed

section \<open>The life of a bill\<close>

lemma each_recipient_bills:
  "each_recipient (queue_announcement env ne a row act) us db = Inr db2 \<Longrightarrow> bills db2 = bills db"
  "each_recipient (queue_announcement_push env ne a row act) us db = Inr db2 \<Longrightarrow> bills db2 = bills db"
  using bill_frame.each_recipient_part bill_frame.queue_announcement_part by blast+

lemma bills_of_announcements:
  "publish_announcement env ne db u bl title body = Inr (a, db') \<Longrightarrow> bills db' = bills db"
  "edit_announcement env ne db u k n title body = Inr (a, db') \<Longrightarrow> bills db' = bills db"
  "withdraw_announcement env ne db u k n = Inr (a, db') \<Longrightarrow> bills db' = bills db"
  by (auto elim!: publish_announcementE edit_announcementE withdraw_announcementE
      dest!: each_recipient_bills audit_announcement_bills)

lemma bills_of_issue:
  "issue_bill env ne db u bl res title amount doc note period due = Inr (b, db') \<Longrightarrow>
   bills db' = t_insert (new_bill env u bl res title amount doc note period due) (bills db)"
  by (elim issue_billE) (auto dest!: record_audit_appends bill_frame.queue_bill_part)

text \<open>A step on the bills: none, a new bill, or a change of an issued one that keeps what is due and from whom.\<close>

inductive bill_step :: "bill_row table \<Rightarrow> bill_row table \<Rightarrow> bool" where
  same: "bill_step t t"
| issue: "bill_step t (t_insert x t)"
| settle: "t_get t i = Some y \<Longrightarrow> bi_status y = Issued \<Longrightarrow>
    (\<And>z. bi_amount_vnd (f z) = bi_amount_vnd z \<and> bi_resident (f z) = bi_resident z) \<Longrightarrow> bill_step t (t_update i f t)"

inductive_cases bill_stepE: "bill_step t t'"

lemma bill_step_row:
  assumes "bill_step t t'" "t_ok t" "t_get t b = Some bill"
  shows "t_ok t' \<and> (\<exists>bill'. t_get t' b = Some bill' \<and> bi_amount_vnd bill' = bi_amount_vnd bill
    \<and> bi_resident bill' = bi_resident bill \<and> (bi_status bill \<noteq> Issued \<longrightarrow> bill' = bill))"
  using assms by cases (auto simp: t_get_update t_get_insert_old)

lemma confirm_bill_step: "confirm_payment env db b src u ref = Inr (k, db') \<Longrightarrow> bill_step (bills db) (bills db')"
  by (erule confirm_paymentE) (auto dest!: record_audit_appends simp: bill_step.same intro!: bill_step.settle)

lemma void_bill_step: "void_bill env db u b reason = Inr (k, db') \<Longrightarrow> bill_step (bills db) (bills db')"
  by (erule void_billE) (auto dest!: record_audit_appends intro!: bill_step.settle)

lemma notice_exec_bills: "bill_step (bills db) (bills (notice_exec c db))"
proof -
  obtain env ne op where c: "c = (env, ne, op)" by (cases c)
  have same: "bill_step (bills db) (bills db')" if "bills db' = bills db" for db' :: "'a bdb"
    using that by (simp add: bill_step.same)
  have kept: "bill_step (bills db) (bills (keep db r))"
    if "\<And>a db'. r = Inr (a, db') \<Longrightarrow> bill_step (bills db) (bills db')" for r :: "('b \<times> 'a bdb) result"
    by (rule keep_ok [of r "\<lambda>d. bill_step (bills db) (bills d)"]) (use that in \<open>auto intro: bill_step.same\<close>)
  show ?thesis unfolding c
  proof (cases op)
    case (Register u i tok pf av)
    then show "bill_step (bills db) (bills (notice_exec (env, ne, op) db))"
      using kept [of "register_device env db u i tok pf av"] same bill_frame.register_device_part by fastforce
  next
    case (IssueBill u bl res title amount doc nt period due)
    then show "bill_step (bills db) (bills (notice_exec (env, ne, op) db))"
      by (auto intro!: kept dest!: bills_of_issue intro: bill_step.issue)
  next
    case (ConfirmPayment b src u ref)
    then show "bill_step (bills db) (bills (notice_exec (env, ne, op) db))" using kept confirm_bill_step by fastforce
  next
    case (VoidBill u b reason)
    then show "bill_step (bills db) (bills (notice_exec (env, ne, op) db))" using kept void_bill_step by fastforce
  next
    case (Announce u bl title body)
    then show "bill_step (bills db) (bills (notice_exec (env, ne, op) db))"
      using kept [of "publish_announcement env ne db u bl title body"] same bills_of_announcements by fastforce
  next
    case (EditNotice u a n title body)
    then show "bill_step (bills db) (bills (notice_exec (env, ne, op) db))"
      using kept [of "edit_announcement env ne db u a n title body"] same bills_of_announcements by fastforce
  next
    case (WithdrawNotice u a n)
    then show "bill_step (bills db) (bills (notice_exec (env, ne, op) db))"
      using kept [of "withdraw_announcement env ne db u a n"] same bills_of_announcements by fastforce
  qed (auto intro!: same simp: notify_users_def bill_frame.notify_unseen_part bill_frame.queue_notification_part
      bill_frame.process_delivery_part bill_frame.process_due_part bill_frame.mark_read_part bill_frame.deactivate_part
      deactivate_device_def deactivate_user_devices_def deactivate_stale_devices_def)
qed

lemma run_bills:
  assumes "t_ok (bills db)" "t_get (bills db) b = Some bill"
  shows "\<exists>bill'. t_get (bills (fold notice_exec cs db)) b = Some bill' \<and> bi_amount_vnd bill' = bi_amount_vnd bill
    \<and> bi_resident bill' = bi_resident bill \<and> (bi_status bill \<noteq> Issued \<longrightarrow> bill' = bill)"
  using assms
proof (induction cs arbitrary: db bill)
  case (Cons c cs)
  obtain bill1 where b1: "t_ok (bills (notice_exec c db))" "t_get (bills (notice_exec c db)) b = Some bill1"
      "bi_amount_vnd bill1 = bi_amount_vnd bill" "bi_resident bill1 = bi_resident bill" "bi_status bill \<noteq> Issued \<longrightarrow> bill1 = bill"
    using bill_step_row [OF notice_exec_bills Cons.prems, of c] by blast
  from Cons.IH [OF b1(1,2)] b1(3-5) show ?case by auto
qed simp

text \<open>
  C26.  A payment is recorded once and for all: confirming an issued bill with its reference marks it paid by that
  actor at that time; after any later run of the services the bill is unchanged, a second confirmation succeeds
  without writing anything, and the bill can no longer be voided.
\<close>

theorem payment_final:
  assumes "t_ok (bills db)" "t_get (bills db) b = Some bill" "bi_status bill = Issued"
    "confirm_payment env db b src actor ref = Inr (k, db1)" "db' = fold notice_exec cs db1"
  shows "ref = bi_reference bill \<and> (src = SelfAttestedDemo \<longrightarrow> actor = bi_resident bill)
    \<and> t_get (bills db') b = Some (bill \<lparr> bi_status := Paid, bi_payment_source := Some src, bi_paid_at := Some (now env),
         bi_paid_confirmed_by := Some actor \<rparr>)
    \<and> confirm_payment env2 db' b src actor ref = Inr (b, db')
    \<and> (\<forall>u reason d. void_bill env2 db' u b reason \<noteq> Inr d)"
  using assms(4)
proof (rule confirm_paymentE)
  fix x
  let ?pay = "\<lambda>x. x \<lparr> bi_status := Paid, bi_payment_source := Some src, bi_paid_at := Some (now env), bi_paid_confirmed_by := Some actor \<rparr>"
  assume x: "t_get (bills db) b = Some x" "ref = bi_reference x" "src = SelfAttestedDemo \<longrightarrow> actor = bi_resident x"
    and au: "record_audit env (db \<lparr> bills := t_update b ?pay (bills db) \<rparr>) actor None ''bill.payment_recorded'' ''Bill''
       (nat_str b) ''accepted'' [(''bill_id'', pint b), (''source'', PyStr (payment_source_str src))] = Inr db1"
  have "t_ok (bills db1)" "t_get (bills db1) b = Some (?pay bill)"
    using record_audit_appends [OF au] assms(1,2) by (simp_all add: t_get_update)
  from run_bills [OF this, of cs] have final: "t_get (bills db') b = Some (?pay bill)" using assms(5) by simp
  have "void_bill env2 db' u b reason \<noteq> Inr d" for u reason d
    using final by (auto simp: void_bill_def Let_def split: sum.splits)
  then show ?thesis using final x assms(2) by (simp add: confirm_payment_def)
qed (use assms(2,3) in auto)

section \<open>A sample site\<close>

interpretation member_frame: notice_frame "memberships :: 'z ndb \<Rightarrow> membership_row table"
  by unfold_locales simp_all

declare One_nat_def [simp del]

text \<open>
  One resident with one phone, a mail server that refuses and a push service that accepts everything; a published
  announcement and an issued bill with their notices.
\<close>

definition sample_notify_env :: notify_env where
  "sample_notify_env = \<lparr> PUSH_ENABLED = True, PUSH_DAILY_CAP_PER_CATEGORY = 10, local_day = (\<lambda>t. t div days 1),
     send_mail = (\<lambda>_ _ _ _ _. Some ''refused''), send_push = (\<lambda>_ _ _. None) \<rparr>"

definition sample_device :: device_row where
  "sample_device = \<lparr> dev_user = 2, dev_install_id = ''i'', dev_fcm_token = ''t'', dev_platform = ''IOS'', dev_app_version = [],
     dev_active = True, dev_last_seen_at = 0 \<rparr>"

definition sample_bill :: bill_row where
  "sample_bill = new_bill sample_env 1 1 2 ''Water'' 5000 1 [] [] None"

definition sample_mail :: delivery_row where
  "sample_mail = new_delivery sample_env 2 ''work.completed:case:7'' ''Done'' ''Rate it'' Email ''work.completed'' (Some 1)"

definition sample_notices :: billing_db where
  "sample_notices = \<lparr> users = users sample_site, buildings = buildings sample_site, units = units sample_site,
     occupancies = occupancies sample_site, memberships = memberships sample_site, registrations = t_empty, throttles = t_empty,
     audit_log = t_empty, outbox = t_empty, documents = t_empty, document_versions = t_empty, locations = t_empty,
     reports = t_empty, report_photos = t_empty, triage_jobs = t_empty, suggestions = t_empty, decisions = t_empty,
     cases = t_empty, case_reports = t_empty, info_requests = t_empty, work_updates = t_empty, ratings = t_empty,
     proposals = t_empty, proposal_versions = t_empty, proposal_documents = t_empty, settlements = t_empty,
     funds = t_empty, fund_entries = t_empty, fund_verifications = t_empty, observations = t_empty, ledger = t_empty,
     predictions = t_empty, announcements = t_empty, preferences = t_empty,
     deliveries = Table 3 [(1, new_delivery sample_env 2 (bill_key 1) ''Water'' [] InApp EVENT_BILL_ISSUED (Some 1) \<lparr> nd_status := NAvailable \<rparr>),
                           (2, sample_mail)],
     devices = Table 2 [(1, sample_device)], mails = [], pushes = [], bills = Table 2 [(1, sample_bill)] \<rparr>"

lemma sample_deliveries:
  "t_get (deliveries sample_notices) k = (if k = 1
     then Some (new_delivery sample_env 2 (bill_key 1) ''Water'' [] InApp EVENT_BILL_ISSUED (Some 1) \<lparr> nd_status := NAvailable \<rparr>)
     else if k = 2 then Some sample_mail else None)"
  by (simp add: sample_notices_def t_get_def)

lemma sample_devices: "t_get (devices sample_notices) k = (if k = 1 then Some sample_device else None)"
  by (simp add: sample_notices_def t_get_def)

lemma sample_bills: "t_get (bills sample_notices) k = (if k = 1 then Some sample_bill else None)"
  by (simp add: sample_notices_def t_get_def)

lemma sample_notices_ok: "notices_ok sample_notices"
  unfolding notices_ok_def
proof
  have t: "t_ok (deliveries sample_notices)" "next_pk (deliveries sample_notices) = 3" "mails sample_notices = []" "pushes sample_notices = []"
    by (simp_all add: sample_notices_def t_ok_def)
  have "unique_on (\<lambda>r. Some (delivery_key r)) (deliveries sample_notices)"
    by (rule unique_onI) (auto simp: sample_deliveries sample_mail_def new_delivery_def delivery_key_def split: if_splits)
  moreover have "delivery_ok [] [] k r" if "t_get (deliveries sample_notices) k = Some r" for k r
    using that by (auto simp: sample_deliveries delivery_ok_def sample_mail_def new_delivery_def live_def attempt_limits split: if_splits)
  ultimately show "deliveries_ok (deliveries sample_notices) (mails sample_notices) (pushes sample_notices)"
    using t by (auto simp: deliveries_ok_def logged_key_def)
  have "unique_on active_token (devices sample_notices)" "unique_on (\<lambda>d. Some (dev_user d, dev_install_id d)) (devices sample_notices)"
    by (rule unique_onI; auto simp: sample_devices split: if_splits)+
  then show "devices_ok (devices sample_notices)" by (simp add: devices_ok_def sample_notices_def t_ok_def)
qed

lemma sample_view: "(k, c) \<in> view bill_fam (deliveries sample_notices) \<longleftrightarrow> k = 1 \<and> c = \<lparr> nc_recipient = 2, nc_building = Some 1,
    nc_key = bill_key 1, nc_status = NAvailable, nc_subject = ''Water'', nc_body = [] \<rparr>"
  by (auto simp: in_view sample_deliveries sample_mail_def new_delivery_def shown_def core_def split: if_splits)

lemma sample_site_notices_ok: "notice_site_ok sample_notices"
proof -
  have "(k, c) \<notin> view announcement_fam (deliveries sample_notices)" for k c
  proof -
    have "\<not> announcement_fam ''work.completed:case:7''"
      using fam_code(1) [of "''work.completed:case:7''"] by (auto simp: event_code_from_key_def EVENT_ANNOUNCEMENT_def)
    then show ?thesis using fams_disjoint(2) [of 1]
      by (auto simp: in_view sample_deliveries sample_mail_def new_delivery_def shown_def split: if_splits)
  qed
  then have "announcements_shown sample_notices" by (auto simp: announcements_shown_def sample_notices_def)
  moreover have "bills_shown sample_notices"
  proof -
    have row: "bi_status sample_bill \<noteq> Void" "bi_resident sample_bill = 2" "bi_building sample_bill = 1"
      by (simp_all add: sample_bill_def new_bill_def)
    have "bill_notice_of sample_notices c" if "(k, c) \<in> view bill_fam (deliveries sample_notices)" for k c
      using that row sample_bills [of 1] by (auto simp: sample_view bill_notice_of_def)
    moreover have "has_bill_notice 1 2 (view bill_fam (deliveries sample_notices))"
      unfolding has_bill_notice_def sample_view by simp
    moreover have "t_ok (bills sample_notices)" by (simp add: sample_notices_def t_ok_def)
    ultimately show ?thesis using row by (auto simp: bills_shown_def sample_bills split: if_splits)
  qed
  ultimately show ?thesis using sample_notices_ok by (simp add: notice_site_ok_def)
qed

theorem delivery_gives_up_witness:
  "claims (replicate 20 (sample_env, sample_notify_env, 50)) 2 sample_notices \<le> 8"
  using delivery_gives_up [OF sample_notices_ok, of 2 sample_mail] sample_deliveries [of 2] by (simp add: sample_mail_def new_delivery_def)

theorem due_queue_drains_witness:
  "claim_pending_deliveries sample_env 50 (fst (process_due_notifications sample_env sample_notify_env 50 sample_notices)) = []"
  by (rule due_queue_drains [OF sample_notices_ok]) (simp add: t_filter_def sample_notices_def sample_mail_def new_delivery_def)

theorem notices_once_witness:
  "distinct (pushes (fold notice_exec [(sample_env, sample_notify_env, notice_op.DeliverDue 50)] sample_notices))"
  using notices_once [OF sample_notices_ok refl] by blast

theorem register_device_exclusive_witness:
  "\<exists>k db'. register_device sample_env sample_notices 1 ''j'' ''t'' ''IOS'' [] = Inr (k, db')"
  using register_device_exclusive [OF sample_notices_ok, of sample_env 1 "''j''" "''t''" "''IOS''" "[]"] by blast

theorem requeue_same_rows_witness:
  "queue_notification sample_env sample_notify_env sample_notices 2 (bill_key 1) ''other'' [] (Some [InApp]) EVENT_BILL_ISSUED (Some 1)
     = (sample_notices, Inr [1])"
proof -
  have "queue_ok sample_notices" using sample_notices_ok by (simp add: notices_ok_def deliveries_ok_def queue_ok_def)
  then have "get_or_create_delivery (new_delivery sample_env 2 (bill_key 1) s [] InApp EVENT_BILL_ISSUED (Some 1)) sample_notices = Inr (1, sample_notices)" for s
    by (rule get_or_create_found [of _ 1]) (simp add: sample_deliveries, simp add: delivery_key_def new_delivery_def)
  then have "queue_notification sample_env sample_notify_env sample_notices 2 (bill_key 1) ''Water'' [] (Some [InApp]) EVENT_BILL_ISSUED (Some 1)
     = (sample_notices, Inr [1])" by (simp add: queue_notification_def channel_admitted_def)
  from requeue_same_rows [OF sample_notices_ok this] show ?thesis .
qed

theorem bill_feed_exact_witness:
  "{b. \<exists>k r. (k, r) \<in> set (resident_feed sample_notices 2 1) \<and> nd_event_key r = bill_key b} = {1}"
proof -
  have "{b. \<exists>k r. (k, r) \<in> set (resident_feed sample_notices 2 1) \<and> nd_event_key r = bill_key b}
    = {b. \<exists>bill. t_get (bills sample_notices) b = Some bill \<and> bi_resident bill = 2 \<and> bi_building bill = 1 \<and> bi_status bill \<noteq> Void}"
    by (rule bill_feed_exact [OF sample_site_notices_ok, of "[]"]) simp_all
  also have "\<dots> = {1}" by (auto simp: sample_bills sample_bill_def new_bill_def split: if_splits)
  finally show ?thesis .
qed

lemma sample_reference: "bi_reference sample_bill = ''tok''" "bi_status sample_bill = Issued" "bi_resident sample_bill = 2"
  by (simp_all add: sample_bill_def new_bill_def sample_env_def)

theorem payment_final_witness:
  "\<exists>db1. confirm_payment sample_env sample_notices 1 SelfAttestedDemo 2 ''tok'' = Inr (1, db1)
     \<and> confirm_payment sample_env (fold notice_exec [(sample_env, sample_notify_env, VoidBill 1 1 (Some ''x''))] db1) 1
         SelfAttestedDemo 2 ''tok'' = Inr (1, fold notice_exec [(sample_env, sample_notify_env, VoidBill 1 1 (Some ''x''))] db1)"
proof -
  obtain db1 where c: "confirm_payment sample_env sample_notices 1 SelfAttestedDemo 2 ''tok'' = Inr (1, db1)"
    by (simp add: confirm_payment_def sample_bills sample_reference record_audit_def Let_def)
  have "t_ok (bills sample_notices)" by (simp add: sample_notices_def t_ok_def)
  moreover have "t_get (bills sample_notices) 1 = Some sample_bill" by (simp add: sample_bills)
  ultimately show ?thesis using payment_final [OF _ _ sample_reference(2) c refl] c by blast
qed

lemma get_or_create_short:
  assumes "length (nd_event_key r) \<le> 255" "length (nd_event_code r) \<le> 64" "length (nd_subject r) \<le> 255"
  shows "\<exists>k db'. get_or_create_delivery r db = Inr (k, db')"
proof -
  have "py_len (nd_event_key r) \<le> 255" "py_len (nd_event_code r) \<le> 64" "py_len (nd_subject r) \<le> 255"
    using assms py_len_le order_trans by blast+
  then show ?thesis by (auto simp: get_or_create_delivery_def split: option.splits)
qed

lemma sample_keys: "length (announcement_key 1) = 36" "length (announcement_push_key 1 1 ''published'') = 57"
  "length EVENT_ANNOUNCEMENT = 21" "event_code_of EVENT_ANNOUNCEMENT k = EVENT_ANNOUNCEMENT"
  by (simp_all add: announcement_key_def announcement_push_key_def EVENT_ANNOUNCEMENT_def event_code_of_def nat_str.simps [of 1])

lemma sample_queue_announcement:
  assumes "an_title row = ''T''" "an_revision row = 1"
  shows "\<exists>db'. queue_announcement env ne 1 row ''published'' u db = Inr db'"
proof -
  obtain k db1 where 1: "get_or_create_delivery (new_delivery env u (announcement_key 1) (an_title row) (an_body row) InApp
      EVENT_ANNOUNCEMENT (Some (an_building row))) db = Inr (k, db1)"
    using get_or_create_short [of "new_delivery env u (announcement_key 1) (an_title row) (an_body row) InApp
      EVENT_ANNOUNCEMENT (Some (an_building row))" db] assms(1) by (auto simp: new_delivery_def sample_keys)
  obtain j db2 where 2: "get_or_create_delivery (new_delivery env u (announcement_push_key 1 1 ''published'') (an_title row) (an_body row)
      PushChannel EVENT_ANNOUNCEMENT (Some (an_building row))) db1 = Inr (j, db2)"
    using get_or_create_short [of "new_delivery env u (announcement_push_key 1 1 ''published'') (an_title row) (an_body row) PushChannel
      EVENT_ANNOUNCEMENT (Some (an_building row))" db1] assms(1) by (auto simp: new_delivery_def sample_keys)
  have "channel_admitted ne db u c InApp" for c by (simp add: channel_admitted_def)
  then show ?thesis using 1 2 assms(2)
    by (simp add: queue_announcement_def queue_announcement_push_def queue_notification_def)
qed

theorem announcement_feed_witness:
  "\<exists>db1. publish_announcement sample_env sample_notify_env sample_notices 1 1 ''T'' ''B'' = Inr (1, db1)
     \<and> (\<exists>k r. (k, r) \<in> set (resident_feed db1 2 1) \<and> nd_subject r = ''T'' \<and> nd_body r = ''B'')"
proof -
  let ?row = "new_announcement sample_env 1 1 ''T'' ''B''"
  have row: "an_title ?row = ''T''" "an_revision ?row = 1" "announcement_clean ?row"
    by (simp_all add: new_announcement_def announcement_clean_def py_len_def is_continuation_def code_def)
  have each: "\<exists>db'. each_recipient (queue_announcement sample_env sample_notify_env 1 ?row ''published'') us db = Inr db'" for us db
  proof (induction us arbitrary: db)
    case (Cons u us)
    obtain db1 where "queue_announcement sample_env sample_notify_env 1 ?row ''published'' u db = Inr db1"
      using sample_queue_announcement [OF row(1,2)] by blast
    then show ?case using Cons.IH by simp
  qed simp
  have m: "require_management sample_notices 1 1 = Inr 1" "next_pk (announcements sample_notices) = 1"
    by (simp_all add: require_management_def sample_notices_def sample_site_def sample_accounts_def t_first_def t_empty_def)
  have res: "active_residents sample_notices 1 = [2]"
    by (simp add: active_residents_def active_occupancy_in_def sample_notices_def sample_site_def sample_accounts_def t_filter_def
        t_first_def t_get_def)
  obtain db2 where db2: "each_recipient (queue_announcement sample_env sample_notify_env 1 ?row ''published'')
      (active_residents (sample_notices \<lparr> announcements := t_insert ?row (announcements sample_notices) \<rparr>) 1)
      (sample_notices \<lparr> announcements := t_insert ?row (announcements sample_notices) \<rparr>) = Inr db2"
    using each by blast
  have "memberships db2 = memberships sample_notices"
    using member_frame.each_recipient_part [OF member_frame.queue_announcement_part(2) db2] by simp
  then have "t_exists (\<lambda>k r. k = 1 \<and> mb_user r = 1 \<and> mb_active r) (memberships db2)"
    using require_management_row [OF m(1)] by simp
  then obtain db1 where p: "publish_announcement sample_env sample_notify_env sample_notices 1 1 ''T'' ''B'' = Inr (1, db1)"
    using db2 row(3) by (simp add: publish_announcement_def m audit_announcement_def record_audit_def Let_def)
  have "\<exists>k r. (k, r) \<in> set (resident_feed db1 2 1) \<and> nd_subject r = ''T'' \<and> nd_body r = ''B''"
    using announcement_feed [OF sample_site_notices_ok p, of "[]" db1] res by auto
  then show ?thesis using p by blast
qed

end
