(* ===== verification/Operations.thy ===== *)
theory Operations
  imports Worker_Site Delivery
begin

text \<open>
  What the unified worker promises over whole cycles: the failure of one queue does not stop the others, and no number
  of cycles moves money, changes a proposal or a case, or takes back evidence or an audit event.
\<close>

lemma succeeded_ok [simp]: "pr_ok (succeeded name label n)" "pr_name (succeeded name label n) = name"
  by (simp_all add: succeeded_def)






section \<open>A sample worker\<close>




end
