(* ===== verification/Gate.thy ===== *)
theory Gate
  imports Complex_Main Documents Throttle
begin

text \<open>
  The gate (\<open>gate/\<close>): residents register vehicle plates and a face, Management reviews them, and readers at the
  gate recognise them.  This theory has the rows (\<open>models.py\<close>), plates (\<open>plates.py\<close>, \<open>enrollment.py\<close>,
  \<open>review.py\<close>), reader credentials (\<open>devices.py\<close>), matching (\<open>matching.py\<close>) and recognition
  (\<open>recognition.py\<close>); face enrolment and retention are in the theory \<open>Enrollment\<close>.

  NFKD, the face model, Fernet and numpy are parameters of \<open>gate_env\<close>.  A vector is the list of its float32
  bit patterns; a score is a finite float, hence a rational.  A service that receives a model instance works on
  the row as it was loaded, which may be out of date: the argument \<open>snap\<close> is that copy.
\<close>

section \<open>State and parameters\<close>

datatype review_status = RvPending | RvApproved | RvRejected | RvExpired

record face_row =
  fa_occupancy :: pk
  fa_embedding :: "string option"
  fa_model_name :: string
  fa_model_version :: string
  fa_status :: review_status
  fa_submitted_at :: time
  fa_reviewed_by :: "pk option"
  fa_reviewed_at :: "time option"
  fa_review_note :: string

record plate_row =
  vp_occupancy :: pk
  vp_building :: pk
  vp_plate :: string
  vp_status :: review_status
  vp_submitted_at :: time
  vp_reviewed_by :: "pk option"
  vp_reviewed_at :: "time option"
  vp_review_note :: string

record photo_row =
  ph_enrollment :: pk
  ph_storage_key :: string
  ph_provider_version_id :: string
  ph_content_type :: string
  ph_byte_size :: nat
  ph_created_at :: time
  ph_expires_at :: time

record deletion_row =
  pd_storage_key :: string
  pd_provider_version_id :: string
  pd_created_at :: time

datatype direction = Entry | Exit

record gate_device_row =
  gd_building :: pk
  gd_label :: string
  gd_direction :: direction
  gd_active :: bool
  gd_last_seen_hour :: "time option"

record credential_row =
  gc_device :: pk
  gc_token_sha256 :: string
  gc_created_at :: time
  gc_created_by :: pk
  gc_expires_at :: "time option"
  gc_revoked_at :: "time option"
  gc_revoked_by :: "pk option"

datatype event_kind = FaceEvent | PlateEvent

record gate_event_row =
  ge_building :: pk
  ge_device :: pk
  ge_kind :: event_kind
  ge_direction :: direction
  ge_occurred_at :: time
  ge_matched_occupancy :: "pk option"
  ge_matched_plate :: "pk option"
  ge_raw_plate_text :: string
  ge_normalized_plate_text :: string
  ge_model_name :: string
  ge_model_version :: string
  ge_match_metric :: string
  ge_threshold_used :: "rat option"
  ge_match_score :: "rat option"

record heartbeat_row =
  hb_last_success_at :: time
  hb_events_deleted :: nat
  hb_photos_deleted :: nat

record 's gate_db = accounts_db +
  face_enrollments :: "face_row table"
  vehicle_plates :: "plate_row table"
  pending_photos :: "photo_row table"
  photo_deletions :: "deletion_row table"
  gate_devices :: "gate_device_row table"
  gate_credentials :: "credential_row table"
  gate_events :: "gate_event_row table"
  heartbeats :: "heartbeat_row table"
  photo_objects :: 's

type_synonym ('s, 'z) gdb = "('s, 'z) gate_db_scheme"

type_synonym vector = "int list"

record detected_face =
  det_score :: rat
  bbox :: "int \<times> int \<times> int \<times> int"
  sharpness :: "rat option"  \<comment> \<open>the variance of the Laplacian of the crop; \<open>None\<close> for an empty crop\<close>
  normed_embedding :: vector

record gate_env =
  nfkd_upper :: "string \<Rightarrow> string"  \<comment> \<open>\<open>unicodedata.normalize("NFKD", s).upper()\<close>\<close>
  photo_uuid_hex :: string
  decode_faces :: "string \<Rightarrow> detected_face list result option"  \<comment> \<open>\<open>None\<close>: the image does not decode\<close>
  MODEL_NAME :: string
  model_version :: string
  fernet_encrypt :: "vector \<Rightarrow> string"
  fernet_decrypt :: "string \<Rightarrow> vector option"  \<comment> \<open>\<open>None\<close>: \<open>InvalidToken\<close>\<close>
  zero_norm :: "vector \<Rightarrow> bool"
  cosine :: "vector \<Rightarrow> vector \<Rightarrow> rat"  \<comment> \<open>\<open>np.dot\<close> of the two unit vectors\<close>
  GATE_EVENT_RETENTION_HOURS :: int
  GATE_ENROLLMENT_PHOTO_TTL_HOURS :: int
  GATE_CREDENTIAL_ROTATION_GRACE_HOURS :: int
  GATE_FACE_MATCH_THRESHOLD :: rat
  GATE_MAX_FACE_UPLOAD_BYTES :: nat
  GATE_MIN_FACE_PIXELS :: int
  GATE_MIN_FACE_DET_SCORE :: rat
  GATE_MIN_FACE_SHARPNESS :: rat
  GATE_FACE_CALIBRATED :: bool

section \<open>Plate texts\<close>

definition MIN_LENGTH :: nat where "MIN_LENGTH = 5"
definition MAX_LENGTH :: nat where "MAX_LENGTH = 12"

definition is_plate_char :: "char \<Rightarrow> bool" where
  "is_plate_char c \<longleftrightarrow> is_upper c \<or> is_digit c"

definition normalize_plate :: "gate_env \<Rightarrow> string option \<Rightarrow> string result" where
  "normalize_plate ge raw =
     (let normalized = filter is_plate_char (nfkd_upper ge (case raw of None \<Rightarrow> [] | Some s \<Rightarrow> s)) in
      if \<not> (MIN_LENGTH \<le> length normalized \<and> length normalized \<le> MAX_LENGTH) then Inl PlateFormatError
      else Inr normalized)"

section \<open>Registering a plate\<close>

text \<open>The two unique constraints of \<open>VehiclePlate\<close>.\<close>

definition plate_owner_key :: "plate_row \<Rightarrow> (pk \<times> string) option" where
  "plate_owner_key p = Some (vp_occupancy p, vp_plate p)"

definition approved_key :: "plate_row \<Rightarrow> (pk \<times> string) option" where
  "approved_key p = (if vp_status p = RvApproved then Some (vp_building p, vp_plate p) else None)"

definition submit_plate :: "env \<Rightarrow> gate_env \<Rightarrow> ('s, 'z) gdb \<Rightarrow> pk \<Rightarrow> string option \<Rightarrow> (pk \<times> ('s, 'z) gdb) result" where
  "submit_plate env ge db occupancy raw_plate =
     (case normalize_plate ge raw_plate of
        Inl e \<Rightarrow> Inl e
      | Inr plate \<Rightarrow>
          (case map_option (\<lambda>oc. t_get (units db) (oc_unit oc)) (t_get (occupancies db) occupancy) of
             Some (Some u) \<Rightarrow>
               if t_exists (\<lambda>_ p. vp_building p = un_building u \<and> vp_plate p = plate \<and> vp_status p = RvApproved
                    \<and> vp_occupancy p \<noteq> occupancy) (vehicle_plates db)
               then Inl PlateAlreadyRegistered
               else (case t_first (\<lambda>_ p. vp_occupancy p = occupancy \<and> vp_plate p = plate) (vehicle_plates db) of
                   None \<Rightarrow> Inr (next_pk (vehicle_plates db),
                     db \<lparr> vehicle_plates := t_insert \<lparr> vp_occupancy = occupancy, vp_building = un_building u, vp_plate = plate,
                       vp_status = RvPending, vp_submitted_at = now env, vp_reviewed_by = None, vp_reviewed_at = None,
                       vp_review_note = [] \<rparr> (vehicle_plates db) \<rparr>)
                 | Some (k, obj) \<Rightarrow>
                     if vp_status obj = RvRejected
                     then Inr (k, db \<lparr> vehicle_plates := t_update k (\<lambda>_. obj \<lparr> vp_status := RvPending, vp_reviewed_by := None,
                         vp_reviewed_at := None, vp_review_note := [], vp_submitted_at := now env \<rparr>) (vehicle_plates db) \<rparr>)
                     else Inr (k, db))
           | _ \<Rightarrow> Inl DoesNotExist))"

text \<open>The resident withdraws a plate; the events that name it go with it (\<open>on_delete=CASCADE\<close>).\<close>

definition revoke_plate :: "('s, 'z) gdb \<Rightarrow> pk \<Rightarrow> pk \<Rightarrow> ('s, 'z) gdb" where
  "revoke_plate db occupancy plate_id =
     (let gone = t_exists (\<lambda>k p. k = plate_id \<and> vp_occupancy p = occupancy) (vehicle_plates db) in
      db \<lparr> vehicle_plates := t_delete (\<lambda>k p. vp_occupancy p = occupancy \<and> k = plate_id) (vehicle_plates db),
           gate_events := t_delete (\<lambda>_ e. gone \<and> ge_matched_plate e = Some plate_id) (gate_events db) \<rparr>)"

section \<open>Reviewing a plate\<close>

definition assert_manages :: "membership_row \<Rightarrow> pk \<Rightarrow> unit result" where
  "assert_manages membership building_id =
     (if mb_building membership \<noteq> building_id \<or> \<not> mb_active membership then Inl ReviewNotPermitted else Inr ())"

text \<open>
  \<open>plate.save(update_fields=[...])\<close>: the four columns of row \<open>k\<close> are written; a row that is gone is an error, and
  the database refuses a second approved plate.
\<close>

definition save_plate_review ::
  "('s, 'z) gdb \<Rightarrow> pk \<Rightarrow> review_status \<Rightarrow> pk \<Rightarrow> time \<Rightarrow> string \<Rightarrow> ('s, 'z) gdb result" where
  "save_plate_review db k status user t review_note =
     (case t_get (vehicle_plates db) k of
        None \<Rightarrow> Inl DatabaseError
      | Some row \<Rightarrow>
          (let row1 = row \<lparr> vp_status := status, vp_reviewed_by := Some user, vp_reviewed_at := Some t, vp_review_note := review_note \<rparr> in
           if approved_key row1 \<noteq> None \<and> t_exists (\<lambda>i p. i \<noteq> k \<and> approved_key p = approved_key row1) (vehicle_plates db)
           then Inl (IntegrityError ''gate_approved_plate_once_per_building'')
           else Inr (db \<lparr> vehicle_plates := t_update k (\<lambda>_. row1) (vehicle_plates db) \<rparr>)))"

definition approve_plate ::
  "env \<Rightarrow> ('s, 'z) gdb \<Rightarrow> pk \<Rightarrow> plate_row \<Rightarrow> membership_row \<Rightarrow> ('s, 'z) gdb result" where
  "approve_plate env db k snap membership =
     (case assert_manages membership (vp_building snap) of
        Inl e \<Rightarrow> Inl e
      | Inr _ \<Rightarrow>
          if vp_status snap = RvApproved then Inr db
          else if t_exists (\<lambda>i p. vp_building p = vp_building snap \<and> vp_plate p = vp_plate snap \<and> vp_status p = RvApproved
                 \<and> i \<noteq> k) (vehicle_plates db)
          then Inl ReviewNotPossible
          else save_plate_review db k RvApproved (mb_user membership) (now env) [])"

definition reject_plate ::
  "env \<Rightarrow> ('s, 'z) gdb \<Rightarrow> pk \<Rightarrow> plate_row \<Rightarrow> membership_row \<Rightarrow> string option \<Rightarrow> ('s, 'z) gdb result" where
  "reject_plate env db k snap membership reason =
     (case assert_manages membership (vp_building snap) of
        Inl e \<Rightarrow> Inl e
      | Inr _ \<Rightarrow>
          (let reason1 = py_strip (case reason of None \<Rightarrow> [] | Some s \<Rightarrow> s) in
           if reason1 = [] then Inl ReviewNotPossible
           else save_plate_review db k RvRejected (mb_user membership) (now env) (py_take 255 reason1)))"

definition revoke_plate_as_manager ::
  "env \<Rightarrow> ('s, 'z) gdb \<Rightarrow> pk \<Rightarrow> plate_row \<Rightarrow> membership_row \<Rightarrow> ('s, 'z) gdb result" where
  "revoke_plate_as_manager env db k snap membership =
     reject_plate env db k snap membership (Some ''Revoked by management.'')"

section \<open>Reader credentials\<close>

definition AUTH_SCHEME :: string where "AUTH_SCHEME = ''GateDevice''"
definition THROTTLE_ACCOUNT :: string where "THROTTLE_ACCOUNT = ''gate_device''"

definition token_digest :: "env \<Rightarrow> string \<Rightarrow> string" where
  "token_digest env token = sha256_hex env token"

text \<open>\<open>s.split()\<close>: the words between runs of white space.\<close>

function py_words :: "string \<Rightarrow> string list" where
  "py_words [] = []"
| "py_words (c # s) =
     (if is_space c then py_words s
      else (c # takeWhile (\<lambda>x. \<not> is_space x) s) # py_words (dropWhile (\<lambda>x. \<not> is_space x) s))"
  by pat_completeness auto
termination
  by (relation "measure length") (auto simp: le_imp_less_Suc length_dropWhile_le)

definition token_from_header :: "string option \<Rightarrow> string" where
  "token_from_header value =
     (case py_words (case value of None \<Rightarrow> [] | Some s \<Rightarrow> s) of
        [scheme, token] \<Rightarrow> if py_lower scheme = py_lower AUTH_SCHEME then token else []
      | _ \<Rightarrow> [])"

definition issue_credential ::
  "env \<Rightarrow> ('s, 'z) gdb \<Rightarrow> pk \<Rightarrow> membership_row \<Rightarrow> (pk \<times> string \<times> ('s, 'z) gdb) result" where
  "issue_credential env db device membership =
     (let token = token_urlsafe env; digest = token_digest env token in
      if t_exists (\<lambda>_ c. gc_token_sha256 c = digest) (gate_credentials db)
      then Inl (IntegrityError ''gate_gatedevicecredential_token_sha256_key'')
      else Inr (next_pk (gate_credentials db), token,
        db \<lparr> gate_credentials := t_insert \<lparr> gc_device = device, gc_token_sha256 = digest, gc_created_at = now env,
          gc_created_by = mb_user membership, gc_expires_at = None, gc_revoked_at = None, gc_revoked_by = None \<rparr>
          (gate_credentials db) \<rparr>))"

definition outlives :: "time \<Rightarrow> credential_row \<Rightarrow> bool" where
  "outlives expiry c \<longleftrightarrow> gc_revoked_at c = None \<and> (case gc_expires_at c of None \<Rightarrow> True | Some x \<Rightarrow> x > expiry)"

definition rotate_credential ::
  "env \<Rightarrow> gate_env \<Rightarrow> ('s, 'z) gdb \<Rightarrow> pk \<Rightarrow> membership_row \<Rightarrow> int option \<Rightarrow> (pk \<times> string \<times> ('s, 'z) gdb) result" where
  "rotate_credential env ge db device membership grace_hours =
     (let grace = (case grace_hours of None \<Rightarrow> GATE_CREDENTIAL_ROTATION_GRACE_HOURS ge | Some h \<Rightarrow> h);
          expiry = now env + hours grace in
      issue_credential env
        (db \<lparr> gate_credentials := t_update_all (\<lambda>_ c. gc_device c = device \<and> outlives expiry c)
           (\<lambda>c. c \<lparr> gc_expires_at := Some expiry \<rparr>) (gate_credentials db) \<rparr>) device membership)"

definition revoke_credential :: "env \<Rightarrow> ('s, 'z) gdb \<Rightarrow> pk \<Rightarrow> membership_row \<Rightarrow> ('s, 'z) gdb result" where
  "revoke_credential env db k membership =
     (case t_get (gate_credentials db) k of
        None \<Rightarrow> Inl DatabaseError
      | Some _ \<Rightarrow> Inr (db \<lparr> gate_credentials := t_update k (\<lambda>c. c \<lparr> gc_revoked_at := Some (now env),
          gc_revoked_by := Some (mb_user membership) \<rparr>) (gate_credentials db) \<rparr>))"

definition is_valid :: "time \<Rightarrow> credential_row \<Rightarrow> bool" where
  "is_valid t c \<longleftrightarrow> gc_revoked_at c = None \<and> (case gc_expires_at c of None \<Rightarrow> True | Some x \<Rightarrow> x > t)"

definition hour_of :: "time \<Rightarrow> time" where
  "hour_of t = t - t mod hours 1"

definition note_failure :: "env \<Rightarrow> ('s, 'z) gdb \<Rightarrow> string option \<Rightarrow> exn \<Rightarrow> ('s, 'z) gdb \<times> 'a result" where
  "note_failure env db ip e = (snd (record_auth_failure env db (Some THROTTLE_ACCOUNT) ip), Inl e)"

definition authenticate_device ::
  "env \<Rightarrow> ('s, 'z) gdb \<Rightarrow> string \<Rightarrow> string option \<Rightarrow> ('s, 'z) gdb \<times> (pk \<times> credential_row) result" where
  "authenticate_device env db token ip =
     (case assert_not_throttled env db (Some THROTTLE_ACCOUNT) ip of
        Inl e \<Rightarrow> (db, Inl e)
      | Inr _ \<Rightarrow>
          (case t_first (\<lambda>_ c. gc_token_sha256 c = token_digest env token) (gate_credentials db) of
             None \<Rightarrow> note_failure env db ip GateAuthenticationFailed
           | Some (k, c) \<Rightarrow>
               (case t_get (gate_devices db) (gc_device c) of
                  None \<Rightarrow> note_failure env db ip GateAuthenticationFailed
                | Some d \<Rightarrow>
                    if \<not> gd_active d then note_failure env db ip GateAuthenticationFailed
                    else if gc_revoked_at c \<noteq> None then note_failure env db ip GateCredentialRevoked
                    else if \<not> is_valid (now env) c then note_failure env db ip GateCredentialExpired
                    else
                      (let db1 = reset_auth_throttle env db (Some THROTTLE_ACCOUNT) ip; hour = hour_of (now env) in
                       (if gd_last_seen_hour d \<noteq> Some hour
                        then db1 \<lparr> gate_devices := t_update (gc_device c) (\<lambda>x. x \<lparr> gd_last_seen_hour := Some hour \<rparr>) (gate_devices db1) \<rparr>
                        else db1,
                        Inr (k, c))))))"

section \<open>The face model\<close>

definition embed :: "gate_env \<Rightarrow> string \<Rightarrow> (vector \<times> string \<times> string) result" where
  "embed ge img =
     (case decode_faces ge img of
        None \<Rightarrow> Inl (FaceQualityError ''gate_no_face_detected'')
      | Some (Inl _) \<Rightarrow> Inl FaceEmbedderUnavailable
      | Some (Inr found) \<Rightarrow>
          (case filter (\<lambda>f. det_score f \<ge> GATE_MIN_FACE_DET_SCORE ge) found of
             [] \<Rightarrow> Inl (FaceQualityError ''gate_no_face_detected'')
           | [face] \<Rightarrow>
               (let (x1, y1, x2, y2) = bbox face in
                if min (x2 - x1) (y2 - y1) < GATE_MIN_FACE_PIXELS ge then Inl (FaceQualityError ''gate_face_too_small'')
                else if (case sharpness face of None \<Rightarrow> False | Some v \<Rightarrow> v < GATE_MIN_FACE_SHARPNESS ge)
                then Inl (FaceQualityError ''gate_face_too_blurry'')
                else Inr (normed_embedding face, MODEL_NAME ge, model_version ge))
           | _ \<Rightarrow> Inl (FaceQualityError ''gate_multiple_faces'')))"

definition seal_embedding :: "gate_env \<Rightarrow> vector \<Rightarrow> string result" where
  "seal_embedding ge v = (if v = [] then Inl ValueError else Inr (fernet_encrypt ge v))"

definition open_embedding :: "gate_env \<Rightarrow> string \<Rightarrow> vector result" where
  "open_embedding ge sealed = (case fernet_decrypt ge sealed of None \<Rightarrow> Inl EmbeddingDecryptionError | Some v \<Rightarrow> Inr v)"

section \<open>Matching\<close>

text \<open>\<open>unit_vector\<close> raises on a zero vector; otherwise only its direction is used, by \<open>cosine\<close>.\<close>

definition unit_vector :: "gate_env \<Rightarrow> vector \<Rightarrow> vector result" where
  "unit_vector ge v = (if zero_norm ge v then Inl ValueError else Inr v)"

text \<open>The loop of \<open>match_face\<close>: the best occupancy so far and its score.\<close>

fun best_match :: "gate_env \<Rightarrow> vector \<Rightarrow> (pk \<times> string) list \<Rightarrow> pk option \<times> rat \<Rightarrow> (pk option \<times> rat) result" where
  "best_match ge probe [] best = Inr best"
| "best_match ge probe ((occupancy, sealed) # rows) best =
     (case open_embedding ge sealed of
        Inl e \<Rightarrow> Inl e
      | Inr candidate \<Rightarrow>
          if length candidate = length probe
          then (case unit_vector ge candidate of
                  Inl e \<Rightarrow> Inl e
                | Inr u \<Rightarrow>
                    (let score = cosine ge probe u in
                     best_match ge probe rows (if score > snd best then (Some occupancy, score) else best)))
          else best_match ge probe rows best)"

definition occupancy_live_in :: "('s, 'z) gdb \<Rightarrow> pk \<Rightarrow> pk \<Rightarrow> bool" where
  "occupancy_live_in db occupancy building =
     (case t_get (occupancies db) occupancy of
        None \<Rightarrow> False
      | Some oc \<Rightarrow> oc_active oc \<and> map_option un_building (t_get (units db) (oc_unit oc)) = Some building)"

definition face_candidates :: "('s, 'z) gdb \<Rightarrow> pk \<Rightarrow> string \<Rightarrow> string \<Rightarrow> (pk \<times> string) list" where
  "face_candidates db building name version =
     map (\<lambda>(_, f). (fa_occupancy f, the (fa_embedding f)))
       (t_filter (\<lambda>_ f. fa_status f = RvApproved \<and> fa_embedding f \<noteq> None \<and> fa_model_name f = name
          \<and> fa_model_version f = version \<and> occupancy_live_in db (fa_occupancy f) building) (face_enrollments db))"

definition match_face ::
  "gate_env \<Rightarrow> ('s, 'z) gdb \<Rightarrow> pk \<Rightarrow> vector \<Rightarrow> string \<Rightarrow> string \<Rightarrow> (pk option \<times> rat) result" where
  "match_face ge db building v name version =
     (case unit_vector ge v of
        Inl e \<Rightarrow> Inl e
      | Inr probe \<Rightarrow>
          (case best_match ge probe (face_candidates db building name version) (None, -1) of
             Inl e \<Rightarrow> Inl e
           | Inr (None, _) \<Rightarrow> Inr (None, 0)
           | Inr (Some best, best_score) \<Rightarrow>
               Inr (if best_score \<ge> GATE_FACE_MATCH_THRESHOLD ge then Some best else None, best_score)))"

definition match_plate :: "('s, 'z) gdb \<Rightarrow> pk \<Rightarrow> string \<Rightarrow> (pk \<times> plate_row) option" where
  "match_plate db building normalized =
     t_first (\<lambda>_ p. vp_building p = building \<and> vp_plate p = normalized \<and> vp_status p = RvApproved \<and>
       (case t_get (occupancies db) (vp_occupancy p) of None \<Rightarrow> False | Some oc \<Rightarrow> oc_active oc)) (vehicle_plates db)"

section \<open>Recognition\<close>

record outcome =
  matched :: bool
  display_name :: string
  unit_label :: string
  out_direction :: direction
  score :: "rat option"
  event_id :: pk

definition outcome_of :: "('s, 'z) gdb \<Rightarrow> pk option \<Rightarrow> gate_device_row \<Rightarrow> rat option \<Rightarrow> pk \<Rightarrow> outcome" where
  "outcome_of db occupancy device sc event =
     (let oc = (case occupancy of None \<Rightarrow> None | Some k \<Rightarrow> t_get (occupancies db) k) in
      \<lparr> matched = (occupancy \<noteq> None),
        display_name = (case oc of None \<Rightarrow> [] | Some o' \<Rightarrow>
          (case t_get (users db) (oc_user o') of None \<Rightarrow> [] | Some u \<Rightarrow> u_display_name u)),
        unit_label = (case oc of None \<Rightarrow> [] | Some o' \<Rightarrow>
          (case t_get (units db) (oc_unit o') of None \<Rightarrow> [] | Some u \<Rightarrow> un_label u)),
        out_direction = gd_direction device, score = sc, event_id = event \<rparr>)"

definition MATCH_METRIC :: string where "MATCH_METRIC = ''cosine''"

definition recognize_face ::
  "env \<Rightarrow> gate_env \<Rightarrow> ('s, 'z) gdb \<Rightarrow> pk \<Rightarrow> gate_device_row \<Rightarrow> string \<Rightarrow> (outcome \<times> ('s, 'z) gdb) result" where
  "recognize_face env ge db dk device img =
     (if \<not> GATE_FACE_CALIBRATED ge then Inl FaceEmbedderUnavailable
      else (case embed ge img of
          Inl e \<Rightarrow> Inl e
        | Inr (v, name, version) \<Rightarrow>
            (case match_face ge db (gd_building device) v name version of
               Inl e \<Rightarrow> Inl e
             | Inr (occupancy, sc) \<Rightarrow>
                 Inr (outcome_of db occupancy device (Some sc) (next_pk (gate_events db)),
                   db \<lparr> gate_events := t_insert \<lparr> ge_building = gd_building device, ge_device = dk, ge_kind = FaceEvent,
                     ge_direction = gd_direction device, ge_occurred_at = now env, ge_matched_occupancy = occupancy,
                     ge_matched_plate = None, ge_raw_plate_text = [], ge_normalized_plate_text = [], ge_model_name = name,
                     ge_model_version = version, ge_match_metric = MATCH_METRIC,
                     ge_threshold_used = Some (GATE_FACE_MATCH_THRESHOLD ge), ge_match_score = Some sc \<rparr> (gate_events db) \<rparr>))))"

definition recognize_plate ::
  "env \<Rightarrow> gate_env \<Rightarrow> ('s, 'z) gdb \<Rightarrow> pk \<Rightarrow> gate_device_row \<Rightarrow> string option \<Rightarrow> (outcome \<times> ('s, 'z) gdb) result" where
  "recognize_plate env ge db dk device raw_text =
     (case normalize_plate ge raw_text of
        Inl e \<Rightarrow> Inl e
      | Inr normalized \<Rightarrow>
          (let plate = match_plate db (gd_building device) normalized;
               occupancy = map_option (\<lambda>(_, p). vp_occupancy p) plate in
           Inr (outcome_of db occupancy device None (next_pk (gate_events db)),
             db \<lparr> gate_events := t_insert \<lparr> ge_building = gd_building device, ge_device = dk, ge_kind = PlateEvent,
               ge_direction = gd_direction device, ge_occurred_at = now env, ge_matched_occupancy = occupancy,
               ge_matched_plate = map_option fst plate,
               ge_raw_plate_text = py_take 64 (case raw_text of None \<Rightarrow> [] | Some s \<Rightarrow> s),
               ge_normalized_plate_text = normalized, ge_model_name = [], ge_model_version = [], ge_match_metric = [],
               ge_threshold_used = None, ge_match_score = None \<rparr> (gate_events db) \<rparr>)))"

end
