(* ===== verification/Enrollment.thy ===== *)
theory Enrollment
  imports Gate
begin

text \<open>
  Face enrolment and retention (\<open>gate/enrollment.py\<close>, \<open>gate/photos.py\<close>, \<open>gate/review.py\<close>, \<open>gate/retention.py\<close>,
  \<open>purge_gate_data\<close>).  The review photo is stored before the transaction that records it and is deleted
  through a queue: the row of \<open>PhotoDeletion\<close> is written in the transaction that drops the photo, and the object
  is removed when that transaction has committed, or by a later purge.

  The storage is a parameter, as for documents; it keeps what was written when a transaction is rolled back.
\<close>

section \<open>The storage of photos\<close>

record 's photo_storage = "'s storage" +
  list_object_versions :: "'s \<Rightarrow> string \<Rightarrow> string + (string \<times> string) list"  \<comment> \<open>versions and delete markers\<close>
  delete_unversioned :: "'s \<Rightarrow> string \<Rightarrow> 's \<times> (string + unit)"

definition PREFIX :: string where "PREFIX = ''gate/pending-enrollment''"

fun delete_versions :: "'s photo_storage \<Rightarrow> 's \<Rightarrow> string \<Rightarrow> string list \<Rightarrow> 's \<times> unit result" where
  "delete_versions st s key [] = (s, Inr ())"
| "delete_versions st s key (v # vs) =
     (case delete_object st s key v of
        (s', Inl err) \<Rightarrow> (s', Inl (StorageFailure err))
      | (s', Inr _) \<Rightarrow> delete_versions st s' key vs)"

text \<open>A bucket that returned no version: what was written is deleted again before the error is raised.\<close>

definition undo_unversioned :: "'s photo_storage \<Rightarrow> 's \<Rightarrow> string \<Rightarrow> 's \<times> (string \<times> string) result" where
  "undo_unversioned st s key =
     (case list_object_versions st s key of
        Inl err \<Rightarrow> (s, Inl (StorageFailure err))
      | Inr items \<Rightarrow>
          (let versions = map snd (filter (\<lambda>(k, _). k = key) items) in
           case delete_versions st s key versions of
             (s', Inl e) \<Rightarrow> (s', Inl e)
           | (s', Inr _) \<Rightarrow>
               if versions \<noteq> [] then (s', Inl PhotoVersionMissing)
               else (case delete_unversioned st s' key of
                   (s'', Inl err) \<Rightarrow> (s'', Inl (StorageFailure err))
                 | (s'', Inr _) \<Rightarrow> (s'', Inl PhotoVersionMissing))))"

definition store_pending_photo ::
  "gate_env \<Rightarrow> 's photo_storage \<Rightarrow> 's \<Rightarrow> string \<Rightarrow> string \<Rightarrow> 's \<times> (string \<times> string) result" where
  "store_pending_photo ge st s data content_type =
     (let key = PREFIX @ ''/'' @ photo_uuid_hex ge in
      if is_s3 st then
        (case put_object st s key data content_type of
           (s', Inl err) \<Rightarrow> (s', Inl (StorageFailure err))
         | (s', Inr vid) \<Rightarrow> if \<not> py_truthy vid then undo_unversioned st s' key else (s', Inr (key, the_str vid)))
      else (case save_file st s key data of
          (s', Inl err) \<Rightarrow> (s', Inl (StorageFailure err))
        | (s', Inr name) \<Rightarrow> (s', Inr (name, []))))"

definition delete_pending_photo :: "'s photo_storage \<Rightarrow> 's \<Rightarrow> string \<Rightarrow> string \<Rightarrow> 's \<times> unit result" where
  "delete_pending_photo st s key version =
     (if key = [] then (s, Inr ())
      else if is_s3 st then
        (if version = [] then (s, Inl PhotoVersionMissing)
         else (case delete_object st s key version of
             (s', Inl err) \<Rightarrow> (s', Inl (StorageFailure err)) | (s', Inr _) \<Rightarrow> (s', Inr ())))
      else (case delete_file st s key of
          (s', Inl err) \<Rightarrow> (s', Inl (StorageFailure err)) | (s', Inr _) \<Rightarrow> (s', Inr ())))"

section \<open>Deleting photos\<close>

definition queue_photo_deletion :: "env \<Rightarrow> ('s, 'z) gdb \<Rightarrow> pk \<Rightarrow> photo_row \<Rightarrow> (pk \<times> ('s, 'z) gdb) result" where
  "queue_photo_deletion env db k photo =
     (if t_exists (\<lambda>_ d. pd_storage_key d = ph_storage_key photo) (photo_deletions db)
      then Inl (IntegrityError ''gate_photodeletion_storage_key_key'')
      else Inr (next_pk (photo_deletions db),
        db \<lparr> photo_deletions := t_insert \<lparr> pd_storage_key = ph_storage_key photo,
               pd_provider_version_id = ph_provider_version_id photo, pd_created_at = now env \<rparr> (photo_deletions db),
             pending_photos := t_delete (\<lambda>i _. i = k) (pending_photos db) \<rparr>))"

definition process_photo_deletion :: "'s photo_storage \<Rightarrow> pk \<Rightarrow> ('s, 'z) gdb \<Rightarrow> bool \<times> ('s, 'z) gdb" where
  "process_photo_deletion st deletion_id db =
     (case t_get (photo_deletions db) deletion_id of
        None \<Rightarrow> (True, db)
      | Some d \<Rightarrow>
          (case delete_pending_photo st (photo_objects db) (pd_storage_key d) (pd_provider_version_id d) of
             (s', Inl _) \<Rightarrow> (False, db \<lparr> photo_objects := s' \<rparr>)
           | (s', Inr _) \<Rightarrow> (True, db \<lparr> photo_objects := s',
               photo_deletions := t_delete (\<lambda>i _. i = deletion_id) (photo_deletions db) \<rparr>)))"

fun process_each :: "'s photo_storage \<Rightarrow> pk list \<Rightarrow> ('s, 'z) gdb \<Rightarrow> nat \<times> ('s, 'z) gdb" where
  "process_each st [] db = (0, db)"
| "process_each st (k # ks) db =
     (let (done, db1) = process_photo_deletion st k db; (n, db2) = process_each st ks db1 in
      ((if done then 1 else 0) + n, db2))"

definition process_photo_deletions :: "'s photo_storage \<Rightarrow> ('s, 'z) gdb \<Rightarrow> nat \<times> ('s, 'z) gdb" where
  "process_photo_deletions st db = process_each st (map fst (table_rows (photo_deletions db))) db"

text \<open>
  A transaction that may drop one photo: its rows are committed together, then the callback removes the object;
  when the body raises, nothing of it remains.
\<close>

definition committed ::
  "'s photo_storage \<Rightarrow> ('s, 'z) gdb \<Rightarrow> (pk option \<times> ('s, 'z) gdb) result \<Rightarrow> ('s, 'z) gdb \<times> unit result" where
  "committed st db body =
     (case body of
        Inl e \<Rightarrow> (db, Inl e)
      | Inr (None, db1) \<Rightarrow> (db1, Inr ())
      | Inr (Some deletion, db1) \<Rightarrow> (snd (process_photo_deletion st deletion db1), Inr ()))"

definition drop_photo :: "env \<Rightarrow> ('s, 'z) gdb \<Rightarrow> pk \<Rightarrow> (pk option \<times> ('s, 'z) gdb) result" where
  "drop_photo env db enrollment =
     (case t_first (\<lambda>_ p. ph_enrollment p = enrollment) (pending_photos db) of
        None \<Rightarrow> Inr (None, db)
      | Some (k, photo) \<Rightarrow> (case queue_photo_deletion env db k photo of
            Inl e \<Rightarrow> Inl e | Inr (d, db1) \<Rightarrow> Inr (Some d, db1)))"

section \<open>Enrolling a face\<close>

definition ALLOWED_IMAGE_TYPES :: "string set" where "ALLOWED_IMAGE_TYPES = {''image/jpeg'', ''image/png''}"

definition get_or_create_enrollment :: "env \<Rightarrow> ('s, 'z) gdb \<Rightarrow> pk \<Rightarrow> pk \<times> ('s, 'z) gdb" where
  "get_or_create_enrollment env db occupancy =
     (case t_first (\<lambda>_ f. fa_occupancy f = occupancy) (face_enrollments db) of
        Some (k, _) \<Rightarrow> (k, db)
      | None \<Rightarrow> (next_pk (face_enrollments db),
          db \<lparr> face_enrollments := t_insert \<lparr> fa_occupancy = occupancy, fa_embedding = None, fa_model_name = [],
            fa_model_version = [], fa_status = RvPending, fa_submitted_at = now env, fa_reviewed_by = None,
            fa_reviewed_at = None, fa_review_note = [] \<rparr> (face_enrollments db) \<rparr>))"

text \<open>The transaction of \<open>submit_face_enrollment\<close>: the enrolment, the photo it had to be deleted, and the new rows.\<close>

definition enroll_face ::
  "env \<Rightarrow> gate_env \<Rightarrow> ('s, 'z) gdb \<Rightarrow> pk \<Rightarrow> vector \<times> string \<times> string \<Rightarrow> string \<Rightarrow> string \<Rightarrow> string \<Rightarrow> nat \<Rightarrow>
     (pk option \<times> ('s, 'z) gdb) result" where
  "enroll_face env ge db occupancy embedding key version content_type bytes =
     (let (v, name, ver) = embedding; (k, db1) = get_or_create_enrollment env db occupancy in
      case drop_photo env db1 k of
        Inl e \<Rightarrow> Inl e
      | Inr (d, db2) \<Rightarrow>
          (case seal_embedding ge v of
             Inl e \<Rightarrow> Inl e
           | Inr sealed \<Rightarrow>
               if t_exists (\<lambda>_ p. ph_storage_key p = key) (pending_photos db2)
               then Inl (IntegrityError ''gate_pendingenrollmentphoto_storage_key_key'')
               else if t_exists (\<lambda>_ p. ph_enrollment p = k) (pending_photos db2)
               then Inl (IntegrityError ''gate_pendingenrollmentphoto_enrollment_id_key'')
               else Inr (d, db2 \<lparr>
                 face_enrollments := t_update k (\<lambda>f. f \<lparr> fa_embedding := Some sealed, fa_model_name := name,
                   fa_model_version := ver, fa_status := RvPending, fa_submitted_at := now env, fa_reviewed_by := None,
                   fa_reviewed_at := None, fa_review_note := [] \<rparr>) (face_enrollments db2),
                 pending_photos := t_insert \<lparr> ph_enrollment = k, ph_storage_key = key, ph_provider_version_id = version,
                   ph_content_type = content_type, ph_byte_size = bytes, ph_created_at = now env,
                   ph_expires_at = now env + hours (GATE_ENROLLMENT_PHOTO_TTL_HOURS ge) \<rparr> (pending_photos db2) \<rparr>)))"

definition submit_face_enrollment ::
  "env \<Rightarrow> gate_env \<Rightarrow> 's photo_storage \<Rightarrow> (string \<Rightarrow> exn + bool) \<Rightarrow> ('s, 'z) gdb \<Rightarrow> pk \<Rightarrow> string \<Rightarrow> string \<Rightarrow>
     ('s, 'z) gdb \<times> unit result" where
  "submit_face_enrollment env ge st scanner db occupancy content_type data =
     (if content_type \<notin> ALLOWED_IMAGE_TYPES then (db, Inl PhotoRejected)
      else if length data > GATE_MAX_FACE_UPLOAD_BYTES ge \<or> data = [] then (db, Inl PhotoRejected)
      else (case scanner data of
          Inl e \<Rightarrow> (db, Inl e)
        | Inr clean \<Rightarrow>
            if \<not> clean then (db, Inl PhotoRejected)
            else (case embed ge data of
                Inl e \<Rightarrow> (db, Inl e)
              | Inr embedding \<Rightarrow>
                  (case store_pending_photo ge st (photo_objects db) data content_type of
                     (s1, Inl e) \<Rightarrow> (db \<lparr> photo_objects := s1 \<rparr>, Inl e)
                   | (s1, Inr (key, version)) \<Rightarrow>
                       (let db1 = db \<lparr> photo_objects := s1 \<rparr> in
                        case committed st db1 (enroll_face env ge db1 occupancy embedding key version content_type (length data)) of
                          (db2, Inr _) \<Rightarrow> (db2, Inr ())
                        | (db2, Inl e) \<Rightarrow>
                            (case delete_pending_photo st (photo_objects db2) key version of
                               (s2, Inl e2) \<Rightarrow> (db2 \<lparr> photo_objects := s2 \<rparr>, Inl e2)
                             | (s2, Inr _) \<Rightarrow> (db2 \<lparr> photo_objects := s2 \<rparr>, Inl e)))))))"

definition revoke_face_enrollment :: "env \<Rightarrow> 's photo_storage \<Rightarrow> ('s, 'z) gdb \<Rightarrow> pk \<Rightarrow> ('s, 'z) gdb \<times> unit result" where
  "revoke_face_enrollment env st db occupancy =
     committed st db
       (case t_first (\<lambda>_ f. fa_occupancy f = occupancy) (face_enrollments db) of
          None \<Rightarrow> Inr (None, db)
        | Some (k, _) \<Rightarrow> (case drop_photo env db k of
              Inl e \<Rightarrow> Inl e
            | Inr (d, db1) \<Rightarrow> Inr (d, db1 \<lparr>
                face_enrollments := t_delete (\<lambda>i _. i = k) (face_enrollments db1),
                pending_photos := t_delete (\<lambda>_ p. ph_enrollment p = k) (pending_photos db1) \<rparr>)))"

section \<open>Reviewing a face\<close>

definition enrollment_building :: "('s, 'z) gdb \<Rightarrow> face_row \<Rightarrow> pk result" where
  "enrollment_building db snap =
     (case t_get (occupancies db) (fa_occupancy snap) of
        None \<Rightarrow> Inl DoesNotExist
      | Some oc \<Rightarrow> (case t_get (units db) (oc_unit oc) of None \<Rightarrow> Inl DoesNotExist | Some u \<Rightarrow> Inr (un_building u)))"

definition may_review :: "('s, 'z) gdb \<Rightarrow> face_row \<Rightarrow> membership_row \<Rightarrow> unit result" where
  "may_review db snap membership =
     (case enrollment_building db snap of Inl e \<Rightarrow> Inl e | Inr b \<Rightarrow> assert_manages membership b)"

definition approve_face ::
  "env \<Rightarrow> 's photo_storage \<Rightarrow> ('s, 'z) gdb \<Rightarrow> pk \<Rightarrow> face_row \<Rightarrow> membership_row \<Rightarrow> ('s, 'z) gdb \<times> unit result" where
  "approve_face env st db k snap membership =
     committed st db
       (case may_review db snap membership of
          Inl e \<Rightarrow> Inl e
        | Inr _ \<Rightarrow>
            (case t_get (face_enrollments db) k of
               None \<Rightarrow> Inl DoesNotExist
             | Some f \<Rightarrow>
                 if fa_status f \<noteq> RvPending then Inl ReviewNotPossible
                 else if fa_embedding f = None then Inl ReviewNotPossible
                 else if \<not> t_exists (\<lambda>_ p. ph_enrollment p = k) (pending_photos db) then Inl ReviewNotPossible
                 else drop_photo env (db \<lparr> face_enrollments := t_update k (\<lambda>f. f \<lparr> fa_status := RvApproved,
                   fa_reviewed_by := Some (mb_user membership), fa_reviewed_at := Some (now env), fa_review_note := [] \<rparr>)
                   (face_enrollments db) \<rparr>) k))"

definition close_face ::
  "env \<Rightarrow> 's photo_storage \<Rightarrow> ('s, 'z) gdb \<Rightarrow> pk \<Rightarrow> membership_row \<Rightarrow> string \<Rightarrow> ('s, 'z) gdb \<times> unit result" where
  "close_face env st db k membership reason =
     committed st db
       (case t_get (face_enrollments db) k of
          None \<Rightarrow> Inl DatabaseError
        | Some _ \<Rightarrow> drop_photo env (db \<lparr> face_enrollments := t_update k (\<lambda>f. f \<lparr> fa_status := RvRejected,
            fa_embedding := None, fa_reviewed_by := Some (mb_user membership), fa_reviewed_at := Some (now env),
            fa_review_note := py_take 255 reason \<rparr>) (face_enrollments db) \<rparr>) k)"

definition reject_face ::
  "env \<Rightarrow> 's photo_storage \<Rightarrow> ('s, 'z) gdb \<Rightarrow> pk \<Rightarrow> face_row \<Rightarrow> membership_row \<Rightarrow> string option \<Rightarrow> ('s, 'z) gdb \<times> unit result" where
  "reject_face env st db k snap membership reason =
     (case may_review db snap membership of
        Inl e \<Rightarrow> (db, Inl e)
      | Inr _ \<Rightarrow>
          (let reason1 = py_strip (case reason of None \<Rightarrow> [] | Some s \<Rightarrow> s) in
           if reason1 = [] then (db, Inl ReviewNotPossible)
           else if fa_status snap \<notin> {RvPending, RvApproved} then (db, Inl ReviewNotPossible)
           else close_face env st db k membership reason1))"

definition revoke_face ::
  "env \<Rightarrow> 's photo_storage \<Rightarrow> ('s, 'z) gdb \<Rightarrow> pk \<Rightarrow> face_row \<Rightarrow> membership_row \<Rightarrow> ('s, 'z) gdb \<times> unit result" where
  "revoke_face env st db k snap membership =
     (case may_review db snap membership of
        Inl e \<Rightarrow> (db, Inl e)
      | Inr _ \<Rightarrow> close_face env st db k membership ''Revoked by management.'')"

section \<open>Retention\<close>

definition purge_expired_gate_events :: "env \<Rightarrow> gate_env \<Rightarrow> ('s, 'z) gdb \<Rightarrow> nat \<times> ('s, 'z) gdb" where
  "purge_expired_gate_events env ge db =
     (let old = (\<lambda>_ e. ge_occurred_at e < now env - hours (GATE_EVENT_RETENTION_HOURS ge)) in
      (length (t_filter old (gate_events db)), db \<lparr> gate_events := t_delete old (gate_events db) \<rparr>))"

definition expire_photo :: "env \<Rightarrow> 's photo_storage \<Rightarrow> ('s, 'z) gdb \<Rightarrow> pk \<Rightarrow> ('s, 'z) gdb \<times> unit result" where
  "expire_photo env st db enrollment =
     committed st db
       (case t_get (face_enrollments db) enrollment of
          None \<Rightarrow> Inl DoesNotExist
        | Some f \<Rightarrow>
            (case t_first (\<lambda>_ p. ph_enrollment p = enrollment \<and> ph_expires_at p \<le> now env) (pending_photos db) of
               None \<Rightarrow> Inr (None, db)
             | Some (k, photo) \<Rightarrow>
                 (let db1 = (if fa_status f = RvPending
                        then db \<lparr> face_enrollments := t_update enrollment (\<lambda>f. f \<lparr> fa_status := RvExpired, fa_embedding := None \<rparr>)
                               (face_enrollments db) \<rparr>
                        else db) in
                  case queue_photo_deletion env db1 k photo of Inl e \<Rightarrow> Inl e | Inr (d, db2) \<Rightarrow> Inr (Some d, db2))))"

fun expire_photos :: "env \<Rightarrow> 's photo_storage \<Rightarrow> pk list \<Rightarrow> ('s, 'z) gdb \<Rightarrow> ('s, 'z) gdb \<times> unit result" where
  "expire_photos env st [] db = (db, Inr ())"
| "expire_photos env st (e # es) db =
     (case expire_photo env st db e of
        (db1, Inl err) \<Rightarrow> (db1, Inl err)
      | (db1, Inr _) \<Rightarrow> expire_photos env st es db1)"

definition purge_expired_enrollment_photos ::
  "env \<Rightarrow> 's photo_storage \<Rightarrow> ('s, 'z) gdb \<Rightarrow> ('s, 'z) gdb \<times> nat result" where
  "purge_expired_enrollment_photos env st db =
     (let expired = map (\<lambda>(_, p). ph_enrollment p) (t_filter (\<lambda>_ p. ph_expires_at p \<le> now env) (pending_photos db)) in
      case expire_photos env st expired db of
        (db1, Inl e) \<Rightarrow> (db1, Inl e)
      | (db1, Inr _) \<Rightarrow> (snd (process_photo_deletions st db1), Inr (length expired)))"

definition record_purge_success :: "env \<Rightarrow> ('s, 'z) gdb \<Rightarrow> nat \<Rightarrow> nat \<Rightarrow> ('s, 'z) gdb" where
  "record_purge_success env db events photos =
     (let row = \<lparr> hb_last_success_at = now env, hb_events_deleted = events, hb_photos_deleted = photos \<rparr> in
      case table_rows (heartbeats db) of
        [] \<Rightarrow> db \<lparr> heartbeats := t_insert row (heartbeats db) \<rparr>
      | (k, _) # _ \<Rightarrow> db \<lparr> heartbeats := t_update k (\<lambda>_. row) (heartbeats db) \<rparr>)"

definition PURGE_STALE_AFTER_HOURS :: int where "PURGE_STALE_AFTER_HOURS = 2"

definition purge_is_stale :: "env \<Rightarrow> ('s, 'z) gdb \<Rightarrow> bool" where
  "purge_is_stale env db \<longleftrightarrow>
     list_all (\<lambda>(_, h). hb_last_success_at h < now env - hours PURGE_STALE_AFTER_HOURS) (table_rows (heartbeats db))"

definition purge_gate_data :: "env \<Rightarrow> gate_env \<Rightarrow> 's photo_storage \<Rightarrow> ('s, 'z) gdb \<Rightarrow> ('s, 'z) gdb \<times> (nat \<times> nat) result" where
  "purge_gate_data env ge st db =
     (let (events, db1) = purge_expired_gate_events env ge db in
      case purge_expired_enrollment_photos env st db1 of
        (db2, Inl _) \<Rightarrow> (db2, Inl CommandError)
      | (db2, Inr photos) \<Rightarrow>
          (let db3 = snd (process_photo_deletions st db2) in
           if table_rows (photo_deletions db3) \<noteq> [] then (db3, Inl CommandError)
           else (record_purge_success env db3 events photos, Inr (events, photos))))"

end
