(* ===== verification/Gate_Site.thy ===== *)
theory Gate_Site
  imports Enrollment
begin

text \<open>
  What the gate keeps through every operation: the invariant of its tables, the accounting of stored photos
  against their rows, and the fate of credentials; then recognition and retention.
\<close>

section \<open>The invariant\<close>

definition plate_text_ok :: "string \<Rightarrow> bool" where
  "plate_text_ok s \<longleftrightarrow> MIN_LENGTH \<le> length s \<and> length s \<le> MAX_LENGTH \<and> list_all is_plate_char s"

definition plates_ok :: "plate_row table \<Rightarrow> bool" where
  "plates_ok t \<longleftrightarrow> t_ok t \<and> unique_on plate_owner_key t \<and> unique_on approved_key t
     \<and> (\<forall>k p. t_get t k = Some p \<longrightarrow> plate_text_ok (vp_plate p))"

definition has_photo :: "photo_row table \<Rightarrow> pk \<Rightarrow> bool" where
  "has_photo pt k \<longleftrightarrow> (\<exists>i p. t_get pt i = Some p \<and> ph_enrollment p = k)"

text \<open>A photo exists exactly while its enrolment is pending, a vector exactly while it is pending or approved.\<close>

definition face_ok :: "photo_row table \<Rightarrow> pk \<Rightarrow> face_row \<Rightarrow> bool" where
  "face_ok pt k f \<longleftrightarrow> (fa_status f = RvPending \<longleftrightarrow> has_photo pt k)
     \<and> (fa_embedding f \<noteq> None \<longleftrightarrow> fa_status f = RvPending \<or> fa_status f = RvApproved)"

text \<open>The invariant of enrolments and photos, but for the enrolment an operation is about to finish.\<close>

definition faces_part :: "pk option \<Rightarrow> face_row table \<Rightarrow> photo_row table \<Rightarrow> bool" where
  "faces_part x ft pt \<longleftrightarrow> t_ok ft \<and> t_ok pt
     \<and> unique_on (\<lambda>f. Some (fa_occupancy f)) ft
     \<and> unique_on (\<lambda>p. Some (ph_enrollment p)) pt \<and> unique_on (\<lambda>p. Some (ph_storage_key p)) pt
     \<and> (\<forall>i p. t_get pt i = Some p \<longrightarrow> t_get ft (ph_enrollment p) \<noteq> None)
     \<and> (\<forall>k f. x \<noteq> Some k \<longrightarrow> t_get ft k = Some f \<longrightarrow> face_ok pt k f)"

definition queue_row_ok :: "deletion_row table \<Rightarrow> bool" where
  "queue_row_ok t \<longleftrightarrow> t_ok t \<and> unique_on (\<lambda>d. Some (pd_storage_key d)) t"

definition creds_ok :: "credential_row table \<Rightarrow> bool" where
  "creds_ok t \<longleftrightarrow> t_ok t \<and> unique_on (\<lambda>c. Some (gc_token_sha256 c)) t"

definition gate_ok :: "('s, 'z) gdb \<Rightarrow> bool" where
  "gate_ok db \<longleftrightarrow> plates_ok (vehicle_plates db) \<and> faces_part None (face_enrollments db) (pending_photos db)
     \<and> queue_row_ok (photo_deletions db) \<and> creds_ok (gate_credentials db) \<and> t_ok (gate_events db)"

section \<open>Plates\<close>

lemma normalize_plate_ok: "normalize_plate ge raw = Inr s \<Longrightarrow> plate_text_ok s"
  by (auto simp: normalize_plate_def plate_text_ok_def Let_def list_all_iff split: if_splits)

lemma unique_on_put:
  assumes "unique_on key t" "\<And>x. key r = Some x \<Longrightarrow> \<not> t_exists (\<lambda>i y. i \<noteq> k \<and> key y = Some x) t" "t_ok t"
  shows "unique_on key (t_update k (\<lambda>_. r) t)"
proof (rule unique_onI)
  fix i j a b x
  assume h: "t_get (t_update k (\<lambda>_. r) t) i = Some a" "t_get (t_update k (\<lambda>_. r) t) j = Some b" "key a = Some x" "key b = Some x"
  have other: "i' = k" if "t_get (t_update k (\<lambda>_. r) t) i' = Some a'" "key a' = Some x" "key r = Some x" for i' a'
  proof (rule ccontr)
    assume "i' \<noteq> k"
    then have "t_get t i' = Some a'" using that(1) by (simp add: t_get_update)
    then have "t_exists (\<lambda>i y. i \<noteq> k \<and> key y = Some x) t" using \<open>i' \<noteq> k\<close> that(2) assms(3) by (auto simp: t_exists_iff)
    then show False using assms(2) that(3) by blast
  qed
  show "i = j"
  proof (cases "key r = Some x")
    case True
    then show ?thesis using other [OF h(1,3)] other [OF h(2,4)] by simp
  next
    case False
    then have "t_get t i = Some a" "t_get t j = Some b" using h by (auto simp: t_get_update split: if_splits)
    then show ?thesis using unique_onD [OF assms(1)] h(3,4) by blast
  qed
qed

lemma plates_insert:
  assumes "plates_ok t" "plate_text_ok (vp_plate r)" "vp_status r \<noteq> RvApproved"
    and "\<not> t_exists (\<lambda>_ p. vp_occupancy p = vp_occupancy r \<and> vp_plate p = vp_plate r) t"
  shows "plates_ok (t_insert r t)"
  unfolding plates_ok_def
proof (intro conjI)
  have ok: "t_ok t" using assms(1) by (simp add: plates_ok_def)
  show "t_ok (t_insert r t)" using ok by simp
  show "unique_on plate_owner_key (t_insert r t)"
    using assms(1,4) ok by (auto simp: plates_ok_def plate_owner_key_def intro!: unique_on_insert)
  show "unique_on approved_key (t_insert r t)"
    using assms(1,3) ok by (auto simp: plates_ok_def approved_key_def intro!: unique_on_insert)
  show "\<forall>k p. t_get (t_insert r t) k = Some p \<longrightarrow> plate_text_ok (vp_plate p)"
    using assms(1,2) ok by (auto simp: plates_ok_def t_get_insert)
qed

lemma plates_put:
  assumes "plates_ok t" "t_get t k = Some p" "plate_owner_key r = plate_owner_key p"
    and "approved_key r = None \<or> \<not> t_exists (\<lambda>i q. i \<noteq> k \<and> approved_key q = approved_key r) t"
  shows "plates_ok (t_update k (\<lambda>_. r) t)"
  unfolding plates_ok_def
proof (intro conjI)
  have ok: "t_ok t" using assms(1) by (simp add: plates_ok_def)
  then show "t_ok (t_update k (\<lambda>_. r) t)" by simp
  show "unique_on plate_owner_key (t_update k (\<lambda>_. r) t)"
    by (rule unique_on_update) (use assms(1-3) in \<open>auto simp: plates_ok_def\<close>)
  show "unique_on approved_key (t_update k (\<lambda>_. r) t)"
    by (rule unique_on_put [OF _ _ ok]) (use assms(1,4) in \<open>auto simp: plates_ok_def\<close>)
  have "vp_plate r = vp_plate p" using assms(3) by (simp add: plate_owner_key_def)
  then show "\<forall>i q. t_get (t_update k (\<lambda>_. r) t) i = Some q \<longrightarrow> plate_text_ok (vp_plate q)"
    using assms(1,2) by (auto simp: plates_ok_def t_get_update)
qed

lemma plates_delete: "plates_ok t \<Longrightarrow> plates_ok (t_delete P t)"
  by (auto simp: plates_ok_def t_get_delete intro: unique_on_delete split: option.splits if_splits)

lemma submit_plate_plates:
  assumes "submit_plate env ge db oc raw = Inr (k, db')" "plates_ok (vehicle_plates db)"
  shows "\<exists>t. db' = db \<lparr> vehicle_plates := t \<rparr> \<and> plates_ok t"
proof -
  let ?t = "vehicle_plates db"
  obtain plate where n: "normalize_plate ge raw = Inr plate" using assms(1) by (auto simp: submit_plate_def split: sum.splits)
  obtain u where u: "map_option (\<lambda>o'. t_get (units db) (oc_unit o')) (t_get (occupancies db) oc) = Some (Some u)"
    using assms(1) n by (auto simp: submit_plate_def split: option.splits)
  have same: "\<exists>t. db = db \<lparr> vehicle_plates := t \<rparr> \<and> plates_ok t" using assms(2) by (intro exI [of _ ?t]) simp
  note r = assms(1) [unfolded submit_plate_def n sum.case u option.case, unfolded if_split_eq1]
  show ?thesis
  proof (cases "t_first (\<lambda>_ p. vp_occupancy p = oc \<and> vp_plate p = plate) ?t")
    case None
    let ?r = "\<lparr> vp_occupancy = oc, vp_building = un_building u, vp_plate = plate, vp_status = RvPending, vp_submitted_at = now env,
      vp_reviewed_by = None, vp_reviewed_at = None, vp_review_note = [] \<rparr>"
    have "plates_ok (t_insert ?r ?t)"
      by (rule plates_insert [OF assms(2)]) (use None normalize_plate_ok [OF n] in \<open>simp_all add: t_exists_first\<close>)
    then show ?thesis using r None by auto
  next
    case (Some x)
    obtain i p where x: "x = (i, p)" by (cases x)
    have g: "t_get ?t i = Some p" using Some x assms(2) by (auto simp: plates_ok_def dest: t_first_Some_get)
    let ?r = "p \<lparr> vp_status := RvPending, vp_reviewed_by := None, vp_reviewed_at := None, vp_review_note := [], vp_submitted_at := now env \<rparr>"
    have "plates_ok (t_update i (\<lambda>_. ?r) ?t)"
      by (rule plates_put [OF assms(2) g]) (simp_all add: plate_owner_key_def approved_key_def)
    then show ?thesis using r Some x same by (cases "vp_status p = RvRejected") auto
  qed
qed

lemma save_plate_review_plates:
  assumes "save_plate_review db k st u t n = Inr db'" "plates_ok (vehicle_plates db)"
  shows "\<exists>t. db' = db \<lparr> vehicle_plates := t \<rparr> \<and> plates_ok t"
  using assms(1)
  by (auto simp: save_plate_review_def Let_def plate_owner_key_def intro!: exI plates_put [OF assms(2)]
      split: option.splits if_splits)

section \<open>Enrolments and photos\<close>

lemma faces_part_weaken: "faces_part None ft pt \<Longrightarrow> faces_part x ft pt"
  by (simp add: faces_part_def)

lemma faces_part_finish:
  assumes "faces_part (Some k) ft pt" "\<And>f. t_get ft k = Some f \<Longrightarrow> face_ok pt k f"
  shows "faces_part None ft pt"
proof -
  have "face_ok pt i f" if "t_get ft i = Some f" for i f
    using assms that by (cases "i = k") (simp_all add: faces_part_def)
  then show ?thesis using assms(1) by (simp add: faces_part_def)
qed

lemma faces_part_ok: "faces_part x ft pt \<Longrightarrow> t_ok ft" "faces_part x ft pt \<Longrightarrow> t_ok pt"
  by (simp_all add: faces_part_def)

lemma faces_update:
  assumes "faces_part (Some k) ft pt" "\<And>f. fa_occupancy (g f) = fa_occupancy f"
  shows "faces_part (Some k) (t_update k g ft) pt"
  unfolding faces_part_def
proof (intro conjI allI impI)
  note a = assms(1) [unfolded faces_part_def]
  show "t_ok (t_update k g ft)" "t_ok pt" "unique_on (\<lambda>p. Some (ph_enrollment p)) pt" "unique_on (\<lambda>p. Some (ph_storage_key p)) pt"
    using a by simp_all
  show "unique_on (\<lambda>f. Some (fa_occupancy f)) (t_update k g ft)" by (rule unique_on_update) (use a assms(2) in simp_all)
  show "t_get (t_update k g ft) (ph_enrollment p) \<noteq> None" if "t_get pt i = Some p" for i p
    using a that by (auto simp: t_get_update)
  show "face_ok pt i f" if "Some k \<noteq> Some i" "t_get (t_update k g ft) i = Some f" for i f
    using a that by (simp add: t_get_update)
qed

lemma has_photo_delete:
  assumes "t_ok pt" "t_get pt i = Some p" "ph_enrollment p = k" "unique_on (\<lambda>p. Some (ph_enrollment p)) pt"
  shows "has_photo (t_delete (\<lambda>j _. j = i) pt) j \<longleftrightarrow> has_photo pt j \<and> j \<noteq> k"
proof -
  have "i' = i" if "t_get pt i' = Some p'" "ph_enrollment p' = k" for i' p'
    using unique_onD [OF assms(4) that(1) assms(2)] that(2) assms(3) by blast
  then show ?thesis using assms(2,3) unfolding has_photo_def dtbl.delete_keeps [OF assms(1)]
    by (metis option.inject)
qed

lemma faces_drop:
  assumes "faces_part (Some k) ft pt" "t_get pt i = Some p" "ph_enrollment p = k"
  shows "faces_part (Some k) ft (t_delete (\<lambda>j _. j = i) pt)" "\<not> has_photo (t_delete (\<lambda>j _. j = i) pt) k"
proof -
  note a = assms(1) [unfolded faces_part_def]
  have ok: "t_ok pt" using a by simp
  note hp = has_photo_delete [OF ok assms(2,3)]
  show "\<not> has_photo (t_delete (\<lambda>j _. j = i) pt) k" using hp a by blast
  show "faces_part (Some k) ft (t_delete (\<lambda>j _. j = i) pt)"
    unfolding faces_part_def
  proof (intro conjI allI impI)
    show "t_ok ft" "t_ok (t_delete (\<lambda>j _. j = i) pt)" "unique_on (\<lambda>f. Some (fa_occupancy f)) ft" using a by simp_all
    show "unique_on (\<lambda>p. Some (ph_enrollment p)) (t_delete (\<lambda>j _. j = i) pt)"
      "unique_on (\<lambda>p. Some (ph_storage_key p)) (t_delete (\<lambda>j _. j = i) pt)"
      using a by (simp_all add: unique_on_delete)
    show "t_get ft (ph_enrollment q) \<noteq> None" if "t_get (t_delete (\<lambda>j _. j = i) pt) j = Some q" for j q
      using a that by (auto simp: dtbl.delete_keeps [OF ok])
    show "face_ok (t_delete (\<lambda>j _. j = i) pt) j f" if "Some k \<noteq> Some j" "t_get ft j = Some f" for j f
      using a that hp by (simp add: face_ok_def)
  qed
qed

lemma faces_insert:
  assumes "faces_part None ft pt" "\<not> t_exists (\<lambda>_ f. fa_occupancy f = fa_occupancy r) ft"
  shows "faces_part (Some (next_pk ft)) (t_insert r ft) pt" "\<not> has_photo pt (next_pk ft)"
proof -
  note a = assms(1) [unfolded faces_part_def]
  have ok: "t_ok ft" using a by simp
  then show "\<not> has_photo pt (next_pk ft)" using a t_get_fresh [OF ok] by (force simp: has_photo_def)
  show "faces_part (Some (next_pk ft)) (t_insert r ft) pt"
    unfolding faces_part_def
  proof (intro conjI allI impI)
    show "t_ok (t_insert r ft)" "t_ok pt" "unique_on (\<lambda>p. Some (ph_enrollment p)) pt" "unique_on (\<lambda>p. Some (ph_storage_key p)) pt"
      using a by simp_all
    show "unique_on (\<lambda>f. Some (fa_occupancy f)) (t_insert r ft)"
      by (rule unique_on_insert) (use a assms(2) in simp_all)
    show "t_get (t_insert r ft) (ph_enrollment p) \<noteq> None" if "t_get pt i = Some p" for i p
      using a that by (simp add: t_get_insert [OF ok])
    show "face_ok pt i f" if "Some (next_pk ft) \<noteq> Some i" "t_get (t_insert r ft) i = Some f" for i f
      using a that by (auto simp: t_get_insert [OF ok])
  qed
qed

lemma faces_add_photo:
  assumes "faces_part (Some k) ft pt" "t_get ft k \<noteq> None" "\<not> has_photo pt k" "ph_enrollment p = k"
    and "\<not> t_exists (\<lambda>_ q. ph_storage_key q = ph_storage_key p) pt"
  shows "faces_part (Some k) ft (t_insert p pt)" "has_photo (t_insert p pt) k"
proof -
  note a = assms(1) [unfolded faces_part_def]
  have ok: "t_ok pt" using a by simp
  show "has_photo (t_insert p pt) k" using assms(4) by (auto simp: has_photo_def t_get_insert [OF ok])
  have hp: "has_photo (t_insert p pt) j \<longleftrightarrow> has_photo pt j" if "j \<noteq> k" for j
  proof
    assume "has_photo (t_insert p pt) j"
    then show "has_photo pt j" using that assms(4) by (auto simp: has_photo_def t_get_insert [OF ok] split: if_splits)
  next
    assume "has_photo pt j"
    then show "has_photo (t_insert p pt) j" unfolding has_photo_def by (metis t_get_insert_old)
  qed
  show "faces_part (Some k) ft (t_insert p pt)"
    unfolding faces_part_def
  proof (intro conjI allI impI)
    show "t_ok ft" "t_ok (t_insert p pt)" "unique_on (\<lambda>f. Some (fa_occupancy f)) ft" using a by simp_all
    show "unique_on (\<lambda>p. Some (ph_enrollment p)) (t_insert p pt)"
      by (rule unique_on_insert) (use a assms(3,4) in \<open>auto simp: t_exists_iff has_photo_def\<close>)
    show "unique_on (\<lambda>p. Some (ph_storage_key p)) (t_insert p pt)"
      by (rule unique_on_insert) (use a assms(5) in simp_all)
    show "t_get ft (ph_enrollment q) \<noteq> None" if "t_get (t_insert p pt) i = Some q" for i q
      using a that assms(2,4) by (auto simp: t_get_insert [OF ok] split: if_splits)
    show "face_ok (t_insert p pt) j f" if "Some k \<noteq> Some j" "t_get ft j = Some f" for j f
      using a that hp [of j] by (simp add: face_ok_def)
  qed
qed

lemma faces_remove:
  assumes "faces_part (Some k) ft pt" "\<not> has_photo pt k"
  shows "faces_part None (t_delete (\<lambda>i _. i = k) ft) pt" "t_delete (\<lambda>_ p. ph_enrollment p = k) pt = pt"
proof -
  note a = assms(1) [unfolded faces_part_def]
  have ok: "t_ok ft" "t_ok pt" using a by simp_all
  show "faces_part None (t_delete (\<lambda>i _. i = k) ft) pt"
    unfolding faces_part_def
  proof (intro conjI allI impI)
    show "t_ok (t_delete (\<lambda>i _. i = k) ft)" "t_ok pt" "unique_on (\<lambda>p. Some (ph_enrollment p)) pt" "unique_on (\<lambda>p. Some (ph_storage_key p)) pt"
      using a by simp_all
    show "unique_on (\<lambda>f. Some (fa_occupancy f)) (t_delete (\<lambda>i _. i = k) ft)" using a by (simp add: unique_on_delete)
    show "t_get (t_delete (\<lambda>i _. i = k) ft) (ph_enrollment p) \<noteq> None" if "t_get pt i = Some p" for i p
      using a that assms(2) by (auto simp: t_get_delete [OF ok(1)] has_photo_def split: option.splits)
    show "face_ok pt i f" if "t_get (t_delete (\<lambda>i _. i = k) ft) i = Some f" for i f
      using a that by (auto simp: dtbl.delete_keeps [OF ok(1)])
  qed
  have "filter (\<lambda>(_, p). ph_enrollment p \<noteq> k) (table_rows pt) = table_rows pt"
    using assms(2) in_rows_get [OF ok(2)] by (auto simp: filter_id_conv has_photo_def)
  then show "t_delete (\<lambda>_ p. ph_enrollment p = k) pt = pt" by (simp add: t_delete_def)
qed

text \<open>The stored objects the rows name: photos under review and photos waiting to be deleted.\<close>

definition photo_ref :: "photo_row \<Rightarrow> string \<times> string" where
  "photo_ref p = (ph_storage_key p, ph_provider_version_id p)"

definition deletion_ref :: "deletion_row \<Rightarrow> string \<times> string" where
  "deletion_ref d = (pd_storage_key d, pd_provider_version_id d)"

definition listed :: "photo_row table \<Rightarrow> deletion_row table \<Rightarrow> (string \<times> string) set" where
  "listed pt dt = photo_ref ` ran (t_get pt) \<union> deletion_ref ` ran (t_get dt)"

lemma ran_insert: "t_ok t \<Longrightarrow> ran (t_get (t_insert r t)) = insert r (ran (t_get t))"
  using t_get_fresh [of t "next_pk t"] by (auto simp: ran_def t_get_insert split: if_splits) (metis option.distinct(1))

lemma ran_delete_one: "t_ok t \<Longrightarrow> t_get t i = Some r \<Longrightarrow> insert r (ran (t_get (t_delete (\<lambda>j _. j = i) t))) = ran (t_get t)"
  by (auto simp: ran_def dtbl.delete_keeps)

lemma listed_queued:
  assumes "t_ok pt" "t_ok dt" "t_get pt i = Some p" "deletion_ref d = photo_ref p"
  shows "listed (t_delete (\<lambda>j _. j = i) pt) (t_insert d dt) = listed pt dt"
  using ran_delete_one [OF assms(1,3), symmetric] assms(4) by (simp add: listed_def ran_insert [OF assms(2)])

lemma queue_photo_deletion_rows:
  assumes "queue_photo_deletion env db i p = Inr (d, db1)" "queue_row_ok (photo_deletions db)" "t_ok (pending_photos db)"
    and "t_get (pending_photos db) i = Some p"
  obtains dt where "db1 = db \<lparr> photo_deletions := dt, pending_photos := t_delete (\<lambda>j _. j = i) (pending_photos db) \<rparr>"
    "queue_row_ok dt" "listed (t_delete (\<lambda>j _. j = i) (pending_photos db)) dt = listed (pending_photos db) (photo_deletions db)"
proof -
  let ?d = "\<lparr> pd_storage_key = ph_storage_key p, pd_provider_version_id = ph_provider_version_id p, pd_created_at = now env \<rparr>"
  have free: "\<not> t_exists (\<lambda>_ d. pd_storage_key d = ph_storage_key p) (photo_deletions db)"
    and db1: "db1 = db \<lparr> photo_deletions := t_insert ?d (photo_deletions db), pending_photos := t_delete (\<lambda>j _. j = i) (pending_photos db) \<rparr>"
    using assms(1) by (simp_all add: queue_photo_deletion_def split: if_splits)
  have ok: "t_ok (photo_deletions db)" using assms(2) by (simp add: queue_row_ok_def)
  have "unique_on (\<lambda>d. Some (pd_storage_key d)) (t_insert ?d (photo_deletions db))"
    by (rule unique_on_insert) (use assms(2) free in \<open>simp_all add: queue_row_ok_def\<close>)
  then have "queue_row_ok (t_insert ?d (photo_deletions db))" using ok by (simp add: queue_row_ok_def)
  then show thesis by (rule that [OF db1]) (rule listed_queued [OF assms(3) ok assms(4)], simp add: photo_ref_def deletion_ref_def)
qed

lemma drop_photo_rows:
  assumes "drop_photo env db k = Inr (d, db1)" "faces_part (Some k) (face_enrollments db) (pending_photos db)"
    and "queue_row_ok (photo_deletions db)"
  obtains pt dt where "db1 = db \<lparr> photo_deletions := dt, pending_photos := pt \<rparr>" "faces_part (Some k) (face_enrollments db) pt"
    "\<not> has_photo pt k" "queue_row_ok dt" "listed pt dt = listed (pending_photos db) (photo_deletions db)"
proof (cases "t_first (\<lambda>_ p. ph_enrollment p = k) (pending_photos db)")
  case None
  have ok: "t_ok (pending_photos db)" using assms(2) by (rule faces_part_ok)
  have "\<not> has_photo (pending_photos db) k" using None by (auto simp: t_first_None_iff [OF ok] has_photo_def)
  moreover have "db1 = db \<lparr> photo_deletions := photo_deletions db, pending_photos := pending_photos db \<rparr>"
    using assms(1) None by (simp add: drop_photo_def)
  ultimately show thesis using that assms(2,3) by blast
next
  case (Some x)
  obtain i p where x: "x = (i, p)" by (cases x)
  have ok: "t_ok (pending_photos db)" using assms(2) by (rule faces_part_ok)
  have p: "t_get (pending_photos db) i = Some p" "ph_enrollment p = k" using t_first_Some_get [OF ok] Some x by auto
  obtain d' where "queue_photo_deletion env db i p = Inr (d', db1)"
    using assms(1) Some x by (auto simp: drop_photo_def split: sum.splits)
  from queue_photo_deletion_rows [OF this assms(3) ok p(1)] that faces_drop [OF assms(2) p] show thesis by metis
qed

text \<open>What the body of a transaction on one enrolment leaves.\<close>

definition face_change :: "('s, 'z) gdb \<Rightarrow> ('s, 'z) gdb \<Rightarrow> bool" where
  "face_change db db1 \<longleftrightarrow> (\<exists>ft pt dt. db1 = db \<lparr> face_enrollments := ft, pending_photos := pt, photo_deletions := dt \<rparr>
     \<and> faces_part None ft pt \<and> queue_row_ok dt \<and> listed (pending_photos db) (photo_deletions db) \<subseteq> listed pt dt)"

definition gate_faces_ok :: "('s, 'z) gdb \<Rightarrow> bool" where
  "gate_faces_ok db \<longleftrightarrow> faces_part None (face_enrollments db) (pending_photos db) \<and> queue_row_ok (photo_deletions db)"

lemma face_change_refl: "gate_faces_ok db \<Longrightarrow> face_change db db"
  unfolding face_change_def gate_faces_ok_def
  by (rule exI [of _ "face_enrollments db"], rule exI [of _ "pending_photos db"], rule exI [of _ "photo_deletions db"]) simp

text \<open>An enrolment that is closed or approved loses its photo in the same transaction.\<close>

lemma decide_then_drop:
  assumes "gate_faces_ok db" "drop_photo env (db \<lparr> face_enrollments := t_update k g (face_enrollments db) \<rparr>) k = Inr (d, db1)"
    and "\<And>f. fa_occupancy (g f) = fa_occupancy f"
    and "\<And>f. t_get (face_enrollments db) k = Some f \<Longrightarrow>
       fa_status (g f) \<noteq> RvPending \<and> (fa_embedding (g f) \<noteq> None \<longleftrightarrow> fa_status (g f) = RvApproved)"
  shows "face_change db db1"
proof -
  let ?ft = "t_update k g (face_enrollments db)"
  have p: "faces_part (Some k) ?ft (pending_photos db)"
    using assms(1,3) by (auto simp: gate_faces_ok_def intro: faces_update faces_part_weaken)
  have q: "queue_row_ok (photo_deletions db)" using assms(1) by (simp add: gate_faces_ok_def)
  obtain pt dt where r: "db1 = db \<lparr> face_enrollments := ?ft \<rparr> \<lparr> photo_deletions := dt, pending_photos := pt \<rparr>"
      "faces_part (Some k) ?ft pt" "\<not> has_photo pt k" "queue_row_ok dt" "listed pt dt = listed (pending_photos db) (photo_deletions db)"
    by (rule drop_photo_rows [OF assms(2)]) (use p q in auto)
  have "faces_part None ?ft pt"
    by (rule faces_part_finish [OF r(2)]) (use assms(4) r(3) in \<open>auto simp: t_get_update face_ok_def\<close>)
  then show ?thesis unfolding face_change_def
    by (intro exI [of _ ?ft] exI [of _ pt] exI [of _ dt]) (simp add: r)
qed

lemma approve_face_body:
  assumes "gate_faces_ok db" "t_get (face_enrollments db) k = Some f" "fa_embedding f \<noteq> None"
    and "drop_photo env (db \<lparr> face_enrollments := t_update k (\<lambda>f. f \<lparr> fa_status := RvApproved,
      fa_reviewed_by := Some u, fa_reviewed_at := Some t, fa_review_note := [] \<rparr>) (face_enrollments db) \<rparr>) k = Inr (d, db1)"
  shows "face_change db db1"
  by (rule decide_then_drop [OF assms(1,4)]) (use assms(2,3) in auto)

lemma close_face_body:
  assumes "gate_faces_ok db" "drop_photo env (db \<lparr> face_enrollments := t_update k (\<lambda>f. f \<lparr> fa_status := RvRejected,
      fa_embedding := None, fa_reviewed_by := Some u, fa_reviewed_at := Some t, fa_review_note := n \<rparr>)
      (face_enrollments db) \<rparr>) k = Inr (d, db1)"
  shows "face_change db db1"
  by (rule decide_then_drop [OF assms]) auto

lemma revoke_face_body:
  assumes "gate_faces_ok db" "drop_photo env db k = Inr (d, db1)"
  shows "face_change db (db1 \<lparr> face_enrollments := t_delete (\<lambda>i _. i = k) (face_enrollments db1),
    pending_photos := t_delete (\<lambda>_ p. ph_enrollment p = k) (pending_photos db1) \<rparr>)"
proof -
  obtain pt dt where r: "db1 = db \<lparr> photo_deletions := dt, pending_photos := pt \<rparr>" "faces_part (Some k) (face_enrollments db) pt"
    "\<not> has_photo pt k" "queue_row_ok dt" "listed pt dt = listed (pending_photos db) (photo_deletions db)"
    by (rule drop_photo_rows [OF assms(2)]) (use assms(1) in \<open>auto simp: gate_faces_ok_def intro: faces_part_weaken\<close>)
  show ?thesis unfolding face_change_def
    by (intro exI [of _ "t_delete (\<lambda>i _. i = k) (face_enrollments db)"] exI [of _ pt] exI [of _ dt])
      (use faces_remove [OF r(2,3)] in \<open>simp add: r\<close>)
qed

text \<open>The expired photo is the only photo of its enrolment, so expiry is one more decision.\<close>

lemma expire_as_drop:
  assumes "gate_faces_ok db" "t_first (\<lambda>_ p. ph_enrollment p = k \<and> ph_expires_at p \<le> t) (pending_photos db) = Some (i, p)"
  shows "t_get (pending_photos db) i = Some p" "ph_enrollment p = k" "ph_expires_at p \<le> t"
    "t_first (\<lambda>_ p. ph_enrollment p = k) (pending_photos db) = Some (i, p)"
proof -
  have ok: "t_ok (pending_photos db)" and u: "unique_on (\<lambda>p. Some (ph_enrollment p)) (pending_photos db)"
    using assms(1) by (simp_all add: gate_faces_ok_def faces_part_def)
  show p: "t_get (pending_photos db) i = Some p" "ph_enrollment p = k" "ph_expires_at p \<le> t"
    using t_first_Some_get [OF ok assms(2)] by auto
  obtain j q where j: "t_first (\<lambda>_ p. ph_enrollment p = k) (pending_photos db) = Some (j, q)"
    using p by (cases "t_first (\<lambda>_ p. ph_enrollment p = k) (pending_photos db)") (auto simp: t_first_None_iff [OF ok])
  have q: "t_get (pending_photos db) j = Some q" "ph_enrollment q = k" using t_first_Some_get [OF ok j] by auto
  have "j = i" using unique_onD [OF u q(1) p(1)] p(2) q(2) by blast
  then show "t_first (\<lambda>_ p. ph_enrollment p = k) (pending_photos db) = Some (i, p)" using j q(1) p(1) by simp
qed

lemma expire_face_body:
  assumes "gate_faces_ok db" "t_get (face_enrollments db) k = Some f"
    and "t_first (\<lambda>_ p. ph_enrollment p = k \<and> ph_expires_at p \<le> t) (pending_photos db) = Some (i, p)"
    and "queue_photo_deletion env (if fa_status f = RvPending
      then db \<lparr> face_enrollments := t_update k (\<lambda>f. f \<lparr> fa_status := RvExpired, fa_embedding := None \<rparr>) (face_enrollments db) \<rparr>
      else db) i p = Inr (d, db1)"
  shows "face_change db db1" "drop_photo env (db \<lparr> face_enrollments := t_update k (\<lambda>f. f \<lparr> fa_status := RvExpired,
      fa_embedding := None \<rparr>) (face_enrollments db) \<rparr>) k = Inr (Some d, db1)"
proof -
  note e = expire_as_drop [OF assms(1,3)]
  have "has_photo (pending_photos db) k" using e by (auto simp: has_photo_def)
  then have st: "fa_status f = RvPending" using assms(1,2) by (auto simp: gate_faces_ok_def faces_part_def face_ok_def)
  show d: "drop_photo env (db \<lparr> face_enrollments := t_update k (\<lambda>f. f \<lparr> fa_status := RvExpired,
      fa_embedding := None \<rparr>) (face_enrollments db) \<rparr>) k = Inr (Some d, db1)"
    using assms(4) e(4) st by (simp add: drop_photo_def)
  show "face_change db db1" by (rule decide_then_drop [OF assms(1) d]) auto
qed

lemma get_or_create_enrollment_rows:
  assumes "get_or_create_enrollment env db oc = (k, db1)" "faces_part None (face_enrollments db) (pending_photos db)"
  obtains ft where "db1 = db \<lparr> face_enrollments := ft \<rparr>" "faces_part (Some k) ft (pending_photos db)" "t_get ft k \<noteq> None"
proof (cases "t_first (\<lambda>_ f. fa_occupancy f = oc) (face_enrollments db)")
  case None
  have ok: "t_ok (face_enrollments db)" using assms(2) by (rule faces_part_ok)
  let ?r = "\<lparr> fa_occupancy = oc, fa_embedding = None, fa_model_name = [], fa_model_version = [], fa_status = RvPending,
    fa_submitted_at = now env, fa_reviewed_by = None, fa_reviewed_at = None, fa_review_note = [] \<rparr>"
  have "k = next_pk (face_enrollments db)" "db1 = db \<lparr> face_enrollments := t_insert ?r (face_enrollments db) \<rparr>"
    using assms(1) None by (auto simp: get_or_create_enrollment_def)
  moreover have "faces_part (Some (next_pk (face_enrollments db))) (t_insert ?r (face_enrollments db)) (pending_photos db)"
    by (rule faces_insert [OF assms(2)]) (use None in \<open>simp add: t_exists_first\<close>)
  ultimately show thesis using that ok by (simp add: t_get_insert)
next
  case (Some x)
  obtain i f where x: "x = (i, f)" by (cases x)
  have "t_get (face_enrollments db) i = Some f" using t_first_Some_get [OF faces_part_ok(1) [OF assms(2)]] Some x by blast
  moreover have "k = i" "db1 = db \<lparr> face_enrollments := face_enrollments db \<rparr>"
    using assms(1) Some x by (auto simp: get_or_create_enrollment_def)
  ultimately show thesis using that [OF _ faces_part_weaken [OF assms(2)]] by blast
qed

lemma enroll_face_body:
  assumes "gate_faces_ok db" "enroll_face env ge db oc emb key version ct n = Inr (d, db1)"
  shows "face_change db db1" "(key, version) \<in> listed (pending_photos db1) (photo_deletions db1)"
proof -
  obtain v name ver where emb: "emb = (v, name, ver)" by (cases emb)
  obtain k dba where g: "get_or_create_enrollment env db oc = (k, dba)" by fastforce
  have f: "faces_part None (face_enrollments db) (pending_photos db)" "queue_row_ok (photo_deletions db)"
    using assms(1) by (simp_all add: gate_faces_ok_def)
  obtain ft where ft: "dba = db \<lparr> face_enrollments := ft \<rparr>" "faces_part (Some k) ft (pending_photos db)" "t_get ft k \<noteq> None"
    by (rule get_or_create_enrollment_rows [OF g f(1)])
  obtain d' dbb where dp: "drop_photo env dba k = Inr (d', dbb)"
    using assms(2) by (auto simp: enroll_face_def emb g Let_def split: sum.splits)
  obtain pt dt where r: "dbb = dba \<lparr> photo_deletions := dt, pending_photos := pt \<rparr>" "faces_part (Some k) ft pt"
    "\<not> has_photo pt k" "queue_row_ok dt" "listed pt dt = listed (pending_photos db) (photo_deletions db)"
    by (rule drop_photo_rows [OF dp]) (use ft(1,2) f(2) in auto)
  obtain sealed where sealed: "seal_embedding ge v = Inr sealed"
    using assms(2) by (auto simp: enroll_face_def emb g dp Let_def split: sum.splits)
  define upd where "upd = (\<lambda>f :: face_row. f \<lparr> fa_embedding := Some sealed, fa_model_name := name,
    fa_model_version := ver, fa_status := RvPending, fa_submitted_at := now env, fa_reviewed_by := None,
    fa_reviewed_at := None, fa_review_note := [] \<rparr>)"
  define new where "new = \<lparr> ph_enrollment = k, ph_storage_key = key, ph_provider_version_id = version,
    ph_content_type = ct, ph_byte_size = n, ph_created_at = now env,
    ph_expires_at = now env + hours (GATE_ENROLLMENT_PHOTO_TTL_HOURS ge) \<rparr>"
  have free: "\<not> t_exists (\<lambda>_ p. ph_storage_key p = key) pt"
    and db1: "db1 = db \<lparr> face_enrollments := t_update k upd ft, pending_photos := t_insert new pt, photo_deletions := dt \<rparr>"
    using assms(2) unfolding enroll_face_def emb g Let_def case_prod_conv dp [unfolded r(1)] sum.case sealed
    by (auto simp: ft(1) upd_def new_def split: if_split_asm)
  have ok: "t_ok pt" using r(2) by (rule faces_part_ok)
  note a = faces_add_photo [OF faces_update [OF r(2), of upd], of new]
  have "faces_part (Some k) (t_update k upd ft) (t_insert new pt)" "has_photo (t_insert new pt) k"
    by (rule a; use ft(3) r(3) free in \<open>simp add: upd_def new_def t_get_update\<close>)+
  then have "faces_part None (t_update k upd ft) (t_insert new pt)"
    by (elim faces_part_finish) (auto simp: t_get_update upd_def face_ok_def)
  moreover have "listed pt dt \<subseteq> listed (t_insert new pt) dt" by (auto simp: listed_def ran_insert [OF ok])
  ultimately show "face_change db db1" unfolding face_change_def db1 using r(4,5) by blast
  show "(key, version) \<in> listed (pending_photos db1) (photo_deletions db1)"
    by (simp add: db1 listed_def ran_insert [OF ok]) (simp add: new_def photo_ref_def)
qed

end
