(* ===== verification/Gate_Run.thy ===== *)
theory Gate_Run
  imports Gate_Site
begin

text \<open>
  Runs of the gate: every service of the gate is one command, in any order and with any answer of the storage, the
  scanner and the face model.  The invariant of \<open>Gate_Site\<close> holds in every state reached, every stored photo is named
  by a row, and a credential that was revoked or rotated away is never accepted again.
\<close>

section \<open>Commands\<close>

datatype gate_cmd =
    SubmitPlate pk "string option"
  | RevokePlate pk pk
  | ApprovePlate pk plate_row membership_row
  | RejectPlate pk plate_row membership_row "string option"
  | RevokePlateAsManager pk plate_row membership_row
  | IssueCredential pk membership_row
  | RotateCredential pk membership_row "int option"
  | RevokeCredential pk membership_row
  | AuthenticateDevice string "string option"
  | RecognizeFace pk gate_device_row string
  | RecognizePlate pk gate_device_row "string option"
  | SubmitFace pk string string
  | RevokeFaceEnrollment pk
  | ApproveFace pk face_row membership_row
  | RejectFace pk face_row membership_row "string option"
  | RevokeFace pk face_row membership_row
  | PurgeGateData

type_synonym gate_step = "env \<times> gate_env \<times> (string \<Rightarrow> exn + bool) \<times> gate_cmd"

definition settle :: "'d \<Rightarrow> ('a \<times> 'd) result \<Rightarrow> 'd \<times> unit result" where
  "settle db r = (case r of Inl e \<Rightarrow> (db, Inl e) | Inr (_, db') \<Rightarrow> (db', Inr ()))"

definition settle_unit :: "'d \<Rightarrow> 'd result \<Rightarrow> 'd \<times> unit result" where
  "settle_unit db r = (case r of Inl e \<Rightarrow> (db, Inl e) | Inr db' \<Rightarrow> (db', Inr ()))"

definition forget :: "'d \<times> 'a result \<Rightarrow> 'd \<times> unit result" where
  "forget x = (case x of (db, Inl e) \<Rightarrow> (db, Inl e) | (db, Inr _) \<Rightarrow> (db, Inr ()))"

fun gate_run :: "'s photo_storage \<Rightarrow> gate_step \<Rightarrow> ('s, 'z) gdb \<Rightarrow> ('s, 'z) gdb \<times> unit result" where
  "gate_run st (env, ge, scanner, SubmitPlate oc raw) db = settle db (submit_plate env ge db oc raw)"
| "gate_run st (env, ge, scanner, RevokePlate oc k) db = (revoke_plate db oc k, Inr ())"
| "gate_run st (env, ge, scanner, ApprovePlate k snap m) db = settle_unit db (approve_plate env db k snap m)"
| "gate_run st (env, ge, scanner, RejectPlate k snap m reason) db = settle_unit db (reject_plate env db k snap m reason)"
| "gate_run st (env, ge, scanner, RevokePlateAsManager k snap m) db = settle_unit db (revoke_plate_as_manager env db k snap m)"
| "gate_run st (env, ge, scanner, IssueCredential d m) db = settle db (map_sum id snd (issue_credential env db d m))"
| "gate_run st (env, ge, scanner, RotateCredential d m grace) db = settle db (map_sum id snd (rotate_credential env ge db d m grace))"
| "gate_run st (env, ge, scanner, RevokeCredential k m) db = settle_unit db (revoke_credential env db k m)"
| "gate_run st (env, ge, scanner, AuthenticateDevice token ip) db = forget (authenticate_device env db token ip)"
| "gate_run st (env, ge, scanner, RecognizeFace dk d img) db = settle db (recognize_face env ge db dk d img)"
| "gate_run st (env, ge, scanner, RecognizePlate dk d raw) db = settle db (recognize_plate env ge db dk d raw)"
| "gate_run st (env, ge, scanner, SubmitFace oc ct data) db = submit_face_enrollment env ge st scanner db oc ct data"
| "gate_run st (env, ge, scanner, RevokeFaceEnrollment oc) db = revoke_face_enrollment env st db oc"
| "gate_run st (env, ge, scanner, ApproveFace k snap m) db = approve_face env st db k snap m"
| "gate_run st (env, ge, scanner, RejectFace k snap m reason) db = reject_face env st db k snap m reason"
| "gate_run st (env, ge, scanner, RevokeFace k snap m) db = revoke_face env st db k snap m"
| "gate_run st (env, ge, scanner, PurgeGateData) db = forget (purge_gate_data env ge st db)"

definition gate_exec :: "'s photo_storage \<Rightarrow> gate_step \<Rightarrow> ('s, 'z) gdb \<Rightarrow> ('s, 'z) gdb" where
  "gate_exec st c db = fst (gate_run st c db)"

section \<open>What the storage promises\<close>

text \<open>
  The documented behaviour of a bucket or a file storage, \<open>objs\<close> being the objects it holds, each by key and version:
  a successful put adds one object, of the version it returns; a delete that names a version removes that object,
  and a delete that fails removes nothing else; a listing has every version of a key; keys are not empty, and a file
  storage has no versions.
\<close>

definition photo_store :: "'s photo_storage \<Rightarrow> ('s \<Rightarrow> (string \<times> string) set) \<Rightarrow> bool" where
  "photo_store st objs \<longleftrightarrow>
     (\<forall>s k d c s' v. put_object st s k d c = (s', Inr v) \<longrightarrow> (v = PyNone \<or> (\<exists>x. v = PyStr x)) \<and>
        objs s' \<subseteq> objs s \<union> (if py_truthy v then {(k, the_str v)} else {k} \<times> UNIV))
   \<and> (\<forall>s k v s' r. delete_object st s k v = (s', r) \<longrightarrow> objs s' \<subseteq> objs s \<and> (r = Inr () \<longrightarrow> (k, v) \<notin> objs s'))
   \<and> (\<forall>s k items v. list_object_versions st s k = Inr items \<longrightarrow> (k, v) \<in> objs s \<longrightarrow> (k, v) \<in> set items)
   \<and> (\<forall>s k s' r. delete_unversioned st s k = (s', r) \<longrightarrow> objs s' \<subseteq> objs s)
   \<and> (\<forall>s k d s' n. save_file st s k d = (s', Inr n) \<longrightarrow> objs s' \<subseteq> insert (n, []) (objs s))
   \<and> (\<forall>s k s' r. delete_file st s k = (s', r) \<longrightarrow> objs s' \<subseteq> objs s \<and> (r = Inr () \<longrightarrow> (k, []) \<notin> objs s'))
   \<and> (\<forall>s k v. (k, v) \<in> objs s \<longrightarrow> k \<noteq> [] \<and> (\<not> is_s3 st \<longrightarrow> v = []))"

definition accounted :: "('s \<Rightarrow> (string \<times> string) set) \<Rightarrow> ('s, 'z) gdb \<Rightarrow> bool" where
  "accounted objs db \<longleftrightarrow> objs (photo_objects db) \<subseteq> listed (pending_photos db) (photo_deletions db)"

definition storage_failed :: "unit result \<Rightarrow> bool" where
  "storage_failed r \<longleftrightarrow> (\<exists>err. r = Inl (StorageFailure err))"

text \<open>The laws, one by one.\<close>

lemma photo_storeD:
  assumes "photo_store st objs"
  shows "put_object st s k d c = (s', Inr v) \<Longrightarrow> v = PyNone \<or> (\<exists>x. v = PyStr x)"
    and "put_object st s k d c = (s', Inr v) \<Longrightarrow> objs s' \<subseteq> objs s \<union> (if py_truthy v then {(k, the_str v)} else {k} \<times> UNIV)"
    and "delete_object st s k w = (s', r) \<Longrightarrow> objs s' \<subseteq> objs s"
    and "delete_object st s k w = (s', Inr ()) \<Longrightarrow> (k, w) \<notin> objs s'"
    and "list_object_versions st s k = Inr items \<Longrightarrow> (k, w) \<in> objs s \<Longrightarrow> (k, w) \<in> set items"
    and "delete_unversioned st s k = (s', r) \<Longrightarrow> objs s' \<subseteq> objs s"
    and "save_file st s k d = (s', Inr n) \<Longrightarrow> objs s' \<subseteq> insert (n, []) (objs s)"
    and "delete_file st s k = (s', r) \<Longrightarrow> objs s' \<subseteq> objs s"
    and "delete_file st s k = (s', Inr ()) \<Longrightarrow> (k, []) \<notin> objs s'"
    and "(k, w) \<in> objs s \<Longrightarrow> k \<noteq> []"
    and "(k, w) \<in> objs s \<Longrightarrow> \<not> is_s3 st \<Longrightarrow> w = []"
proof -
  note p = assms [unfolded photo_store_def, THEN conjunct1]
  note d = assms [unfolded photo_store_def, THEN conjunct2, THEN conjunct1]
  note l = assms [unfolded photo_store_def, THEN conjunct2, THEN conjunct2, THEN conjunct1]
  note u = assms [unfolded photo_store_def, THEN conjunct2, THEN conjunct2, THEN conjunct2, THEN conjunct1]
  note f = assms [unfolded photo_store_def, THEN conjunct2, THEN conjunct2, THEN conjunct2, THEN conjunct2]
  show "put_object st s k d c = (s', Inr v) \<Longrightarrow> v = PyNone \<or> (\<exists>x. v = PyStr x)"
    "put_object st s k d c = (s', Inr v) \<Longrightarrow> objs s' \<subseteq> objs s \<union> (if py_truthy v then {(k, the_str v)} else {k} \<times> UNIV)"
    using p by (metis, metis)
  show "delete_object st s k w = (s', r) \<Longrightarrow> objs s' \<subseteq> objs s" "delete_object st s k w = (s', Inr ()) \<Longrightarrow> (k, w) \<notin> objs s'"
    using d by (metis, metis)
  show "list_object_versions st s k = Inr items \<Longrightarrow> (k, w) \<in> objs s \<Longrightarrow> (k, w) \<in> set items" using l by metis
  show "delete_unversioned st s k = (s', r) \<Longrightarrow> objs s' \<subseteq> objs s" using u by metis
  show "save_file st s k d = (s', Inr n) \<Longrightarrow> objs s' \<subseteq> insert (n, []) (objs s)" using f [THEN conjunct1] by metis
  show "delete_file st s k = (s', r) \<Longrightarrow> objs s' \<subseteq> objs s" "delete_file st s k = (s', Inr ()) \<Longrightarrow> (k, []) \<notin> objs s'"
    using f [THEN conjunct2, THEN conjunct1] by (metis, metis)
  show "(k, w) \<in> objs s \<Longrightarrow> k \<noteq> []" "(k, w) \<in> objs s \<Longrightarrow> \<not> is_s3 st \<Longrightarrow> w = []"
    using f [THEN conjunct2, THEN conjunct2] by (metis, metis)
qed

lemma delete_versions_objs:
  assumes "photo_store st objs" "delete_versions st s key vs = (s', r)"
  shows "objs s' \<subseteq> objs s \<and> (r = Inr () \<longrightarrow> (\<forall>v \<in> set vs. (key, v) \<notin> objs s'))"
  using assms(2)
proof (induction vs arbitrary: s)
  case (Cons v vs)
  obtain s1 q where d: "delete_object st s key v = (s1, q)" by fastforce
  have s1: "objs s1 \<subseteq> objs s" using photo_storeD(3) [OF assms(1) d] .
  show ?case
  proof (cases q)
    case (Inl e) then show ?thesis using Cons.prems d s1 by auto
  next
    case (Inr x)
    have "delete_versions st s1 key vs = (s', r)" using Cons.prems d Inr by simp
    note IH = Cons.IH [OF this]
    have "(key, v) \<notin> objs s1" using photo_storeD(4) [OF assms(1)] d Inr by simp
    then show ?thesis using IH s1 by auto
  qed
qed simp

lemma delete_pending_photo_objs:
  assumes "photo_store st objs" "delete_pending_photo st s key version = (s', r)"
  shows "objs s' \<subseteq> objs s" "r = Inr () \<Longrightarrow> (key, version) \<notin> objs s'"
    and "r = Inl e \<Longrightarrow> (\<exists>err. e = StorageFailure err) \<or> is_s3 st \<and> version = []"
proof -
  have a: "objs s' \<subseteq> objs s \<and> (r = Inr () \<longrightarrow> (key, version) \<notin> objs s')
    \<and> (\<forall>e. r = Inl e \<longrightarrow> (\<exists>err. e = StorageFailure err) \<or> is_s3 st \<and> version = [])"
  proof (cases "key = []")
    case True
    then show ?thesis using assms(2) photo_storeD(10) [OF assms(1)] by (auto simp: delete_pending_photo_def)
  next
    case key: False
    show ?thesis
    proof (cases "is_s3 st")
      case s3: True
      obtain s1 q where d: "delete_object st s key version = (s1, q)" by fastforce
      note l = photo_storeD(3) [OF assms(1) d] photo_storeD(4) [OF assms(1), of s key version]
      show ?thesis using assms(2) key s3 l d
        by (cases q) (auto simp: delete_pending_photo_def split: if_splits)
    next
      case local: False
      obtain s1 q where d: "delete_file st s key = (s1, q)" by fastforce
      note l = photo_storeD(8) [OF assms(1) d] photo_storeD(9) [OF assms(1), of s key] photo_storeD(11) [OF assms(1), of key version]
      show ?thesis using assms(2) key local l d
        by (cases q) (auto simp: delete_pending_photo_def)
    qed
  qed
  then show "objs s' \<subseteq> objs s" "r = Inr () \<Longrightarrow> (key, version) \<notin> objs s'"
    "r = Inl e \<Longrightarrow> (\<exists>err. e = StorageFailure err) \<or> is_s3 st \<and> version = []" by auto
qed

lemma undo_unversioned_objs:
  assumes "photo_store st objs" "undo_unversioned st s key = (s', r)" "\<nexists>err. r = Inl (StorageFailure err)"
  shows "r = Inl PhotoVersionMissing" "objs s' \<subseteq> objs s - {key} \<times> UNIV"
proof -
  obtain items where items: "list_object_versions st s key = Inr items"
    using assms(2,3) by (auto simp: undo_unversioned_def split: sum.splits)
  let ?vs = "map snd (filter (\<lambda>(k, _). k = key) items)"
  obtain s1 q where d: "delete_versions st s key ?vs = (s1, q)" by fastforce
  have all: "v \<in> set ?vs" if "(key, v) \<in> objs s" for v
    using photo_storeD(5) [OF assms(1) items that] by force
  note dv = delete_versions_objs [OF assms(1) d]
  have qe: "\<exists>err. e = StorageFailure err" if "delete_versions st s0 key vs = (s2, Inl e)" for s0 vs s2 e
    using that by (induction vs arbitrary: s0) (auto split: prod.splits sum.splits)
  have q: "q = Inr ()"
    using qe [of s ?vs s1] d assms(2,3) items by (cases q) (auto simp: undo_unversioned_def Let_def)
  have gone: "objs s1 \<subseteq> objs s - {key} \<times> UNIV" using dv q all by blast
  have fin: "r = Inl PhotoVersionMissing \<and> objs s' \<subseteq> objs s1"
  proof (cases "?vs = []")
    case True
    obtain s2 u where u: "delete_unversioned st s1 key = (s2, u)" by fastforce
    show ?thesis using assms(2,3) items d q True u photo_storeD(6) [OF assms(1) u]
      by (cases u) (auto simp: undo_unversioned_def Let_def)
  next
    case False
    then show ?thesis using assms(2) items d q by (simp add: undo_unversioned_def Let_def)
  qed
  then show "r = Inl PhotoVersionMissing" "objs s' \<subseteq> objs s - {key} \<times> UNIV" using gone by auto
qed

lemma store_pending_photo_objs:
  assumes "photo_store st objs" "store_pending_photo ge st s data ct = (s', r)"
  shows "r = Inr (key, version) \<Longrightarrow> objs s' \<subseteq> insert (key, version) (objs s) \<and> (is_s3 st \<longrightarrow> version \<noteq> [])"
    and "\<nexists>err. r = Inl (StorageFailure err) \<Longrightarrow> r = Inl e \<Longrightarrow> objs s' \<subseteq> objs s"
proof -
  let ?key = "PREFIX @ ''/'' @ photo_uuid_hex ge"
  have a: "(\<forall>key version. r = Inr (key, version) \<longrightarrow> objs s' \<subseteq> insert (key, version) (objs s) \<and> (is_s3 st \<longrightarrow> version \<noteq> []))
    \<and> ((\<nexists>err. r = Inl (StorageFailure err)) \<longrightarrow> (\<exists>e. r = Inl e) \<longrightarrow> objs s' \<subseteq> objs s)"
  proof (cases "is_s3 st")
    case s3: True
    obtain s1 q where p: "put_object st s ?key data ct = (s1, q)" by fastforce
    show ?thesis
    proof (cases q)
      case (Inl err) then show ?thesis using assms(2) s3 p by (auto simp: store_pending_photo_def)
    next
      case (Inr v)
      note law = photo_storeD(1,2) [OF assms(1) p [unfolded Inr]]
      show ?thesis
      proof (cases "py_truthy v")
        case True
        then show ?thesis using assms(2) s3 p Inr law by (auto simp: store_pending_photo_def)
      next
        case False
        then have u: "undo_unversioned st s1 ?key = (s', r)" using assms(2) s3 p Inr by (simp add: store_pending_photo_def)
        have no: "\<nexists>x. r = Inr x" using u
          by (auto simp: undo_unversioned_def Let_def split: sum.splits prod.splits if_splits)
        have "objs s' \<subseteq> objs s" if "\<nexists>err. r = Inl (StorageFailure err)"
          using undo_unversioned_objs(2) [OF assms(1) u that] law(2) False by (simp split: if_splits) blast
        then show ?thesis using no by blast
      qed
    qed
  next
    case local: False
    obtain s1 q where p: "save_file st s ?key data = (s1, q)" by fastforce
    show ?thesis using assms(2) local p photo_storeD(7) [OF assms(1), of s ?key data s1]
      by (cases q) (auto simp: store_pending_photo_def)
  qed
  show "r = Inr (key, version) \<Longrightarrow> objs s' \<subseteq> insert (key, version) (objs s) \<and> (is_s3 st \<longrightarrow> version \<noteq> [])"
    "\<nexists>err. r = Inl (StorageFailure err) \<Longrightarrow> r = Inl e \<Longrightarrow> objs s' \<subseteq> objs s" using a by blast+
qed

section \<open>Transactions on enrolments\<close>

text \<open>What deleting through the queue relies on; every storage law gives it, and so does an empty view of the storage.\<close>

definition tidy :: "'s photo_storage \<Rightarrow> ('s \<Rightarrow> (string \<times> string) set) \<Rightarrow> bool" where
  "tidy st objs \<longleftrightarrow> (\<forall>s k v s' r. delete_pending_photo st s k v = (s', r) \<longrightarrow> objs s' \<subseteq> objs s \<and> (r = Inr () \<longrightarrow> (k, v) \<notin> objs s'))"

lemma photo_store_tidy: "photo_store st objs \<Longrightarrow> tidy st objs"
  unfolding tidy_def using delete_pending_photo_objs by metis

lemma tidy_none: "tidy st (\<lambda>_. {})"
  by (simp add: tidy_def)

definition photo_step :: "('s \<Rightarrow> (string \<times> string) set) \<Rightarrow> ('s, 'z) gdb \<Rightarrow> ('s, 'z) gdb \<Rightarrow> bool" where
  "photo_step objs db db' \<longleftrightarrow>
     (\<exists>ft pt dt s. db' = db \<lparr> face_enrollments := ft, pending_photos := pt, photo_deletions := dt, photo_objects := s \<rparr>)
     \<and> gate_faces_ok db' \<and> (accounted objs db \<longrightarrow> accounted objs db')"

lemma photo_stepI:
  assumes "db' = db \<lparr> face_enrollments := ft, pending_photos := pt, photo_deletions := dt, photo_objects := s \<rparr>"
    "faces_part None ft pt" "queue_row_ok dt" "accounted objs db \<Longrightarrow> objs s \<subseteq> listed pt dt"
  shows "photo_step objs db db'"
  unfolding photo_step_def
proof (intro conjI impI)
  show "\<exists>ft pt dt s. db' = db \<lparr> face_enrollments := ft, pending_photos := pt, photo_deletions := dt, photo_objects := s \<rparr>"
    using assms(1) by blast
  show "gate_faces_ok db'" using assms(1-3) by (simp add: gate_faces_ok_def)
  show "accounted objs db'" if "accounted objs db" using assms(1,4) that by (simp add: accounted_def)
qed

lemma photo_step_refl: "gate_faces_ok db \<Longrightarrow> photo_step objs db db"
  by (rule photo_stepI [where ft = "face_enrollments db" and pt = "pending_photos db" and dt = "photo_deletions db" and s = "photo_objects db"])
    (auto simp: gate_faces_ok_def accounted_def)

lemma photo_step_trans:
  assumes "photo_step objs a b" "photo_step objs b c"
  shows "photo_step objs a c"
proof -
  obtain ft pt dt s where "b = a \<lparr> face_enrollments := ft, pending_photos := pt, photo_deletions := dt, photo_objects := s \<rparr>"
    using assms(1) unfolding photo_step_def by blast
  moreover obtain ft' pt' dt' s' where
    "c = b \<lparr> face_enrollments := ft', pending_photos := pt', photo_deletions := dt', photo_objects := s' \<rparr>"
    using assms(2) unfolding photo_step_def by blast
  ultimately have "\<exists>ft pt dt s. c = a \<lparr> face_enrollments := ft, pending_photos := pt, photo_deletions := dt, photo_objects := s \<rparr>"
    by (intro exI [of _ ft'] exI [of _ pt'] exI [of _ dt'] exI [of _ s']) simp
  then show ?thesis using assms unfolding photo_step_def by blast
qed

lemma photo_step_ok: "photo_step objs a b \<Longrightarrow> gate_faces_ok b"
  by (simp add: photo_step_def)

lemma photo_step_accounted: "photo_step objs a b \<Longrightarrow> accounted objs a \<Longrightarrow> accounted objs b"
  by (simp add: photo_step_def)

lemma face_change_step:
  assumes "face_change db db1"
  shows "photo_step objs db db1"
proof -
  obtain ft pt dt where c: "db1 = db \<lparr> face_enrollments := ft, pending_photos := pt, photo_deletions := dt \<rparr>"
    "faces_part None ft pt" "queue_row_ok dt" "listed (pending_photos db) (photo_deletions db) \<subseteq> listed pt dt"
    using assms unfolding face_change_def by blast
  show ?thesis
    by (rule photo_stepI [where ft = ft and pt = pt and dt = dt and s = "photo_objects db"]) (use c in \<open>auto simp: accounted_def\<close>)
qed

lemma process_photo_deletion_step:
  assumes "gate_faces_ok db" "tidy st objs"
  shows "photo_step objs db (snd (process_photo_deletion st k db))"
proof (cases "t_get (photo_deletions db) k")
  case None
  then show ?thesis using photo_step_refl [OF assms(1)] by (simp add: process_photo_deletion_def)
next
  case (Some d)
  let ?dt = "photo_deletions db" and ?pt = "pending_photos db" and ?s = "photo_objects db"
  obtain s' r where del: "delete_pending_photo st ?s (pd_storage_key d) (pd_provider_version_id d) = (s', r)" by fastforce
  have o: "objs s' \<subseteq> objs ?s" "r = Inr () \<Longrightarrow> deletion_ref d \<notin> objs s'"
    using assms(2) del unfolding tidy_def deletion_ref_def by blast+
  have f: "faces_part None (face_enrollments db) ?pt" "queue_row_ok ?dt" using assms(1) by (simp_all add: gate_faces_ok_def)
  show ?thesis
  proof (cases r)
    case (Inl e)
    have "snd (process_photo_deletion st k db) = db \<lparr> photo_objects := s' \<rparr>"
      using Some del Inl by (simp add: process_photo_deletion_def)
    then show ?thesis
      by (intro photo_stepI [where ft = "face_enrollments db" and pt = ?pt and dt = ?dt and s = s']) (use f o in \<open>auto simp: accounted_def\<close>)
  next
    case (Inr u)
    let ?dt' = "t_delete (\<lambda>i _. i = k) ?dt"
    have e: "snd (process_photo_deletion st k db) = db \<lparr> photo_objects := s', photo_deletions := ?dt' \<rparr>"
      using Some del Inr by (simp add: process_photo_deletion_def)
    have ok: "t_ok ?dt" using f(2) by (simp add: queue_row_ok_def)
    have "ran (t_get ?dt) = insert d (ran (t_get ?dt'))" using ran_delete_one [OF ok Some] by simp
    then have l: "listed ?pt ?dt = insert (deletion_ref d) (listed ?pt ?dt')" by (auto simp: listed_def)
    have "queue_row_ok ?dt'" using f(2) by (auto simp: queue_row_ok_def intro: unique_on_delete)
    moreover have "objs s' \<subseteq> listed ?pt ?dt'" if "accounted objs db"
      using that o l Inr by (auto simp: accounted_def)
    ultimately show ?thesis
      by (intro photo_stepI [where ft = "face_enrollments db" and pt = ?pt and dt = ?dt' and s = s']) (use f e in auto)
  qed
qed

lemma process_each_step:
  "gate_faces_ok db \<Longrightarrow> tidy st objs \<Longrightarrow> photo_step objs db (snd (process_each st ks db))"
proof (induction ks arbitrary: db)
  case Nil
  then show ?case by (simp add: photo_step_refl)
next
  case (Cons k ks)
  let ?db1 = "snd (process_photo_deletion st k db)"
  have s: "photo_step objs db ?db1" using Cons.prems by (rule process_photo_deletion_step)
  then have "photo_step objs ?db1 (snd (process_each st ks ?db1))"
    using Cons.IH [OF photo_step_ok [OF s] Cons.prems(2)] by simp
  then show ?case using photo_step_trans [OF s] by (simp add: Let_def case_prod_beta)
qed

lemma committed_step:
  assumes "gate_faces_ok db" "tidy st objs" "\<And>d db1. body = Inr (d, db1) \<Longrightarrow> face_change db db1"
  shows "photo_step objs db (fst (committed st db body))"
proof (cases body)
  case (Inl e)
  then show ?thesis using photo_step_refl [OF assms(1)] by (simp add: committed_def)
next
  case (Inr x)
  obtain d db1 where x: "x = (d, db1)" by (cases x)
  have s: "photo_step objs db db1" using face_change_step assms(3) Inr x by blast
  show ?thesis
  proof (cases d)
    case None
    then show ?thesis using s Inr x by (simp add: committed_def)
  next
    case (Some k)
    then show ?thesis using photo_step_trans [OF s process_photo_deletion_step [OF photo_step_ok [OF s] assms(2)]] Inr x
      by (simp add: committed_def)
  qed
qed

section \<open>The services on faces\<close>

lemma approve_face_step:
  assumes "gate_faces_ok db" "tidy st objs"
  shows "photo_step objs db (fst (approve_face env st db k snap m))"
  unfolding approve_face_def
proof (rule committed_step [OF assms], goal_cases)
  case (1 d db1)
  then obtain f where f: "t_get (face_enrollments db) k = Some f" "fa_embedding f \<noteq> None"
    by (auto split: sum.splits option.splits if_splits)
  show ?case by (rule approve_face_body [OF assms(1) f]) (use 1 f in \<open>auto split: sum.splits if_splits\<close>)
qed

lemma close_face_step:
  assumes "gate_faces_ok db" "tidy st objs"
  shows "photo_step objs db (fst (close_face env st db k m reason))"
  unfolding close_face_def
  by (rule committed_step [OF assms]) (auto split: option.splits intro: close_face_body [OF assms(1)])

lemma reject_face_step:
  assumes "gate_faces_ok db" "tidy st objs"
  shows "photo_step objs db (fst (reject_face env st db k snap m reason))"
  using close_face_step [OF assms] photo_step_refl [OF assms(1)]
  by (simp add: reject_face_def Let_def split: sum.split)

lemma revoke_face_step:
  assumes "gate_faces_ok db" "tidy st objs"
  shows "photo_step objs db (fst (revoke_face env st db k snap m))"
  using close_face_step [OF assms] photo_step_refl [OF assms(1)]
  by (simp add: revoke_face_def split: sum.split)

lemma revoke_face_enrollment_step:
  assumes "gate_faces_ok db" "tidy st objs"
  shows "photo_step objs db (fst (revoke_face_enrollment env st db oc))"
  unfolding revoke_face_enrollment_def
proof (rule committed_step [OF assms], goal_cases)
  case (1 d db1)
  then show ?case using assms(1)
    by (auto split: option.splits sum.splits intro: face_change_refl revoke_face_body)
qed

lemma expire_photo_step:
  assumes "gate_faces_ok db" "tidy st objs"
  shows "photo_step objs db (fst (expire_photo env st db k))"
  unfolding expire_photo_def
proof (rule committed_step [OF assms], goal_cases)
  case (1 d db1)
  then obtain f where f: "t_get (face_enrollments db) k = Some f" by (auto split: option.splits)
  show ?case
  proof (cases "t_first (\<lambda>_ p. ph_enrollment p = k \<and> ph_expires_at p \<le> now env) (pending_photos db)")
    case None
    then show ?thesis using 1 f face_change_refl [OF assms(1)] by simp
  next
    case (Some x)
    obtain i p where x: "x = (i, p)" by (cases x)
    show ?thesis using 1 f Some x expire_face_body(1) [OF assms(1) f Some [unfolded x]]
      by (auto simp: Let_def split: sum.splits)
  qed
qed

lemma expire_photos_step:
  "gate_faces_ok db \<Longrightarrow> tidy st objs \<Longrightarrow> photo_step objs db (fst (expire_photos env st es db))"
proof (induction es arbitrary: db)
  case Nil
  then show ?case by (simp add: photo_step_refl)
next
  case (Cons e es)
  obtain db1 r where x: "expire_photo env st db e = (db1, r)" by fastforce
  have s: "photo_step objs db db1" using expire_photo_step [OF Cons.prems, of env e] x by simp
  show ?case using s photo_step_trans [OF s Cons.IH [OF photo_step_ok [OF s] Cons.prems(2)]] x
    by (cases r) simp_all
qed

lemma purge_photos_step:
  assumes "gate_faces_ok db" "tidy st objs"
  shows "photo_step objs db (fst (purge_expired_enrollment_photos env st db))"
proof -
  let ?es = "map (\<lambda>(_, p). ph_enrollment p) (t_filter (\<lambda>_ p. ph_expires_at p \<le> now env) (pending_photos db))"
  obtain db1 r where x: "expire_photos env st ?es db = (db1, r)" by fastforce
  have s: "photo_step objs db db1" using expire_photos_step [OF assms, of env ?es] x by simp
  show ?thesis using s photo_step_trans [OF s process_each_step [OF photo_step_ok [OF s] assms(2)]] x
    by (cases r) (simp_all add: purge_expired_enrollment_photos_def process_photo_deletions_def Let_def)
qed

text \<open>An upload: nothing is stored for good unless a row names it, or the storage itself has failed.\<close>

lemma gate_faces_objects: "gate_faces_ok (db \<lparr> photo_objects := s \<rparr>) = gate_faces_ok db"
  by (simp add: gate_faces_ok_def)

lemma photo_step_objects:
  assumes "photo_step objs (db \<lparr> photo_objects := s \<rparr>) db'"
  shows "\<exists>ft pt dt s. db' = db \<lparr> face_enrollments := ft, pending_photos := pt, photo_deletions := dt, photo_objects := s \<rparr>"
proof -
  obtain ft pt dt s' where "db' = db \<lparr> photo_objects := s \<rparr> \<lparr> face_enrollments := ft, pending_photos := pt, photo_deletions := dt, photo_objects := s' \<rparr>"
    using assms unfolding photo_step_def by blast
  then show ?thesis by (intro exI [of _ ft] exI [of _ pt] exI [of _ dt] exI [of _ s']) simp
qed

lemma committed_Inl: "committed st db body = (db2, Inl e) \<Longrightarrow> body = Inl e \<and> db2 = db"
  by (auto simp: committed_def split: sum.splits prod.splits option.splits)

lemma submit_face_cases:
  obtains (refused) e where "submit_face_enrollment env ge st scanner db oc ct data = (db, Inl e)"
  | (unstored) s1 e where "store_pending_photo ge st (photo_objects db) data ct = (s1, Inl e)"
      "submit_face_enrollment env ge st scanner db oc ct data = (db \<lparr> photo_objects := s1 \<rparr>, Inl e)"
  | (stored) s1 key version emb db2 where "store_pending_photo ge st (photo_objects db) data ct = (s1, Inr (key, version))"
      "committed st (db \<lparr> photo_objects := s1 \<rparr>) (enroll_face env ge (db \<lparr> photo_objects := s1 \<rparr>) oc emb key version ct (length data))
         = (db2, Inr ())"
      "submit_face_enrollment env ge st scanner db oc ct data = (db2, Inr ())"
  | (undone) s1 key version s2 r2 e where "store_pending_photo ge st (photo_objects db) data ct = (s1, Inr (key, version))"
      "delete_pending_photo st s1 key version = (s2, r2)"
      "submit_face_enrollment env ge st scanner db oc ct data =
         (db \<lparr> photo_objects := s2 \<rparr>, case r2 of Inl e2 \<Rightarrow> Inl e2 | Inr _ \<Rightarrow> Inl e)"
proof (cases "ct \<notin> ALLOWED_IMAGE_TYPES \<or> length data > GATE_MAX_FACE_UPLOAD_BYTES ge \<or> data = []
    \<or> (\<exists>e. scanner data = Inl e) \<or> scanner data = Inr False \<or> (\<exists>e. embed ge data = Inl e)")
  case True
  then have "\<exists>e. submit_face_enrollment env ge st scanner db oc ct data = (db, Inl e)"
    by (auto simp: submit_face_enrollment_def split: sum.splits)
  then show thesis using refused by blast
next
  case False
  then obtain emb where c: "ct \<in> ALLOWED_IMAGE_TYPES" "\<not> length data > GATE_MAX_FACE_UPLOAD_BYTES ge" "data \<noteq> []"
    "scanner data = Inr True" "embed ge data = Inr emb"
    by (cases "scanner data"; cases "embed ge data") auto
  obtain s1 q where st: "store_pending_photo ge st (photo_objects db) data ct = (s1, q)" by fastforce
  show thesis
  proof (cases q)
    case (Inl e)
    then show thesis using unstored [of s1 e] st c by (simp add: submit_face_enrollment_def)
  next
    case (Inr kv)
    obtain key version where kv: "kv = (key, version)" by (cases kv)
    let ?body = "enroll_face env ge (db \<lparr> photo_objects := s1 \<rparr>) oc emb key version ct (length data)"
    obtain db2 r where b: "committed st (db \<lparr> photo_objects := s1 \<rparr>) ?body = (db2, r)" by fastforce
    obtain s2 r2 where d: "delete_pending_photo st s1 key version = (s2, r2)" by fastforce
    show thesis
    proof (cases r)
      case (Inl e)
      have "db2 = db \<lparr> photo_objects := s1 \<rparr>" using committed_Inl b Inl by blast
      then show thesis using undone [OF st [unfolded Inr kv] d, of e] st Inr kv b d Inl c
        by (cases r2) (simp_all add: submit_face_enrollment_def)
    next
      case (Inr u)
      then show thesis using stored [of s1 key version emb db2] st \<open>q = Inr kv\<close> kv b c
        by (simp add: submit_face_enrollment_def)
    qed
  qed
qed

lemma submit_face_frame:
  assumes "gate_faces_ok db"
  shows "(\<exists>ft pt dt s. fst (submit_face_enrollment env ge st scanner db oc ct data)
      = db \<lparr> face_enrollments := ft, pending_photos := pt, photo_deletions := dt, photo_objects := s \<rparr>)
    \<and> gate_faces_ok (fst (submit_face_enrollment env ge st scanner db oc ct data))"
proof (cases rule: submit_face_cases [of env ge st scanner db oc ct data])
  case (refused e)
  then show ?thesis using photo_step_refl [OF assms, of "\<lambda>_. {}"] by (simp add: photo_step_def)
next
  case (unstored s1 e)
  have "photo_step (\<lambda>_. {}) (db \<lparr> photo_objects := s1 \<rparr>) (db \<lparr> photo_objects := s1 \<rparr>)"
    by (rule photo_step_refl) (simp add: gate_faces_objects assms)
  then show ?thesis using unstored photo_step_objects photo_step_ok by (metis fst_conv)
next
  case (stored s1 key version emb db2)
  have "photo_step (\<lambda>_. {}) (db \<lparr> photo_objects := s1 \<rparr>) (fst (committed st (db \<lparr> photo_objects := s1 \<rparr>)
      (enroll_face env ge (db \<lparr> photo_objects := s1 \<rparr>) oc emb key version ct (length data))))"
    by (rule committed_step [OF _ tidy_none]) 
      (simp add: gate_faces_objects assms, rule enroll_face_body(1), simp_all add: gate_faces_objects assms)
  then show ?thesis using stored photo_step_objects photo_step_ok by (metis fst_conv)
next
  case (undone s1 key version s2 r2 e)
  have "photo_step (\<lambda>_. {}) (db \<lparr> photo_objects := s2 \<rparr>) (db \<lparr> photo_objects := s2 \<rparr>)"
    by (rule photo_step_refl) (simp add: gate_faces_objects assms)
  then show ?thesis using undone photo_step_objects photo_step_ok by (metis fst_conv)
qed

lemma submit_face_accounted:
  assumes "photo_store st objs" "gate_faces_ok db" "accounted objs db"
    and "submit_face_enrollment env ge st scanner db oc ct data = (db', r)" "\<not> storage_failed r"
  shows "accounted objs db'"
proof (cases rule: submit_face_cases [of env ge st scanner db oc ct data])
  case (refused e)
  then show ?thesis using assms(3,4) by simp
next
  case (unstored s1 e)
  have "objs s1 \<subseteq> objs (photo_objects db)"
    using store_pending_photo_objs(2) [OF assms(1) unstored(1)] assms(4,5) unstored(2) by (auto simp: storage_failed_def)
  then have "accounted objs (db \<lparr> photo_objects := s1 \<rparr>)" using assms(3) by (simp add: accounted_def)
  then show ?thesis using assms(4) unstored(2) by simp
next
  case (stored s1 key version emb db2)
  let ?db1 = "db \<lparr> photo_objects := s1 \<rparr>"
  let ?body = "enroll_face env ge ?db1 oc emb key version ct (length data)"
  have put: "objs s1 \<subseteq> insert (key, version) (objs (photo_objects db))"
    using store_pending_photo_objs(1) [OF assms(1) stored(1)] by blast
  have ok: "gate_faces_ok ?db1" using assms(2) by (simp add: gate_faces_objects)
  obtain d dbe where b: "?body = Inr (d, dbe)" using stored(2) by (cases ?body) (auto simp: committed_def)
  note e = enroll_face_body [OF ok b]
  have acc: "accounted objs dbe"
  proof -
    obtain ft pt dt where c: "dbe = ?db1 \<lparr> face_enrollments := ft, pending_photos := pt, photo_deletions := dt \<rparr>"
      "listed (pending_photos db) (photo_deletions db) \<subseteq> listed pt dt"
      using e(1) unfolding face_change_def by auto
    show ?thesis using put assms(3) e(2) c by (auto simp: accounted_def)
  qed
  have "accounted objs db2"
  proof (cases d)
    case None
    then show ?thesis using stored(2) b acc by (simp add: committed_def)
  next
    case (Some k)
    have "photo_step objs dbe (snd (process_photo_deletion st k dbe))"
      by (rule process_photo_deletion_step [OF photo_step_ok [OF face_change_step [OF e(1)]] photo_store_tidy [OF assms(1)]])
    then show ?thesis using stored(2) b acc Some photo_step_accounted by (fastforce simp: committed_def)
  qed
  then show ?thesis using stored(3) assms(4) by simp
next
  case (undone s1 key version s2 r2 e)
  have put: "objs s1 \<subseteq> insert (key, version) (objs (photo_objects db))" "is_s3 st \<longrightarrow> version \<noteq> []"
    using store_pending_photo_objs(1) [OF assms(1) undone(1)] by blast+
  note d = delete_pending_photo_objs [OF assms(1) undone(2)]
  have "r2 = Inr ()" using assms(4,5) undone(3) put(2) d(3) by (cases r2) (auto simp: storage_failed_def)
  then have "objs s2 \<subseteq> objs (photo_objects db)" using d(1,2) put(1) by blast
  then have "accounted objs (db \<lparr> photo_objects := s2 \<rparr>)" using assms(3) by (simp add: accounted_def)
  then show ?thesis using assms(4) undone(3) by simp
qed

section \<open>The other services\<close>

text \<open>A later state of a credential: the same token and reader, never less revoked, never valid for longer.\<close>

definition cred_le :: "credential_row \<Rightarrow> credential_row \<Rightarrow> bool" where
  "cred_le c c' \<longleftrightarrow> gc_token_sha256 c' = gc_token_sha256 c \<and> gc_device c' = gc_device c
     \<and> (gc_revoked_at c \<noteq> None \<longrightarrow> gc_revoked_at c' \<noteq> None)
     \<and> (\<forall>x. gc_expires_at c = Some x \<longrightarrow> (\<exists>y \<le> x. gc_expires_at c' = Some y))"

definition creds_keep :: "credential_row table \<Rightarrow> credential_row table \<Rightarrow> bool" where
  "creds_keep ct ct' \<longleftrightarrow> (\<forall>k c. t_get ct k = Some c \<longrightarrow> (\<exists>c'. t_get ct' k = Some c' \<and> cred_le c c'))"

lemma cred_le_refl: "cred_le c c"
  by (auto simp: cred_le_def)

lemma cred_le_trans: "cred_le a b \<Longrightarrow> cred_le b c \<Longrightarrow> cred_le a c"
  unfolding cred_le_def by (metis order_trans)

lemma creds_keep_refl: "creds_keep t t"
  using cred_le_refl by (auto simp: creds_keep_def)

lemma creds_keep_trans: "creds_keep a b \<Longrightarrow> creds_keep b c \<Longrightarrow> creds_keep a c"
  unfolding creds_keep_def using cred_le_trans by blast

definition other_step :: "('s, 'z) gdb \<Rightarrow> ('s, 'z) gdb \<Rightarrow> bool" where
  "other_step db db' \<longleftrightarrow> face_enrollments db' = face_enrollments db \<and> pending_photos db' = pending_photos db
     \<and> photo_deletions db' = photo_deletions db \<and> photo_objects db' = photo_objects db
     \<and> (plates_ok (vehicle_plates db) \<longrightarrow> plates_ok (vehicle_plates db'))
     \<and> (creds_ok (gate_credentials db) \<longrightarrow> creds_ok (gate_credentials db') \<and> creds_keep (gate_credentials db) (gate_credentials db'))
     \<and> (t_ok (gate_events db) \<longrightarrow> t_ok (gate_events db'))"

lemma other_step_refl: "other_step db db"
  by (simp add: other_step_def creds_keep_refl)

lemma plate_step: "\<exists>t. db' = db \<lparr> vehicle_plates := t \<rparr> \<and> plates_ok t \<Longrightarrow> other_step db db'"
  by (auto simp: other_step_def creds_keep_refl)

lemma creds_insert:
  assumes "creds_ok t" "\<not> t_exists (\<lambda>_ c. gc_token_sha256 c = gc_token_sha256 r) t"
  shows "creds_ok (t_insert r t) \<and> creds_keep t (t_insert r t)"
proof
  have "unique_on (\<lambda>c. Some (gc_token_sha256 c)) (t_insert r t)"
    by (rule unique_on_insert) (use assms in \<open>simp_all add: creds_ok_def\<close>)
  then show "creds_ok (t_insert r t)" using assms(1) by (simp add: creds_ok_def)
  show "creds_keep t (t_insert r t)" unfolding creds_keep_def
    by (intro allI impI exI conjI, rule t_get_insert_old, assumption, rule cred_le_refl)
qed

lemma creds_update:
  assumes "creds_ok t" "\<And>k c. t_get t k = Some c \<Longrightarrow> P k c \<Longrightarrow> cred_le c (f c)"
  shows "creds_ok (t_update_all P f t) \<and> creds_keep t (t_update_all P f t)"
proof
  show "creds_ok (t_update_all P f t)"
    unfolding creds_ok_def
  proof
    show "t_ok (t_update_all P f t)" using assms(1) by (simp add: creds_ok_def)
    show "unique_on (\<lambda>c. Some (gc_token_sha256 c)) (t_update_all P f t)"
      by (rule unique_on_update_all) (use assms in \<open>simp_all add: creds_ok_def cred_le_def\<close>)
  qed
  show "creds_keep t (t_update_all P f t)"
    unfolding creds_keep_def
  proof (intro allI impI)
    fix k c assume c: "t_get t k = Some c"
    show "\<exists>c'. t_get (t_update_all P f t) k = Some c' \<and> cred_le c c'"
      using c assms(2) [OF c] cred_le_refl [of c] by (cases "P k c") (simp_all add: t_get_update_all)
  qed
qed

lemma revoke_plate_step: "other_step db (revoke_plate db oc k)"
  by (simp add: revoke_plate_def Let_def other_step_def creds_keep_refl plates_delete)

lemma save_plate_review_step:
  assumes "save_plate_review db k st u t n = Inr db'" "plates_ok (vehicle_plates db)"
  shows "other_step db db'"
  by (rule plate_step) (rule save_plate_review_plates [OF assms])

lemma approve_plate_step:
  assumes "plates_ok (vehicle_plates db)"
  shows "other_step db (fst (settle_unit db (approve_plate env db k snap m)))"
  using save_plate_review_step [OF _ assms, of k RvApproved "mb_user m" "now env" "[]"] other_step_refl [of db]
  by (auto simp: approve_plate_def settle_unit_def split: sum.splits)

lemma reject_plate_step:
  assumes "plates_ok (vehicle_plates db)"
  shows "other_step db (fst (settle_unit db (reject_plate env db k snap m reason)))"
  using save_plate_review_step [OF _ assms, of k RvRejected "mb_user m" "now env"] other_step_refl [of db]
  by (auto simp: reject_plate_def settle_unit_def Let_def split: sum.splits)

lemma issue_credential_step:
  assumes "issue_credential env db d m = Inr (k, token, db')"
  shows "other_step db db'"
proof -
  obtain r where r: "db' = db \<lparr> gate_credentials := t_insert r (gate_credentials db) \<rparr>"
    "\<not> t_exists (\<lambda>_ c. gc_token_sha256 c = gc_token_sha256 r) (gate_credentials db)"
    using assms by (auto simp: issue_credential_def Let_def split: if_splits)
  show ?thesis using creds_insert [OF _ r(2)] by (simp add: r(1) other_step_def)
qed

lemma rotate_credential_step:
  assumes "rotate_credential env ge db d m grace = Inr (k, token, db')"
  shows "other_step db db'"
proof -
  define expiry where "expiry = now env + hours (case grace of None \<Rightarrow> GATE_CREDENTIAL_ROTATION_GRACE_HOURS ge | Some h \<Rightarrow> h)"
  define db1 where "db1 = db \<lparr> gate_credentials := t_update_all (\<lambda>_ c. gc_device c = d \<and> outlives expiry c)
     (\<lambda>c. c \<lparr> gc_expires_at := Some expiry \<rparr>) (gate_credentials db) \<rparr>"
  have i: "issue_credential env db1 d m = Inr (k, token, db')"
    using assms by (simp add: rotate_credential_def Let_def expiry_def db1_def)
  have c: "creds_ok (gate_credentials db1) \<and> creds_keep (gate_credentials db) (gate_credentials db1)" if "creds_ok (gate_credentials db)"
    unfolding db1_def
    by (simp, rule creds_update [OF that]) (auto simp: cred_le_def outlives_def split: option.splits)
  have f: "face_enrollments db1 = face_enrollments db" "pending_photos db1 = pending_photos db" "photo_deletions db1 = photo_deletions db"
    "photo_objects db1 = photo_objects db" "vehicle_plates db1 = vehicle_plates db" "gate_events db1 = gate_events db"
    by (simp_all add: db1_def)
  show ?thesis using issue_credential_step [OF i] c creds_keep_trans unfolding other_step_def f by blast
qed

lemma revoke_credential_step:
  assumes "revoke_credential env db k m = Inr db'"
  shows "other_step db db'"
proof -
  have e: "db' = db \<lparr> gate_credentials := t_update_all (\<lambda>i _. i = k) (\<lambda>c. c \<lparr> gc_revoked_at := Some (now env),
      gc_revoked_by := Some (mb_user m) \<rparr>) (gate_credentials db) \<rparr>"
    using assms by (auto simp: revoke_credential_def t_update_as_all split: option.splits)
  show ?thesis unfolding e other_step_def
    by (simp, intro impI, rule creds_update) (auto simp: cred_le_def)
qed

lemma record_auth_failure_frame: "\<exists>th. snd (record_auth_failure env db a ip) = db \<lparr> throttles := th \<rparr>"
  by (auto simp: record_auth_failure_def get_or_create_bucket_def Let_def split: option.splits prod.splits)

lemma reset_auth_throttle_frame: "\<exists>th. reset_auth_throttle env db a ip = db \<lparr> throttles := th \<rparr>"
proof (cases "bucket_of db (throttle_digest env a ip)")
  case None
  then have "reset_auth_throttle env db a ip = db \<lparr> throttles := throttles db \<rparr>" by (simp add: reset_auth_throttle_def)
  then show ?thesis by blast
qed (auto simp: reset_auth_throttle_def)

lemma throttle_step: "other_step db (db \<lparr> throttles := th \<rparr>)" "other_step db (db \<lparr> throttles := th, gate_devices := gd \<rparr>)"
  by (simp_all add: other_step_def creds_keep_refl)

lemma note_failure_step: "other_step db (fst (note_failure env db ip e))"
  using record_auth_failure_frame [of env db "Some THROTTLE_ACCOUNT" ip] throttle_step(1) [of db]
  by (auto simp: note_failure_def)

lemma authenticate_device_step: "other_step db (fst (authenticate_device env db token ip))"
proof -
  obtain th where th: "reset_auth_throttle env db (Some THROTTLE_ACCOUNT) ip = db \<lparr> throttles := th \<rparr>"
    using reset_auth_throttle_frame by blast
  show ?thesis unfolding authenticate_device_def th
    by (simp add: note_failure_step throttle_step other_step_refl Let_def split: sum.split option.split)
qed

lemma event_step: "other_step db (db \<lparr> gate_events := t_insert e (gate_events db) \<rparr>)"
  by (simp add: other_step_def creds_keep_refl)

lemma recognize_face_step: "other_step db (fst (settle db (recognize_face env ge db dk d img)))"
  using event_step [of db] other_step_refl [of db]
  by (auto simp: recognize_face_def settle_def split: sum.splits prod.splits)

lemma recognize_plate_step: "other_step db (fst (settle db (recognize_plate env ge db dk d raw)))"
  using event_step [of db] other_step_refl [of db]
  by (auto simp: recognize_plate_def settle_def Let_def split: sum.splits)

lemma purge_events_step: "other_step db (snd (purge_expired_gate_events env ge db))"
  by (simp add: purge_expired_gate_events_def Let_def other_step_def creds_keep_refl)

lemma record_purge_success_step: "other_step db (record_purge_success env db n m)"
  by (auto simp: record_purge_success_def other_step_def creds_keep_refl Let_def split: list.splits)

section \<open>One command\<close>

text \<open>What one command keeps: the invariant, the credentials, and the accounting of photos.\<close>

definition gate_keeps :: "('s \<Rightarrow> (string \<times> string) set) \<Rightarrow> ('s, 'z) gdb \<Rightarrow> ('s, 'z) gdb \<Rightarrow> bool" where
  "gate_keeps objs db db' \<longleftrightarrow> gate_ok db' \<and> creds_keep (gate_credentials db) (gate_credentials db')
     \<and> (accounted objs db \<longrightarrow> accounted objs db')"

lemma gate_keeps_trans: "gate_keeps objs a b \<Longrightarrow> gate_keeps objs b c \<Longrightarrow> gate_keeps objs a c"
  unfolding gate_keeps_def using creds_keep_trans by blast

lemma other_keeps: "gate_ok db \<Longrightarrow> other_step db db' \<Longrightarrow> gate_keeps objs db db'"
  by (simp add: gate_keeps_def other_step_def gate_ok_def accounted_def)

lemma gate_ok_faces: "gate_ok db \<Longrightarrow> gate_faces_ok db"
  by (simp add: gate_ok_def gate_faces_ok_def)

lemma photo_keeps:
  assumes "gate_ok db" "photo_step objs db db'"
  shows "gate_keeps objs db db'"
proof -
  obtain ft pt dt s where "db' = db \<lparr> face_enrollments := ft, pending_photos := pt, photo_deletions := dt, photo_objects := s \<rparr>"
    using assms(2) unfolding photo_step_def by blast
  then show ?thesis using assms unfolding gate_keeps_def photo_step_def gate_ok_def gate_faces_ok_def
    by (simp add: creds_keep_refl)
qed

lemma purge_gate_data_keeps:
  assumes "gate_ok db" "tidy st objs"
  shows "gate_keeps objs db (fst (purge_gate_data env ge st db))"
proof -
  obtain n db1 where e: "purge_expired_gate_events env ge db = (n, db1)" by fastforce
  have k1: "gate_keeps objs db db1" using other_keeps [OF assms(1)] purge_events_step [of db env ge] e by simp
  have ok1: "gate_ok db1" using k1 by (simp add: gate_keeps_def)
  obtain db2 r where p: "purge_expired_enrollment_photos env st db1 = (db2, r)" by fastforce
  have k2: "gate_keeps objs db1 db2"
    using photo_keeps [OF ok1] purge_photos_step [OF gate_ok_faces [OF ok1] assms(2), of env] p by simp
  have ok2: "gate_ok db2" using k2 by (simp add: gate_keeps_def)
  let ?db3 = "snd (process_photo_deletions st db2)"
  have k3: "gate_keeps objs db2 ?db3"
    using photo_keeps [OF ok2] process_each_step [OF gate_ok_faces [OF ok2] assms(2)] by (simp add: process_photo_deletions_def)
  have ok3: "gate_ok ?db3" using k3 by (simp add: gate_keeps_def)
  have k4: "gate_keeps objs ?db3 (record_purge_success env ?db3 n m)" for m
    by (rule other_keeps [OF ok3 record_purge_success_step])
  have k12: "gate_keeps objs db db2" using k1 k2 by (rule gate_keeps_trans)
  then have k13: "gate_keeps objs db ?db3" using k3 by (rule gate_keeps_trans)
  then have "gate_keeps objs db (record_purge_success env ?db3 n m)" for m using k4 by (rule gate_keeps_trans)
  then show ?thesis using k12 k13 by (cases r) (simp_all add: purge_gate_data_def e p Let_def)
qed

lemma fst_forget [simp]: "fst (forget x) = fst x"
  by (simp add: forget_def split: prod.split sum.split)

lemma settle_step: "(\<And>x db'. r = Inr (x, db') \<Longrightarrow> other_step db db') \<Longrightarrow> other_step db (fst (settle db r))"
  by (cases r) (auto simp: settle_def other_step_refl split: prod.splits)

lemma settle_unit_step: "(\<And>db'. r = Inr db' \<Longrightarrow> other_step db db') \<Longrightarrow> other_step db (fst (settle_unit db r))"
  by (cases r) (auto simp: settle_unit_def other_step_refl)

fun uploads :: "gate_cmd \<Rightarrow> bool" where
  "uploads (SubmitFace _ _ _) = True"
| "uploads _ = False"

lemma gate_run_keeps:
  assumes "gate_ok db" "tidy st objs" "\<not> uploads c"
  shows "gate_keeps objs db (fst (gate_run st (env, ge, scanner, c) db))"
proof -
  note o = other_keeps [OF assms(1)] and p = photo_keeps [OF assms(1)]
  note f = gate_ok_faces [OF assms(1)] assms(2)
  have pl: "plates_ok (vehicle_plates db)" using assms(1) by (simp add: gate_ok_def)
  show ?thesis
  proof (cases c)
    case (SubmitPlate oc raw)
    have "other_step db (fst (settle db (submit_plate env ge db oc raw)))"
      by (rule settle_step, rule plate_step, rule submit_plate_plates [OF _ pl])
    then show ?thesis using o SubmitPlate by simp
  next
    case (IssueCredential d m)
    have "other_step db (fst (settle db (map_sum id snd (issue_credential env db d m))))"
      by (rule settle_step) (cases "issue_credential env db d m"; auto dest: issue_credential_step)
    then show ?thesis using o IssueCredential by simp
  next
    case (RotateCredential d m grace)
    have "other_step db (fst (settle db (map_sum id snd (rotate_credential env ge db d m grace))))"
      by (rule settle_step) (cases "rotate_credential env ge db d m grace"; auto dest: rotate_credential_step)
    then show ?thesis using o RotateCredential by simp
  next
    case (RevokeCredential k m)
    have "other_step db (fst (settle_unit db (revoke_credential env db k m)))"
      by (rule settle_unit_step) (rule revoke_credential_step)
    then show ?thesis using o RevokeCredential by simp
  next
    case (RevokePlateAsManager k snap m)
    then show ?thesis using o reject_plate_step [OF pl] by (simp add: revoke_plate_as_manager_def)
  qed (use o p assms(3) in \<open>simp_all add: revoke_plate_step approve_plate_step [OF pl] reject_plate_step [OF pl]
      authenticate_device_step recognize_face_step recognize_plate_step revoke_face_enrollment_step [OF f]
      approve_face_step [OF f] reject_face_step [OF f] revoke_face_step [OF f] purge_gate_data_keeps [OF assms(1,2)]\<close>)
qed

lemma gate_run_ok:
  assumes "gate_ok db"
  shows "gate_keeps (\<lambda>_. {}) db (fst (gate_run st (env, ge, scanner, c) db))"
proof (cases "uploads c")
  case False
  then show ?thesis using gate_run_keeps [OF assms tidy_none] by blast
next
  case True
  then obtain oc ct data where c: "c = SubmitFace oc ct data" by (cases c) auto
  have "photo_step (\<lambda>_. {}) db (fst (submit_face_enrollment env ge st scanner db oc ct data))"
    using submit_face_frame [OF gate_ok_faces [OF assms], of env ge st scanner oc ct data]
    by (simp add: photo_step_def accounted_def)
  then show ?thesis using photo_keeps [OF assms] c by simp
qed

interpretation gate: service_machine "gate_exec st" gate_ok for st
proof
  show "gate_ok (gate_exec st c db)" if "gate_ok db" for c :: gate_step and db :: "('a, 'b) gdb"
    using gate_run_ok [OF that] by (cases c) (simp add: gate_keeps_def gate_exec_def)
qed

end
