(* ===== verification/Gate_Samples.thy ===== *)
theory Gate_Samples
  imports Gate_Run
begin

text \<open>
  A small gate, at which the properties of the gate are instantiated: a building with one approved plate, one face
  under review with its photo in a versioned bucket, a photo whose deletion did not get through, one reader with one
  credential, and one old event.
\<close>

type_synonym bucket = "(string \<times> string) list"

definition sample_bucket :: "bucket photo_storage" where
  "sample_bucket = \<lparr> is_s3 = True, get_bucket_versioning = (\<lambda>_. Inr (Some ''Enabled'')),
     put_object = (\<lambda>s k _ _. ((k, ''v'' @ nat_str (length s)) # s, Inr (PyStr (''v'' @ nat_str (length s))))),
     get_object = (\<lambda>_ _ _. Inl ''not kept''), delete_object = (\<lambda>s k v. (filter (\<lambda>x. x \<noteq> (k, v)) s, Inr ())),
     save_file = (\<lambda>s _ _. (s, Inl ''a bucket'')), open_file = (\<lambda>_ _. Inl ''a bucket''), delete_file = (\<lambda>s _. (s, Inl ''a bucket'')),
     list_object_versions = (\<lambda>s k. Inr (filter (\<lambda>(k', _). k' = k) s)), delete_unversioned = (\<lambda>s _. (s, Inr ())) \<rparr>"

definition bucket_objects :: "bucket \<Rightarrow> (string \<times> string) set" where
  "bucket_objects s = {x \<in> set s. fst x \<noteq> []}"

lemma sample_photo_store: "photo_store sample_bucket bucket_objects"
  by (auto simp: photo_store_def sample_bucket_def bucket_objects_def)

definition sample_gate_env :: gate_env where
  "sample_gate_env = \<lparr> nfkd_upper = map upper_char, photo_uuid_hex = ''u'', decode_faces = (\<lambda>_. None), MODEL_NAME = ''m'',
     model_version = ''1'', fernet_encrypt = (\<lambda>_. ''sealed''), fernet_decrypt = (\<lambda>_. Some [1]), zero_norm = (\<lambda>_. False),
     cosine = (\<lambda>_ _. 1), GATE_EVENT_RETENTION_HOURS = 24, GATE_ENROLLMENT_PHOTO_TTL_HOURS = 72,
     GATE_CREDENTIAL_ROTATION_GRACE_HOURS = 24, GATE_FACE_MATCH_THRESHOLD = 0, GATE_MAX_FACE_UPLOAD_BYTES = 100,
     GATE_MIN_FACE_PIXELS = 80, GATE_MIN_FACE_DET_SCORE = 0, GATE_MIN_FACE_SHARPNESS = 0, GATE_FACE_CALIBRATED = True \<rparr>"

definition sample_face :: "review_status \<Rightarrow> face_row" where
  "sample_face st = \<lparr> fa_occupancy = 1, fa_embedding = Some ''sealed'', fa_model_name = ''m'', fa_model_version = ''1'',
     fa_status = st, fa_submitted_at = 0, fa_reviewed_by = None, fa_reviewed_at = None, fa_review_note = [] \<rparr>"

definition sample_plate :: plate_row where
  "sample_plate = \<lparr> vp_occupancy = 1, vp_building = 1, vp_plate = ''51F12345'', vp_status = RvApproved, vp_submitted_at = 0,
     vp_reviewed_by = Some 1, vp_reviewed_at = Some 1, vp_review_note = [] \<rparr>"

definition sample_photo :: photo_row where
  "sample_photo = \<lparr> ph_enrollment = 1, ph_storage_key = ''k'', ph_provider_version_id = ''v'', ph_content_type = ''image/png'',
     ph_byte_size = 4, ph_created_at = 0, ph_expires_at = 10 \<rparr>"

definition sample_deletion :: deletion_row where
  "sample_deletion = \<lparr> pd_storage_key = ''old'', pd_provider_version_id = ''v'', pd_created_at = 0 \<rparr>"

definition sample_reader :: gate_device_row where
  "sample_reader = \<lparr> gd_building = 1, gd_label = ''north'', gd_direction = Entry, gd_active = True, gd_last_seen_hour = None \<rparr>"

definition sample_credential :: credential_row where
  "sample_credential = \<lparr> gc_device = 1, gc_token_sha256 = token_digest sample_env ''t'', gc_created_at = 0, gc_created_by = 1,
     gc_expires_at = None, gc_revoked_at = None, gc_revoked_by = None \<rparr>"

definition sample_manager :: membership_row where
  "sample_manager = \<lparr> mb_user = 1, mb_building = 1, mb_active = True \<rparr>"

definition sample_gate :: "review_status \<Rightarrow> bucket gate_db" where
  "sample_gate st = accounts_db.extend sample_accounts (gate_db.fields
     (Table 2 [(1, sample_face st)]) (Table 2 [(1, sample_plate)])
     (if st = RvPending then Table 2 [(1, sample_photo)] else t_empty) (Table 2 [(1, sample_deletion)])
     (Table 2 [(1, sample_reader)]) (Table 2 [(1, sample_credential)]) t_empty t_empty [(''k'', ''v''), (''old'', ''v'')])"

lemmas sample_gate_simps = sample_gate_def accounts_db.defs gate_db.defs sample_accounts_def

lemma sample_gate_rows:
  "t_get (face_enrollments (sample_gate st)) k = (if k = 1 then Some (sample_face st) else None)"
  "t_get (vehicle_plates (sample_gate st)) k = (if k = 1 then Some sample_plate else None)"
  "t_get (pending_photos (sample_gate RvPending)) k = (if k = 1 then Some sample_photo else None)"
  "t_get (pending_photos (sample_gate RvApproved)) k = None"
  "t_get (photo_deletions (sample_gate st)) k = (if k = 1 then Some sample_deletion else None)"
  "t_get (gate_credentials (sample_gate st)) k = (if k = 1 then Some sample_credential else None)"
  "photo_objects (sample_gate st) = [(''k'', ''v''), (''old'', ''v'')]"
  by (simp_all add: sample_gate_simps t_get_def t_empty_def)

lemma unique_on_one: "(\<And>k. t_get t k = (if k = i then Some r else None)) \<Longrightarrow> unique_on key t"
  by (rule unique_onI) (auto split: if_splits)

lemma sample_gate_tables:
  "t_ok (face_enrollments (sample_gate st))" "t_ok (vehicle_plates (sample_gate st))" "t_ok (pending_photos (sample_gate st))"
  "t_ok (photo_deletions (sample_gate st))" "t_ok (gate_credentials (sample_gate st))" "t_ok (gate_events (sample_gate st))"
  by (simp_all add: sample_gate_simps t_ok_def t_empty_def)

lemma sample_gate_ok: "gate_ok (sample_gate RvPending)"
proof -
  have "plates_ok (vehicle_plates (sample_gate RvPending))"
    by (simp add: plates_ok_def sample_gate_tables unique_on_one [OF sample_gate_rows(2)] sample_gate_rows)
      (simp add: sample_plate_def plate_text_ok_def MIN_LENGTH_def MAX_LENGTH_def is_plate_char_def is_upper_def is_digit_def code_def)
  moreover have "faces_part None (face_enrollments (sample_gate RvPending)) (pending_photos (sample_gate RvPending))"
    by (simp add: faces_part_def sample_gate_tables unique_on_one [OF sample_gate_rows(1)] unique_on_one [OF sample_gate_rows(3)]
        sample_gate_rows face_ok_def has_photo_def) (simp add: sample_photo_def sample_face_def)
  ultimately show ?thesis
    by (simp add: gate_ok_def queue_row_ok_def creds_ok_def sample_gate_tables unique_on_one [OF sample_gate_rows(5)]
        unique_on_one [OF sample_gate_rows(6)])
qed

lemma sample_accounted: "accounted bucket_objects (sample_gate RvPending)"
  by (auto simp: accounted_def sample_gate_rows bucket_objects_def listed_def ran_def photo_ref_def deletion_ref_def
      sample_photo_def sample_deletion_def)

abbreviation sample_step :: "gate_cmd \<Rightarrow> gate_step" where
  "sample_step c \<equiv> (sample_env, sample_gate_env, \<lambda>_. Inr True, c)"

end
