(* ===== verification/Gate_Access.thy ===== *)
theory Gate_Access
  imports Gate_Samples
begin

text \<open>
  What the gate promises, over any run of its services: the registry of plates and faces, the readers' credentials,
  recognition, and the retention of photos and events.
\<close>

section \<open>The registry\<close>

text \<open>
  C29.  After any run of the gate's services, whatever the storage, the scanner and the face model answer and however
  stale the rows a manager reviewed were: a building has at most one approved plate of a text, and it is in normal
  form; a review photo exists exactly while its enrolment is pending; and a face vector is kept exactly while its
  enrolment is pending or approved.
\<close>

theorem gate_registry:
  assumes "gate_ok db" "db' = fold (gate_exec st) steps db"
  shows "(\<forall>i j p q. t_get (vehicle_plates db') i = Some p \<and> t_get (vehicle_plates db') j = Some q
        \<and> vp_status p = RvApproved \<and> vp_status q = RvApproved \<and> vp_building p = vp_building q \<and> vp_plate p = vp_plate q \<longrightarrow> i = j)
    \<and> (\<forall>i p. t_get (vehicle_plates db') i = Some p \<longrightarrow>
         5 \<le> length (vp_plate p) \<and> length (vp_plate p) \<le> 12 \<and> list_all is_plate_char (vp_plate p))
    \<and> (\<forall>k f. t_get (face_enrollments db') k = Some f \<longrightarrow>
         ((\<exists>i p. t_get (pending_photos db') i = Some p \<and> ph_enrollment p = k) \<longleftrightarrow> fa_status f = RvPending)
         \<and> (fa_embedding f \<noteq> None \<longleftrightarrow> fa_status f = RvPending \<or> fa_status f = RvApproved))
    \<and> (\<forall>i p. t_get (pending_photos db') i = Some p \<longrightarrow> t_get (face_enrollments db') (ph_enrollment p) \<noteq> None)"
proof -
  have ok: "gate_ok db'" using gate.run_inv [OF assms(1)] assms(2) by simp
  then have pl: "unique_on approved_key (vehicle_plates db')" "\<forall>i p. t_get (vehicle_plates db') i = Some p \<longrightarrow> plate_text_ok (vp_plate p)"
    by (simp_all add: gate_ok_def plates_ok_def)
  have fc: "faces_part None (face_enrollments db') (pending_photos db')" using ok by (simp add: gate_ok_def)
  have "i = j" if "t_get (vehicle_plates db') i = Some p" "t_get (vehicle_plates db') j = Some q"
    "vp_status p = RvApproved" "vp_status q = RvApproved" "vp_building p = vp_building q" "vp_plate p = vp_plate q" for i j p q
    using unique_onD [OF pl(1) that(1,2), of "(vp_building q, vp_plate q)"] that(3-6) by (simp add: approved_key_def)
  moreover have "(fa_status f = RvPending \<longleftrightarrow> has_photo (pending_photos db') k)
      \<and> (fa_embedding f \<noteq> None \<longleftrightarrow> fa_status f = RvPending \<or> fa_status f = RvApproved)"
    if "t_get (face_enrollments db') k = Some f" for k f
    using fc that unfolding faces_part_def face_ok_def by blast
  moreover have "t_get (face_enrollments db') (ph_enrollment p) \<noteq> None" if "t_get (pending_photos db') i = Some p" for i p
    using fc that unfolding faces_part_def by blast
  ultimately show ?thesis using pl(2) unfolding has_photo_def plate_text_ok_def MIN_LENGTH_def MAX_LENGTH_def by blast
qed

section \<open>Stored photos\<close>

fun gate_results :: "'s photo_storage \<Rightarrow> gate_step list \<Rightarrow> ('s, 'z) gdb \<Rightarrow> unit result list" where
  "gate_results st [] db = []"
| "gate_results st (c # cs) db = snd (gate_run st c db) # gate_results st cs (gate_exec st c db)"

lemma gate_run_accounted:
  assumes "photo_store st objs" "gate_ok db" "accounted objs db" "\<not> storage_failed (snd (gate_run st c db))"
  shows "accounted objs (gate_exec st c db)"
proof -
  obtain env ge scanner cmd where c: "c = (env, ge, scanner, cmd)" by (cases c) auto
  show ?thesis
  proof (cases "uploads cmd")
    case False
    then show ?thesis using gate_run_keeps [OF assms(2) photo_store_tidy [OF assms(1)] False] assms(3) c
      by (simp add: gate_exec_def gate_keeps_def)
  next
    case True
    then obtain oc ct data where cmd: "cmd = SubmitFace oc ct data" by (cases cmd) auto
    obtain db' r where s: "submit_face_enrollment env ge st scanner db oc ct data = (db', r)" by fastforce
    then show ?thesis using submit_face_accounted [OF assms(1) gate_ok_faces [OF assms(2)] assms(3) s] assms(4) c cmd
      by (simp add: gate_exec_def)
  qed
qed

text \<open>
  C27.  No photo is forgotten.  When every stored object is named by a row, this stays so through any run of the
  services in which no storage call failed: an object is always a photo under review or one waiting to be deleted,
  through rejected uploads, transactions that were rolled back, replaced photos and deletions that did not get
  through.
\<close>

theorem photos_accounted:
  assumes "photo_store st objs" "gate_ok db" "accounted objs db"
    and "\<forall>r \<in> set (gate_results st steps db). \<not> storage_failed r"
  shows "objs (photo_objects (fold (gate_exec st) steps db)) \<subseteq>
    listed (pending_photos (fold (gate_exec st) steps db)) (photo_deletions (fold (gate_exec st) steps db))"
  using assms(2-4)
proof (induction steps arbitrary: db)
  case Nil
  then show ?case by (simp add: accounted_def)
next
  case (Cons c cs)
  have "accounted objs (gate_exec st c db)"
    by (rule gate_run_accounted [OF assms(1) Cons.prems(1,2)]) (use Cons.prems(3) in simp)
  then show ?case using Cons.IH [OF gate.exec_inv [OF Cons.prems(1)]] Cons.prems(3) by simp
qed

section \<open>Credentials\<close>

lemma first_by_token:
  assumes "creds_ok t" "t_get t k = Some c"
  shows "t_first (\<lambda>_ x. gc_token_sha256 x = gc_token_sha256 c) t = Some (k, c)"
proof -
  have ok: "t_ok t" and u: "unique_on (\<lambda>c. Some (gc_token_sha256 c)) t" using assms(1) by (simp_all add: creds_ok_def)
  obtain j x where j: "t_first (\<lambda>_ x. gc_token_sha256 x = gc_token_sha256 c) t = Some (j, x)"
    using assms(2) by (cases "t_first (\<lambda>_ x. gc_token_sha256 x = gc_token_sha256 c) t") (auto simp: t_first_None_iff [OF ok])
  have x: "t_get t j = Some x" "gc_token_sha256 x = gc_token_sha256 c" using t_first_Some_get [OF ok j] by auto
  have "j = k" using unique_onD [OF u x(1) assms(2)] x(2) by blast
  then show ?thesis using j x(1) assms(2) by simp
qed

lemma authenticate_retired:
  assumes "creds_ok (gate_credentials db)" "t_get (gate_credentials db) k = Some c" "token_digest env token = gc_token_sha256 c"
    and "\<not> is_valid (now env) c"
  shows "\<exists>e \<in> {PermissionDenied, GateAuthenticationFailed, GateCredentialRevoked, GateCredentialExpired}.
    snd (authenticate_device env db token ip) = Inl e"
  using first_by_token [OF assms(1,2)] assms(3,4)
  by (auto simp: authenticate_device_def assert_not_throttled_def note_failure_def split: option.splits if_splits)

lemma run_creds_keep:
  assumes "gate_ok db"
  shows "creds_keep (gate_credentials db) (gate_credentials (fold (gate_exec st) steps db))"
proof (rule gate.run_stepwise [OF assms, where R = "\<lambda>a b. creds_keep (gate_credentials a) (gate_credentials b)"])
  show "creds_keep (gate_credentials db) (gate_credentials (gate_exec st c db))" if "gate_ok db" for db :: "('a, 'b) gdb" and c
    using gate_run_ok [OF that] by (cases c) (simp add: gate_keeps_def gate_exec_def)
qed (auto intro: creds_keep_refl creds_keep_trans)

lemma cred_le_invalid: "cred_le c c' \<Longrightarrow> \<not> is_valid t c \<Longrightarrow> \<not> is_valid t c'"
  by (fastforce simp: cred_le_def is_valid_def split: option.splits)

lemma run_retired:
  assumes "gate_ok db" "t_get (gate_credentials db) k = Some c" "token_digest env token = gc_token_sha256 c" "\<not> is_valid (now env) c"
  shows "\<exists>e \<in> {PermissionDenied, GateAuthenticationFailed, GateCredentialRevoked, GateCredentialExpired}.
    snd (authenticate_device env (fold (gate_exec st) steps db) token ip) = Inl e"
proof -
  let ?db = "fold (gate_exec st) steps db"
  obtain c' where c': "t_get (gate_credentials ?db) k = Some c'" "cred_le c c'"
    using run_creds_keep [OF assms(1), of st steps] assms(2) unfolding creds_keep_def by blast
  have "creds_ok (gate_credentials ?db)" using gate.run_inv [OF assms(1)] by (simp add: gate_ok_def)
  then show ?thesis
    by (rule authenticate_retired [OF _ c'(1)]) (use assms(3,4) c'(2) cred_le_invalid in \<open>auto simp: cred_le_def\<close>)
qed

text \<open>
  C28.  A retired token stays out.  Once a credential has been revoked, or rotated away and its grace period is over,
  no run of the gate's services, further rotations and revocations included, makes its token open the gate again.
\<close>

theorem retired_token_refused:
  assumes "gate_ok db" "t_get (gate_credentials db) k = Some c" "token_digest env token = gc_token_sha256 c"
    and "revoke_credential env0 db k m = Inr db1
      \<or> (\<exists>new token'. rotate_credential env0 ge db (gc_device c) m (Some grace) = Inr (new, token', db1) \<and> now env0 + hours grace \<le> now env)"
  shows "\<exists>e \<in> {PermissionDenied, GateAuthenticationFailed, GateCredentialRevoked, GateCredentialExpired}.
    snd (authenticate_device env (fold (gate_exec st) steps db1) token ip) = Inl e"
  using assms(4)
proof
  assume r: "revoke_credential env0 db k m = Inr db1"
  have "gate_ok db1" using other_keeps [OF assms(1) revoke_credential_step [OF r]] unfolding gate_keeps_def by blast
  then show ?thesis
    by (rule run_retired [where k = k and c = "c \<lparr> gc_revoked_at := Some (now env0), gc_revoked_by := Some (mb_user m) \<rparr>"])
      (use r assms(2,3) in \<open>auto simp: revoke_credential_def t_get_update is_valid_def split: option.splits\<close>)
next
  let ?x = "now env0 + hours grace"
  assume "\<exists>new token'. rotate_credential env0 ge db (gc_device c) m (Some grace) = Inr (new, token', db1) \<and> ?x \<le> now env"
  then obtain new token' where r: "rotate_credential env0 ge db (gc_device c) m (Some grace) = Inr (new, token', db1)" and t: "?x \<le> now env"
    by blast
  have ok: "gate_ok db1" using other_keeps [OF assms(1) rotate_credential_step [OF r]] unfolding gate_keeps_def by blast
  define old where "old = (if outlives ?x c then c \<lparr> gc_expires_at := Some ?x \<rparr> else c)"
  have g: "t_get (t_update_all (\<lambda>_ x. gc_device x = gc_device c \<and> outlives ?x x) (\<lambda>x. x \<lparr> gc_expires_at := Some ?x \<rparr>) (gate_credentials db)) k = Some old"
    using assms(2) by (simp add: t_get_update_all old_def)
  have "t_get (gate_credentials db1) k = Some old"
    using r by (auto simp: rotate_credential_def issue_credential_def Let_def split: if_splits intro: t_get_insert_old [OF g])
  moreover have "\<not> is_valid (now env) old" using t by (auto simp: old_def is_valid_def outlives_def split: option.splits)
  moreover have "gc_token_sha256 old = gc_token_sha256 c" by (simp add: old_def)
  ultimately show ?thesis using run_retired [OF ok] assms(3) by metis
qed

section \<open>Recognition\<close>

definition plate_admits :: "('s, 'z) gdb \<Rightarrow> pk \<Rightarrow> string \<Rightarrow> pk \<Rightarrow> plate_row \<Rightarrow> occupancy_row \<Rightarrow> bool" where
  "plate_admits db building plate k p oc \<longleftrightarrow> t_get (vehicle_plates db) k = Some p \<and> vp_building p = building \<and> vp_plate p = plate
     \<and> vp_status p = RvApproved \<and> t_get (occupancies db) (vp_occupancy p) = Some oc \<and> oc_active oc"

lemma match_plate_iff:
  assumes "plates_ok (vehicle_plates db)"
  shows "match_plate db b s = Some (k, p) \<longleftrightarrow> (\<exists>oc. plate_admits db b s k p oc)"
proof -
  have ok: "t_ok (vehicle_plates db)" and u: "unique_on approved_key (vehicle_plates db)" using assms by (simp_all add: plates_ok_def)
  have found: "\<exists>oc. plate_admits db b s k p oc" if "match_plate db b s = Some (k, p)" for k p
    using t_first_Some_get [OF ok that [unfolded match_plate_def]] by (auto simp: plate_admits_def split: option.splits)
  show ?thesis
  proof
    assume "\<exists>oc. plate_admits db b s k p oc"
    then obtain oc where a: "plate_admits db b s k p oc" ..
    have "match_plate db b s \<noteq> None"
    proof
      assume "match_plate db b s = None"
      from this [unfolded match_plate_def t_first_None_iff [OF ok], rule_format, of k p] a show False by (simp add: plate_admits_def)
    qed
    then obtain j q where j: "match_plate db b s = Some (j, q)" by fastforce
    obtain oc' where a': "plate_admits db b s j q oc'" using found [OF j] ..
    have "j = k" using unique_onD [OF u, of j q k p "(b, s)"] a a' by (simp add: plate_admits_def approved_key_def)
    then show "match_plate db b s = Some (k, p)" using j a a' by (simp add: plate_admits_def)
  qed (rule found)
qed

text \<open>
  Plate recognition is exact.  A reader answers "matched" exactly when the building has an approved plate of the
  normalised text whose occupancy is active; the answer and the event then name that plate's resident and unit, and
  nobody otherwise; one event is recorded, at the time of the reading.
\<close>

theorem plate_recognition:
  assumes "gate_ok db" "recognize_plate env ge db dk d raw = Inr (out, db')"
  shows "\<exists>plate e. normalize_plate ge raw = Inr plate \<and> db' = db \<lparr> gate_events := t_insert e (gate_events db) \<rparr>
    \<and> ge_occurred_at e = now env \<and> ge_normalized_plate_text e = plate \<and> event_id out = next_pk (gate_events db)
    \<and> (matched out \<longleftrightarrow> (\<exists>k p oc. plate_admits db (gd_building d) plate k p oc))
    \<and> (\<forall>k p oc u un. plate_admits db (gd_building d) plate k p oc \<and> t_get (users db) (oc_user oc) = Some u
          \<and> t_get (units db) (oc_unit oc) = Some un \<longrightarrow>
         ge_matched_plate e = Some k \<and> ge_matched_occupancy e = Some (vp_occupancy p)
         \<and> display_name out = u_display_name u \<and> unit_label out = un_label un)
    \<and> (\<not> matched out \<longrightarrow> ge_matched_occupancy e = None \<and> display_name out = [] \<and> unit_label out = [])"
proof -
  have pl: "plates_ok (vehicle_plates db)" using assms(1) by (simp add: gate_ok_def)
  obtain plate where n: "normalize_plate ge raw = Inr plate" using assms(2) by (auto simp: recognize_plate_def split: sum.splits)
  note mi = match_plate_iff [OF pl, of "gd_building d" plate]
  define e where "e = \<lparr> ge_building = gd_building d, ge_device = dk, ge_kind = PlateEvent, ge_direction = gd_direction d,
    ge_occurred_at = now env, ge_matched_occupancy = map_option (\<lambda>(_, p). vp_occupancy p) (match_plate db (gd_building d) plate),
    ge_matched_plate = map_option fst (match_plate db (gd_building d) plate),
    ge_raw_plate_text = py_take 64 (case raw of None \<Rightarrow> [] | Some s \<Rightarrow> s), ge_normalized_plate_text = plate,
    ge_model_name = [], ge_model_version = [], ge_match_metric = [], ge_threshold_used = None, ge_match_score = None \<rparr>"
  have out: "out = outcome_of db (ge_matched_occupancy e) d None (next_pk (gate_events db))"
    and db': "db' = db \<lparr> gate_events := t_insert e (gate_events db) \<rparr>"
    using assms(2) n by (auto simp: recognize_plate_def Let_def e_def)
  have m: "matched out \<longleftrightarrow> (\<exists>k p oc. plate_admits db (gd_building d) plate k p oc)"
  proof -
    have "(\<exists>k p oc. plate_admits db (gd_building d) plate k p oc) \<longleftrightarrow> (\<exists>k p. match_plate db (gd_building d) plate = Some (k, p))"
      using mi by blast
    then show ?thesis by (simp add: out outcome_of_def Let_def e_def)
  qed
  have named: "ge_matched_plate e = Some k \<and> ge_matched_occupancy e = Some (vp_occupancy p)
      \<and> display_name out = u_display_name u \<and> unit_label out = un_label un"
    if h: "plate_admits db (gd_building d) plate k p oc" "t_get (users db) (oc_user oc) = Some u" "t_get (units db) (oc_unit oc) = Some un"
    for k p oc u un
  proof -
    have "match_plate db (gd_building d) plate = Some (k, p)" using mi h(1) by blast
    moreover have "t_get (occupancies db) (vp_occupancy p) = Some oc" using h(1) by (simp add: plate_admits_def)
    ultimately show ?thesis using h(2,3) by (simp add: out outcome_of_def Let_def e_def)
  qed
  have "ge_matched_occupancy e = None \<and> display_name out = [] \<and> unit_label out = []" if "\<not> matched out"
    using that by (simp add: out outcome_of_def Let_def)
  moreover have "ge_occurred_at e = now env" "ge_normalized_plate_text e = plate" "event_id out = next_pk (gate_events db)"
    by (simp_all add: e_def out outcome_of_def Let_def)
  ultimately show ?thesis using n db' m named by blast
qed

text \<open>The scores \<open>match_face\<close> compares: those of the stored vectors of the probe's length.\<close>

definition scored :: "gate_env \<Rightarrow> vector \<Rightarrow> (pk \<times> string) list \<Rightarrow> (pk \<times> rat) list" where
  "scored ge probe rows = concat (map (\<lambda>(oc, sealed). case fernet_decrypt ge sealed of
     None \<Rightarrow> [] | Some v \<Rightarrow> if length v = length probe then [(oc, cosine ge probe v)] else []) rows)"

lemma scored_simps [simp]:
  "scored ge probe [] = []"
  "scored ge probe ((oc, sealed) # rows) = (case fernet_decrypt ge sealed of
     None \<Rightarrow> [] | Some v \<Rightarrow> if length v = length probe then [(oc, cosine ge probe v)] else []) @ scored ge probe rows"
  by (simp_all add: scored_def)

lemma best_match_scored:
  assumes "best_match ge probe rows (b, x) = Inr (b', x')"
  shows "x \<le> x' \<and> (\<forall>(oc, y) \<in> set (scored ge probe rows). y \<le> x')
    \<and> (x' = x \<and> b' = b \<or> x < x' \<and> (\<exists>oc. b' = Some oc \<and> (oc, x') \<in> set (scored ge probe rows)))"
  using assms
proof (induction rows arbitrary: b x)
  case (Cons row rows)
  obtain oc sealed where row: "row = (oc, sealed)" by (cases row)
  obtain v where v: "fernet_decrypt ge sealed = Some v"
    using Cons.prems by (auto simp: row open_embedding_def split: option.splits)
  show ?case
  proof (cases "length v = length probe")
    case False
    then have "best_match ge probe rows (b, x) = Inr (b', x')" using Cons.prems by (simp add: row open_embedding_def v)
    then show ?thesis using Cons.IH False by (simp add: row v)
  next
    case True
    let ?y = "cosine ge probe v"
    have "best_match ge probe rows (if ?y > x then (Some oc, ?y) else (b, x)) = Inr (b', x')"
      using Cons.prems True by (auto simp: row open_embedding_def v unit_vector_def Let_def split: if_splits)
    then show ?thesis using Cons.IH [of "if ?y > x then Some oc else b" "if ?y > x then ?y else x"] True
      by (cases "?y > x") (auto simp: row v)
  qed
qed simp

text \<open>
  C32.  Face matching picks the best.  The occupancy a probe is matched to is one with an approved enrolment of the
  same model and an active occupancy of the building; its score is the greatest of all stored vectors and reaches
  the threshold.  When nobody is matched, no stored vector reaches the threshold.
\<close>

theorem face_match_best:
  assumes "match_face ge db building v name version = Inr (occ, sc)" "-1 < GATE_FACE_MATCH_THRESHOLD ge"
  shows "case occ of
      Some oc \<Rightarrow> GATE_FACE_MATCH_THRESHOLD ge \<le> sc \<and> (oc, sc) \<in> set (scored ge v (face_candidates db building name version))
        \<and> (\<forall>(oc', y) \<in> set (scored ge v (face_candidates db building name version)). y \<le> sc)
        \<and> occupancy_live_in db oc building
        \<and> t_exists (\<lambda>_ f. fa_occupancy f = oc \<and> fa_status f = RvApproved \<and> fa_model_name f = name \<and> fa_model_version f = version)
            (face_enrollments db)
    | None \<Rightarrow> (\<forall>(oc', y) \<in> set (scored ge v (face_candidates db building name version)). y < GATE_FACE_MATCH_THRESHOLD ge)"
proof -
  let ?rows = "face_candidates db building name version"
  obtain b x where b: "best_match ge v ?rows (None, -1) = Inr (b, x)"
    using assms(1) by (auto simp: match_face_def unit_vector_def split: if_splits sum.splits prod.splits)
  note s = best_match_scored [OF b]
  have r: "(occ, sc) = (case b of None \<Rightarrow> (None, 0) | Some oc \<Rightarrow> (if GATE_FACE_MATCH_THRESHOLD ge \<le> x then Some oc else None, x))"
    using assms(1) b by (auto simp: match_face_def unit_vector_def split: if_splits option.splits)
  have cand: "occupancy_live_in db oc building \<and> t_exists (\<lambda>_ f. fa_occupancy f = oc \<and> fa_status f = RvApproved
      \<and> fa_model_name f = name \<and> fa_model_version f = version) (face_enrollments db)" if "(oc, y) \<in> set (scored ge v ?rows)" for oc y
    using that by (fastforce simp: scored_def face_candidates_def t_filter_def t_exists_def list_ex_iff split: option.splits if_splits)
  show ?thesis
  proof (cases b)
    case None
    then have "occ = None" "x = -1" using r s by auto
    then show ?thesis using s assms(2) by fastforce
  next
    case (Some oc)
    then have in_: "(oc, x) \<in> set (scored ge v ?rows)" using s by auto
    show ?thesis
    proof (cases "GATE_FACE_MATCH_THRESHOLD ge \<le> x")
      case True
      then have "occ = Some oc" "sc = x" using r Some by auto
      then show ?thesis using s in_ cand [OF in_] True by simp
    next
      case False
      then have "occ = None" using r Some by auto
      then show ?thesis using s False by fastforce
    qed
  qed
qed

section \<open>Instances\<close>

lemma sample_approved:
  "t_get (face_enrollments (fold (gate_exec sample_bucket) [sample_step (ApproveFace 1 (sample_face RvPending) sample_manager)]
     (sample_gate RvPending))) 1 = Some ((sample_face RvPending) \<lparr> fa_status := RvApproved, fa_reviewed_by := Some 1, fa_reviewed_at := Some 42 \<rparr>)"
  by code_simp

theorem gate_registry_witness:
  "\<not> (\<exists>i p. t_get (pending_photos (fold (gate_exec sample_bucket)
      [sample_step (ApproveFace 1 (sample_face RvPending) sample_manager)] (sample_gate RvPending))) i = Some p \<and> ph_enrollment p = 1)"
  using gate_registry [OF sample_gate_ok refl, THEN conjunct2, THEN conjunct2, THEN conjunct1, rule_format, OF sample_approved, THEN conjunct1]
  by (simp only: simp_thms) simp

theorem photos_accounted_witness:
  "bucket_objects (photo_objects (fold (gate_exec sample_bucket) [sample_step (ApproveFace 1 (sample_face RvPending) sample_manager)]
      (sample_gate RvPending)))
    \<subseteq> listed (pending_photos (fold (gate_exec sample_bucket) [sample_step (ApproveFace 1 (sample_face RvPending) sample_manager)]
      (sample_gate RvPending)))
      (photo_deletions (fold (gate_exec sample_bucket) [sample_step (ApproveFace 1 (sample_face RvPending) sample_manager)]
      (sample_gate RvPending)))"
proof (rule photos_accounted [OF sample_photo_store sample_gate_ok sample_accounted])
  have "gate_results sample_bucket [sample_step (ApproveFace 1 (sample_face RvPending) sample_manager)] (sample_gate RvPending) = [Inr ()]"
    by code_simp
  then show "\<forall>r \<in> set (gate_results sample_bucket [sample_step (ApproveFace 1 (sample_face RvPending) sample_manager)] (sample_gate RvPending)).
    \<not> storage_failed r" by (simp add: storage_failed_def)
qed

theorem retired_token_refused_witness:
  "\<exists>e \<in> {PermissionDenied, GateAuthenticationFailed, GateCredentialRevoked, GateCredentialExpired}.
    snd (authenticate_device sample_env (fold (gate_exec sample_bucket) [sample_step (RotateCredential 1 sample_manager None)]
      (fst (gate_run sample_bucket (sample_step (RevokeCredential 1 sample_manager)) (sample_gate RvPending)))) ''t'' None) = Inl e"
  by (rule retired_token_refused [OF sample_gate_ok, where k = 1 and c = sample_credential and ?env0.0 = sample_env and m = sample_manager])
    (simp_all add: sample_gate_rows sample_credential_def revoke_credential_def settle_unit_def)

theorem plate_recognition_witness:
  "\<exists>out db'. recognize_plate sample_env sample_gate_env (sample_gate RvPending) 1 sample_reader (Some ''51f-123.45'') = Inr (out, db')
     \<and> matched out"
proof -
  have n: "normalize_plate sample_gate_env (Some ''51f-123.45'') = Inr ''51F12345''" by code_simp
  obtain out db' where r: "recognize_plate sample_env sample_gate_env (sample_gate RvPending) 1 sample_reader (Some ''51f-123.45'') = Inr (out, db')"
    by (simp add: recognize_plate_def n Let_def)
  have "plate_admits (sample_gate RvPending) (gd_building sample_reader) ''51F12345'' 1 sample_plate \<lparr> oc_user = 2, oc_unit = 1, oc_active = True \<rparr>"
    unfolding plate_admits_def by (simp add: sample_gate_rows)
      (simp add: sample_plate_def sample_reader_def sample_gate_simps t_get_def)
  then have "matched out" using plate_recognition [OF sample_gate_ok r] n by auto
  then show ?thesis using r by blast
qed

theorem face_match_best_witness:
  "\<exists>sc. match_face sample_gate_env (sample_gate RvApproved) 1 [1] ''m'' ''1'' = Inr (Some 1, sc) \<and> 0 \<le> sc
     \<and> occupancy_live_in (sample_gate RvApproved) 1 1"
proof -
  have m: "match_face sample_gate_env (sample_gate RvApproved) 1 [1] ''m'' ''1'' = Inr (Some 1, 1)"
    by (simp add: match_face_def unit_vector_def face_candidates_def t_filter_def sample_gate_simps sample_gate_env_def
        sample_face_def occupancy_live_in_def t_get_def open_embedding_def)
  have "-1 < GATE_FACE_MATCH_THRESHOLD sample_gate_env" by (simp add: sample_gate_env_def)
  from face_match_best [OF m this] m show ?thesis by (simp add: sample_gate_env_def)
qed

end
