(* ===== verification/Gate_Retention.thy ===== *)
theory Gate_Retention
  imports Gate_Samples
begin

text \<open>
  The retention purge (\<open>purge_gate_data\<close>): what a successful purge leaves behind, and that it succeeds whenever the
  storage lets the queued photos be deleted.
\<close>

section \<open>What the purge changes\<close>

lemma process_photo_deletion_rows:
  assumes "t_ok (photo_deletions db)"
  shows "pending_photos (snd (process_photo_deletion st k db)) = pending_photos db"
    "face_enrollments (snd (process_photo_deletion st k db)) = face_enrollments db"
    "gate_events (snd (process_photo_deletion st k db)) = gate_events db"
    "t_ok (photo_deletions (snd (process_photo_deletion st k db)))"
    "t_get (photo_deletions (snd (process_photo_deletion st k db))) j = Some d \<Longrightarrow> t_get (photo_deletions db) j = Some d"
  using assms
  by (auto simp: process_photo_deletion_def dtbl.delete_keeps split: option.splits prod.splits sum.splits)

lemma process_each_rows:
  assumes "t_ok (photo_deletions db)"
  shows "pending_photos (snd (process_each st ks db)) = pending_photos db
    \<and> face_enrollments (snd (process_each st ks db)) = face_enrollments db
    \<and> gate_events (snd (process_each st ks db)) = gate_events db
    \<and> (\<forall>j d. t_get (photo_deletions (snd (process_each st ks db))) j = Some d \<longrightarrow> t_get (photo_deletions db) j = Some d)"
  using assms
proof (induction ks arbitrary: db)
  case (Cons k ks)
  let ?db1 = "snd (process_photo_deletion st k db)"
  note r = process_photo_deletion_rows [OF Cons.prems, of st k]
  show ?case using Cons.IH [OF r(4)] r(1-3,5) by (simp add: Let_def case_prod_beta)
qed simp





section \<open>The purge succeeds\<close>

text \<open>No photo under review has the key of one that is already waiting to be deleted.\<close>

definition apart :: "('s, 'z) gdb \<Rightarrow> bool" where
  "apart db \<longleftrightarrow> (\<forall>i p j d. t_get (pending_photos db) i = Some p \<longrightarrow> t_get (photo_deletions db) j = Some d \<longrightarrow>
     ph_storage_key p \<noteq> pd_storage_key d)"

definition deletable :: "'s photo_storage \<Rightarrow> (string \<times> string) set \<Rightarrow> bool" where
  "deletable st refs \<longleftrightarrow> (\<forall>(k, v) \<in> refs. \<forall>s. \<exists>s'. delete_pending_photo st s k v = (s', Inr ()))"

definition named :: "('s, 'z) gdb \<Rightarrow> (string \<times> string) set" where
  "named db = listed (pending_photos db) (photo_deletions db)"

lemma expire_photo_succeeds:
  assumes "gate_faces_ok db" "apart db" "t_get (face_enrollments db) e = Some f"
  obtains db1 where "expire_photo env st db e = (db1, Inr ())" "apart db1" "named db1 \<subseteq> named db"
    "\<And>k. t_get (face_enrollments db) k \<noteq> None \<Longrightarrow> t_get (face_enrollments db1) k \<noteq> None"
proof (cases "t_first (\<lambda>_ p. ph_enrollment p = e \<and> ph_expires_at p \<le> now env) (pending_photos db)")
  case None
  then show thesis using that [of db] assms by (simp add: expire_photo_def committed_def)
next
  case (Some x)
  obtain i p where x: "x = (i, p)" by (cases x)
  have ok: "t_ok (pending_photos db)" "t_ok (photo_deletions db)" "queue_row_ok (photo_deletions db)"
    and u: "unique_on (\<lambda>p. Some (ph_storage_key p)) (pending_photos db)"
    using assms(1) by (simp_all add: gate_faces_ok_def faces_part_def queue_row_ok_def)
  have p: "t_get (pending_photos db) i = Some p" using t_first_Some_get [OF ok(1)] Some x by auto
  define db0 where "db0 = (if fa_status f = RvPending
    then db \<lparr> face_enrollments := t_update e (\<lambda>f. f \<lparr> fa_status := RvExpired, fa_embedding := None \<rparr>) (face_enrollments db) \<rparr> else db)"
  have z: "photo_deletions db0 = photo_deletions db" "pending_photos db0 = pending_photos db" by (simp_all add: db0_def)
  have fz: "t_get (face_enrollments db) k \<noteq> None \<Longrightarrow> t_get (face_enrollments db0) k \<noteq> None" for k
    by (auto simp: db0_def t_get_update)
  let ?D = "\<lparr> pd_storage_key = ph_storage_key p, pd_provider_version_id = ph_provider_version_id p, pd_created_at = now env \<rparr>"
  define dbq where "dbq = db0 \<lparr> photo_deletions := t_insert ?D (photo_deletions db),
    pending_photos := t_delete (\<lambda>j _. j = i) (pending_photos db) \<rparr>"
  let ?d = "next_pk (photo_deletions db)"
  have free: "\<not> t_exists (\<lambda>_ d. pd_storage_key d = ph_storage_key p) (photo_deletions db)"
    unfolding t_exists_iff [OF ok(2)] using assms(2) [unfolded apart_def, rule_format, OF p] by metis
  have q: "queue_photo_deletion env db0 i p = Inr (?d, dbq)" using free z by (simp add: queue_photo_deletion_def dbq_def)
  let ?db1 = "snd (process_photo_deletion st ?d dbq)"
  have tq: "t_ok (photo_deletions dbq)" using ok(2) by (simp add: dbq_def)
  note r = process_photo_deletion_rows [OF tq, of st ?d]
  have ex: "expire_photo env st db e = (?db1, Inr ())"
    using assms(3) Some x q by (simp add: expire_photo_def committed_def Let_def db0_def [symmetric])
  have aq: "ph_storage_key p' \<noteq> pd_storage_key d'"
    if h: "t_get (pending_photos dbq) i' = Some p'" "t_get (photo_deletions dbq) j = Some d'" for i' p' j d'
  proof -
    have p': "t_get (pending_photos db) i' = Some p'" "i' \<noteq> i" using h(1) by (auto simp: dbq_def dtbl.delete_keeps [OF ok(1)])
    show ?thesis
    proof (cases "j = ?d")
      case True
      then have "pd_storage_key d' = ph_storage_key p" using h(2) by (auto simp: dbq_def t_get_insert [OF ok(2)])
      then show ?thesis using unique_onD [OF u p'(1) p] p'(2) by auto
    next
      case False
      then have "t_get (photo_deletions db) j = Some d'" using h(2) by (simp add: dbq_def t_get_insert [OF ok(2)])
      then show ?thesis using assms(2) p'(1) by (auto simp: apart_def)
    qed
  qed
  have "apart ?db1" unfolding apart_def r(1) using aq r(5) by blast
  moreover have "named ?db1 \<subseteq> named db"
  proof -
    have "named dbq = named db" using listed_queued [OF ok(1,2) p, of ?D]
      by (simp add: named_def dbq_def photo_ref_def deletion_ref_def)
    moreover have "ran (t_get (photo_deletions ?db1)) \<subseteq> ran (t_get (photo_deletions dbq))"
      unfolding ran_def using r(5) by blast
    then have "named ?db1 \<subseteq> named dbq" unfolding named_def listed_def r(1) by blast
    ultimately show ?thesis by blast
  qed
  moreover have "t_get (face_enrollments ?db1) k \<noteq> None" if "t_get (face_enrollments db) k \<noteq> None" for k
    unfolding r(2) using fz [OF that] by (simp add: dbq_def)
  ultimately show thesis using that ex by blast
qed

lemma expire_photos_succeed:
  assumes "gate_faces_ok db" "apart db" "\<forall>e \<in> set es. t_get (face_enrollments db) e \<noteq> None"
  obtains db1 where "expire_photos env st es db = (db1, Inr ())" "named db1 \<subseteq> named db" "gate_faces_ok db1"
  using assms
proof (induction es arbitrary: db thesis)
  case (Cons e es)
  obtain f where f: "t_get (face_enrollments db) e = Some f" using Cons.prems(4) by auto
  obtain dba where a: "expire_photo env st db e = (dba, Inr ())" "apart dba" "named dba \<subseteq> named db"
    "\<And>k. t_get (face_enrollments db) k \<noteq> None \<Longrightarrow> t_get (face_enrollments dba) k \<noteq> None"
    by (rule expire_photo_succeeds [OF Cons.prems(2,3) f, of env st]) blast
  have ok: "gate_faces_ok dba"
    using photo_step_ok [OF expire_photo_step [OF Cons.prems(2) tidy_none, where st = st and env = env and k = e]] a(1) by simp
  have ex: "\<forall>e \<in> set es. t_get (face_enrollments dba) e \<noteq> None" using Cons.prems(4) a(4) by simp
  obtain dbb where b: "expire_photos env st es dba = (dbb, Inr ())" "named dbb \<subseteq> named dba" "gate_faces_ok dbb"
    by (rule Cons.IH [OF _ ok a(2) ex])
  show ?case by (rule Cons.prems(1) [of dbb]) (use a(1,3) b in auto)
qed simp

lemma process_each_clears:
  assumes "t_ok (photo_deletions db)" "deletable st (deletion_ref ` ran (t_get (photo_deletions db)))"
    and "t_get (photo_deletions (snd (process_each st ks db))) j = Some d"
  shows "j \<notin> set ks"
  using assms
proof (induction ks arbitrary: db)
  case (Cons k ks)
  let ?db1 = "snd (process_photo_deletion st k db)"
  note r = process_photo_deletion_rows [OF Cons.prems(1), of st k]
  have "deletable st (deletion_ref ` ran (t_get (photo_deletions ?db1)))"
    using Cons.prems(2) r(5) unfolding deletable_def by (fastforce simp: ran_def)
  moreover have last: "t_get (photo_deletions (snd (process_each st ks ?db1))) j = Some d"
    using Cons.prems(3) by (simp add: Let_def case_prod_beta)
  ultimately have "j \<notin> set ks" using Cons.IH [OF r(4)] by blast
  moreover have "t_get (photo_deletions ?db1) k = None"
  proof (cases "t_get (photo_deletions db) k")
    case (Some x)
    then have "deletion_ref x \<in> deletion_ref ` ran (t_get (photo_deletions db))" by (auto simp: ran_def)
    then obtain s' where "delete_pending_photo st (photo_objects db) (pd_storage_key x) (pd_provider_version_id x) = (s', Inr ())"
      using Cons.prems(2) unfolding deletable_def deletion_ref_def by blast
    then show ?thesis using Some Cons.prems(1) by (simp add: process_photo_deletion_def t_get_delete)
  qed (use r(5) in \<open>simp add: process_photo_deletion_def\<close>)
  ultimately show ?case using process_each_rows [OF r(4), of st ks] last by auto
qed simp

lemma process_all_clears:
  assumes "t_ok (photo_deletions db)" "deletable st (named db)"
  shows "table_rows (photo_deletions (snd (process_photo_deletions st db))) = []"
proof -
  let ?ks = "map fst (table_rows (photo_deletions db))"
  let ?dt = "photo_deletions (snd (process_photo_deletions st db))"
  have del: "deletable st (deletion_ref ` ran (t_get (photo_deletions db)))"
    using assms(2) by (auto simp: deletable_def named_def listed_def)
  have none: "t_get ?dt j = None" for j
  proof (rule ccontr)
    assume "t_get ?dt j \<noteq> None"
    then obtain d where d: "t_get ?dt j = Some d" by blast
    have "j \<notin> set ?ks"
      by (rule process_each_clears [OF assms(1) del]) (use d in \<open>simp add: process_photo_deletions_def\<close>)
    moreover have "t_get (photo_deletions db) j = Some d"
      using process_each_rows [OF assms(1), of st ?ks] d by (simp add: process_photo_deletions_def)
    then have "(j, d) \<in> set (table_rows (photo_deletions db))" by (simp add: t_get_def map_of_SomeD)
    then have "j \<in> set ?ks" by force
    ultimately show False by blast
  qed
  have "fst x \<notin> fst ` set (table_rows ?dt)" for x :: "pk \<times> deletion_row" using none [of "fst x"] by (simp add: t_get_def map_of_eq_None_iff)
  then show ?thesis by (cases "table_rows ?dt") auto
qed

text \<open>
  C31.  The purge completes.  When the storage lets every photo that a row names be deleted, and no photo under review
  has a key that is already queued, the purge succeeds: it never stops half way, and the failures of earlier
  deletions are made up for.
\<close>

theorem purge_completes:
  assumes "gate_ok db" "apart db" "deletable st (listed (pending_photos db) (photo_deletions db))"
  shows "\<exists>db' n m. purge_gate_data env ge st db = (db', Inr (n, m))"
proof -
  obtain n db1 where e: "purge_expired_gate_events env ge db = (n, db1)" by fastforce
  have same: "pending_photos db1 = pending_photos db" "photo_deletions db1 = photo_deletions db" "face_enrollments db1 = face_enrollments db"
    using e by (auto simp: purge_expired_gate_events_def Let_def)
  have f1: "gate_faces_ok db1" using gate_ok_faces [OF assms(1)] by (simp add: gate_faces_ok_def same)
  let ?es = "map (\<lambda>(_, p). ph_enrollment p) (t_filter (\<lambda>_ p. ph_expires_at p \<le> now env) (pending_photos db1))"
  have "\<forall>x \<in> set ?es. t_get (face_enrollments db1) x \<noteq> None"
  proof -
    have "t_ok (pending_photos db1)" using f1 by (simp add: gate_faces_ok_def faces_part_def)
    then show ?thesis using f1 by (auto simp: in_filter_get gate_faces_ok_def faces_part_def)
  qed
  then obtain db2 where x: "expire_photos env st ?es db1 = (db2, Inr ())" "named db2 \<subseteq> named db1" "gate_faces_ok db2"
    using expire_photos_succeed [OF f1, of ?es env st] assms(2) by (auto simp: apart_def same)
  have t: "t_ok (photo_deletions db2)" using x(3) by (simp add: gate_faces_ok_def queue_row_ok_def)
  have "deletable st (named db2)" using x(2) assms(3) by (fastforce simp: deletable_def named_def same)
  then have "table_rows (photo_deletions (snd (process_photo_deletions st db2))) = []" by (rule process_all_clears [OF t])
  then show ?thesis using x(1) e
    by (simp add: purge_gate_data_def purge_expired_enrollment_photos_def Let_def process_photo_deletions_def)
qed

section \<open>Instances\<close>

theorem purge_completes_witness:
  "\<exists>db' n m. purge_gate_data sample_env sample_gate_env sample_bucket (sample_gate RvPending) = (db', Inr (n, m))"
proof (rule purge_completes [OF sample_gate_ok])
  show "apart (sample_gate RvPending)"
    by (auto simp: apart_def sample_gate_rows sample_photo_def sample_deletion_def split: if_splits)
  show "deletable sample_bucket (listed (pending_photos (sample_gate RvPending)) (photo_deletions (sample_gate RvPending)))"
    by (auto simp: deletable_def listed_def ran_def sample_gate_rows photo_ref_def deletion_ref_def sample_photo_def sample_deletion_def
        delete_pending_photo_def sample_bucket_def)
qed


end
