(* ===== verification/Spec2Isabelle.thy ===== *)
theory Spec2Isabelle
  imports Chain Trail Registration Sign_In Triage Tamper Fund_Views Operations Gate_Access Gate_Retention
begin

text \<open>
  \<^bold>\<open>LamTo: from a resident's report to a verifiable expense of the maintenance fund.\<close>

  LamTo (\<open>src/lamto/\<close>, a Django application) runs the maintenance of residential buildings.  A resident reports a defect;
  Management triages it into a case, works on it, or proposes to spend money on it; a proposal is published in versions,
  decided on, completed, settled out of the building's fund and published to the residents' ledger.  Every material step
  is audited, and proposals and settlements leave signed evidence events in an outbox, from which a worker anchors them
  on a chain.  Around this core stand documents, notifications, announcements, bills, and a gate that recognises plates
  and faces.  This development models those services and proves what makes them correct.

  \<^bold>\<open>The state.\<close>  A database table is a list of rows with a key sequence (\<open>Prelude\<close>).  The state is an extensible record
  of tables: \<open>accounts_db\<close>, extended to \<open>evidence_db\<close>, \<open>domain_db\<close> (maintenance and finance), and from there to
  \<open>documents_db\<close> and to \<open>notifications_db\<close> and \<open>billing_db\<close>; the gate extends the accounts by \<open>gate_db\<close>.  An operation of an
  early component applies unchanged to every later state.  A service is a function from the environment (the clock, the
  keys, the random tokens of one call), the state and its arguments to an exception or a result with the new state; a
  service that is rolled back returns the exception alone, one that commits part of its work returns the state beside it.
  Python text is UTF-8, one character per byte (\<open>Python_Values\<close>).

  \<^bold>\<open>Theories and sources.\<close>

  \<^item> \<open>Prelude\<close>: tables, exceptions, and the interfaces the components share: \<open>row_store\<close> and \<open>deletable_store\<close> (a table),
    \<open>service_machine\<close> (commands that keep an invariant), \<open>append_only\<close> (commands that only extend a log), \<open>keyed_queue\<close>
    (idempotent writes).  \<open>Python_Values\<close>: values and text functions of Python.
  \<^item> \<open>Canonical\<close> (\<open>evidence/canonical.py\<close>), \<open>Timestamps\<close>, \<open>Outbox\<close> (\<open>evidence/services.py\<close>, \<open>signatures.py\<close>, \<open>models.py\<close>) and
    \<open>Worker\<close> (\<open>evidence/worker.py\<close>, \<open>chain.py\<close>): canonical bytes can be read back, accepted payloads hold no free text,
    queueing is idempotent, identities of events never change, a settled event stays settled, and an event is confirmed
    only by the chain.
  \<^item> \<open>Accounts\<close>, \<open>Throttle\<close>, \<open>Registration\<close>, \<open>Tenancy\<close> (\<open>accounts/\<close>, \<open>audit/\<close>): attribution of audit events, the lockout
    of repeated failures, final registration decisions, and the choice of a resident's own occupancy.  \<open>Sign_In\<close>
    (\<open>accounts/backends.py\<close>, \<open>api/services.py\<close>, \<open>authentication.py\<close>, \<open>signals.py\<close>, \<open>occupancy.py\<close> and the log-in and log-out
    views): over any run nobody holds more than five tokens, and only active residents hold one.
  \<^item> \<open>Domain\<close>, \<open>Reports\<close>, \<open>Cases\<close> (\<open>maintenance/\<close>) and \<open>Proposals\<close>, \<open>Fund\<close>, \<open>Settlements\<close> (\<open>finance/\<close>): the rows and every
    service on them.  \<open>Machine\<close> executes them as commands in any order; \<open>Lifecycle\<close>, \<open>Books\<close>, \<open>Chain\<close> and \<open>Trail\<close> show over
    any run that proposals follow an abstract life cycle, that settlements, outflows and ledger entries agree to the last
    dong, that the versions of a proposal form a hash chain, and that the audit trail only grows.  \<open>Samples\<close> is a
    building on which the properties are exercised.
  \<^item> \<open>Triage_Jobs\<close>, \<open>Triage_Runs\<close>, \<open>Triage\<close> (\<open>maintenance/ai.py\<close>, \<open>candidates.py\<close>, \<open>triage_prompt.py\<close>): a job is sent to the
    chat provider at most once, an answer becomes a suggestion only when it meets the contract, and an outage sends every
    report to manual triage.
  \<^item> \<open>Documents\<close>, \<open>Archive\<close> (\<open>documents/\<close>): uploads, quarantine, versions and downloads, with the round trip from upload to
    download.  \<open>Integrity\<close>, \<open>Tamper\<close> (\<open>finance/integrity.py\<close>): what a verified entry means, and that altered rows are
    detected.  \<open>Calendar\<close>, \<open>Fund_Views\<close> (\<open>finance/selectors.py\<close>): the charts and lists residents see.
  \<^item> \<open>Push\<close>, \<open>Notifications\<close>, \<open>Announcements\<close>, \<open>Billing\<close>, \<open>Hooks\<close> (\<open>notifications/\<close>, \<open>billing/\<close>): the queue and its clients.
    \<open>Notices\<close>, \<open>Notice_Views\<close>, \<open>Bill_Views\<close> and \<open>Delivery\<close> show over any run that nothing is delivered twice, that
    retries end, and that feeds show exactly the bills and announcements that stand.
  \<^item> \<open>Worker_Cycle\<close>, \<open>Worker_Site\<close>, \<open>Operations\<close> (\<open>config/worker.py\<close>): the seven queues of the unified worker, each an
    instance of the contract \<open>worker_processor\<close>; a failing queue does not stop the others, and no cycle moves money.
  \<^item> \<open>Gate\<close>, \<open>Enrollment\<close>, \<open>Gate_Site\<close>, \<open>Gate_Run\<close>, \<open>Gate_Samples\<close>, \<open>Gate_Access\<close>, \<open>Gate_Retention\<close> (\<open>gate/\<close>): the registry of
    plates and faces, readers and their credentials, recognition, and the retention of photos and events.

  \<^bold>\<open>Parameters.\<close>  Code outside the repository is a parameter: hash functions, password hashing and the signer (\<open>env\<close>),
  the chain node (\<open>provider\<close>), object storage and scanner (\<open>storage\<close>), mail and push providers (\<open>notify_env\<close>), the chat
  provider, trigram similarity and the JSON codec of triage (\<open>triage_env\<close>), the face model and Fernet (\<open>gate_env\<close>), Knox and
  the password check (\<open>sign_in_env\<close>).
  Theorems hold for every value of a parameter unless a hypothesis says what is expected of it.

  \<^bold>\<open>Bounds and fuel.\<close>  Loops are structural or have a termination proof (\<open>location_walk\<close> on the locations not yet seen,
  \<open>year_of\<close> on the days left).  \<open>path_names\<close> has the hundred steps of the source.  \<open>process_triage_command\<close> repeats as often
  as jobs are pending, which \<open>process_triage_drains\<close> shows to be enough; batches have the limits of the source.  Column
  widths and 32- and 64-bit limits are written out where a service can reach them.

  \<^bold>\<open>Concurrency.\<close>  A service runs in one transaction under row locks, so services are executed one at a time.  Work that is
  claimed in one transaction and finished in another is split: \<open>Triage_Runs\<close> interleaves claims and processing of any
  number of workers, and \<open>stalled_worker_unsettles\<close> shows what two outbox workers can do to each other.  A log-in is not a
  transaction in the code; the bound on tokens is for log-ins one after the other.

  \<^bold>\<open>Not modelled.\<close>  The staff site (\<open>web/\<close>), the other views of the resident API (\<open>api/\<close>) and the explorer (\<open>explorer/\<close>) parse requests, call
  the services above and render answers; their behaviour is that of Django and the REST framework.  Price prediction
  (\<open>finance/ai.py\<close>, \<open>predictions.py\<close>, \<open>reference_prices.py\<close>) is advice shown while a proposal is drafted.  Settings,
  migrations, seed and backup commands, admin pages, the virus scanner's socket, QR images, gate calibration, the test
  factories, the Solidity contract and the Flutter app are outside the services.  Texts of log lines and of most error
  messages are not represented; an exception is its class.
\<close>

end
